(* ===== verification/Prelude.thy ===== *)
theory Prelude
  imports Main "HOL-Library.AList" "HOL-Library.Sublist" "HOL-Library.Code_Target_Nat"
begin

text \<open>
  Shared vocabulary of the development: Python exceptions as values, the result
  type of a fallible Python function with its sequencing combinators, and generic
  facts on lists that the component theories share.

  A Python function that may raise is a function into \<open>'a res\<close>: \<open>Inl e\<close> is a raise
  of the exception \<open>e\<close>, \<open>Inr x\<close> a normal return.  \<open>req c e k\<close> is the guard
  \<^verbatim>\<open>if not c: raise e\<close> followed by \<open>k\<close>, and \<open>bindE m f\<close> runs \<open>m\<close> and hands its
  value to \<open>f\<close>.
\<close>

section \<open>Exceptions and results\<close>

datatype pyexc =
    ValueError string
  | TypeError
  | AttributeError
  | OverflowError
  | KeyError string
  | AssertionError
  | PermissionError string
  | OSError
  | ApprovalWorkflowError string
  | AuditTrailError string
  | MetadataConflictError string
  | EvidenceConflictError string
  | Rejected string
  | ValidationFailed string
  | EvidenceCustodyError string
  | PolicyCompilationError string
  | SqliteError string

type_synonym 'a res = "pyexc + 'a"

definition bindE :: "'a res \<Rightarrow> ('a \<Rightarrow> 'b res) \<Rightarrow> 'b res" where
  "bindE m f = (case m of Inl e \<Rightarrow> Inl e | Inr x \<Rightarrow> f x)"

definition req :: "bool \<Rightarrow> pyexc \<Rightarrow> 'a res \<Rightarrow> 'a res" where
  "req c e k = (if c then k else Inl e)"

fun mapE :: "('a \<Rightarrow> 'b res) \<Rightarrow> 'a list \<Rightarrow> 'b list res" where
  "mapE f [] = Inr []"
| "mapE f (x # xs) =
     (case f x of
        Inl e \<Rightarrow> Inl e
      | Inr y \<Rightarrow> (case mapE f xs of Inl e \<Rightarrow> Inl e | Inr ys \<Rightarrow> Inr (y # ys)))"

text \<open>A loop that only checks: the first failing element raises.\<close>

fun checkE :: "('a \<Rightarrow> unit res) \<Rightarrow> 'a list \<Rightarrow> unit res" where
  "checkE f [] = Inr ()"
| "checkE f (x # xs) = (case f x of Inl e \<Rightarrow> Inl e | Inr _ \<Rightarrow> checkE f xs)"

definition is_ok :: "'a res \<Rightarrow> bool" where
  "is_ok r = (case r of Inl _ \<Rightarrow> False | Inr _ \<Rightarrow> True)"

named_theorems res_simps \<open>equations that open a successful run of a monadic function\<close>

lemma bindE_simps [simp]:
  "bindE (Inl e) f = Inl e" "bindE (Inr x) f = f x"
  by (simp_all add: bindE_def)

lemma req_simps [simp]:
  "req True e k = k" "req False e k = Inl e"
  by (simp_all add: req_def)

lemma bindE_Inr [res_simps]: "bindE m f = Inr y \<longleftrightarrow> (\<exists>x. m = Inr x \<and> f x = Inr y)"
  by (cases m) auto

lemma req_Inr [res_simps]: "req c e k = Inr y \<longleftrightarrow> c \<and> k = Inr y"
  by (simp add: req_def)

lemma bindE_Inl: "bindE m f = Inl e \<longleftrightarrow> m = Inl e \<or> (\<exists>x. m = Inr x \<and> f x = Inl e)"
  by (cases m) auto

lemma req_Inl: "req c e k = Inl e' \<longleftrightarrow> (\<not> c \<and> e' = e) \<or> (c \<and> k = Inl e')"
  by (auto simp: req_def)

lemma is_ok_simps [simp]: "is_ok (Inr x)" "\<not> is_ok (Inl e)"
  by (simp_all add: is_ok_def)

lemma is_ok_iff: "is_ok r \<longleftrightarrow> (\<exists>x. r = Inr x)"
  by (cases r) auto

lemma is_ok_projr: "is_ok r \<Longrightarrow> r = Inr (projr r)"
  by (cases r) auto

lemma mapE_Cons_Inr:
  "mapE f (x # xs) = Inr zs \<longleftrightarrow> (\<exists>y ys. zs = y # ys \<and> f x = Inr y \<and> mapE f xs = Inr ys)"
  by (auto split: sum.splits)

lemma mapE_Inr_iff:
  "mapE f xs = Inr ys \<longleftrightarrow> list_all2 (\<lambda>x y. f x = Inr y) xs ys"
proof (induction xs arbitrary: ys)
  case (Cons x xs)
  show ?case
    unfolding mapE_Cons_Inr Cons.IH by (cases ys) auto
qed auto

lemma mapE_map_Inr: "mapE (\<lambda>x. Inr (g x)) xs = Inr (map g xs)"
  by (induction xs) auto

lemma mapE_id:
  assumes "\<And>x. x \<in> set xs \<Longrightarrow> f (g x) = Inr x"
  shows "mapE f (map g xs) = Inr xs"
  using assms by (induction xs) auto

lemma mapE_checked:
  assumes "\<And>x y. f x = Inr y \<longleftrightarrow> y = x \<and> P x"
  shows "mapE f xs = Inr ys \<longleftrightarrow> ys = xs \<and> list_all P xs"
proof -
  have "list_all2 (\<lambda>x y. y = x \<and> P x) xs ys \<longleftrightarrow> ys = xs \<and> list_all P xs"
  proof (induction xs arbitrary: ys)
    case (Cons x xs) then show ?case by (cases ys) auto
  qed auto
  with assms show ?thesis by (simp add: mapE_Inr_iff)
qed

lemma checkE_Inr_iff: "checkE f xs = Inr u \<longleftrightarrow> (\<forall>x\<in>set xs. f x = Inr ())"
  by (induction xs) (auto split: sum.splits)

lemma list_all2_mapE_length: "mapE f xs = Inr ys \<Longrightarrow> length ys = length xs"
  by (simp add: mapE_Inr_iff list_all2_lengthD)

section \<open>Lists\<close>

lemma sorted_filter_takeWhile:
  assumes "sorted (map f xs)"
  shows "filter (\<lambda>x. f x \<le> t) xs = takeWhile (\<lambda>x. f x \<le> (t::'a::linorder)) xs"
  using assms
proof (induction xs)
  case (Cons x xs)
  show ?case
  proof (cases "f x \<le> t")
    case False
    with Cons.prems have "\<forall>y\<in>set xs. \<not> f y \<le> t" by force
    with False show ?thesis by (simp add: filter_empty_conv)
  qed (use Cons in auto)
qed simp

text \<open>\<^verbatim>\<open>len(xs) == len(set(xs))\<close>\<close>

lemma card_set_length: "card (set xs) = length xs \<longleftrightarrow> distinct xs"
  using card_distinct distinct_card by blast

end
