(* ===== verification/PyStr.thy ===== *)
theory PyStr
  imports Prelude "HOL-Library.Char_ord" "HOL-Library.List_Lexorder" "HOL-Library.Product_Lexorder"
begin

text \<open>
  The Python \<^verbatim>\<open>str\<close> operations the sources use, on HOL strings.  A character is a
  code point below 256 (HOL's \<open>char\<close>); code points above that are outside the model.
  Strings compare by code point, as in Python: the order is the lexicographic order of
  \<^theory_text>\<open>List_Lexorder\<close>, and tuples of strings compare by \<^theory_text>\<open>Product_Lexorder\<close>.
  The regular expressions of the sources are written out as predicates on characters.
\<close>

section \<open>Characters\<close>

definition py_space :: "char \<Rightarrow> bool" where
  "py_space c =
     (let n = of_char c :: nat
      in (9 \<le> n \<and> n \<le> 13) \<or> (28 \<le> n \<and> n \<le> 32) \<or> n = 133 \<or> n = 160)"

definition is_digit :: "char \<Rightarrow> bool" where
  "is_digit c = (48 \<le> (of_char c :: nat) \<and> (of_char c :: nat) \<le> 57)"

definition is_lower :: "char \<Rightarrow> bool" where
  "is_lower c = (97 \<le> (of_char c :: nat) \<and> (of_char c :: nat) \<le> 122)"

definition is_upper :: "char \<Rightarrow> bool" where
  "is_upper c = (65 \<le> (of_char c :: nat) \<and> (of_char c :: nat) \<le> 90)"

definition is_alnum :: "char \<Rightarrow> bool" where
  "is_alnum c = (is_digit c \<or> is_lower c \<or> is_upper c)"

definition is_hex_lower :: "char \<Rightarrow> bool" where
  "is_hex_lower c = (is_digit c \<or> (97 \<le> (of_char c :: nat) \<and> (of_char c :: nat) \<le> 102))"

definition digit_val :: "char \<Rightarrow> nat" where
  "digit_val c = of_char c - 48"

text \<open>Lower case over the modelled code points: \<open>A-Z\<close> and the Latin-1 capitals.\<close>

definition lower_char :: "char \<Rightarrow> char" where
  "lower_char c =
     (let n = of_char c :: nat
      in if is_upper c \<or> (192 \<le> n \<and> n \<le> 222 \<and> n \<noteq> 215) then char_of (n + 32) else c)"

section \<open>Strings\<close>

definition lstrip :: "string \<Rightarrow> string" where
  "lstrip s = dropWhile py_space s"

definition strip :: "string \<Rightarrow> string" where
  "strip s = rev (lstrip (rev (lstrip s)))"

definition lower :: "string \<Rightarrow> string" where
  "lower s = map lower_char s"

text \<open>\<^verbatim>\<open>casefold\<close> differs from \<^verbatim>\<open>lower\<close> below 256 only in the sharp s.\<close>

definition casefold :: "string \<Rightarrow> string" where
  "casefold s = concat (map (\<lambda>c. if (of_char c :: nat) = 223 then ''ss'' else [lower_char c]) s)"

text \<open>\<^verbatim>\<open>s.split(sep)\<close> with a one-character separator.\<close>

fun split_on :: "char \<Rightarrow> string \<Rightarrow> string list" where
  "split_on d [] = [[]]"
| "split_on d (c # s) =
     (if c = d then [] # split_on d s
      else (case split_on d s of [] \<Rightarrow> [[c]] | w # ws \<Rightarrow> (c # w) # ws))"

definition replace_char :: "char \<Rightarrow> string \<Rightarrow> string \<Rightarrow> string" where
  "replace_char c r s = concat (map (\<lambda>d. if d = c then r else [d]) s)"

text \<open>\<^verbatim>\<open>frag in s\<close>\<close>

fun contains :: "string \<Rightarrow> string \<Rightarrow> bool" where
  "contains frag [] = (frag = [])"
| "contains frag (c # s) = (prefix frag (c # s) \<or> contains frag s)"

definition ends_with :: "string \<Rightarrow> string \<Rightarrow> bool" where
  "ends_with suf s = suffix suf s"

fun nat_of_digits :: "nat \<Rightarrow> string \<Rightarrow> nat" where
  "nat_of_digits acc [] = acc"
| "nat_of_digits acc (c # s) = nat_of_digits (acc * 10 + digit_val c) s"

definition digits_val :: "string \<Rightarrow> nat" where
  "digits_val s = nat_of_digits 0 s"

definition all_digits :: "string \<Rightarrow> bool" where
  "all_digits s = (s \<noteq> [] \<and> list_all is_digit s)"

text \<open>\<^verbatim>\<open>str(n)\<close> for a natural number and for an integer.\<close>

fun str_nat :: "nat \<Rightarrow> string" where
  "str_nat n = (if n < 10 then [char_of (48 + n)] else str_nat (n div 10) @ [char_of (48 + n mod 10)])"

declare str_nat.simps [simp del]

definition str_int :: "int \<Rightarrow> string" where
  "str_int i = (if i < 0 then CHR ''-'' # str_nat (nat (- i)) else str_nat (nat i))"

section \<open>The regular expressions of the sources\<close>

text \<open>\<^verbatim>\<open>^[A-Za-z0-9][A-Za-z0-9._:-]{0,127}$\<close>\<close>

definition id_pattern :: "string \<Rightarrow> bool" where
  "id_pattern s = (case s of [] \<Rightarrow> False
     | c # r \<Rightarrow> is_alnum c \<and> length r \<le> 127 \<and> list_all (\<lambda>x. is_alnum x \<or> x \<in> set ''._:-'') r)"

text \<open>\<^verbatim>\<open>^[a-z][a-z0-9_.-]{0,n}$\<close>\<close>

definition lower_name_pattern :: "nat \<Rightarrow> string \<Rightarrow> bool" where
  "lower_name_pattern n s = (case s of [] \<Rightarrow> False
     | c # r \<Rightarrow> is_lower c \<and> length r \<le> n
         \<and> list_all (\<lambda>x. is_lower x \<or> is_digit x \<or> x \<in> set ''_.-'') r)"

section \<open>Facts\<close>

lemma of_char_lt_256 [simp]: "(of_char c :: nat) < 256"
  by (metis mod_less_divisor of_char_mod_256 zero_less_numeral)

lemma lower_char_idem [simp]: "lower_char (lower_char c) = lower_char c"
  using of_char_lt_256 [of c]
  by (auto simp: lower_char_def Let_def is_upper_def)

lemma lower_idem [simp]: "lower (lower s) = lower s"
  by (simp add: lower_def)

lemma length_lower [simp]: "length (lower s) = length s"
  by (simp add: lower_def)

lemma strip_idem [simp]: "strip (strip s) = strip s"
proof -
  let ?t = "lstrip s"
  obtain w where w: "?t = rev (lstrip (rev ?t)) @ w"
    by (metis lstrip_def append_Nil2 rev_append rev_rev_ident takeWhile_dropWhile_id)
  have "lstrip (strip s) = strip s"
  proof (cases "strip s")
    case (Cons c r)
    with w have "hd ?t = c" and "?t \<noteq> []" by (auto simp: strip_def)
    then have "\<not> py_space c" by (metis hd_dropWhile lstrip_def)
    with Cons show ?thesis by (simp add: lstrip_def)
  qed (simp add: lstrip_def)
  then show ?thesis
    by (simp add: strip_def [of "strip s"]) (simp add: strip_def lstrip_def)
qed

lemma id_pattern_nonempty: "id_pattern s \<Longrightarrow> s \<noteq> []"
  by (auto simp: id_pattern_def)

lemma split_on_nonempty [simp]: "split_on d s \<noteq> []"
  by (cases s) (auto split: list.splits)

lemma split_on_absent: "d \<notin> set s \<Longrightarrow> split_on d s = [s]"
  by (induction s) auto

lemma split_on_append: "d \<notin> set s \<Longrightarrow> split_on d (s @ d # t) = s # split_on d t"
  by (induction s) auto

end
