(* ===== verification/PyJson.thy ===== *)
theory PyJson
  imports PyStr
begin

text \<open>
  Dynamically typed Python values as they come out of \<^verbatim>\<open>json.loads\<close> and go into
  \<^verbatim>\<open>json.dumps\<close>, the canonical printer the sources use
  (\<^verbatim>\<open>sort_keys=True, separators=(",", ":")\<close>), a reader, and the proof that reading a
  printed value gives it back, so that canonical texts determine the value they print.

  A number that is not an integer is kept as its lexeme (\<open>PFloat\<close>): no code modelled here
  computes with one.  The reader takes fuel; \<open>pval_fuel_irrelevant\<close> shows that any fuel
  above twice the length of the text gives the same answer, and \<open>loads\<close> uses more than that.
\<close>

section \<open>Values\<close>

datatype pyval =
    PNone
  | PBool bool
  | PInt int
  | PFloat string
  | PStr string
  | PList "pyval list"
  | PDict "(string \<times> pyval) list"

definition key_set :: "(string \<times> pyval) list \<Rightarrow> string set" where
  "key_set d = set (map fst d)"

text \<open>\<^verbatim>\<open>d[k]\<close> after the key set has been checked.\<close>

definition dget :: "(string \<times> pyval) list \<Rightarrow> string \<Rightarrow> pyval" where
  "dget d k = (case map_of d k of None \<Rightarrow> PNone | Some v \<Rightarrow> v)"

text \<open>\<^verbatim>\<open>isinstance(v, Mapping) and set(v) == keys\<close>\<close>

definition is_dict_with :: "string list \<Rightarrow> pyval \<Rightarrow> bool" where
  "is_dict_with ks v =
     (case v of PDict d \<Rightarrow> list_all (\<lambda>k. k \<in> set ks) (map fst d) \<and> list_all (\<lambda>k. k \<in> set (map fst d)) ks
      | _ \<Rightarrow> False)"

fun dict_items :: "pyval \<Rightarrow> (string \<times> pyval) list" where
  "dict_items (PDict d) = d"
| "dict_items _ = []"

text \<open>\<^verbatim>\<open>v == n\<close> for an integer constant \<open>n\<close>: Python's \<^verbatim>\<open>True == 1\<close> included.\<close>

fun py_eq_int :: "pyval \<Rightarrow> int \<Rightarrow> bool" where
  "py_eq_int (PInt i) n = (i = n)"
| "py_eq_int (PBool b) n = ((if b then 1 else 0) = n)"
| "py_eq_int _ n = False"

section \<open>Printing\<close>

definition hexdig :: "nat \<Rightarrow> char" where
  "hexdig n = char_of (if n < 10 then 48 + n else 87 + n)"

definition esc_char :: "bool \<Rightarrow> char \<Rightarrow> string" where
  "esc_char asc c =
     (let n = of_char c :: nat in
      if n = 34 then [CHR 0x5C, CHR 0x22]
      else if n = 92 then [CHR 0x5C, CHR 0x5C]
      else if n = 10 then CHR 0x5C # ''n''
      else if n = 13 then CHR 0x5C # ''r''
      else if n = 9 then CHR 0x5C # ''t''
      else if n = 12 then CHR 0x5C # ''f''
      else if n = 8 then CHR 0x5C # ''b''
      else if n < 32 \<or> (asc \<and> 127 \<le> n)
        then CHR 0x5C # ''u00'' @ [hexdig (n div 16), hexdig (n mod 16)]
      else [c])"

definition render_str :: "bool \<Rightarrow> string \<Rightarrow> string" where
  "render_str asc s = CHR 0x22 # concat (map (esc_char asc) s) @ [CHR 0x22]"

fun render :: "bool \<Rightarrow> pyval \<Rightarrow> string"
and render_items :: "bool \<Rightarrow> pyval list \<Rightarrow> string"
and render_pairs :: "bool \<Rightarrow> (string \<times> pyval) list \<Rightarrow> string" where
  "render asc PNone = ''null''"
| "render asc (PBool b) = (if b then ''true'' else ''false'')"
| "render asc (PInt i) = str_int i"
| "render asc (PFloat l) = l"
| "render asc (PStr s) = render_str asc s"
| "render asc (PList xs) = CHR ''['' # render_items asc xs @ '']''"
| "render asc (PDict d) = CHR ''{'' # render_pairs asc d @ ''}''"
| "render_items asc [] = []"
| "render_items asc (x # xs) =
     render asc x @ (if xs = [] then [] else CHR '','' # render_items asc xs)"
| "render_pairs asc [] = []"
| "render_pairs asc ((k, v) # d) =
     render_str asc k @ CHR '':'' # render asc v
       @ (if d = [] then [] else CHR '','' # render_pairs asc d)"

text \<open>\<^verbatim>\<open>sort_keys=True\<close>: every dictionary in key order.\<close>

fun norm :: "pyval \<Rightarrow> pyval" where
  "norm (PList xs) = PList (map norm xs)"
| "norm (PDict d) = PDict (sort_key fst (map (\<lambda>(k, v). (k, norm v)) d))"
| "norm v = v"

definition dumps :: "bool \<Rightarrow> pyval \<Rightarrow> string" where
  "dumps ensure_ascii v = render ensure_ascii (norm v)"

section \<open>Reading\<close>

definition json_ws :: "char \<Rightarrow> bool" where
  "json_ws c = (let n = of_char c :: nat in n = 32 \<or> n = 9 \<or> n = 10 \<or> n = 13)"

definition skip_ws :: "string \<Rightarrow> string" where
  "skip_ws s = dropWhile json_ws s"

definition hexval :: "char \<Rightarrow> nat option" where
  "hexval c =
     (let n = of_char c :: nat in
      if 48 \<le> n \<and> n \<le> 57 then Some (n - 48)
      else if 97 \<le> n \<and> n \<le> 102 then Some (n - 87)
      else if 65 \<le> n \<and> n \<le> 70 then Some (n - 55) else None)"

definition hex4 :: "char \<Rightarrow> char \<Rightarrow> char \<Rightarrow> char \<Rightarrow> nat option" where
  "hex4 a b c d =
     (case (hexval a, hexval b, hexval c, hexval d) of
        (Some w, Some x, Some y, Some z) \<Rightarrow> Some (((w * 16 + x) * 16 + y) * 16 + z)
      | _ \<Rightarrow> None)"

definition unesc :: "char \<Rightarrow> char option" where
  "unesc c =
     (if c = CHR 0x22 \<or> c = CHR 0x5C \<or> c = CHR ''/'' then Some c
      else if c = CHR ''b'' then Some (CHR 0x08)
      else if c = CHR ''f'' then Some (CHR 0x0C)
      else if c = CHR ''n'' then Some (CHR 0x0A)
      else if c = CHR ''r'' then Some (CHR 0x0D)
      else if c = CHR ''t'' then Some (CHR 0x09)
      else None)"

definition pcons :: "char \<Rightarrow> (string \<times> string) option \<Rightarrow> (string \<times> string) option" where
  "pcons c r = map_option (\<lambda>(w, rest). (c # w, rest)) r"

text \<open>The rest of a string literal, after its opening quote.\<close>

fun pstr :: "string \<Rightarrow> (string \<times> string) option" where
  "pstr [] = None"
| "pstr (c # s) =
     (if c = CHR 0x22 then Some ([], s)
      else if c = CHR 0x5C then
        (case s of
           [] \<Rightarrow> None
         | e # s' \<Rightarrow>
             (if e = CHR ''u'' then
                (case s' of
                   h1 # h2 # h3 # h4 # s'' \<Rightarrow>
                     (case hex4 h1 h2 h3 h4 of
                        None \<Rightarrow> None
                      | Some n \<Rightarrow> (if n < 256 then pcons (char_of n) (pstr s'') else None))
                 | _ \<Rightarrow> None)
              else
                (case unesc e of None \<Rightarrow> None | Some x \<Rightarrow> pcons x (pstr s'))))
      else if (of_char c :: nat) < 32 then None
      else pcons c (pstr s))"

text \<open>
  The number grammar \<^verbatim>\<open>-?(0|[1-9]\d*)(\.\d+)?([eE][-+]?\d+)?\<close>, part by part: each function
  gives the part of the text that the optional group takes (empty when it does not match).
\<close>

definition int_part :: "string \<Rightarrow> string" where
  "int_part s =
     (case takeWhile is_digit s of
        [] \<Rightarrow> []
      | c # ds \<Rightarrow> if c = CHR ''0'' then [c] else c # ds)"

definition frac_part :: "string \<Rightarrow> string" where
  "frac_part s =
     (case s of
        [] \<Rightarrow> []
      | c # r \<Rightarrow>
          (if c = CHR ''.'' \<and> takeWhile is_digit r \<noteq> [] then c # takeWhile is_digit r else []))"

definition sign_part :: "string \<Rightarrow> string" where
  "sign_part s = (case s of [] \<Rightarrow> [] | c # _ \<Rightarrow> if c = CHR ''+'' \<or> c = CHR ''-'' then [c] else [])"

definition exp_part :: "string \<Rightarrow> string" where
  "exp_part s =
     (case s of
        [] \<Rightarrow> []
      | c # r \<Rightarrow>
          (let sg = sign_part r; es = takeWhile is_digit (drop (length sg) r)
           in if (c = CHR ''e'' \<or> c = CHR ''E'') \<and> es \<noteq> [] then c # sg @ es else []))"

definition pnat :: "string \<Rightarrow> string \<Rightarrow> (pyval \<times> string) option" where
  "pnat sg s =
     (let ip = int_part s; r1 = drop (length ip) s;
          fp = frac_part r1; r2 = drop (length fp) r1;
          ep = exp_part r2; r3 = drop (length ep) r2
      in if ip = [] then None
         else if fp = [] \<and> ep = [] then
           Some (PInt (if sg = [] then int (digits_val ip) else - int (digits_val ip)), r3)
         else Some (PFloat (sg @ ip @ fp @ ep), r3))"

definition pint :: "string \<Rightarrow> (pyval \<times> string) option" where
  "pint s =
     (case s of
        [] \<Rightarrow> None
      | c # r \<Rightarrow> if c = CHR ''-'' then pnat ''-'' r else pnat [] s)"

definition strip_lit :: "string \<Rightarrow> string \<Rightarrow> string option" where
  "strip_lit l s = (if take (length l) s = l then Some (drop (length l) s) else None)"

text \<open>The constants and numbers.\<close>

definition patom :: "string \<Rightarrow> (pyval \<times> string) option" where
  "patom s =
     (case strip_lit ''null'' s of Some r \<Rightarrow> Some (PNone, r) | None \<Rightarrow>
     (case strip_lit ''true'' s of Some r \<Rightarrow> Some (PBool True, r) | None \<Rightarrow>
     (case strip_lit ''false'' s of Some r \<Rightarrow> Some (PBool False, r) | None \<Rightarrow>
     (case pint s of Some p \<Rightarrow> Some p | None \<Rightarrow>
     (case strip_lit ''NaN'' s of Some r \<Rightarrow> Some (PFloat ''NaN'', r) | None \<Rightarrow>
     (case strip_lit ''Infinity'' s of Some r \<Rightarrow> Some (PFloat ''Infinity'', r) | None \<Rightarrow>
     (case strip_lit ''-Infinity'' s of Some r \<Rightarrow> Some (PFloat ''-Infinity'', r) | None \<Rightarrow> None)))))))"

text \<open>
  \<open>pval\<close> reads a value at the head of the text; \<open>pitems\<close> reads the items of an array after
  its bracket, \<open>ppairs\<close> the members of an object after its brace, white space skipped.
\<close>

fun pval :: "nat \<Rightarrow> string \<Rightarrow> (pyval \<times> string) option"
and pitems :: "nat \<Rightarrow> string \<Rightarrow> (pyval list \<times> string) option"
and ppairs :: "nat \<Rightarrow> string \<Rightarrow> ((string \<times> pyval) list \<times> string) option" where
  "pval 0 s = None"
| "pval (Suc n) [] = None"
| "pval (Suc n) (c # s) =
     (if c = CHR 0x22 then map_option (\<lambda>(w, r). (PStr w, r)) (pstr s)
      else if c = CHR ''['' then
        (case skip_ws s of
           [] \<Rightarrow> None
         | d # s' \<Rightarrow>
             (if d = CHR '']'' then Some (PList [], s')
              else map_option (\<lambda>(xs, r). (PList xs, r)) (pitems n (d # s'))))
      else if c = CHR ''{'' then
        (case skip_ws s of
           [] \<Rightarrow> None
         | d # s' \<Rightarrow>
             (if d = CHR ''}'' then Some (PDict [], s')
              else map_option (\<lambda>(xs, r). (PDict xs, r)) (ppairs n (d # s'))))
      else patom (c # s))"
| "pitems 0 s = None"
| "pitems (Suc n) s =
     (case pval n s of
        None \<Rightarrow> None
      | Some (x, r) \<Rightarrow>
          (case skip_ws r of
             [] \<Rightarrow> None
           | d # r' \<Rightarrow>
               (if d = CHR '','' then
                  map_option (\<lambda>(xs, r''). (x # xs, r'')) (pitems n (skip_ws r'))
                else if d = CHR '']'' then Some ([x], r')
                else None)))"
| "ppairs 0 s = None"
| "ppairs (Suc n) s =
     (case s of
        [] \<Rightarrow> None
      | q # s0 \<Rightarrow>
          (if q \<noteq> CHR 0x22 then None
           else
             (case pstr s0 of
                None \<Rightarrow> None
              | Some (k, r) \<Rightarrow>
                  (case skip_ws r of
                     [] \<Rightarrow> None
                   | d # r' \<Rightarrow>
                       (if d \<noteq> CHR '':'' then None
                        else
                          (case pval n (skip_ws r') of
                             None \<Rightarrow> None
                           | Some (v, r2) \<Rightarrow>
                               (case skip_ws r2 of
                                  [] \<Rightarrow> None
                                | e # r3 \<Rightarrow>
                                    (if e = CHR '','' then
                                       map_option (\<lambda>(ps, r4). ((k, v) # ps, r4)) (ppairs n (skip_ws r3))
                                     else if e = CHR ''}'' then Some ([(k, v)], r3)
                                     else None))))))))"

text \<open>Code equations by cases on the fuel as a number, for evaluation.\<close>

lemma pval_code [code]:
  "pval n cs =
     (if n = 0 then None else case cs of [] \<Rightarrow> None | c # s \<Rightarrow>
     (if c = CHR 0x22 then map_option (\<lambda>(w, r). (PStr w, r)) (pstr s)
      else if c = CHR ''['' then
        (case skip_ws s of
           [] \<Rightarrow> None
         | d # s' \<Rightarrow>
             (if d = CHR '']'' then Some (PList [], s')
              else map_option (\<lambda>(xs, r). (PList xs, r)) (pitems (n - 1) (d # s'))))
      else if c = CHR ''{'' then
        (case skip_ws s of
           [] \<Rightarrow> None
         | d # s' \<Rightarrow>
             (if d = CHR ''}'' then Some (PDict [], s')
              else map_option (\<lambda>(xs, r). (PDict xs, r)) (ppairs (n - 1) (d # s'))))
      else patom (c # s)))"
  by (cases n; cases cs; hypsubst; simp only: diff_Suc_1 pval.simps list.case nat.simps if_True if_False refl)

lemma pitems_code [code]:
  "pitems n s =
     (if n = 0 then None else
     (case pval (n - 1) s of
        None \<Rightarrow> None
      | Some (x, r) \<Rightarrow>
          (case skip_ws r of
             [] \<Rightarrow> None
           | d # r' \<Rightarrow>
               (if d = CHR '','' then
                  map_option (\<lambda>(xs, r''). (x # xs, r'')) (pitems (n - 1) (skip_ws r'))
                else if d = CHR '']'' then Some ([x], r')
                else None))))"
  by (cases n; hypsubst; simp only: diff_Suc_1 pitems.simps ppairs.simps nat.simps if_True if_False refl)

lemma ppairs_code [code]:
  "ppairs n s =
     (if n = 0 then None else
     (case s of
        [] \<Rightarrow> None
      | q # s0 \<Rightarrow>
          (if q \<noteq> CHR 0x22 then None
           else
             (case pstr s0 of
                None \<Rightarrow> None
              | Some (k, r) \<Rightarrow>
                  (case skip_ws r of
                     [] \<Rightarrow> None
                   | d # r' \<Rightarrow>
                       (if d \<noteq> CHR '':'' then None
                        else
                          (case pval (n - 1) (skip_ws r') of
                             None \<Rightarrow> None
                           | Some (v, r2) \<Rightarrow>
                               (case skip_ws r2 of
                                  [] \<Rightarrow> None
                                | e # r3 \<Rightarrow>
                                    (if e = CHR '','' then
                                       map_option (\<lambda>(ps, r4). ((k, v) # ps, r4)) (ppairs (n - 1) (skip_ws r3))
                                     else if e = CHR ''}'' then Some ([(k, v)], r3)
                                     else None)))))))))"
  by (cases n; hypsubst; simp only: diff_Suc_1 pitems.simps ppairs.simps nat.simps if_True if_False refl)

text \<open>\<^verbatim>\<open>dict(pairs)\<close>: a repeated key keeps its first place and takes its last value.\<close>

definition dict_of_pairs :: "(string \<times> pyval) list \<Rightarrow> (string \<times> pyval) list" where
  "dict_of_pairs ps = foldl (\<lambda>d (k, v). AList.update k v d) [] ps"

fun to_dicts :: "pyval \<Rightarrow> pyval" where
  "to_dicts (PList xs) = PList (map to_dicts xs)"
| "to_dicts (PDict d) = PDict (dict_of_pairs (map (\<lambda>(k, v). (k, to_dicts v)) d))"
| "to_dicts v = v"

text \<open>The pairs as written, repeated keys included (what \<^verbatim>\<open>object_pairs_hook\<close> sees).\<close>

definition loads_pairs :: "string \<Rightarrow> pyval option" where
  "loads_pairs s =
     (case pval (2 * length s + 2) (skip_ws s) of
        None \<Rightarrow> None
      | Some (v, r) \<Rightarrow> if skip_ws r = [] then Some v else None)"

definition loads :: "string \<Rightarrow> pyval option" where
  "loads s = map_option to_dicts (loads_pairs s)"

section \<open>Fuel\<close>

text \<open>Every reader consumes part of the text, so the fuel that \<open>loads_pairs\<close> starts with is enough.\<close>

lemma length_skip_ws: "length (skip_ws s) \<le> length s"
  by (simp add: skip_ws_def length_dropWhile_le)

lemma pstr_length: "pstr s = Some (w, r) \<Longrightarrow> length r < length s"
proof (induction s arbitrary: w rule: length_induct)
  case (1 s)
  have IH: "pcons x (pstr t) = Some (w, r) \<Longrightarrow> length t < length s \<Longrightarrow> length r < length s" for x t
    using "1.IH" by (fastforce simp: pcons_def)
  show ?case
  proof (cases s)
    case (Cons c t)
    with "1.prems" IH show ?thesis
      by (auto split: if_splits list.splits option.splits)
  qed (use "1.prems" in simp)
qed

lemma pnat_length: "pnat sg s = Some (v, r) \<Longrightarrow> length r < length s"
proof -
  assume p: "pnat sg s = Some (v, r)"
  then have ip: "int_part s \<noteq> []" by (auto simp: pnat_def Let_def split: if_splits)
  then have "s \<noteq> []" by (auto simp: int_part_def)
  then have "length (drop (length (int_part s)) s) < length s" using ip by simp
  with p show ?thesis by (auto simp: pnat_def Let_def split: if_splits)
qed

lemma patom_length: "patom s = Some (v, r) \<Longrightarrow> length r < length s"
proof -
  have lit: "strip_lit l s = Some r \<Longrightarrow> l \<noteq> [] \<Longrightarrow> length r < length s" for l
    by (cases s) (auto simp: strip_lit_def split: if_splits)
  have "pint s = Some (v, r) \<Longrightarrow> length r < length s"
    by (cases s) (auto simp: pint_def dest: pnat_length split: if_splits)
  with lit show "patom s = Some (v, r) \<Longrightarrow> length r < length s"
    by (auto simp: patom_def split: option.splits)
qed

lemma pval_length:
  shows "pval n s = Some (v, r) \<Longrightarrow> length r < length s"
    and "pitems n s = Some (xs, r) \<Longrightarrow> length r < length s"
    and "ppairs n s = Some (d, r) \<Longrightarrow> length r < length s"
proof (induction n s and n s and n s arbitrary: v r and xs r and d r rule: pval_pitems_ppairs.induct)
  case (3 n c s)
  have "length (d # s') \<le> length s" if "skip_ws s = d # s'" for d s'
    using length_skip_ws [of s] that by simp
  with 3 show ?case
    by (auto split: if_splits list.splits dest: pstr_length patom_length; fastforce)
next
  case (5 n s)
  have sk: "length (skip_ws t) \<le> length t" for t by (rule length_skip_ws)
  from "5.prems" obtain x t d t' where p: "pval n s = Some (x, t)" "skip_ws t = d # t'"
    and r: "d = CHR '','' \<and> (\<exists>ys. pitems n (skip_ws t') = Some (ys, r)) \<or> r = t'"
    by (auto split: option.splits prod.splits list.splits if_splits)
  have "length t < length s" by (rule "5.IH"(1) [OF p(1)])
  with sk [of t] p(2) have t': "length t' < length s" by simp
  from r show ?case
  proof
    assume "d = CHR '','' \<and> (\<exists>ys. pitems n (skip_ws t') = Some (ys, r))"
    then obtain ys where "d = CHR '',''" "pitems n (skip_ws t') = Some (ys, r)" by blast
    with "5.IH"(2) [OF p(1) refl p(2)] have "length r < length (skip_ws t')" by blast
    with sk [of t'] t' show ?thesis by linarith
  qed (use t' in simp)
next
  case (7 n s)
  have sk: "length (skip_ws t) \<le> length t" for t by (rule length_skip_ws)
  from "7.prems" obtain q s0 k t d t' v u e u' where p: "s = q # s0" "\<not> q \<noteq> CHR 0x22"
    "pstr s0 = Some (k, t)" "skip_ws t = d # t'" "\<not> d \<noteq> CHR '':''" "pval n (skip_ws t') = Some (v, u)"
    "skip_ws u = e # u'" and r: "e = CHR '','' \<and> (\<exists>ys. ppairs n (skip_ws u') = Some (ys, r)) \<or> r = u'"
    by (auto split: option.splits prod.splits list.splits if_splits)
  have "length t < length s0" by (rule pstr_length [OF p(3)])
  moreover have "length t' < length t" using sk [of t] p(4) by simp
  moreover have "length u < length (skip_ws t')" by (rule "7.IH"(1) [OF p(1,2,3) refl p(4,5,6)])
  moreover have "length u' < length u" using sk [of u] p(7) by simp
  ultimately have u': "length u' < length s" using sk [of t'] p(1) by simp
  from r show ?case
  proof
    assume "e = CHR '','' \<and> (\<exists>ys. ppairs n (skip_ws u') = Some (ys, r))"
    then obtain ys where "e = CHR '',''" "ppairs n (skip_ws u') = Some (ys, r)" by blast
    with "7.IH"(2) [OF p(1,2,3) refl p(4,5,6) refl p(7)] have "length r < length (skip_ws u')" by blast
    with sk [of u'] u' show ?thesis by linarith
  qed (use u' in simp)
qed auto

text \<open>Any fuel above twice the length of the text gives the same answer.\<close>

lemma readers_fuel:
  "(\<forall>n m. 2 * length s + 1 \<le> n \<longrightarrow> 2 * length s + 1 \<le> m \<longrightarrow> pval n s = pval m s)
   \<and> (\<forall>n m. 2 * length s + 2 \<le> n \<longrightarrow> 2 * length s + 2 \<le> m \<longrightarrow> pitems n s = pitems m s)
   \<and> (\<forall>n m. 2 * length s + 2 \<le> n \<longrightarrow> 2 * length s + 2 \<le> m \<longrightarrow> ppairs n s = ppairs m s)"
proof (induction s rule: length_induct)
  case (1 s)
  have sk: "length (skip_ws t) \<le> length t" for t by (rule length_skip_ws)
  have V: "pval n t = pval m t" if "length t < length s" "2 * length t + 1 \<le> n" "2 * length t + 1 \<le> m" for n m t
    using "1" that by blast
  have I: "pitems n t = pitems m t" if "length t < length s" "2 * length t + 2 \<le> n" "2 * length t + 2 \<le> m" for n m t
    using "1" that by blast
  have P: "ppairs n t = ppairs m t" if "length t < length s" "2 * length t + 2 \<le> n" "2 * length t + 2 \<le> m" for n m t
    using "1" that by blast
  have v: "pval n s = pval m s" if nm: "2 * length s + 1 \<le> n" "2 * length s + 1 \<le> m" for n m
  proof (cases s)
    case Nil
    with nm show ?thesis by (cases n; cases m) auto
  next
    case (Cons c t)
    have "pitems (n - 1) (skip_ws t) = pitems (m - 1) (skip_ws t)"
      "ppairs (n - 1) (skip_ws t) = ppairs (m - 1) (skip_ws t)"
      using nm Cons sk [of t] by (auto intro!: I P)
    then show ?thesis
      using nm Cons by (subst (1 2) pval_code) (auto split: list.split)
  qed
  moreover have "pitems n s = pitems m s" if nm: "2 * length s + 2 \<le> n" "2 * length s + 2 \<le> m" for n m
  proof -
    have h: "pval (n - 1) s = pval (m - 1) s" using nm by (intro v) auto
    have "pitems (n - 1) (skip_ws t') = pitems (m - 1) (skip_ws t')"
      if "pval (m - 1) s = Some (x, t)" "skip_ws t = d # t'" for x t d t'
      using pval_length(1) [OF that(1)] sk [of t] sk [of t'] that(2) nm by (intro I) auto
    with h nm show ?thesis
      by (subst (1 2) pitems_code) (auto split: option.split list.split)
  qed
  moreover have "ppairs n s = ppairs m s" if nm: "2 * length s + 2 \<le> n" "2 * length s + 2 \<le> m" for n m
  proof (cases s)
    case Nil
    with nm show ?thesis by (cases n; cases m) auto
  next
    case (Cons q s0)
    have h: "pval (n - 1) (skip_ws t') = pval (m - 1) (skip_ws t')"
      if "pstr s0 = Some (k, t)" "skip_ws t = d # t'" for k t d t'
      using pstr_length [OF that(1)] sk [of t] sk [of t'] that(2) nm Cons by (intro V) auto
    have "ppairs (n - 1) (skip_ws u') = ppairs (m - 1) (skip_ws u')"
      if "pstr s0 = Some (k, t)" "skip_ws t = d # t'" "pval (m - 1) (skip_ws t') = Some (x, u)" "skip_ws u = e # u'"
      for k t d t' x u e u'
      using pstr_length [OF that(1)] sk [of t] sk [of t'] pval_length(1) [OF that(3)] sk [of u] sk [of u']
        that(2,4) nm Cons by (intro P) auto
    with h nm Cons show ?thesis
      by (subst (1 2) ppairs_code) (auto split: option.split list.split)
  qed
  ultimately show ?case by blast
qed

lemma pval_fuel_irrelevant: "2 * length s + 1 \<le> n \<Longrightarrow> pval n s = pval (2 * length s + 1) s"
  using readers_fuel [of s] order_refl by blast

section \<open>The printed forms\<close>

lemma hexval_hexdig: "n < 16 \<Longrightarrow> hexval (hexdig n) = Some n"
  by (auto simp: hexval_def hexdig_def Let_def)

lemma of_char_eqD: "(of_char c :: nat) = of_char d \<Longrightarrow> c = d"
  by (metis char_of_char)

lemma pstr_plain:
  "c \<noteq> CHR 0x22 \<Longrightarrow> c \<noteq> CHR 0x5C \<Longrightarrow> \<not> (of_char c :: nat) < 32 \<Longrightarrow> pstr (c # t) = pcons c (pstr t)"
  by simp

lemma pstr_u00:
  fixes c :: char
  defines "n \<equiv> of_char c :: nat"
  shows "pstr (CHR 0x5C # ''u00'' @ [hexdig (n div 16), hexdig (n mod 16)] @ t) = pcons c (pstr t)"
proof -
  have "n < 256" by (simp add: n_def)
  then have "n div 16 < 16" "n mod 16 < 16" by (simp_all add: less_mult_imp_div_less)
  moreover have "hexval (CHR ''0'') = Some 0" by code_simp
  ultimately have "hex4 (CHR ''0'') (CHR ''0'') (hexdig (n div 16)) (hexdig (n mod 16)) = Some n"
    by (simp add: hex4_def hexval_hexdig)
  moreover have "char_of n = c" by (simp add: n_def)
  ultimately show ?thesis using \<open>n < 256\<close> by simp
qed

lemma of_char_nat: "n < 256 \<Longrightarrow> (of_char c :: nat) = n \<longleftrightarrow> c = char_of n"
  by auto

lemma esc_char_pstr: "pstr (esc_char asc c @ t) = pcons c (pstr t)"
proof (cases "(of_char c :: nat) \<in> {34, 92, 10, 13, 9, 12, 8}")
  case True
  then have "c \<in> {CHR 0x22, CHR 0x5C, CHR 0x0A, CHR 0x0D, CHR 0x09, CHR 0x0C, CHR 0x08}"
    by (simp add: of_char_nat) (simp add: char_of_def bit_simps)
  then show ?thesis
    by (elim insertE emptyE) (simp_all add: esc_char_def unesc_def)
next
  case False
  then have c: "c \<noteq> CHR 0x22" "c \<noteq> CHR 0x5C" by auto
  show ?thesis
  proof (cases "(of_char c :: nat) < 32 \<or> (asc \<and> 127 \<le> (of_char c :: nat))")
    case True
    with False have "esc_char asc c =
        CHR 0x5C # ''u00'' @ [hexdig (of_char c div 16), hexdig (of_char c mod 16)]"
      by (simp add: esc_char_def Let_def)
    then show ?thesis using pstr_u00 [of c t] by (simp del: pstr.simps)
  next
    case False
    with \<open>_ \<notin> _\<close> have "esc_char asc c = [c]" by (simp add: esc_char_def Let_def)
    with False c show ?thesis by (simp add: pstr_plain del: pstr.simps)
  qed
qed

lemma pstr_render: "pstr (concat (map (esc_char asc) s) @ CHR 0x22 # r) = Some (s, r)"
  by (induction s) (simp_all add: esc_char_pstr pcons_def)

lemma is_digit_char_of: "n < 10 \<Longrightarrow> is_digit (char_of (48 + n :: nat))"
  by (simp add: is_digit_def)

lemma digit_val_char_of: "n < 10 \<Longrightarrow> digit_val (char_of (48 + n :: nat)) = n"
  by (simp add: digit_val_def)

lemma nat_of_digits_append:
  "nat_of_digits a (s @ t) = nat_of_digits (nat_of_digits a s) t"
  by (induction s arbitrary: a) auto

lemma str_nat_digits: "list_all is_digit (str_nat n)"
proof (induction n rule: str_nat.induct)
  case (1 n)
  then show ?case
    by (subst str_nat.simps) (auto simp: is_digit_char_of)
qed

lemma digits_val_str_nat: "digits_val (str_nat n) = n"
  unfolding digits_val_def
proof (induction n rule: str_nat.induct)
  case (1 n)
  show ?case
  proof (cases "n < 10")
    case True
    then show ?thesis by (subst str_nat.simps) (simp add: digit_val_char_of)
  next
    case False
    with 1 show ?thesis
      by (subst str_nat.simps) (simp add: nat_of_digits_append digit_val_char_of)
  qed
qed

lemma char_of_inj_digit: "(n::nat) < 10 \<Longrightarrow> char_of (48 + n) = CHR ''0'' \<longleftrightarrow> n = 0"
  by (simp add: char_of_eq_iff take_bit_eq_mod)

lemma str_nat_head:
  "\<exists>c w. str_nat n = c # w \<and> is_digit c \<and> (c = CHR ''0'' \<longleftrightarrow> n = 0) \<and> (n = 0 \<longrightarrow> w = [])"
proof (induction n rule: str_nat.induct)
  case (1 n)
  show ?case
  proof (cases "n < 10")
    case True
    then show ?thesis
      by (subst str_nat.simps) (auto simp: is_digit_char_of char_of_inj_digit)
  next
    case False
    with 1 obtain c w where "str_nat (n div 10) = c # w" "is_digit c"
        "(c = CHR ''0'' \<longleftrightarrow> n div 10 = 0)"
      by auto
    with False show ?thesis by (subst str_nat.simps) auto
  qed
qed

definition num_end :: "string \<Rightarrow> bool" where
  "num_end r = (case r of [] \<Rightarrow> True
     | c # _ \<Rightarrow> \<not> is_digit c \<and> c \<noteq> CHR ''.'' \<and> c \<noteq> CHR ''e'' \<and> c \<noteq> CHR ''E'')"

lemma takeWhile_str_nat:
  "num_end r \<Longrightarrow> takeWhile is_digit (str_nat n @ r) = str_nat n"
  using str_nat_digits [of n]
  by (cases r) (auto simp: num_end_def takeWhile_append list_all_iff)

lemma int_part_str_nat:
  assumes "num_end r"
  shows "int_part (str_nat n @ r) = str_nat n"
proof -
  obtain c w where "str_nat n = c # w" "c = CHR ''0'' \<longleftrightarrow> n = 0" "n = 0 \<longrightarrow> w = []"
    using str_nat_head by blast
  with takeWhile_str_nat [OF assms, of n] show ?thesis
    by (auto simp: int_part_def)
qed

lemma num_end_parts: "num_end r \<Longrightarrow> frac_part r = [] \<and> exp_part r = []"
  by (auto simp: num_end_def frac_part_def exp_part_def Let_def split: list.splits)

lemma str_nat_neq_Nil [simp]: "str_nat n \<noteq> []"
  using str_nat_head [of n] by auto

lemma pnat_str_nat:
  "num_end r \<Longrightarrow> pnat sg (str_nat n @ r) = Some (PInt (if sg = [] then int n else - int n), r)"
  by (simp add: pnat_def Let_def int_part_str_nat num_end_parts digits_val_str_nat)

lemma pint_str_int:
  assumes "num_end r"
  shows "pint (str_int i @ r) = Some (PInt i, r)"
proof (cases "i < 0")
  case True
  with assms show ?thesis by (simp add: str_int_def pint_def pnat_str_nat)
next
  case False
  obtain c w where cw: "str_nat (nat i) = c # w" "is_digit c"
    using str_nat_head by blast
  then have "c \<noteq> CHR ''-''" by (auto simp: is_digit_def)
  with False cw pnat_str_nat [OF assms, of "[]" "nat i"] show ?thesis
    by (simp add: str_int_def pint_def)
qed

section \<open>Reading back what was printed\<close>

fun json_ok :: "pyval \<Rightarrow> bool" where
  "json_ok (PFloat l) = False"
| "json_ok (PList xs) = list_all json_ok xs"
| "json_ok (PDict d) = (distinct (map fst d) \<and> list_all (\<lambda>(k, v). json_ok v) d)"
| "json_ok v = True"

lemma render_str_head: "render_str asc s @ r = CHR 0x22 # concat (map (esc_char asc) s) @ CHR 0x22 # r"
  by (simp add: render_str_def)

lemma str_int_head:
  "\<exists>c w. str_int i = c # w \<and> (is_digit c \<or> c = CHR ''-'')"
  using str_nat_head by (auto simp: str_int_def) blast

lemma render_head:
  "json_ok v \<Longrightarrow> \<exists>c w. render asc v = c # w \<and> \<not> json_ws c \<and> c \<noteq> CHR '']'' \<and> c \<noteq> CHR ''}''"
proof (cases v)
  case (PInt i)
  obtain c w where "str_int i = c # w" "is_digit c \<or> c = CHR ''-''"
    using str_int_head by blast
  with PInt show ?thesis by (auto simp: json_ws_def is_digit_def Let_def)
qed (auto simp: json_ws_def render_str_def)

lemma skip_ws_render: "json_ok v \<Longrightarrow> skip_ws (render asc v @ r) = render asc v @ r"
  using render_head [of v asc] by (auto simp: skip_ws_def)

lemma skip_ws_punct [simp]:
  "skip_ws (CHR '','' # r) = CHR '','' # r" "skip_ws (CHR '']'' # r) = CHR '']'' # r"
  "skip_ws (CHR ''}'' # r) = CHR ''}'' # r" "skip_ws (CHR '':'' # r) = CHR '':'' # r"
  "skip_ws (CHR 0x22 # r) = CHR 0x22 # r" "skip_ws [] = []"
  by (simp_all add: skip_ws_def json_ws_def)

lemma num_end_punct [simp]:
  "num_end (CHR '','' # r)" "num_end (CHR '']'' # r)" "num_end (CHR ''}'' # r)" "num_end []"
  by (simp_all add: num_end_def is_digit_def)

lemma patom_const [simp]:
  "patom (CHR ''n'' # CHR ''u'' # CHR ''l'' # CHR ''l'' # r) = Some (PNone, r)"
  "patom (CHR ''t'' # CHR ''r'' # CHR ''u'' # CHR ''e'' # r) = Some (PBool True, r)"
  "patom (CHR ''f'' # CHR ''a'' # CHR ''l'' # CHR ''s'' # CHR ''e'' # r) = Some (PBool False, r)"
  by (simp_all add: patom_def strip_lit_def)

lemma patom_str_int: "num_end r \<Longrightarrow> patom (str_int i @ r) = Some (PInt i, r)"
proof -
  assume r: "num_end r"
  obtain c w where c: "str_int i = c # w" "is_digit c \<or> c = CHR ''-''"
    using str_int_head by blast
  then have "c \<noteq> CHR ''n'' \<and> c \<noteq> CHR ''t'' \<and> c \<noteq> CHR ''f''" by (auto simp: is_digit_def)
  then show ?thesis
    using pint_str_int [OF r, of i] c(1) by (simp add: patom_def strip_lit_def)
qed

lemma pval_str_int: "num_end r \<Longrightarrow> pval (Suc n) (str_int i @ r) = Some (PInt i, r)"
proof -
  assume r: "num_end r"
  obtain c w where c: "str_int i = c # w" "is_digit c \<or> c = CHR ''-''"
    using str_int_head by blast
  then have "c \<noteq> CHR 0x22 \<and> c \<noteq> CHR ''['' \<and> c \<noteq> CHR ''{''" by (auto simp: is_digit_def)
  then show ?thesis using patom_str_int [OF r, of i] c(1) by simp
qed

fun fuel_of :: "pyval \<Rightarrow> nat"
and fuel_items :: "pyval list \<Rightarrow> nat"
and fuel_pairs :: "(string \<times> pyval) list \<Rightarrow> nat" where
  "fuel_of (PList xs) = Suc (fuel_items xs)"
| "fuel_of (PDict d) = Suc (fuel_pairs d)"
| "fuel_of v = 1"
| "fuel_items [] = 0"
| "fuel_items (x # xs) = Suc (max (fuel_of x) (fuel_items xs))"
| "fuel_pairs [] = 0"
| "fuel_pairs ((k, v) # d) = Suc (max (fuel_of v) (fuel_pairs d))"

lemma pval_render:
  shows "json_ok v \<Longrightarrow> fuel_of v \<le> n \<Longrightarrow> num_end r \<Longrightarrow> pval n (render asc v @ r) = Some (v, r)"
    and "list_all json_ok xs \<Longrightarrow> fuel_items xs \<le> n \<Longrightarrow> xs \<noteq> [] \<Longrightarrow>
           pitems n (render_items asc xs @ CHR '']'' # r) = Some (xs, r)"
    and "list_all (\<lambda>(k, v). json_ok v) d \<Longrightarrow> fuel_pairs d \<le> n \<Longrightarrow> d \<noteq> [] \<Longrightarrow>
           ppairs n (render_pairs asc d @ CHR ''}'' # r) = Some (d, r)"
proof (induction asc v and asc xs and asc d arbitrary: n r and n r and n r
    rule: render_render_items_render_pairs.induct)
  case (5 asc s)
  then show ?case
    by (cases n) (auto simp: render_str_def pstr_render simp del: pstr.simps)
next
  case (6 asc xs)
  then obtain m where m: "n = Suc m" "fuel_items xs \<le> m" by (cases n) auto
  show ?case
  proof (cases xs)
    case Nil
    with m show ?thesis by simp
  next
    case (Cons y ys)
    with 6 have ok: "json_ok y" by simp
    obtain c w where "render asc y = c # w" "\<not> json_ws c" "c \<noteq> CHR '']''"
      using render_head [OF ok, of asc] by blast
    with Cons obtain c' w' where hd: "render_items asc xs = c' # w'" "\<not> json_ws c'" "c' \<noteq> CHR '']''"
      by auto
    have "pitems m (render_items asc xs @ CHR '']'' # r) = Some (xs, r)"
      using 6 m Cons by simp
    with hd m show ?thesis by (simp add: skip_ws_def)
  qed
next
  case (7 asc d)
  then obtain m where m: "n = Suc m" "fuel_pairs d \<le> m" by (cases n) auto
  show ?case
  proof (cases d)
    case Nil
    with m show ?thesis by simp
  next
    case (Cons y ys)
    obtain k v where "y = (k, v)" by (cases y)
    with Cons obtain w' where hd: "render_pairs asc d = CHR 0x22 # w'"
      by (auto simp: render_str_def)
    have "ppairs m (render_pairs asc d @ CHR ''}'' # r) = Some (d, r)"
      using 7 m Cons by simp
    with hd m show ?thesis by (simp del: pstr.simps)
  qed
next
  case (9 asc x xs)
  then obtain m where m: "n = Suc m" "fuel_of x \<le> m" "fuel_items xs \<le> m" by (cases n) auto
  show ?case
  proof (cases xs)
    case Nil
    with 9 m show ?thesis by simp
  next
    case (Cons y ys)
    then have "skip_ws (render_items asc xs @ CHR '']'' # r) = render_items asc xs @ CHR '']'' # r"
      using skip_ws_render [of y asc] 9 by auto
    with 9 m Cons show ?thesis by (simp del: render_items.simps(2) add: render_items.simps(2) [of asc x])
  qed
next
  case (11 asc k v d)
  then obtain m where m: "n = Suc m" "fuel_of v \<le> m" "fuel_pairs d \<le> m" by (cases n) auto
  have sk: "skip_ws (render asc v @ t) = render asc v @ t" for t
    using 11 skip_ws_render [of v asc] by simp
  show ?case
  proof (cases d)
    case Nil
    with 11 m sk show ?thesis by (simp add: render_str_head pstr_render del: pstr.simps)
  next
    case (Cons y ys)
    obtain k' v' where "y = (k', v')" by (cases y)
    with Cons have "skip_ws (render_pairs asc d @ CHR ''}'' # r) = render_pairs asc d @ CHR ''}'' # r"
      by (auto simp: render_str_def)
    with 11 m Cons sk show ?thesis
      by (simp add: render_str_head pstr_render del: pstr.simps render_pairs.simps(2)
               add: render_pairs.simps(2) [of asc k v])
  qed
next
  case (3 asc i)
  then show ?case by (cases n) (auto simp: pval_str_int simp del: pval.simps)
next
  case (2 asc b)
  then show ?case by (cases n) auto
next
  case (1 asc)
  then show ?case by (cases n) auto
qed auto

lemma fuel_le_length:
  shows "json_ok v \<Longrightarrow> fuel_of v \<le> length (render asc v)"
    and "list_all json_ok xs \<Longrightarrow> fuel_items xs \<le> Suc (length (render_items asc xs))"
    and "list_all (\<lambda>(k, v). json_ok v) d \<Longrightarrow> fuel_pairs d \<le> Suc (length (render_pairs asc d))"
proof (induction asc v and asc xs and asc d rule: render_render_items_render_pairs.induct)
  case (3 asc i)
  then show ?case using str_int_head [of i] by auto
qed (auto simp: render_str_def)

lemma loads_pairs_render: "json_ok v \<Longrightarrow> loads_pairs (render asc v) = Some v"
  using pval_render(1) [of v "2 * length (render asc v) + 2" "[]" asc]
    skip_ws_render [of v asc "[]"] fuel_le_length(1) [of v asc]
  by (simp add: loads_pairs_def)

lemma update_fresh: "k \<notin> set (map fst d) \<Longrightarrow> AList.update k v d = d @ [(k, v)]"
  by (induction d) auto

lemma dict_of_pairs_distinct: "distinct (map fst ps) \<Longrightarrow> dict_of_pairs ps = ps"
proof -
  have "distinct (map fst (d @ ps)) \<Longrightarrow> foldl (\<lambda>d (k, v). AList.update k v d) d ps = d @ ps" for d
  proof (induction ps arbitrary: d)
    case (Cons p ps)
    obtain k v where p: "p = (k, v)" by (cases p)
    with Cons.prems have "AList.update k v d = d @ [(k, v)]"
      by (intro update_fresh) auto
    with p Cons.IH [of "d @ [(k, v)]"] Cons.prems show ?case by simp
  qed simp
  from this [of "[]"] show "distinct (map fst ps) \<Longrightarrow> dict_of_pairs ps = ps"
    by (simp add: dict_of_pairs_def)
qed

lemma to_dicts_id: "json_ok v \<Longrightarrow> to_dicts v = v"
proof (induction v rule: json_ok.induct)
  case (2 xs)
  then show ?case by (simp add: list_all_iff map_idI)
next
  case (3 d)
  then have "map (\<lambda>(k, v). (k, to_dicts v)) d = d"
    by (intro map_idI) (auto simp: list_all_iff)
  with 3 show ?case by (simp add: dict_of_pairs_distinct)
qed auto

lemma json_ok_norm: "json_ok v \<Longrightarrow> json_ok (norm v)"
proof (induction v rule: norm.induct)
  case (2 d)
  have "map fst (map (\<lambda>(k, v). (k, norm v)) d) = map fst d" by auto
  then have "distinct (map fst (sort_key fst (map (\<lambda>(k, v). (k, norm v)) d))) = distinct (map fst d)"
    by (metis (no_types) distinct_map distinct_sort set_sort)
  with 2 show ?case by (auto simp: list_all_iff)
qed (auto simp: list_all_iff)

theorem loads_dumps: "json_ok v \<Longrightarrow> loads (dumps asc v) = Some (norm v)"
  by (simp add: loads_def dumps_def loads_pairs_render json_ok_norm to_dicts_id)

theorem dumps_inject:
  assumes "json_ok v" and "json_ok w"
  shows "dumps asc v = dumps asc w \<longleftrightarrow> norm v = norm w"
proof
  assume "dumps asc v = dumps asc w"
  with loads_dumps [OF assms(1), of asc] loads_dumps [OF assms(2), of asc]
  show "norm v = norm w" by (simp only: option.inject)
qed (simp add: dumps_def)

text \<open>A text file ends with a newline.\<close>

lemma loads_dumps_line: "json_ok v \<Longrightarrow> loads (dumps asc v @ ''\<newline>'') = Some (norm v)"
proof -
  assume v: "json_ok v"
  let ?w = "norm v"
  have w: "json_ok ?w" using v by (rule json_ok_norm)
  have "num_end ''\<newline>''" by (simp add: num_end_def is_digit_def)
  then have "pval (2 * length (render asc ?w @ ''\<newline>'') + 2) (render asc ?w @ ''\<newline>'') = Some (?w, ''\<newline>'')"
    using fuel_le_length(1) [OF w, of asc] by (intro pval_render(1) [OF w]) auto
  moreover have "skip_ws (render asc ?w @ ''\<newline>'') = render asc ?w @ ''\<newline>''"
    by (rule skip_ws_render [OF w])
  moreover have "skip_ws ''\<newline>'' = []" by (simp add: skip_ws_def json_ws_def)
  ultimately show ?thesis
    by (simp add: loads_def loads_pairs_def dumps_def to_dicts_id [OF w])
qed

section \<open>Reading a printed object\<close>

lemma map_of_sort_key:
  "distinct (map fst d) \<Longrightarrow> map_of (sort_key fst d) = map_of (d :: (string \<times> 'a) list)"
proof (rule map_of_inject_set [THEN iffD2])
  assume d: "distinct (map fst d)"
  then show "distinct (map fst (sort_key fst d))"
    by (metis (no_types) distinct_map distinct_sort set_sort)
qed simp_all

lemma map_of_norm:
  "distinct (map fst d) \<Longrightarrow> map_of (dict_items (norm (PDict d))) k = map_option norm (map_of d k)"
proof -
  assume d: "distinct (map fst d)"
  have "map fst (map (\<lambda>(k, v). (k, norm v)) d) = map fst d" by auto
  then have "map_of (sort_key fst (map (\<lambda>(k, v). (k, norm v)) d)) = map_of (map (\<lambda>(k, v). (k, norm v)) d)"
    by (intro map_of_sort_key) (simp only: d)
  then have "map_of (dict_items (norm (PDict d))) k = map_of (map (\<lambda>(k, v). (k, norm v)) d) k"
    by simp
  also have "\<dots> = map_option norm (map_of d k)" by (induction d) auto
  finally show ?thesis .
qed

lemma dget_norm:
  assumes "distinct (map fst d)" "k \<in> set (map fst d)"
  shows "dget (dict_items (norm (PDict d))) k = norm (dget d k)"
proof -
  obtain v where "map_of d k = Some v"
    using assms(2) by (metis (no_types) map_of_eq_None_iff list.set_map not_None_eq)
  then show ?thesis using map_of_norm [OF assms(1)] by (simp add: dget_def)
qed

lemma is_dict_with_norm [simp]: "is_dict_with ks (norm (PDict d)) = is_dict_with ks (PDict d)"
  by (simp add: is_dict_with_def list_all_iff image_image split_def)

lemma norm_comp_PStr [simp]: "norm \<circ> PStr = PStr"
  by auto

lemma norm_strs [simp]: "map norm (map PStr ss) = map PStr ss"
  by (simp add: comp_def)

lemma norm_PDict_items: "norm (PDict d) = PDict (dict_items (norm (PDict d)))"
  by simp

lemma json_ok_strs [simp]: "list_all json_ok (map PStr ss)"
  by (simp add: list_all_iff)

end
