(* ===== verification/PyTime.thy ===== *)
theory PyTime
  imports PyStr
begin

text \<open>
  The part of Python's \<^verbatim>\<open>datetime\<close> the sources use: \<^verbatim>\<open>fromisoformat\<close> on the extended
  ISO-8601 calendar format \<^verbatim>\<open>YYYY-MM-DD[*HH[:MM[:SS[.f+]]][Z|(+|-)HH[:MM[:SS[.f+]]]]]\<close>,
  awareness, comparison of aware values by instant, addition of seconds with its
  \<^verbatim>\<open>OverflowError\<close>, and \<^verbatim>\<open>isoformat\<close>.  The basic format and week dates, which newer Python
  versions also read, are outside the model: it rejects them.

  A \<^verbatim>\<open>datetime\<close> is its local time in microseconds since 0001-01-01 and its UTC offset in
  microseconds, if it has one; two aware values compare by local time minus offset.
\<close>

section \<open>Dates\<close>

record pydt =
  dt_local :: int
  dt_offset :: "int option"

definition leap :: "nat \<Rightarrow> bool" where
  "leap y = (4 dvd y \<and> (\<not> 100 dvd y \<or> 400 dvd y))"

definition month_lengths :: "nat \<Rightarrow> nat list" where
  "month_lengths y = [31, if leap y then 29 else 28, 31, 30, 31, 30, 31, 31, 30, 31, 30, 31]"

definition days_before_year :: "nat \<Rightarrow> nat" where
  "days_before_year y = (y - 1) * 365 + (y - 1) div 4 - (y - 1) div 100 + (y - 1) div 400"

definition date_days :: "nat \<Rightarrow> nat \<Rightarrow> nat \<Rightarrow> nat option" where
  "date_days y m d =
     (if 1 \<le> y \<and> 1 \<le> m \<and> m \<le> 12 \<and> 1 \<le> d \<and> d \<le> month_lengths y ! (m - 1)
      then Some (days_before_year y + sum_list (take (m - 1) (month_lengths y)) + (d - 1))
      else None)"

definition day_us :: int where
  "day_us = 86400000000"

text \<open>One past the local time of \<^verbatim>\<open>datetime.max\<close>.\<close>

definition max_local :: int where
  "max_local = 3652059 * day_us"

section \<open>Parsing\<close>

definition take_digits :: "nat \<Rightarrow> string \<Rightarrow> (nat \<times> string) option" where
  "take_digits n s =
     (if length (take n s) = n \<and> list_all is_digit (take n s)
      then Some (digits_val (take n s), drop n s) else None)"

definition take_char :: "char \<Rightarrow> string \<Rightarrow> string option" where
  "take_char c s = (case s of [] \<Rightarrow> None | d # r \<Rightarrow> if d = c then Some r else None)"

definition parse_date :: "string \<Rightarrow> (nat \<times> string) option" where
  "parse_date s =
     Option.bind (take_digits 4 s) (\<lambda>(y, s1).
     Option.bind (take_char CHR ''-'' s1) (\<lambda>s2.
     Option.bind (take_digits 2 s2) (\<lambda>(m, s3).
     Option.bind (take_char CHR ''-'' s3) (\<lambda>s4.
     Option.bind (take_digits 2 s4) (\<lambda>(d, s5).
     map_option (\<lambda>n. (n, s5)) (date_days y m d))))))"

text \<open>A fraction of a second: at least one digit, digits after the sixth dropped.\<close>

definition parse_fraction :: "string \<Rightarrow> (nat \<times> string) option" where
  "parse_fraction s =
     (case s of
        [] \<Rightarrow> Some (0, [])
      | c # r \<Rightarrow>
          (if c = CHR ''.'' \<or> c = CHR '','' then
             (let ds = takeWhile is_digit r
              in if ds = [] then None
                 else Some (digits_val (take 6 (ds @ ''000000'')), drop (length ds) r))
           else Some (0, s)))"

text \<open>\<open>HH[:MM[:SS[.f+]]]\<close>, as microseconds.\<close>

definition parse_hms :: "string \<Rightarrow> (nat \<times> string) option" where
  "parse_hms s =
     Option.bind (take_digits 2 s) (\<lambda>(h, s1).
       if 24 \<le> h then None else
       (case take_char CHR '':'' s1 of
          None \<Rightarrow> Some (h * 3600000000, s1)
        | Some s2 \<Rightarrow>
            Option.bind (take_digits 2 s2) (\<lambda>(m, s3).
              if 60 \<le> m then None else
              (case take_char CHR '':'' s3 of
                 None \<Rightarrow> Some ((h * 60 + m) * 60000000, s3)
               | Some s4 \<Rightarrow>
                   Option.bind (take_digits 2 s4) (\<lambda>(sec, s5).
                     if 60 \<le> sec then None else
                     map_option (\<lambda>(us, s6). (((h * 60 + m) * 60 + sec) * 1000000 + us, s6))
                       (parse_fraction s5))))))"

definition parse_offset :: "string \<Rightarrow> int option option" where
  "parse_offset s =
     (case s of
        [] \<Rightarrow> Some None
      | c # r \<Rightarrow>
          (if c = CHR ''Z'' then (if r = [] then Some (Some 0) else None)
           else if c = CHR ''+'' \<or> c = CHR ''-'' then
             (case parse_hms r of
                None \<Rightarrow> None
              | Some (us, rest) \<Rightarrow>
                  (if rest = [] then Some (Some (if c = CHR ''-'' then - int us else int us)) else None))
           else None))"

definition fromisoformat :: "string \<Rightarrow> pydt option" where
  "fromisoformat s =
     Option.bind (parse_date s) (\<lambda>(days, r).
       (case r of
          [] \<Rightarrow> Some \<lparr>dt_local = int days * day_us, dt_offset = None\<rparr>
        | sep # t \<Rightarrow>
            (if t = [] then Some \<lparr>dt_local = int days * day_us, dt_offset = None\<rparr>
             else
               Option.bind (parse_hms t) (\<lambda>(us, r2).
               Option.bind (parse_offset r2) (\<lambda>off.
                 Some \<lparr>dt_local = int days * day_us + int us, dt_offset = off\<rparr>)))))"

text \<open>\<^verbatim>\<open>datetime.fromisoformat(value.replace("Z", "+00:00"))\<close>, the parse every module makes.\<close>

definition iso_parse :: "string \<Rightarrow> pydt option" where
  "iso_parse s = fromisoformat (replace_char CHR ''Z'' ''+00:00'' s)"

section \<open>Comparison and arithmetic\<close>

definition instant :: "pydt \<Rightarrow> int" where
  "instant d = dt_local d - (case dt_offset d of None \<Rightarrow> 0 | Some off \<Rightarrow> off)"

definition aware :: "pydt \<Rightarrow> bool" where
  "aware d = (dt_offset d \<noteq> None)"

text \<open>
  \<open>time_of\<close> is the instant of a string that a validator has accepted as an aware
  timestamp; it is only applied to such strings.  \<open>iso_instant\<close> is the parse of a string
  that no validator has seen, about to be compared with an aware value: a malformed string
  raises \<^verbatim>\<open>ValueError\<close>, a naive one \<^verbatim>\<open>TypeError\<close> in the comparison.
\<close>

definition time_of :: "string \<Rightarrow> int" where
  "time_of s = (case iso_parse s of None \<Rightarrow> 0 | Some d \<Rightarrow> instant d)"

definition iso_instant :: "string \<Rightarrow> int res" where
  "iso_instant s =
     (case iso_parse s of
        None \<Rightarrow> Inl (ValueError ''Invalid isoformat string'')
      | Some d \<Rightarrow> if aware d then Inr (instant d) else Inl TypeError)"

definition is_timestamp :: "string \<Rightarrow> bool" where
  "is_timestamp s = (case iso_parse s of None \<Rightarrow> False | Some d \<Rightarrow> aware d)"

text \<open>\<^verbatim>\<open>parse(s) + timedelta(seconds=n)\<close>, as an instant.\<close>

definition plus_seconds :: "string \<Rightarrow> int \<Rightarrow> int res" where
  "plus_seconds s n =
     (case iso_parse s of
        None \<Rightarrow> Inl (ValueError ''Invalid isoformat string'')
      | Some d \<Rightarrow>
          (if 0 \<le> dt_local d + n * 1000000 \<and> dt_local d + n * 1000000 < max_local
           then Inr (instant d + n * 1000000) else Inl OverflowError))"

lemma iso_instant_timestamp: "is_timestamp s \<Longrightarrow> iso_instant s = Inr (time_of s)"
  by (auto simp: is_timestamp_def iso_instant_def time_of_def split: option.splits)

lemma iso_instant_Inr: "iso_instant s = Inr t \<longleftrightarrow> is_timestamp s \<and> t = time_of s"
  by (auto simp: is_timestamp_def iso_instant_def time_of_def split: option.splits)

section \<open>Printing\<close>

definition pad :: "nat \<Rightarrow> string \<Rightarrow> string" where
  "pad n s = replicate (n - length s) CHR ''0'' @ s"

fun month_day :: "nat list \<Rightarrow> nat \<Rightarrow> nat \<Rightarrow> nat \<times> nat" where
  "month_day [] m d = (m, Suc d)"
| "month_day (l # ls) m d = (if d < l then (m, Suc d) else month_day ls (Suc m) (d - l))"

text \<open>\<^verbatim>\<open>_ord2ymd\<close> of the library: 400-, 100-, 4- and 1-year cycles, then the month.\<close>

definition ymd :: "nat \<Rightarrow> nat \<times> nat \<times> nat" where
  "ymd n =
     (let n400 = n div 146097; r400 = n mod 146097;
          n100 = r400 div 36524; r100 = r400 mod 36524;
          n4 = r100 div 1461; r4 = r100 mod 1461;
          n1 = r4 div 365; r1 = r4 mod 365;
          y = n400 * 400 + n100 * 100 + n4 * 4 + n1 + 1
      in if n1 = 4 \<or> n100 = 4 then (y - 1, 12, 31)
         else (case month_day (month_lengths y) 1 r1 of (m, d) \<Rightarrow> (y, m, d)))"

definition iso_hms :: "nat \<Rightarrow> string" where
  "iso_hms us =
     (let sec = us div 1000000; f = us mod 1000000
      in pad 2 (str_nat (sec div 3600)) @ '':'' @ pad 2 (str_nat (sec div 60 mod 60)) @ '':''
         @ pad 2 (str_nat (sec mod 60)) @ (if f = 0 then [] else ''.'' @ pad 6 (str_nat f)))"

definition iso_offset :: "int \<Rightarrow> string" where
  "iso_offset off =
     (let a = nat \<bar>off\<bar>; sec = a div 1000000; f = a mod 1000000
      in (if off < 0 then ''-'' else ''+'') @ pad 2 (str_nat (sec div 3600)) @ '':''
         @ pad 2 (str_nat (sec div 60 mod 60))
         @ (if sec mod 60 = 0 \<and> f = 0 then []
            else '':'' @ pad 2 (str_nat (sec mod 60)) @ (if f = 0 then [] else ''.'' @ pad 6 (str_nat f))))"

definition isoformat :: "pydt \<Rightarrow> string" where
  "isoformat d =
     (let l = nat (dt_local d) in
      (case ymd (l div nat day_us) of
         (y, m, dd) \<Rightarrow>
           pad 4 (str_nat y) @ ''-'' @ pad 2 (str_nat m) @ ''-'' @ pad 2 (str_nat dd) @ ''T''
           @ iso_hms (l mod nat day_us)
           @ (case dt_offset d of None \<Rightarrow> [] | Some off \<Rightarrow> iso_offset off)))"

end
