(* ===== verification/PyDyn.thy ===== *)
theory PyDyn
  imports PyJson PyTime
begin

text \<open>
  Operations on dynamically typed values that the validators of the sources perform on
  what \<^verbatim>\<open>json.loads\<close> produced: \<^verbatim>\<open>tuple(v)\<close>, truth, hashing into a set, sorting, and the
  text validators every module repeats.  A validator takes a raw value and returns the
  typed one, so that a constructor that succeeds has typed fields.
\<close>

section \<open>Generic operations\<close>

text \<open>\<^verbatim>\<open>tuple(v)\<close>: a string is the tuple of its characters, a dictionary of its keys.\<close>

fun py_tuple :: "pyval \<Rightarrow> pyval list res" where
  "py_tuple (PList xs) = Inr xs"
| "py_tuple (PStr s) = Inr (map (\<lambda>c. PStr [c]) s)"
| "py_tuple (PDict d) = Inr (map (\<lambda>(k, _). PStr k) d)"
| "py_tuple _ = Inl TypeError"

fun py_true :: "pyval \<Rightarrow> bool" where
  "py_true PNone = False"
| "py_true (PBool b) = b"
| "py_true (PInt i) = (i \<noteq> 0)"
| "py_true (PFloat l) = True"
| "py_true (PStr s) = (s \<noteq> [])"
| "py_true (PList xs) = (xs \<noteq> [])"
| "py_true (PDict d) = (d \<noteq> [])"

fun hashable :: "pyval \<Rightarrow> bool" where
  "hashable (PList _) = False"
| "hashable (PDict _) = False"
| "hashable _ = True"

text \<open>Equal values of different types: \<^verbatim>\<open>True == 1\<close> and \<^verbatim>\<open>False == 0\<close>.\<close>

fun py_key :: "pyval \<Rightarrow> pyval" where
  "py_key (PBool b) = PInt (if b then 1 else 0)"
| "py_key v = v"

text \<open>\<^verbatim>\<open>len(vs) == len(set(vs))\<close>\<close>

definition py_unique :: "pyval list \<Rightarrow> bool res" where
  "py_unique vs =
     (if list_all hashable vs then Inr (distinct (map py_key vs)) else Inl TypeError)"

fun is_str :: "pyval \<Rightarrow> bool" where
  "is_str (PStr _) = True"
| "is_str _ = False"

fun is_num :: "pyval \<Rightarrow> bool" where
  "is_num (PInt _) = True"
| "is_num (PBool _) = True"
| "is_num (PFloat _) = True"
| "is_num _ = False"

text \<open>Whether \<^verbatim>\<open>sorted(vs)\<close> returns, for values that are hashed right after it.\<close>

definition py_sortable :: "pyval list \<Rightarrow> bool" where
  "py_sortable vs = (length vs < 2 \<or> list_all is_str vs \<or> list_all is_num vs)"

fun str_of :: "pyval \<Rightarrow> string" where
  "str_of (PStr s) = s"
| "str_of _ = []"

text \<open>\<^verbatim>\<open>if v not in ALLOWED: raise e\<close> for a set of strings; an unhashable value is a \<^verbatim>\<open>TypeError\<close>.\<close>

definition member_value :: "string list \<Rightarrow> pyexc \<Rightarrow> pyval \<Rightarrow> string res" where
  "member_value allowed e v =
     (case v of
        PStr s \<Rightarrow> req (s \<in> set allowed) e (Inr s)
      | _ \<Rightarrow> if hashable v then Inl e else Inl TypeError)"

section \<open>Text validators\<close>

definition trimmed :: "string \<Rightarrow> bool" where
  "trimmed s = (s \<noteq> [] \<and> s = strip s)"

text \<open>\<^verbatim>\<open>isinstance(value, str) and value and value == value.strip()\<close>\<close>

definition required_text :: "(string \<Rightarrow> pyexc) \<Rightarrow> pyval \<Rightarrow> string \<Rightarrow> string res" where
  "required_text exc v field =
     (case v of
        PStr s \<Rightarrow> req (trimmed s) (exc (field @ '' must be a nonblank, trimmed string'')) (Inr s)
      | _ \<Rightarrow> Inl (exc (field @ '' must be a nonblank, trimmed string'')))"

text \<open>A timestamp that carries a timezone.\<close>

definition iso8601 :: "(string \<Rightarrow> pyexc) \<Rightarrow> pyval \<Rightarrow> string \<Rightarrow> string res" where
  "iso8601 exc v field =
     bindE (required_text exc v field) (\<lambda>s.
       case iso_parse s of
         None \<Rightarrow> Inl (exc (field @ '' must be ISO-8601''))
       | Some d \<Rightarrow> req (aware d) (exc (field @ '' must include a timezone'')) (Inr s))"

lemma required_text_PStr:
  "required_text exc (PStr s) f =
     (if trimmed s then Inr s else Inl (exc (f @ '' must be a nonblank, trimmed string'')))"
  by (simp add: required_text_def req_def)

lemma required_text_Inr [res_simps]: "required_text exc v f = Inr s \<longleftrightarrow> v = PStr s \<and> trimmed s"
  by (auto simp: required_text_def req_Inr split: pyval.splits)

lemma iso8601_Inr [res_simps]:
  "iso8601 exc v f = Inr s \<longleftrightarrow> v = PStr s \<and> trimmed s \<and> is_timestamp s"
  by (auto simp: iso8601_def bindE_Inr req_Inr required_text_Inr is_timestamp_def split: option.splits)

lemma member_value_Inr [res_simps]:
  "member_value allowed e v = Inr s \<longleftrightarrow> v = PStr s \<and> s \<in> set allowed"
  by (auto simp: member_value_def req_Inr split: pyval.splits)

lemma py_unique_strs [simp]: "py_unique (map PStr ss) = Inr (distinct ss)"
  by (auto simp: py_unique_def list_all_iff distinct_map inj_on_def)

lemma py_sortable_strs [simp]: "py_sortable (map PStr ss)"
  by (auto simp: py_sortable_def list_all_iff)

lemma py_tuple_list [simp]: "py_tuple (PList xs) = Inr xs"
  by simp

lemma mapE_PStr_iff:
  assumes "\<And>v c. f v = Inr c \<longleftrightarrow> v = PStr c \<and> P c"
  shows "mapE f vs = Inr cs \<longleftrightarrow> vs = map PStr cs \<and> list_all P cs"
proof -
  have "list_all2 (\<lambda>v c. v = PStr c \<and> P c) vs cs \<longleftrightarrow> vs = map PStr cs \<and> list_all P cs"
  proof (induction vs arbitrary: cs)
    case (Cons v vs) then show ?case by (cases cs) auto
  qed auto
  with assms show ?thesis by (simp add: mapE_Inr_iff)
qed

lemma map_PStr_eq [simp]: "map PStr xs = map PStr ys \<longleftrightarrow> xs = ys"
  by (rule inj_map_eq_map) (simp add: inj_def)

lemma PStr_image_iff [simp]: "PStr x \<in> PStr ` A \<longleftrightarrow> x \<in> A"
  by auto

lemma str_of_PStr [simp]: "str_of \<circ> PStr = id"
  by auto

lemma strs_subset: "(\<forall>v\<in>set vs. v \<in> PStr ` A) \<longleftrightarrow> (\<exists>ss. vs = map PStr ss \<and> set ss \<subseteq> A)"
proof (induction vs)
  case (Cons v vs)
  show ?case by (auto simp: Cons.IH Cons_eq_map_conv)
qed auto

end
