(* ===== verification/Interfaces.thy ===== *)
theory Interfaces
  imports PyDyn
begin

text \<open>
  The contracts that several components of the program share, as locales.

  \<open>record_codec\<close> is what every record class with \<^verbatim>\<open>to_dict\<close>/\<^verbatim>\<open>from_dict\<close> promises to the
  file stores, the fingerprints and the receipts built on it.  \<open>guarded_machine\<close> is what
  every mutable component promises to the code that calls its operations in any order: an
  invariant that each operation keeps, and an order on states along which each operation
  moves forward (spent budgets do not come back, revocations stay, logs only grow).
  \<open>atomic_machine\<close> adds that an operation that raises has changed nothing.
  \<open>hash_chain\<close> is a log whose entries carry the fingerprint of their predecessor.
\<close>

section \<open>Records that are written as JSON\<close>

locale record_codec =
  fixes enc :: "'a \<Rightarrow> pyval"
    and dec :: "pyval \<Rightarrow> 'a res"
    and ok :: "'a \<Rightarrow> bool"
  assumes printable: "ok x \<Longrightarrow> json_ok (enc x)"
    and dec_enc: "ok x \<Longrightarrow> dec (norm (enc x)) = Inr x"
begin

lemma enc_norm_inject: "ok x \<Longrightarrow> ok y \<Longrightarrow> norm (enc x) = norm (enc y) \<longleftrightarrow> x = y"
  using dec_enc by (metis Inr_inject)

lemma text_inject: "ok x \<Longrightarrow> ok y \<Longrightarrow> dumps asc (enc x) = dumps asc (enc y) \<longleftrightarrow> x = y"
  by (simp add: dumps_inject printable enc_norm_inject)

lemma read_text: "ok x \<Longrightarrow> \<exists>v. loads (dumps asc (enc x)) = Some v \<and> dec v = Inr x"
  by (simp add: loads_dumps printable dec_enc)

lemma read_line: "ok x \<Longrightarrow> \<exists>v. loads (dumps asc (enc x) @ ''\<newline>'') = Some v \<and> dec v = Inr x"
  by (simp add: loads_dumps_line printable dec_enc)

lemma printable_list: "list_all ok xs \<Longrightarrow> json_ok (PList (map enc xs))"
  by (induction xs) (auto simp: printable)

lemma dec_list: "list_all ok xs \<Longrightarrow> mapE dec (map norm (map enc xs)) = Inr xs"
  by (induction xs) (auto simp: dec_enc)

text \<open>A hash that is injective on the texts in use tells different records apart.\<close>

lemma fingerprint_inject:
  assumes "inj_on h T" "dumps asc (enc x) \<in> T" "dumps asc (enc y) \<in> T" "ok x" "ok y"
    "h (dumps asc (enc x)) = h (dumps asc (enc y))"
  shows "x = y"
  using assms text_inject by (metis inj_on_def)

end

section \<open>Components with operations\<close>

locale guarded_machine =
  fixes step :: "'op \<Rightarrow> 's \<Rightarrow> 's"
    and inv :: "'s \<Rightarrow> bool"
    and le :: "'s \<Rightarrow> 's \<Rightarrow> bool"
  assumes inv_step: "inv s \<Longrightarrow> inv (step a s)"
    and le_step: "inv s \<Longrightarrow> le s (step a s)"
    and le_refl: "le s s"
    and le_trans: "le s t \<Longrightarrow> le t u \<Longrightarrow> le s u"
begin

lemma inv_run: "inv s \<Longrightarrow> inv (fold step as s)"
  by (induction as arbitrary: s) (simp_all add: inv_step)

lemma le_run: "inv s \<Longrightarrow> le s (fold step as s)"
proof (induction as arbitrary: s)
  case (Cons a as)
  have "le (step a s) (fold step as (step a s))"
    by (rule Cons.IH [OF inv_step [OF Cons.prems]])
  then have "le s (fold step as (step a s))" by (rule le_trans [OF le_step [OF Cons.prems]])
  then show ?case by simp
qed (simp add: le_refl)

lemma le_run_between: "inv s \<Longrightarrow> le (fold step as s) (fold step (as @ bs) s)"
  by (simp add: inv_run le_run)

end

locale atomic_machine =
  fixes op :: "'op \<Rightarrow> 's \<Rightarrow> 'r res \<times> 's"
    and inv :: "'s \<Rightarrow> bool"
    and le :: "'s \<Rightarrow> 's \<Rightarrow> bool"
  assumes raise_keeps: "inv s \<Longrightarrow> op a s = (Inl e, s') \<Longrightarrow> s' = s"
    and return_inv: "inv s \<Longrightarrow> op a s = (Inr r, s') \<Longrightarrow> inv s'"
    and return_le: "inv s \<Longrightarrow> op a s = (Inr r, s') \<Longrightarrow> le s s'"
    and order_refl: "le s s"
    and order_trans: "le s t \<Longrightarrow> le t u \<Longrightarrow> le s u"
begin

lemma keeps_inv: "inv s \<Longrightarrow> inv (snd (op a s))"
  using raise_keeps return_inv by (cases "op a s", cases "fst (op a s)") auto

lemma moves_forward: "inv s \<Longrightarrow> le s (snd (op a s))"
proof (cases "op a s")
  case (Pair r s')
  assume "inv s"
  with Pair show ?thesis
    by (cases r) (auto simp: order_refl dest: raise_keeps return_le)
qed

end

sublocale atomic_machine \<subseteq> guarded_machine "\<lambda>a s. snd (op a s)" inv le
  by unfold_locales (blast intro: keeps_inv moves_forward order_refl order_trans)+

section \<open>Hash chains\<close>

text \<open>
  A log is a chain when the first entry has no predecessor and each later entry carries the
  fingerprint of the one before it.
\<close>

fun chained :: "('e \<Rightarrow> string) \<Rightarrow> ('e \<Rightarrow> string option) \<Rightarrow> string option \<Rightarrow> 'e list \<Rightarrow> bool" where
  "chained fp prev p [] = True"
| "chained fp prev p (e # es) = (prev e = p \<and> chained fp prev (Some (fp e)) es)"

definition chain_tip :: "('e \<Rightarrow> string) \<Rightarrow> 'e list \<Rightarrow> string option" where
  "chain_tip fp es = (if es = [] then None else Some (fp (last es)))"

lemma chained_append:
  "chained fp prev p (xs @ ys) \<longleftrightarrow>
     chained fp prev p xs \<and> chained fp prev (if xs = [] then p else Some (fp (last xs))) ys"
  by (induction xs arbitrary: p) auto

lemma chained_snoc:
  "chained fp prev None (xs @ [e]) \<longleftrightarrow> chained fp prev None xs \<and> prev e = chain_tip fp xs"
  by (auto simp: chained_append chain_tip_def)

locale hash_chain =
  fixes fp :: "'e \<Rightarrow> string"
    and prev :: "'e \<Rightarrow> string option"
    and good :: "'e \<Rightarrow> bool"
  assumes fp_inject: "good x \<Longrightarrow> good y \<Longrightarrow> fp x = fp y \<Longrightarrow> x = y"
begin

text \<open>Equal tips of two chains of the same length fix every entry before them.\<close>

lemma tip_determines:
  assumes "chained fp prev None xs" "chained fp prev None ys" "list_all good xs" "list_all good ys"
    "chain_tip fp xs = chain_tip fp ys"
  shows "xs = ys"
  using assms
proof (induction xs arbitrary: ys rule: rev_induct)
  case Nil
  then show ?case by (auto simp: chain_tip_def split: if_splits)
next
  case (snoc x xs)
  then obtain y ys' where ys: "ys = ys' @ [y]"
    by (cases ys rule: rev_cases) (auto simp: chain_tip_def)
  with snoc.prems have "x = y" by (intro fp_inject) (auto simp: chain_tip_def)
  moreover from this snoc.prems ys have "xs = ys'"
    by (intro snoc.IH) (auto simp: chained_snoc)
  ultimately show ?case using ys by simp
qed

end

end
