(* ===== verification/Contracts.thy ===== *)
theory Contracts
  imports Interfaces
begin

text \<open>
  \<^verbatim>\<open>nightrecon_shared_core/contracts.py\<close>: engagement metadata, evidence records and the
  envelope that carries them between the Night applications, with the validation each
  constructor does and the recursive refusal of secret-like field names.
\<close>

section \<open>Values\<close>

text \<open>
  \<^verbatim>\<open>v == w\<close> on JSON values: dictionaries compare without regard to order and \<^verbatim>\<open>True == 1\<close>.
  A float is its text and equals only the same text.
\<close>

fun canon :: "pyval \<Rightarrow> pyval" where
  "canon (PBool b) = PInt (if b then 1 else 0)"
| "canon (PList xs) = PList (map canon xs)"
| "canon (PDict d) = PDict (sort_key fst (map (\<lambda>(k, v). (k, canon v)) d))"
| "canon v = v"

definition py_eq :: "pyval \<Rightarrow> pyval \<Rightarrow> bool" where
  "py_eq v w = (canon v = canon w)"

definition forbidden_fragments :: "string list" where
  "forbidden_fragments =
     [''password'', ''passwd'', ''secret'', ''token'', ''credential'', ''cookie'',
      ''authorization'', ''api_key'', ''apikey'', ''private_key'', ''session'']"

definition secret_like :: "string \<Rightarrow> bool" where
  "secret_like k = list_ex (\<lambda>f. contains f (lower k)) forbidden_fragments"

text \<open>\<^verbatim>\<open>_reject_secret_keys\<close>, with the path it reports.\<close>

fun reject_secret_keys :: "pyval \<Rightarrow> string \<Rightarrow> unit res"
and reject_in_dict :: "(string \<times> pyval) list \<Rightarrow> string \<Rightarrow> unit res"
and reject_in_list :: "pyval list \<Rightarrow> nat \<Rightarrow> string \<Rightarrow> unit res" where
  "reject_secret_keys (PDict d) path = reject_in_dict d path"
| "reject_secret_keys (PList xs) path = reject_in_list xs 0 path"
| "reject_secret_keys v path = Inr ()"
| "reject_in_dict [] path = Inr ()"
| "reject_in_dict ((k, v) # d) path =
     req (\<not> secret_like k)
         (ValueError (''secret-like evidence field is not allowed: '' @ path @ ''.'' @ k))
    (bindE (reject_secret_keys v (path @ ''.'' @ k)) (\<lambda>_. reject_in_dict d path))"
| "reject_in_list [] i path = Inr ()"
| "reject_in_list (x # xs) i path =
     bindE (reject_secret_keys x (path @ ''['' @ str_nat i @ '']'')) (\<lambda>_. reject_in_list xs (Suc i) path)"

section \<open>Engagement metadata\<close>

definition valid_nights :: "string list" where
  "valid_nights = [''white'', ''blue'', ''red'', ''purple'', ''black'']"

definition valid_statuses :: "string list" where
  "valid_statuses = [''planned'', ''active'', ''paused'', ''completed'', ''archived'']"

text \<open>This module's \<^verbatim>\<open>_iso8601\<close> does not ask for a timezone.\<close>

definition iso8601_text :: "pyval \<Rightarrow> string \<Rightarrow> string res" where
  "iso8601_text v field =
     bindE (required_text ValueError v field) (\<lambda>s.
       req (iso_parse s \<noteq> None) (ValueError (field @ '' must be ISO-8601'')) (Inr s))"

definition optional_text :: "pyval \<Rightarrow> string \<Rightarrow> string option res" where
  "optional_text v field =
     (if v = PNone then Inr None else bindE (required_text ValueError v field) (\<lambda>s. Inr (Some s)))"

definition opt_str :: "string option \<Rightarrow> pyval" where
  "opt_str x = (case x of None \<Rightarrow> PNone | Some s \<Rightarrow> PStr s)"

record metadata =
  em_engagement :: string
  em_name :: string
  em_created :: string
  em_reference :: string
  em_status :: string
  em_description :: "string option"

definition metadata_init ::
  "pyval \<Rightarrow> pyval \<Rightarrow> pyval \<Rightarrow> pyval \<Rightarrow> pyval \<Rightarrow> pyval \<Rightarrow> pyval \<Rightarrow> metadata res" where
  "metadata_init schema eid name created reference status description =
     req (py_eq_int schema 1) (ValueError ''unsupported engagement metadata schema version'')
    (bindE (required_text ValueError eid ''engagement_id'') (\<lambda>e.
     bindE (required_text ValueError name ''name'') (\<lambda>n.
     bindE (iso8601_text created ''created_at'') (\<lambda>c.
     bindE (required_text ValueError reference ''authorization_reference'') (\<lambda>r.
     bindE (member_value valid_statuses (ValueError ''unsupported engagement status'') status) (\<lambda>s.
     bindE (optional_text description ''description'') (\<lambda>d.
     Inr \<lparr>em_engagement = e, em_name = n, em_created = c, em_reference = r, em_status = s,
          em_description = d\<rparr>)))))))"

definition metadata_make :: "metadata \<Rightarrow> metadata res" where
  "metadata_make m =
     metadata_init (PInt 1) (PStr (em_engagement m)) (PStr (em_name m)) (PStr (em_created m))
       (PStr (em_reference m)) (PStr (em_status m)) (opt_str (em_description m))"

definition metadata_to_dict :: "metadata \<Rightarrow> pyval" where
  "metadata_to_dict m = PDict
     [(''engagement_id'', PStr (em_engagement m)), (''name'', PStr (em_name m)),
      (''created_at'', PStr (em_created m)), (''authorization_reference'', PStr (em_reference m)),
      (''status'', PStr (em_status m)), (''description'', opt_str (em_description m)),
      (''schema_version'', PInt 1)]"

definition metadata_keys :: "string list" where
  "metadata_keys =
     [''schema_version'', ''engagement_id'', ''name'', ''created_at'', ''authorization_reference'',
      ''status'', ''description'']"

definition metadata_from_dict :: "pyval \<Rightarrow> metadata res" where
  "metadata_from_dict payload =
     (case payload of
        PDict d \<Rightarrow>
          req (is_dict_with metadata_keys payload) (ValueError ''engagement metadata schema is not supported'')
            (metadata_init (dget d ''schema_version'') (dget d ''engagement_id'') (dget d ''name'')
              (dget d ''created_at'') (dget d ''authorization_reference'') (dget d ''status'')
              (dget d ''description''))
      | _ \<Rightarrow> Inl (ValueError ''engagement metadata must be an object''))"

section \<open>Evidence records\<close>

record evidence =
  er_engagement :: string
  er_id :: string
  er_night :: string
  er_type :: string
  er_observed :: string
  er_provenance :: string
  er_data :: pyval
  er_limitations :: "string list"

definition evidence_init ::
  "pyval \<Rightarrow> pyval \<Rightarrow> pyval \<Rightarrow> pyval \<Rightarrow> pyval \<Rightarrow> pyval \<Rightarrow> pyval \<Rightarrow> pyval \<Rightarrow> pyval list \<Rightarrow> evidence res" where
  "evidence_init schema eid vid night typ observed provenance data limitations =
     req (py_eq_int schema 1) (ValueError ''unsupported evidence schema version'')
    (bindE (required_text ValueError eid ''engagement_id'') (\<lambda>e.
     bindE (required_text ValueError vid ''evidence_id'') (\<lambda>i.
     bindE (required_text ValueError typ ''evidence_type'') (\<lambda>t.
     bindE (required_text ValueError provenance ''provenance'') (\<lambda>p.
     bindE (member_value valid_nights (ValueError ''source_night must identify a known Night'') night) (\<lambda>n.
     bindE (iso8601_text observed ''observed_at'') (\<lambda>ob.
     req (case data of PDict _ \<Rightarrow> True | _ \<Rightarrow> False) (ValueError ''data must be an object'')
    (bindE (reject_secret_keys data ''$'') (\<lambda>_.
     bindE (mapE (\<lambda>l. required_text ValueError l ''limitation'') limitations) (\<lambda>ls.
     Inr \<lparr>er_engagement = e, er_id = i, er_night = n, er_type = t, er_observed = ob,
          er_provenance = p, er_data = data, er_limitations = ls\<rparr>))))))))))"

definition evidence_make :: "evidence \<Rightarrow> evidence res" where
  "evidence_make r =
     evidence_init (PInt 1) (PStr (er_engagement r)) (PStr (er_id r)) (PStr (er_night r)) (PStr (er_type r))
       (PStr (er_observed r)) (PStr (er_provenance r)) (er_data r) (map PStr (er_limitations r))"

definition evidence_to_dict :: "evidence \<Rightarrow> pyval" where
  "evidence_to_dict r = PDict
     [(''engagement_id'', PStr (er_engagement r)), (''evidence_id'', PStr (er_id r)),
      (''source_night'', PStr (er_night r)), (''evidence_type'', PStr (er_type r)),
      (''observed_at'', PStr (er_observed r)), (''provenance'', PStr (er_provenance r)),
      (''data'', er_data r), (''limitations'', PList (map PStr (er_limitations r))),
      (''schema_version'', PInt 1)]"

definition evidence_keys :: "string list" where
  "evidence_keys =
     [''schema_version'', ''engagement_id'', ''evidence_id'', ''source_night'', ''evidence_type'',
      ''observed_at'', ''provenance'', ''data'', ''limitations'']"

definition evidence_from_dict :: "pyval \<Rightarrow> evidence res" where
  "evidence_from_dict payload =
     (case payload of
        PDict d \<Rightarrow>
          req (is_dict_with evidence_keys payload) (ValueError ''evidence record schema is not supported'')
            (case dget d ''limitations'' of
               PList ls \<Rightarrow>
                 req (list_all is_str ls) (ValueError ''limitations must be a list or tuple of strings'')
                   (evidence_init (dget d ''schema_version'') (dget d ''engagement_id'') (dget d ''evidence_id'')
                     (dget d ''source_night'') (dget d ''evidence_type'') (dget d ''observed_at'')
                     (dget d ''provenance'') (dget d ''data'') ls)
             | _ \<Rightarrow> Inl (ValueError ''limitations must be a list or tuple of strings''))
      | _ \<Rightarrow> Inl (ValueError ''evidence record must be an object''))"

text \<open>The generated \<^verbatim>\<open>__eq__\<close> of the dataclass.\<close>

definition evidence_eq :: "evidence \<Rightarrow> evidence \<Rightarrow> bool" where
  "evidence_eq r s =
     (r\<lparr>er_data := PNone\<rparr> = s\<lparr>er_data := PNone\<rparr> \<and> py_eq (er_data r) (er_data s))"

section \<open>Envelopes\<close>

record envelope =
  en_engagement :: string
  en_records :: "evidence list"
  en_metadata :: "metadata option"

definition envelope_init ::
  "pyval \<Rightarrow> pyval \<Rightarrow> evidence list \<Rightarrow> metadata option \<Rightarrow> envelope res" where
  "envelope_init schema eid records meta =
     req (py_eq_int schema 1) (ValueError ''unsupported engagement schema version'')
    (bindE (required_text ValueError eid ''engagement_id'') (\<lambda>e.
     req (list_all (\<lambda>r. er_engagement r = e) records)
         (ValueError ''all evidence records must belong to the envelope engagement'')
    (req (case meta of None \<Rightarrow> True | Some m \<Rightarrow> em_engagement m = e)
         (ValueError ''engagement metadata must belong to the envelope engagement'')
    (req (distinct (map er_id records))
         (ValueError ''evidence_id values must be unique within an engagement envelope'')
    (Inr \<lparr>en_engagement = e, en_records = records, en_metadata = meta\<rparr>)))))"

definition envelope_to_dict :: "envelope \<Rightarrow> pyval" where
  "envelope_to_dict en = PDict
     [(''schema_version'', PInt 1),
      (''engagement_id'', PStr (en_engagement en)),
      (''metadata'', case en_metadata en of None \<Rightarrow> PNone | Some m \<Rightarrow> metadata_to_dict m),
      (''records'', PList (map evidence_to_dict (en_records en)))]"

definition envelope_from_dict :: "pyval \<Rightarrow> envelope res" where
  "envelope_from_dict payload =
     (case payload of
        PDict d \<Rightarrow>
          req (is_dict_with [''schema_version'', ''engagement_id'', ''records''] payload
               \<or> is_dict_with [''schema_version'', ''engagement_id'', ''metadata'', ''records''] payload)
              (ValueError ''engagement envelope schema is not supported'')
            (case dget d ''records'' of
               PList rs \<Rightarrow>
                 (case dget d ''metadata'' of
                    PNone \<Rightarrow>
                      bindE (mapE evidence_from_dict rs) (\<lambda>records.
                        envelope_init (dget d ''schema_version'') (dget d ''engagement_id'') records None)
                  | PDict md \<Rightarrow>
                      bindE (metadata_from_dict (PDict md)) (\<lambda>m.
                      bindE (mapE evidence_from_dict rs) (\<lambda>records.
                        envelope_init (dget d ''schema_version'') (dget d ''engagement_id'') records (Some m)))
                  | _ \<Rightarrow> Inl (ValueError ''metadata must be an object or null''))
             | _ \<Rightarrow> Inl (ValueError ''records must be a list''))
      | _ \<Rightarrow> Inl (ValueError ''engagement envelope must be an object''))"

definition envelope_to_json :: "envelope \<Rightarrow> string" where
  "envelope_to_json en = dumps True (envelope_to_dict en)"

definition envelope_from_json :: "string \<Rightarrow> envelope res" where
  "envelope_from_json text =
     (case loads text of
        None \<Rightarrow> Inl (ValueError ''engagement envelope is not valid JSON'')
      | Some v \<Rightarrow> envelope_from_dict v)"

section \<open>Facts\<close>

text \<open>Every field name of a value, at any depth.\<close>

fun nested_keys :: "pyval \<Rightarrow> string set" where
  "nested_keys (PDict d) = fst ` set d \<union> \<Union> (set (map (\<lambda>(k, v). nested_keys v) d))"
| "nested_keys (PList xs) = \<Union> (set (map nested_keys xs))"
| "nested_keys v = {}"

lemma nested_keys_dict:
  "(\<forall>k\<in>nested_keys (PDict d). P k) \<longleftrightarrow> (\<forall>(k, v)\<in>set d. P k \<and> (\<forall>k\<in>nested_keys v. P k))"
  by (induction d) auto

lemma reject_secret_keys_iff:
  "reject_secret_keys v path = Inr u \<longleftrightarrow> (\<forall>k\<in>nested_keys v. \<not> secret_like k)"
  "reject_in_dict d path = Inr u \<longleftrightarrow>
     (\<forall>(k, v)\<in>set d. \<not> secret_like k \<and> (\<forall>k\<in>nested_keys v. \<not> secret_like k))"
  "reject_in_list xs i path = Inr u \<longleftrightarrow> (\<forall>v\<in>set xs. \<forall>k\<in>nested_keys v. \<not> secret_like k)"
proof (induction v path and d path and xs i path
    rule: reject_secret_keys_reject_in_dict_reject_in_list.induct)
  case (1 d path)
  then show ?case by (simp only: reject_secret_keys.simps nested_keys_dict)
next
  case (5 k v d path)
  then show ?case by (cases "secret_like k") (auto simp: bindE_Inr)
qed (auto simp: bindE_Inr)

definition metadata_ok :: "metadata \<Rightarrow> bool" where
  "metadata_ok m \<longleftrightarrow> metadata_make m = Inr m"

text \<open>Records whose data is as \<^verbatim>\<open>json.loads\<close> returns it from a file the program wrote.\<close>

definition evidence_ok :: "evidence \<Rightarrow> bool" where
  "evidence_ok r \<longleftrightarrow> evidence_make r = Inr r \<and> json_ok (er_data r) \<and> norm (er_data r) = er_data r"

lemma norm_opt_str [simp]: "norm (opt_str x) = opt_str x"
  by (simp add: opt_str_def split: option.splits)

lemma json_ok_opt_str [simp]: "json_ok (opt_str x)"
  by (simp add: opt_str_def split: option.splits)

lemma metadata_from_to_dict:
  "metadata_ok m \<Longrightarrow> metadata_from_dict (norm (metadata_to_dict m)) = Inr m"
  by (simp add: metadata_to_dict_def metadata_from_dict_def is_dict_with_def metadata_keys_def dget_def
      metadata_ok_def metadata_make_def)

lemma evidence_from_to_dict:
  "evidence_ok r \<Longrightarrow> evidence_from_dict (norm (evidence_to_dict r)) = Inr r"
  by (simp add: evidence_to_dict_def evidence_from_dict_def is_dict_with_def evidence_keys_def dget_def
      evidence_ok_def evidence_make_def list_all_iff)

interpretation metadata_codec: record_codec metadata_to_dict metadata_from_dict metadata_ok
  by unfold_locales (simp_all add: metadata_from_to_dict, simp add: metadata_to_dict_def)

interpretation evidence_codec: record_codec evidence_to_dict evidence_from_dict evidence_ok
  by unfold_locales (simp_all add: evidence_from_to_dict, simp add: evidence_to_dict_def evidence_ok_def list_all_iff)

definition envelope_make :: "envelope \<Rightarrow> envelope res" where
  "envelope_make en = envelope_init (PInt 1) (PStr (en_engagement en)) (en_records en) (en_metadata en)"

definition envelope_ok :: "envelope \<Rightarrow> bool" where
  "envelope_ok en \<longleftrightarrow> envelope_make en = Inr en \<and> list_all evidence_ok (en_records en) \<and>
     (case en_metadata en of None \<Rightarrow> True | Some m \<Rightarrow> metadata_ok m)"

lemma metadata_to_dict_dict: "\<exists>d. norm (metadata_to_dict m) = PDict d"
  by (simp add: metadata_to_dict_def)

lemma envelope_from_to_dict:
  assumes "envelope_ok en"
  shows "envelope_from_dict (norm (envelope_to_dict en)) = Inr en"
proof -
  have r: "mapE evidence_from_dict (map (norm \<circ> evidence_to_dict) (en_records en)) = Inr (en_records en)"
    using evidence_codec.dec_list [of "en_records en"] assms by (simp add: envelope_ok_def comp_def)
  show ?thesis
  proof (cases "en_metadata en")
    case None
    with assms r show ?thesis
      by (simp add: envelope_to_dict_def envelope_from_dict_def is_dict_with_def dget_def envelope_ok_def envelope_make_def)
  next
    case (Some m)
    with assms have m: "metadata_from_dict (norm (metadata_to_dict m)) = Inr m"
      by (simp add: envelope_ok_def metadata_from_to_dict)
    obtain md where "norm (metadata_to_dict m) = PDict md" using metadata_to_dict_dict by blast
    with Some m assms r show ?thesis
      by (simp add: envelope_to_dict_def envelope_from_dict_def is_dict_with_def dget_def envelope_ok_def envelope_make_def)
  qed
qed

lemma envelope_to_dict_json: "envelope_ok en \<Longrightarrow> json_ok (envelope_to_dict en)"
  using evidence_codec.printable_list [of "en_records en"] metadata_codec.printable
  by (auto simp: envelope_to_dict_def envelope_ok_def split: option.splits)

interpretation envelope_codec: record_codec envelope_to_dict envelope_from_dict envelope_ok
  by unfold_locales (simp_all add: envelope_from_to_dict envelope_to_dict_json)

end
