(* ===== verification/PyIp.thy ===== *)
theory PyIp
  imports PyStr
begin

text \<open>
  The part of Python's \<^verbatim>\<open>ipaddress\<close> the sources use: \<^verbatim>\<open>ip_address\<close>, \<^verbatim>\<open>ip_network\<close> with
  \<^verbatim>\<open>strict=False\<close>, membership of an address in a network and \<^verbatim>\<open>subnet_of\<close>.  An address is
  its version, its integer and its IPv6 scope identifier; a network is its version, its
  base integer, its prefix length and the scope identifier of its base address.  Masking with a netmask is written with division
  by the size of the host part.
\<close>

section \<open>Addresses\<close>

record ipaddr =
  ip_ver :: nat
  ip_int :: nat
  ip_scope :: "string option"

record ipnet =
  net_ver :: nat
  net_base :: nat
  net_plen :: nat
  net_scope :: "string option"

definition parse_octet :: "string \<Rightarrow> nat option" where
  "parse_octet s =
     (if all_digits s \<and> length s \<le> 3 \<and> (s = ''0'' \<or> hd s \<noteq> CHR ''0'') \<and> digits_val s \<le> 255
      then Some (digits_val s) else None)"

definition ipv4_int :: "string \<Rightarrow> nat option" where
  "ipv4_int s =
     (case split_on CHR ''.'' s of
        [a, b, c, d] \<Rightarrow>
          (case (parse_octet a, parse_octet b, parse_octet c, parse_octet d) of
             (Some w, Some x, Some y, Some z) \<Rightarrow> Some (((w * 256 + x) * 256 + y) * 256 + z)
           | _ \<Rightarrow> None)
      | _ \<Rightarrow> None)"

definition hex_digit :: "char \<Rightarrow> nat option" where
  "hex_digit c =
     (let n = of_char c :: nat in
      if 48 \<le> n \<and> n \<le> 57 then Some (n - 48)
      else if 97 \<le> n \<and> n \<le> 102 then Some (n - 87)
      else if 65 \<le> n \<and> n \<le> 70 then Some (n - 55) else None)"

fun hex_val :: "nat \<Rightarrow> string \<Rightarrow> nat option" where
  "hex_val acc [] = Some acc"
| "hex_val acc (c # s) = (case hex_digit c of None \<Rightarrow> None | Some d \<Rightarrow> hex_val (acc * 16 + d) s)"

definition parse_hextet :: "string \<Rightarrow> nat option" where
  "parse_hextet s = (if s = [] \<or> 4 < length s then None else hex_val 0 s)"

text \<open>
  The parts between the colons: \<open>Inl\<close> a text, \<open>Inr\<close> one of the two hextets an embedded
  IPv4 tail stands for (the source prints them in hexadecimal and parses them again).
\<close>

definition ipv6_parts :: "string \<Rightarrow> (string + nat) list option" where
  "ipv6_parts s =
     (let ps = split_on CHR '':'' s in
      if length ps < 3 then None
      else if CHR ''.'' \<in> set (last ps) then
        (case ipv4_int (last ps) of
           None \<Rightarrow> None
         | Some v \<Rightarrow> Some (map Inl (butlast ps) @ [Inr (v div 65536), Inr (v mod 65536)]))
      else Some (map Inl ps))"

definition part_val :: "string + nat \<Rightarrow> nat option" where
  "part_val p = (case p of Inl s \<Rightarrow> parse_hextet s | Inr n \<Rightarrow> Some n)"

fun hextets :: "nat \<Rightarrow> (string + nat) list \<Rightarrow> nat option" where
  "hextets acc [] = Some acc"
| "hextets acc (p # ps) = (case part_val p of None \<Rightarrow> None | Some v \<Rightarrow> hextets (acc * 65536 + v) ps)"

text \<open>
  The loop over the inner parts finds at most one empty part (the \<^verbatim>\<open>::\<close>); an empty first
  or last part is only allowed next to it.
\<close>

definition ipv6_int :: "string \<Rightarrow> nat option" where
  "ipv6_int s =
     (case ipv6_parts s of
        None \<Rightarrow> None
      | Some ps \<Rightarrow>
          (let n = length ps;
               empties = filter (\<lambda>i. ps ! i = Inl []) [1..<n - 1]
           in if 9 < n then None
              else (case empties of
                [] \<Rightarrow>
                  (if n \<noteq> 8 \<or> hd ps = Inl [] \<or> last ps = Inl [] then None else hextets 0 ps)
              | [k] \<Rightarrow>
                  (let hi = (if hd ps = Inl [] then k - 1 else k);
                       lo = (if last ps = Inl [] then n - k - 2 else n - k - 1)
                   in if (hd ps = Inl [] \<and> hi \<noteq> 0) \<or> (last ps = Inl [] \<and> lo \<noteq> 0) \<or> 8 < hi + lo + 1
                      then None
                      else (case hextets 0 (take hi ps) of
                              None \<Rightarrow> None
                            | Some h \<Rightarrow>
                                hextets (h * 65536 ^ (8 - (hi + lo))) (drop (n - lo) ps)))
              | _ \<Rightarrow> None)))"

text \<open>\<^verbatim>\<open>_split_scope_id\<close>\<close>

definition split_scope :: "string \<Rightarrow> (string \<times> string option) option" where
  "split_scope s =
     (case split_on CHR ''%'' s of
        [a] \<Rightarrow> Some (a, None)
      | [a, z] \<Rightarrow> (if z = [] then None else Some (a, Some z))
      | _ \<Rightarrow> None)"

definition ipv6_addr :: "string \<Rightarrow> (nat \<times> string option) option" where
  "ipv6_addr s =
     (if CHR ''/'' \<in> set s then None else
      (case split_scope s of
         None \<Rightarrow> None
       | Some (a, z) \<Rightarrow> map_option (\<lambda>n. (n, z)) (ipv6_int a)))"

definition ip_address :: "string \<Rightarrow> ipaddr option" where
  "ip_address s =
     (case (if CHR ''/'' \<in> set s then None else ipv4_int s) of
        Some n \<Rightarrow> Some \<lparr>ip_ver = 4, ip_int = n, ip_scope = None\<rparr>
      | None \<Rightarrow>
          (case ipv6_addr s of
             None \<Rightarrow> None
           | Some (n, z) \<Rightarrow> Some \<lparr>ip_ver = 6, ip_int = n, ip_scope = z\<rparr>))"

section \<open>Networks\<close>

definition width :: "nat \<Rightarrow> nat" where
  "width v = (if v = 4 then 32 else 128)"

definition prefix_from_string :: "nat \<Rightarrow> string \<Rightarrow> nat option" where
  "prefix_from_string w s = (if all_digits s \<and> digits_val s \<le> w then Some (digits_val s) else None)"

text \<open>A netmask or a hostmask written as an IPv4 address.\<close>

definition prefix_from_mask_int :: "nat \<Rightarrow> nat option" where
  "prefix_from_mask_int m = find (\<lambda>p. m = 2 ^ 32 - 2 ^ (32 - p)) [0..<33]"

definition prefix_from_ip_string :: "string \<Rightarrow> nat option" where
  "prefix_from_ip_string s =
     (case ipv4_int s of
        None \<Rightarrow> None
      | Some m \<Rightarrow>
          (case prefix_from_mask_int m of
             Some p \<Rightarrow> Some p
           | None \<Rightarrow> prefix_from_mask_int (2 ^ 32 - 1 - m)))"

text \<open>Masking host bits away gives an address without a scope identifier.\<close>

definition net_make :: "nat \<Rightarrow> nat \<Rightarrow> string option \<Rightarrow> nat \<Rightarrow> ipnet" where
  "net_make v n z p =
     (let h = 2 ^ (width v - p); b = n div h * h
      in \<lparr>net_ver = v, net_base = b, net_plen = p, net_scope = (if b = n then z else None)\<rparr>)"

definition ipv4_network :: "string \<Rightarrow> ipnet option" where
  "ipv4_network s =
     (case split_on CHR ''/'' s of
        [a] \<Rightarrow> map_option (\<lambda>n. net_make 4 n None 32) (ipv4_int a)
      | [a, m] \<Rightarrow>
          (case ipv4_int a of
             None \<Rightarrow> None
           | Some n \<Rightarrow>
               (case prefix_from_string 32 m of
                  Some p \<Rightarrow> Some (net_make 4 n None p)
                | None \<Rightarrow> map_option (net_make 4 n None) (prefix_from_ip_string m)))
      | _ \<Rightarrow> None)"

definition ipv6_network :: "string \<Rightarrow> ipnet option" where
  "ipv6_network s =
     (case split_on CHR ''/'' s of
        [a] \<Rightarrow> map_option (\<lambda>(n, z). net_make 6 n z 128) (ipv6_addr a)
      | [a, m] \<Rightarrow>
          (case ipv6_addr a of
             None \<Rightarrow> None
           | Some (n, z) \<Rightarrow> map_option (net_make 6 n z) (prefix_from_string 128 m))
      | _ \<Rightarrow> None)"

definition ip_network :: "string \<Rightarrow> ipnet option" where
  "ip_network s = (case ipv4_network s of Some n \<Rightarrow> Some n | None \<Rightarrow> ipv6_network s)"

definition host_size :: "ipnet \<Rightarrow> nat" where
  "host_size n = 2 ^ (width (net_ver n) - net_plen n)"

definition broadcast :: "ipnet \<Rightarrow> nat" where
  "broadcast n = net_base n + host_size n - 1"

text \<open>
  \<^verbatim>\<open>address in network\<close>, which compares integers, and \<^verbatim>\<open>a.subnet_of(b)\<close> for networks of one
  version, which compares the base addresses with \<^verbatim>\<open><=\<close>: equal integers with different scope
  identifiers do not compare.
\<close>

definition net_contains :: "ipnet \<Rightarrow> ipaddr \<Rightarrow> bool" where
  "net_contains n a =
     (net_ver n = ip_ver a \<and> ip_int a div host_size n * host_size n = net_base n)"

definition base_le :: "ipnet \<Rightarrow> ipnet \<Rightarrow> bool" where
  "base_le a b = (net_base a < net_base b \<or> net_base a = net_base b \<and> net_scope a = net_scope b)"

definition subnet_of :: "ipnet \<Rightarrow> ipnet \<Rightarrow> bool" where
  "subnet_of a b = (base_le b a \<and> broadcast a \<le> broadcast b)"

section \<open>Facts\<close>

definition net_ok :: "ipnet \<Rightarrow> bool" where
  "net_ok n = (net_base n mod host_size n = 0)"

lemma host_size_pos [simp]: "0 < host_size n" "host_size n \<noteq> 0"
  by (simp_all add: host_size_def)

lemma net_make_ok: "net_ok (net_make v n z p)"
  by (simp add: net_ok_def net_make_def host_size_def Let_def)

lemma ip_network_ok: "ip_network s = Some n \<Longrightarrow> net_ok n"
  by (auto simp: ip_network_def ipv4_network_def ipv6_network_def net_make_ok
      split: option.splits list.splits)

lemma block_upper: "0 < (h::nat) \<Longrightarrow> x < h + y \<longleftrightarrow> x \<le> y + h - 1"
  by auto

lemma net_contains_range:
  assumes "net_ok n"
  shows "net_contains n a \<longleftrightarrow>
    net_ver n = ip_ver a \<and> net_base n \<le> ip_int a \<and> ip_int a \<le> broadcast n"
proof -
  let ?h = "host_size n"
  have "?h dvd net_base n" using assms by (simp add: net_ok_def mod_eq_0_iff_dvd)
  then obtain q where q: "net_base n = q * ?h" by (metis dvd_def mult.commute)
  have "ip_int a div ?h * ?h = q * ?h \<longleftrightarrow> ip_int a div ?h = q" by simp
  also have "\<dots> \<longleftrightarrow> q * ?h \<le> ip_int a \<and> ip_int a < Suc q * ?h"
    using div_nat_eqI [of ?h q "ip_int a"]
    by (metis host_size_pos(1) dividend_less_div_times div_times_less_eq_dividend mult.commute
        mult_Suc add.commute)
  also have "\<dots> \<longleftrightarrow> q * ?h \<le> ip_int a \<and> ip_int a \<le> q * ?h + ?h - 1"
    using block_upper [OF host_size_pos(1), of "ip_int a" n "q * ?h"] by simp
  finally show ?thesis by (auto simp: net_contains_def broadcast_def q)
qed

text \<open>A subnet's addresses are addresses of the larger network.\<close>

lemma subnet_of_contains:
  assumes "net_ok a" "net_ok b" "net_ver a = net_ver b" "subnet_of a b" "net_contains a x"
  shows "net_contains b x"
  using assms by (auto simp: net_contains_range subnet_of_def base_le_def)

end
