(* ===== verification/Authorization.thy ===== *)
theory Authorization
  imports PyIp
begin

text \<open>
  \<^verbatim>\<open>nightrecon_shared_core/authorization.py\<close>: target parsing and the scope check every
  action passes through.  \<open>parse_target\<close> classifies a text as an address, a network or a
  host name; a \<open>scope\<close> is a list of such targets, and \<open>is_authorized\<close> asks whether one of
  its rules covers a target.
\<close>

section \<open>Targets\<close>

datatype target_type = IPV4 | IPV6 | CIDR | HOSTNAME

record target =
  t_value :: string
  t_type :: target_type

definition hostname_label :: "string \<Rightarrow> bool" where
  "hostname_label l =
     (1 \<le> length l \<and> length l \<le> 63 \<and> list_all (\<lambda>c. is_alnum c \<or> c = CHR ''-'') l
      \<and> hd l \<noteq> CHR ''-'' \<and> last l \<noteq> CHR ''-'')"

definition hostname_pattern :: "string \<Rightarrow> bool" where
  "hostname_pattern s =
     (1 \<le> length s \<and> length s \<le> 253 \<and> list_all hostname_label (split_on CHR ''.'' s))"

definition parse_target :: "string \<Rightarrow> target res" where
  "parse_target value =
     (let v = strip value in
      if v = [] then Inl (ValueError ''Target cannot be empty.'')
      else if CHR ''/'' \<in> set v then
        (case ip_network v of
           None \<Rightarrow> Inl (ValueError (''Invalid CIDR target: '' @ v))
         | Some _ \<Rightarrow> Inr \<lparr>t_value = v, t_type = CIDR\<rparr>)
      else
        (case ip_address v of
           Some a \<Rightarrow> Inr \<lparr>t_value = v, t_type = (if ip_ver a = 4 then IPV4 else IPV6)\<rparr>
         | None \<Rightarrow>
             (if hostname_pattern v then Inr \<lparr>t_value = lower v, t_type = HOSTNAME\<rparr>
              else Inl (ValueError (''Invalid target: '' @ v)))))"

section \<open>Scopes\<close>

type_synonym scope = "target list"

definition scope_from_values :: "string list \<Rightarrow> scope res" where
  "scope_from_values vs =
     req (vs \<noteq> []) (ValueError ''At least one scope rule is required.'') (mapE parse_target vs)"

text \<open>A constructor of \<^verbatim>\<open>ipaddress\<close> applied to the text of a target.\<close>

definition the_address :: "string \<Rightarrow> ipaddr res" where
  "the_address s = (case ip_address s of None \<Rightarrow> Inl (ValueError s) | Some a \<Rightarrow> Inr a)"

definition the_network :: "string \<Rightarrow> ipnet res" where
  "the_network s = (case ip_network s of None \<Rightarrow> Inl (ValueError s) | Some n \<Rightarrow> Inr n)"

definition scope_matches :: "target \<Rightarrow> target \<Rightarrow> bool res" where
  "scope_matches rule t =
     (if t_type t = HOSTNAME then Inr (t_type rule = HOSTNAME \<and> t_value rule = t_value t)
      else if t_type t = IPV4 \<or> t_type t = IPV6 then
        bindE (the_address (t_value t)) (\<lambda>ip.
          if t_type rule = IPV4 \<or> t_type rule = IPV6 then
            bindE (the_address (t_value rule)) (\<lambda>r. Inr (r = ip))
          else if t_type rule = CIDR then
            bindE (the_network (t_value rule)) (\<lambda>n. Inr (net_contains n ip))
          else Inr False)
      else
        bindE (the_network (t_value t)) (\<lambda>n.
          if t_type rule \<noteq> CIDR then Inr False
          else
            bindE (the_network (t_value rule)) (\<lambda>r.
              if net_ver r \<noteq> net_ver n then Inr False else Inr (subnet_of n r))))"

text \<open>\<^verbatim>\<open>any(...)\<close> over the rules: the first rule that matches ends the loop.\<close>

fun is_authorized :: "scope \<Rightarrow> target \<Rightarrow> bool res" where
  "is_authorized [] t = Inr False"
| "is_authorized (r # rs) t =
     bindE (scope_matches r t) (\<lambda>m. if m then Inr True else is_authorized rs t)"

section \<open>Facts\<close>

text \<open>What \<open>parse_target\<close> guarantees of its result: the value parses again.\<close>

definition target_ok :: "target \<Rightarrow> bool" where
  "target_ok t =
     (case t_type t of
        HOSTNAME \<Rightarrow> True
      | CIDR \<Rightarrow> ip_network (t_value t) \<noteq> None
      | _ \<Rightarrow> ip_address (t_value t) \<noteq> None)"

lemma parse_target_ok: "parse_target s = Inr t \<Longrightarrow> target_ok t"
  by (auto simp: parse_target_def target_ok_def Let_def split: if_splits option.splits)

lemma scope_from_values_ok: "scope_from_values vs = Inr sc \<Longrightarrow> sc \<noteq> [] \<and> list_all target_ok sc"
  by (auto simp: scope_from_values_def req_Inr mapE_Inr_iff list_all2_conv_all_nth list_all_length
      intro: parse_target_ok)

lemma scope_matches_total:
  assumes "target_ok r" "target_ok t"
  shows "\<exists>b. scope_matches r t = Inr b"
  using assms
  by (auto simp: scope_matches_def target_ok_def the_address_def the_network_def
      split: target_type.splits)

lemma is_authorized_total:
  "list_all target_ok sc \<Longrightarrow> target_ok t \<Longrightarrow> \<exists>b. is_authorized sc t = Inr b"
proof (induction sc)
  case (Cons r rs)
  then show ?case using scope_matches_total [of r t] by auto
qed auto

lemma is_authorized_True:
  assumes "list_all target_ok sc" "target_ok t"
  shows "is_authorized sc t = Inr True \<longleftrightarrow> (\<exists>r\<in>set sc. scope_matches r t = Inr True)"
  using assms
proof (induction sc)
  case (Cons r rs)
  moreover obtain b where "scope_matches r t = Inr b"
    using Cons.prems scope_matches_total [of r t] by auto
  ultimately show ?case by (cases b) auto
qed simp

end
