(* ===== verification/EngagementPolicy.thy ===== *)
theory EngagementPolicy
  imports PyDyn Authorization
begin

text \<open>
  \<^verbatim>\<open>nightrecon_shared_core/engagement_policy.py\<close>: the persistent execution policy of an
  engagement, the decision \<open>evaluate_action\<close> takes from it, the weaker re-check
  \<open>evaluate_reserved_action\<close>, the file-backed policy store with its rollback, and the
  append-only authorization audit file.
\<close>

section \<open>The policy\<close>

definition valid_impacts :: "string list" where
  "valid_impacts = [''low'', ''standard'', ''high'']"

definition impact_rank :: "string \<Rightarrow> nat" where
  "impact_rank i = (if i = ''low'' then 0 else if i = ''standard'' then 1 else 2)"

text \<open>\<^verbatim>\<open>^[a-z][a-z0-9_.-]{0,63}$\<close>\<close>

definition capability_pattern :: "string \<Rightarrow> bool" where
  "capability_pattern s = lower_name_pattern 63 s"

record exec_policy =
  ep_engagement :: string
  ep_scope :: "string list"
  ep_valid_from :: string
  ep_valid_until :: string
  ep_max_actions :: int
  ep_permitted :: "string list"
  ep_max_impact :: string
  ep_approval_required :: "string list"
  ep_revoked :: bool
  ep_used :: int

text \<open>\<^verbatim>\<open>_capabilities\<close>: returns the capabilities as they are stored and tested later.\<close>

fun capability_value :: "string \<Rightarrow> pyval \<Rightarrow> string res" where
  "capability_value field (PStr s) =
     req (capability_pattern s) (ValueError (field @ '' contains an invalid capability'')) (Inr s)"
| "capability_value field _ = Inl (ValueError (field @ '' contains an invalid capability''))"

definition capabilities :: "pyval list \<Rightarrow> string \<Rightarrow> string list res" where
  "capabilities vs field =
     req (vs \<noteq> []) (ValueError (field @ '' must contain at least one capability''))
    (bindE (py_unique vs) (\<lambda>u.
     req u (ValueError (field @ '' must not contain duplicates''))
       (mapE (capability_value field) vs)))"

text \<open>\<^verbatim>\<open>parse_target(value)\<close> on a raw value: \<^verbatim>\<open>value.strip()\<close> needs a string.\<close>

fun scope_value :: "pyval \<Rightarrow> string res" where
  "scope_value (PStr s) = bindE (parse_target s) (\<lambda>_. Inr s)"
| "scope_value _ = Inl AttributeError"

fun int_value :: "pyexc \<Rightarrow> pyval \<Rightarrow> int res" where
  "int_value e (PInt i) = Inr i"
| "int_value e _ = Inl e"

definition impact_value :: "pyval \<Rightarrow> string res" where
  "impact_value v = member_value valid_impacts (ValueError ''max_impact must be low, standard, or high'') v"

text \<open>
  \<^verbatim>\<open>__post_init__\<close>, on the raw fields.  \<open>revoked\<close> is the one field the code does not
  validate; it is only ever tested for truth, which is what the model keeps of it.
\<close>

definition policy_init ::
  "pyval \<Rightarrow> pyval \<Rightarrow> pyval list \<Rightarrow> pyval \<Rightarrow> pyval \<Rightarrow> pyval \<Rightarrow> pyval list \<Rightarrow> pyval
   \<Rightarrow> pyval list \<Rightarrow> pyval \<Rightarrow> pyval \<Rightarrow> exec_policy res" where
  "policy_init schema eid scope vfrom vuntil maxa permitted impact approval revoked used =
     req (py_eq_int schema 1) (ValueError ''unsupported engagement execution policy schema version'')
    (bindE (required_text ValueError eid ''engagement_id'') (\<lambda>eid'.
     req (scope \<noteq> []) (ValueError ''scope must contain at least one target rule'')
    (bindE (mapE scope_value scope) (\<lambda>scope'.
     bindE (iso8601 ValueError vfrom ''valid_from'') (\<lambda>vf.
     bindE (iso8601 ValueError vuntil ''valid_until'') (\<lambda>vu.
     req (time_of vf < time_of vu) (ValueError ''valid_until must be later than valid_from'')
    (bindE (int_value (ValueError ''max_actions must be a positive integer'') maxa) (\<lambda>mx.
     req (1 \<le> mx) (ValueError ''max_actions must be a positive integer'')
    (bindE (int_value (ValueError ''actions_used must be an integer'') used) (\<lambda>us.
     req (0 \<le> us \<and> us \<le> mx) (ValueError ''actions_used must be between zero and max_actions'')
    (bindE (capabilities permitted ''permitted_capabilities'') (\<lambda>perm.
     bindE (impact_value impact) (\<lambda>imp.
     req (py_sortable approval) TypeError
    (bindE (py_unique approval) (\<lambda>u.
     req u (ValueError ''approval_required_capabilities must not contain duplicates'')
    (req (\<forall>v\<in>set approval. v \<in> PStr ` set perm)
         (ValueError ''approval-required capabilities must also be permitted'')
    (Inr \<lparr>ep_engagement = eid', ep_scope = scope', ep_valid_from = vf, ep_valid_until = vu,
           ep_max_actions = mx, ep_permitted = perm, ep_max_impact = imp,
           ep_approval_required = map str_of approval, ep_revoked = py_true revoked,
           ep_used = us\<rparr>)))))))))))))))))"

text \<open>The constructor on typed fields: what \<^verbatim>\<open>dataclasses.replace\<close> runs.\<close>

definition policy_make :: "exec_policy \<Rightarrow> exec_policy res" where
  "policy_make p =
     policy_init (PInt 1) (PStr (ep_engagement p)) (map PStr (ep_scope p)) (PStr (ep_valid_from p))
       (PStr (ep_valid_until p)) (PInt (ep_max_actions p)) (map PStr (ep_permitted p))
       (PStr (ep_max_impact p)) (map PStr (ep_approval_required p)) (PBool (ep_revoked p))
       (PInt (ep_used p))"

definition policy_ok :: "exec_policy \<Rightarrow> bool" where
  "policy_ok p = (policy_make p = Inr p)"

definition policy_to_dict :: "exec_policy \<Rightarrow> pyval" where
  "policy_to_dict p = PDict
     [(''engagement_id'', PStr (ep_engagement p)),
      (''scope'', PList (map PStr (ep_scope p))),
      (''valid_from'', PStr (ep_valid_from p)),
      (''valid_until'', PStr (ep_valid_until p)),
      (''max_actions'', PInt (ep_max_actions p)),
      (''permitted_capabilities'', PList (map PStr (ep_permitted p))),
      (''max_impact'', PStr (ep_max_impact p)),
      (''approval_required_capabilities'', PList (map PStr (ep_approval_required p))),
      (''revoked'', PBool (ep_revoked p)),
      (''actions_used'', PInt (ep_used p)),
      (''schema_version'', PInt 1)]"

definition legacy_keys :: "string list" where
  "legacy_keys =
     [''schema_version'', ''engagement_id'', ''scope'', ''valid_from'', ''valid_until'',
      ''max_actions'', ''permitted_capabilities'', ''approval_required_capabilities'',
      ''revoked'', ''actions_used'']"

definition policy_from_dict :: "pyval \<Rightarrow> exec_policy res" where
  "policy_from_dict payload =
     (case payload of
        PDict d \<Rightarrow>
          req (is_dict_with legacy_keys payload \<or> is_dict_with (''max_impact'' # legacy_keys) payload)
              (ValueError ''engagement execution policy schema is not supported'')
         (bindE (py_tuple (dget d ''scope'')) (\<lambda>scope.
          bindE (py_tuple (dget d ''permitted_capabilities'')) (\<lambda>permitted.
          bindE (py_tuple (dget d ''approval_required_capabilities'')) (\<lambda>approval.
            policy_init (dget d ''schema_version'') (dget d ''engagement_id'') scope
              (dget d ''valid_from'') (dget d ''valid_until'') (dget d ''max_actions'') permitted
              (case map_of d ''max_impact'' of None \<Rightarrow> PStr ''high'' | Some v \<Rightarrow> v)
              approval (dget d ''revoked'') (dget d ''actions_used'')))))
      | _ \<Rightarrow> Inl (ValueError ''engagement execution policy must be an object''))"

section \<open>Decisions\<close>

record decision =
  de_engagement :: string
  de_allowed :: bool
  de_code :: string
  de_reason :: string
  de_capability :: string
  de_target :: string
  de_impact :: string
  de_approval :: bool
  de_used :: int
  de_max :: int
  de_remaining :: int

record action =
  ac_capability :: string
  ac_target :: string
  ac_impact :: string
  ac_approval :: bool

text \<open>The checks both evaluators make on their arguments, in order.\<close>

definition check_request :: "action \<Rightarrow> pydt \<Rightarrow> target res" where
  "check_request a now =
     bindE (required_text ValueError (PStr (ac_capability a)) ''capability'') (\<lambda>_.
     req (capability_pattern (ac_capability a)) (ValueError ''capability is invalid'')
    (bindE (parse_target (ac_target a)) (\<lambda>t.
     req (ac_impact a \<in> set valid_impacts) (ValueError ''impact must be low, standard, or high'')
    (req (aware now) (ValueError ''now must include a timezone'') (Inr t)))))"

text \<open>\<^verbatim>\<open>Scope.from_values(list(policy.scope)).is_authorized(target_obj)\<close>\<close>

definition in_scope :: "exec_policy \<Rightarrow> target \<Rightarrow> bool res" where
  "in_scope p t = bindE (scope_from_values (ep_scope p)) (\<lambda>sc. is_authorized sc t)"

definition needs_approval :: "exec_policy \<Rightarrow> action \<Rightarrow> bool" where
  "needs_approval p a = (ac_impact a = ''high'' \<or> ac_capability a \<in> set (ep_approval_required p))"

text \<open>The \<^verbatim>\<open>if\<close> chain of \<open>evaluate_action\<close>: the verdict, its code and its reason.\<close>

definition action_verdict ::
  "exec_policy \<Rightarrow> string option \<Rightarrow> action \<Rightarrow> target \<Rightarrow> int \<Rightarrow> (bool \<times> string \<times> string) res" where
  "action_verdict p status a t now =
     (if status \<noteq> Some ''active'' then
        Inr (False, ''engagement_not_active'', ''engagement status is not active'')
      else if ep_revoked p then
        Inr (False, ''authorization_revoked'', ''engagement authorization has been revoked'')
      else if now < time_of (ep_valid_from p) then
        Inr (False, ''authorization_not_started'', ''authorization validity window has not started'')
      else if time_of (ep_valid_until p) < now then
        Inr (False, ''authorization_expired'', ''authorization validity window has expired'')
      else if ac_capability a \<notin> set (ep_permitted p) then
        Inr (False, ''capability_not_permitted'', ''capability is not permitted by the engagement policy'')
      else if impact_rank (ep_max_impact p) < impact_rank (ac_impact a) then
        Inr (False, ''impact_exceeds_policy'', ''action impact exceeds the engagement policy ceiling'')
      else
        bindE (in_scope p t) (\<lambda>ok.
          if \<not> ok then
            Inr (False, ''target_out_of_scope'', ''target is outside the engagement scope'')
          else if ep_max_actions p \<le> ep_used p then
            Inr (False, ''action_budget_exhausted'', ''engagement action budget is exhausted'')
          else if needs_approval p a \<and> \<not> ac_approval a then
            Inr (False, ''approval_required'', ''action requires explicit operator approval'')
          else Inr (True, ''authorized'', ''action is authorized by the active engagement policy'')))"

definition decide :: "exec_policy \<Rightarrow> action \<Rightarrow> target \<Rightarrow> bool \<times> string \<times> string \<Rightarrow> decision" where
  "decide p a t v =
     \<lparr>de_engagement = ep_engagement p, de_allowed = fst v, de_code = fst (snd v),
      de_reason = snd (snd v), de_capability = ac_capability a, de_target = t_value t,
      de_impact = ac_impact a, de_approval = ac_approval a, de_used = ep_used p,
      de_max = ep_max_actions p, de_remaining = max 0 (ep_max_actions p - ep_used p)\<rparr>"

definition evaluate_action ::
  "exec_policy \<Rightarrow> string option \<Rightarrow> action \<Rightarrow> pydt \<Rightarrow> decision res" where
  "evaluate_action p status a now =
     bindE (check_request a now) (\<lambda>t.
     bindE (action_verdict p status a t (instant now)) (\<lambda>v. Inr (decide p a t v)))"

definition reserved_verdict ::
  "exec_policy \<Rightarrow> string option \<Rightarrow> action \<Rightarrow> target \<Rightarrow> int \<Rightarrow> (bool \<times> string \<times> string) res" where
  "reserved_verdict p status a t now =
     (if status \<noteq> Some ''active'' then
        Inr (False, ''engagement_not_active'', ''engagement status is not active'')
      else if ep_revoked p then
        Inr (False, ''authorization_revoked'', ''engagement authorization has been revoked'')
      else if now < time_of (ep_valid_from p) then
        Inr (False, ''authorization_not_started'', ''authorization validity window has not started'')
      else if time_of (ep_valid_until p) < now then
        Inr (False, ''authorization_expired'', ''authorization validity window has expired'')
      else if ac_capability a \<notin> set (ep_permitted p) then
        Inr (False, ''capability_not_permitted'', ''capability is not permitted by the engagement policy'')
      else
        bindE (in_scope p t) (\<lambda>ok.
          if \<not> ok then
            Inr (False, ''target_out_of_scope'', ''target is outside the engagement scope'')
          else if needs_approval p a \<and> \<not> ac_approval a then
            Inr (False, ''approval_required'', ''action requires explicit operator approval'')
          else Inr (True, ''authorized_reserved_action'',
                 ''reserved action remains authorized by the active engagement policy'')))"

definition evaluate_reserved_action ::
  "exec_policy \<Rightarrow> string option \<Rightarrow> action \<Rightarrow> pydt \<Rightarrow> decision res" where
  "evaluate_reserved_action p status a now =
     bindE (check_request a now) (\<lambda>t.
     bindE (reserved_verdict p status a t (instant now)) (\<lambda>v. Inr (decide p a t v)))"

section \<open>What the constructor establishes\<close>

lemma capability_value_Inr [res_simps]:
  "capability_value f v = Inr c \<longleftrightarrow> v = PStr c \<and> capability_pattern c"
  by (cases v) (auto simp: req_Inr)

lemma capabilities_Inr [res_simps]:
  "capabilities vs f = Inr cs \<longleftrightarrow>
     vs = map PStr cs \<and> cs \<noteq> [] \<and> distinct cs \<and> list_all capability_pattern cs"
  by (auto simp: capabilities_def res_simps mapE_PStr_iff [OF capability_value_Inr])

lemma scope_value_Inr [res_simps]:
  "scope_value v = Inr s \<longleftrightarrow> v = PStr s \<and> is_ok (parse_target s)"
  by (cases v) (auto simp: bindE_Inr is_ok_iff)

lemma int_value_Inr [res_simps]: "int_value e v = Inr i \<longleftrightarrow> v = PInt i"
  by (cases v) auto

lemma impact_value_Inr [res_simps]: "impact_value v = Inr s \<longleftrightarrow> v = PStr s \<and> s \<in> set valid_impacts"
  by (simp add: impact_value_def member_value_Inr)

definition policy_facts :: "exec_policy \<Rightarrow> bool" where
  "policy_facts p \<longleftrightarrow>
     trimmed (ep_engagement p) \<and> ep_scope p \<noteq> [] \<and> list_all (\<lambda>s. is_ok (parse_target s)) (ep_scope p) \<and>
     trimmed (ep_valid_from p) \<and> is_timestamp (ep_valid_from p) \<and>
     trimmed (ep_valid_until p) \<and> is_timestamp (ep_valid_until p) \<and>
     time_of (ep_valid_from p) < time_of (ep_valid_until p) \<and>
     1 \<le> ep_max_actions p \<and> 0 \<le> ep_used p \<and> ep_used p \<le> ep_max_actions p \<and>
     ep_permitted p \<noteq> [] \<and> distinct (ep_permitted p) \<and> list_all capability_pattern (ep_permitted p) \<and>
     ep_max_impact p \<in> set valid_impacts \<and>
     distinct (ep_approval_required p) \<and> set (ep_approval_required p) \<subseteq> set (ep_permitted p)"

lemma policy_init_Inr:
  "policy_init schema eid scope vfrom vuntil maxa permitted impact approval revoked used = Inr p \<longleftrightarrow>
     py_eq_int schema 1 \<and> eid = PStr (ep_engagement p) \<and> scope = map PStr (ep_scope p) \<and>
     vfrom = PStr (ep_valid_from p) \<and> vuntil = PStr (ep_valid_until p) \<and> maxa = PInt (ep_max_actions p) \<and>
     permitted = map PStr (ep_permitted p) \<and> impact = PStr (ep_max_impact p) \<and>
     approval = map PStr (ep_approval_required p) \<and> py_true revoked = ep_revoked p \<and>
     used = PInt (ep_used p) \<and> policy_facts p"
  (is "?L = ?R")
proof
  assume ?L
  then show ?R
    by (auto simp: policy_init_def res_simps mapE_PStr_iff [OF scope_value_Inr] policy_facts_def strs_subset
        intro!: exec_policy.equality)
next
  assume ?R
  then show ?L
    by (auto simp: policy_init_def res_simps mapE_PStr_iff [OF scope_value_Inr] policy_facts_def subset_iff)
qed

lemma policy_ok_facts: "policy_ok p \<longleftrightarrow> policy_facts p"
  by (simp add: policy_ok_def policy_make_def policy_init_Inr py_eq_int.simps)

lemma policy_init_ok: "policy_init a b c d e f g h i j k = Inr p \<Longrightarrow> policy_ok p"
  by (simp add: policy_init_Inr policy_ok_facts)

lemma scope_parses:
  assumes "policy_ok p"
  obtains sc where "scope_from_values (ep_scope p) = Inr sc" "list_all target_ok sc"
    "list_all2 (\<lambda>s r. parse_target s = Inr r) (ep_scope p) sc"
proof -
  have "\<forall>s\<in>set (ep_scope p). \<exists>r. parse_target s = Inr r" and ne: "ep_scope p \<noteq> []"
    using assms by (auto simp: policy_ok_facts policy_facts_def list_all_iff is_ok_iff)
  then obtain f where "\<forall>s\<in>set (ep_scope p). parse_target s = Inr (f s)" by metis
  then have "list_all2 (\<lambda>s r. parse_target s = Inr r) (ep_scope p) (map f (ep_scope p))"
    by (simp add: list.rel_map list.rel_refl_strong)
  moreover from this ne have "scope_from_values (ep_scope p) = Inr (map f (ep_scope p))"
    by (simp add: scope_from_values_def mapE_Inr_iff)
  ultimately show ?thesis using that scope_from_values_ok by blast
qed

definition covered :: "string list \<Rightarrow> target \<Rightarrow> bool" where
  "covered vs t \<longleftrightarrow> (\<exists>s\<in>set vs. \<exists>r. parse_target s = Inr r \<and> scope_matches r t = Inr True)"

lemma in_scope_covered:
  assumes "policy_ok p" "target_ok t"
  shows "in_scope p t = Inr (covered (ep_scope p) t)"
proof -
  obtain sc where sc: "scope_from_values (ep_scope p) = Inr sc" "list_all target_ok sc"
    "list_all2 (\<lambda>s r. parse_target s = Inr r) (ep_scope p) sc"
    using scope_parses [OF assms(1)] .
  obtain b where b: "is_authorized sc t = Inr b"
    using is_authorized_total [OF sc(2) assms(2)] by blast
  have "(\<exists>r\<in>set sc. scope_matches r t = Inr True) \<longleftrightarrow> covered (ep_scope p) t"
    using sc(3) unfolding covered_def
    by (induction rule: list_all2_induct) auto
  with is_authorized_True [OF sc(2) assms(2)] b have "b = covered (ep_scope p) t" by auto
  with sc b show ?thesis by (simp add: in_scope_def)
qed

definition may_run :: "exec_policy \<Rightarrow> string option \<Rightarrow> action \<Rightarrow> target \<Rightarrow> int \<Rightarrow> bool" where
  "may_run p status a t now \<longleftrightarrow>
     status = Some ''active'' \<and> \<not> ep_revoked p \<and>
     time_of (ep_valid_from p) \<le> now \<and> now \<le> time_of (ep_valid_until p) \<and>
     ac_capability a \<in> set (ep_permitted p) \<and> covered (ep_scope p) t \<and>
     (needs_approval p a \<longrightarrow> ac_approval a)"

lemma action_verdict_allowed:
  assumes "policy_ok p" "target_ok t"
  shows "\<exists>c r. action_verdict p status a t now =
     Inr (may_run p status a t now \<and> impact_rank (ac_impact a) \<le> impact_rank (ep_max_impact p)
          \<and> ep_used p < ep_max_actions p, c, r)"
  using assms by (auto simp: action_verdict_def in_scope_covered may_run_def)

lemma reserved_verdict_allowed:
  assumes "policy_ok p" "target_ok t"
  shows "\<exists>c r. reserved_verdict p status a t now = Inr (may_run p status a t now, c, r)"
  using assms by (auto simp: reserved_verdict_def in_scope_covered may_run_def)

lemma check_request_target: "check_request a now = Inr t \<Longrightarrow> parse_target (ac_target a) = Inr t \<and> target_ok t"
  by (auto simp: check_request_def res_simps intro: parse_target_ok)

lemma may_run_used [simp]: "may_run (p\<lparr>ep_used := u\<rparr>) status a t now = may_run p status a t now"
  by (simp add: may_run_def needs_approval_def)

lemma policy_ok_used: "policy_ok p \<Longrightarrow> 0 \<le> u \<Longrightarrow> u \<le> ep_max_actions p \<Longrightarrow> policy_ok (p\<lparr>ep_used := u\<rparr>)"
  by (simp add: policy_ok_facts policy_facts_def)

lemma policy_ok_revoked: "policy_ok p \<Longrightarrow> policy_ok (p\<lparr>ep_revoked := r\<rparr>)"
  by (simp add: policy_ok_facts policy_facts_def)

lemma evaluate_action_Inr:
  assumes "policy_ok p" "evaluate_action p status a now = Inr d"
  obtains t where "check_request a now = Inr t" "target_ok t"
    "de_allowed d \<longleftrightarrow> may_run p status a t (instant now) \<and>
       impact_rank (ac_impact a) \<le> impact_rank (ep_max_impact p) \<and> ep_used p < ep_max_actions p"
    "de_remaining d = ep_max_actions p - ep_used p"
proof -
  obtain t where t: "check_request a now = Inr t"
    using assms(2) by (auto simp: evaluate_action_def bindE_Inr)
  have ok: "target_ok t" using check_request_target [OF t] by simp
  have "ep_used p \<le> ep_max_actions p" using assms(1) by (simp add: policy_ok_facts policy_facts_def)
  with action_verdict_allowed [OF assms(1) ok, of status a "instant now"] assms(2) t ok
  show ?thesis by (intro that [OF t ok]) (auto simp: evaluate_action_def decide_def)
qed

lemma evaluate_reserved_run:
  assumes "policy_ok p" "check_request a now = Inr t"
  shows "\<exists>r. evaluate_reserved_action p status a now = Inr r \<and>
    de_allowed r = may_run p status a t (instant now) \<and> de_remaining r = max 0 (ep_max_actions p - ep_used p)"
  using reserved_verdict_allowed [OF assms(1), of t status a "instant now"] check_request_target [OF assms(2)]
  by (auto simp: evaluate_reserved_action_def assms(2) decide_def)

end
