(* ===== verification/PolicyStore.thy ===== *)
theory PolicyStore
  imports EngagementPolicy Interfaces
begin

text \<open>
  \<^verbatim>\<open>nightrecon_shared_core/engagement_policy.py\<close>: the class \<^verbatim>\<open>FileEngagementPolicyStore\<close>
  with its atomic file replacement and rollback, and the authorization audit file.

  The store's state is its dictionary (an association list with distinct keys) and the
  text of its file.  An operation returns its result together with the state, because a
  failing operation may still have changed the state before it raised.  The outcome of the
  operating system's calls is an argument: whether the temporary file could be written,
  and what each \<^verbatim>\<open>os.replace\<close> does.
\<close>

section \<open>The file\<close>

datatype os_outcome = Replaced | Denied "int option" | Failed

record io_env =
  io_windows :: bool
  io_write_ok :: bool
  io_replace :: "nat \<Rightarrow> os_outcome"

text \<open>
  \<^verbatim>\<open>_replace_policy_file\<close>: six attempts; only a Windows sharing violation (5 or 32) before
  the last one is retried.  \<open>n\<close> counts the attempts that are left.
\<close>

fun replace_loop :: "io_env \<Rightarrow> nat \<Rightarrow> nat \<Rightarrow> unit res" where
  "replace_loop io attempt 0 = Inr ()"
| "replace_loop io attempt (Suc n) =
     (case io_replace io attempt of
        Replaced \<Rightarrow> Inr ()
      | Failed \<Rightarrow> Inl OSError
      | Denied w \<Rightarrow>
          (if \<not> io_windows io \<or> (w \<noteq> Some 5 \<and> w \<noteq> Some 32) \<or> attempt = 5
           then Inl (PermissionError ''os.replace'')
           else replace_loop io (Suc attempt) n))"

definition replace_policy_file :: "io_env \<Rightarrow> unit res" where
  "replace_policy_file io = replace_loop io 0 6"

section \<open>The store\<close>

record policy_store =
  ps_policies :: "(string \<times> exec_policy) list"
  ps_file :: "string option"

definition policy_payload :: "(string \<times> exec_policy) list \<Rightarrow> pyval" where
  "policy_payload m = PDict
     [(''schema_version'', PInt 1),
      (''policies'', PList (map (\<lambda>(_, p). policy_to_dict p) (sort_key fst m)))]"

definition policy_text :: "(string \<times> exec_policy) list \<Rightarrow> string" where
  "policy_text m = dumps True (policy_payload m) @ ''\<newline>''"

fun load_policies :: "pyval list \<Rightarrow> (string \<times> exec_policy) list \<Rightarrow> (string \<times> exec_policy) list res" where
  "load_policies [] m = Inr m"
| "load_policies (x # xs) m =
     bindE (policy_from_dict x) (\<lambda>p.
     req (map_of m (ep_engagement p) = None)
         (ValueError ''engagement authorization store contains a duplicate policy'')
       (load_policies xs (m @ [(ep_engagement p, p)])))"

text \<open>\<^verbatim>\<open>_load\<close>\<close>

definition policies_of_file :: "string option \<Rightarrow> (string \<times> exec_policy) list res" where
  "policies_of_file file =
     (case file of
        None \<Rightarrow> Inr []
      | Some text \<Rightarrow>
          (case loads text of
             None \<Rightarrow> Inl (ValueError ''engagement authorization store is not valid UTF-8 JSON'')
           | Some payload \<Rightarrow>
               req (is_dict_with [''schema_version'', ''policies''] payload)
                   (ValueError ''engagement authorization store schema is not supported'')
              (req (py_eq_int (dget (dict_items payload) ''schema_version'') 1)
                   (ValueError ''engagement authorization store schema version is not supported'')
                (case dget (dict_items payload) ''policies'' of
                   PList items \<Rightarrow> load_policies items []
                 | _ \<Rightarrow> Inl (ValueError ''policies must be a list'')))))"

definition open_store :: "string option \<Rightarrow> policy_store res" where
  "open_store file =
     bindE (policies_of_file file) (\<lambda>m. Inr \<lparr>ps_policies = m, ps_file = file\<rparr>)"

text \<open>\<^verbatim>\<open>_persist\<close>: write a temporary file, then replace; a failure leaves the file as it was.\<close>

definition persist :: "io_env \<Rightarrow> policy_store \<Rightarrow> unit res \<times> policy_store" where
  "persist io s =
     (if \<not> io_write_ok io then (Inl OSError, s)
      else (case replace_policy_file io of
              Inl e \<Rightarrow> (Inl e, s)
            | Inr _ \<Rightarrow> (Inr (), s\<lparr>ps_file := Some (policy_text (ps_policies s))\<rparr>)))"

definition store_policy :: "policy_store \<Rightarrow> string \<Rightarrow> exec_policy option res" where
  "store_policy s eid =
     bindE (required_text ValueError (PStr eid) ''engagement_id'') (\<lambda>e. Inr (map_of (ps_policies s) e))"

definition set_policy :: "io_env \<Rightarrow> exec_policy \<Rightarrow> policy_store \<Rightarrow> unit res \<times> policy_store" where
  "set_policy io p s =
     (case map_of (ps_policies s) (ep_engagement p) of
        Some q \<Rightarrow>
          (if q \<noteq> p
           then (Inl (ValueError (''engagement authorization policy already exists: '' @ ep_engagement p)), s)
           else (Inr (), s))
      | None \<Rightarrow>
          (case persist io (s\<lparr>ps_policies := AList.update (ep_engagement p) p (ps_policies s)\<rparr>) of
             (Inr _, s') \<Rightarrow> (Inr (), s')
           | (Inl e, s') \<Rightarrow> (Inl e, s'\<lparr>ps_policies := AList.delete (ep_engagement p) (ps_policies s')\<rparr>)))"

definition replace_policy :: "io_env \<Rightarrow> exec_policy \<Rightarrow> policy_store \<Rightarrow> unit res \<times> policy_store" where
  "replace_policy io p s =
     (case map_of (ps_policies s) (ep_engagement p) of
        None \<Rightarrow> (Inl (ValueError (''engagement authorization policy not found: '' @ ep_engagement p)), s)
      | Some previous \<Rightarrow>
          (case persist io (s\<lparr>ps_policies := AList.update (ep_engagement p) p (ps_policies s)\<rparr>) of
             (Inr _, s') \<Rightarrow> (Inr (), s')
           | (Inl e, s') \<Rightarrow>
               (Inl e, s'\<lparr>ps_policies := AList.update (ep_engagement p) previous (ps_policies s')\<rparr>)))"

definition revoke_policy :: "io_env \<Rightarrow> string \<Rightarrow> policy_store \<Rightarrow> exec_policy res \<times> policy_store" where
  "revoke_policy io eid s =
     (case store_policy s eid of
        Inl e \<Rightarrow> (Inl e, s)
      | Inr None \<Rightarrow> (Inl (ValueError (''engagement authorization policy not found: '' @ eid)), s)
      | Inr (Some p) \<Rightarrow>
          (if ep_revoked p then (Inr p, s)
           else (case policy_make (p\<lparr>ep_revoked := True\<rparr>) of
                   Inl e \<Rightarrow> (Inl e, s)
                 | Inr q \<Rightarrow>
                     (case replace_policy io q s of
                        (Inl e, s') \<Rightarrow> (Inl e, s')
                      | (Inr _, s') \<Rightarrow> (Inr q, s')))))"

definition consume_action :: "io_env \<Rightarrow> string \<Rightarrow> policy_store \<Rightarrow> exec_policy res \<times> policy_store" where
  "consume_action io eid s =
     (case store_policy s eid of
        Inl e \<Rightarrow> (Inl e, s)
      | Inr None \<Rightarrow> (Inl (ValueError (''engagement authorization policy not found: '' @ eid)), s)
      | Inr (Some p) \<Rightarrow>
          (if ep_max_actions p \<le> ep_used p
           then (Inl (ValueError ''engagement action budget is exhausted''), s)
           else (case policy_make (p\<lparr>ep_used := ep_used p + 1\<rparr>) of
                   Inl e \<Rightarrow> (Inl e, s)
                 | Inr q \<Rightarrow>
                     (case replace_policy io q s of
                        (Inl e, s') \<Rightarrow> (Inl e, s')
                      | (Inr _, s') \<Rightarrow> (Inr q, s')))))"

section \<open>The audit file\<close>

record audit_record =
  au_occurred :: string
  au_engagement :: string
  au_allowed :: bool
  au_code :: string
  au_capability :: string
  au_target :: string
  au_impact :: string
  au_approval :: bool
  au_used :: int
  au_max :: int

definition audit_of :: "decision \<Rightarrow> string \<Rightarrow> audit_record" where
  "audit_of d at =
     \<lparr>au_occurred = at, au_engagement = de_engagement d, au_allowed = de_allowed d,
      au_code = de_code d, au_capability = de_capability d, au_target = de_target d,
      au_impact = de_impact d, au_approval = de_approval d, au_used = de_used d, au_max = de_max d\<rparr>"

definition audit_to_dict :: "audit_record \<Rightarrow> pyval" where
  "audit_to_dict r = PDict
     [(''occurred_at'', PStr (au_occurred r)), (''engagement_id'', PStr (au_engagement r)),
      (''allowed'', PBool (au_allowed r)), (''reason_code'', PStr (au_code r)),
      (''capability'', PStr (au_capability r)), (''target'', PStr (au_target r)),
      (''impact'', PStr (au_impact r)), (''approval_present'', PBool (au_approval r)),
      (''actions_used'', PInt (au_used r)), (''max_actions'', PInt (au_max r)),
      (''schema_version'', PInt 1)]"

text \<open>
  The audit file is the list of its lines.  \<^verbatim>\<open>append_authorization_audit\<close> opens it for
  appending and writes one line; \<open>write_ok\<close> is whether that succeeded.
\<close>

definition append_audit ::
  "bool \<Rightarrow> string list \<Rightarrow> decision \<Rightarrow> pydt \<Rightarrow> audit_record res \<times> string list" where
  "append_audit write_ok lines d at =
     (if \<not> aware at then (Inl (ValueError ''occurred_at must include a timezone''), lines)
      else if \<not> write_ok then (Inl OSError, lines)
      else (let r = audit_of d (isoformat at)
            in (Inr r, lines @ [dumps True (audit_to_dict r)])))"

text \<open>
  \<^verbatim>\<open>AuthorizationAuditRecord(**payload)\<close>: the fields without a default must be there and no
  other name may be; the values are not validated, and the model reads them at their
  declared types.
\<close>

definition audit_keys :: "string list" where
  "audit_keys =
     [''occurred_at'', ''engagement_id'', ''allowed'', ''reason_code'', ''capability'', ''target'',
      ''impact'', ''approval_present'', ''actions_used'', ''max_actions'']"

fun as_int :: "pyval \<Rightarrow> int" where
  "as_int (PInt i) = i"
| "as_int _ = 0"

definition audit_from_dict :: "pyval \<Rightarrow> audit_record res" where
  "audit_from_dict v =
     (if is_dict_with audit_keys v \<or> is_dict_with (''schema_version'' # audit_keys) v then
        (let d = dict_items v in
         Inr \<lparr>au_occurred = str_of (dget d ''occurred_at''),
              au_engagement = str_of (dget d ''engagement_id''),
              au_allowed = py_true (dget d ''allowed''),
              au_code = str_of (dget d ''reason_code''),
              au_capability = str_of (dget d ''capability''),
              au_target = str_of (dget d ''target''),
              au_impact = str_of (dget d ''impact''),
              au_approval = py_true (dget d ''approval_present''),
              au_used = as_int (dget d ''actions_used''),
              au_max = as_int (dget d ''max_actions'')\<rparr>)
      else Inl TypeError)"

fun read_audit :: "string list \<Rightarrow> audit_record list res" where
  "read_audit [] = Inr []"
| "read_audit (l # ls) =
     (if strip l = [] then read_audit ls
      else (case loads l of
              None \<Rightarrow> Inl (ValueError ''Expecting value'')
            | Some v \<Rightarrow>
                bindE (audit_from_dict v) (\<lambda>r.
                bindE (read_audit ls) (\<lambda>rs. Inr (r # rs)))))"

section \<open>Facts\<close>

lemma policy_to_dict_json: "json_ok (policy_to_dict p)"
  by (simp add: policy_to_dict_def)

lemmas policy_keys = policy_to_dict_def legacy_keys_def

lemma policy_dget:
  "d = dict_items (norm (policy_to_dict p)) \<Longrightarrow>
   dget d ''schema_version'' = PInt 1 \<and> dget d ''engagement_id'' = PStr (ep_engagement p) \<and>
   dget d ''scope'' = PList (map PStr (ep_scope p)) \<and> dget d ''valid_from'' = PStr (ep_valid_from p) \<and>
   dget d ''valid_until'' = PStr (ep_valid_until p) \<and> dget d ''max_actions'' = PInt (ep_max_actions p) \<and>
   dget d ''permitted_capabilities'' = PList (map PStr (ep_permitted p)) \<and>
   map_of d ''max_impact'' = Some (PStr (ep_max_impact p)) \<and>
   dget d ''approval_required_capabilities'' = PList (map PStr (ep_approval_required p)) \<and>
   dget d ''revoked'' = PBool (ep_revoked p) \<and> dget d ''actions_used'' = PInt (ep_used p)"
  unfolding policy_to_dict_def
  by (simp add: dget_norm map_of_norm del: norm.simps) (simp add: dget_def)

lemma policy_from_to_dict: "policy_ok p \<Longrightarrow> policy_from_dict (norm (policy_to_dict p)) = Inr p"
proof -
  assume ok: "policy_ok p"
  obtain d where d: "norm (policy_to_dict p) = PDict d"
    unfolding policy_to_dict_def by simp
  have "is_dict_with (''max_impact'' # legacy_keys) (norm (policy_to_dict p))"
    unfolding policy_to_dict_def is_dict_with_norm
    by (simp add: is_dict_with_def legacy_keys_def)
  with ok policy_dget [of d p] show ?thesis
    by (simp add: policy_from_dict_def d policy_ok_def policy_make_def)
qed

interpretation policy_codec: record_codec policy_to_dict policy_from_dict policy_ok
  by unfold_locales (simp_all add: policy_to_dict_json policy_from_to_dict)

definition store_ok :: "policy_store \<Rightarrow> bool" where
  "store_ok s \<longleftrightarrow> distinct (map fst (ps_policies s)) \<and>
     (\<forall>(k, p)\<in>set (ps_policies s). k = ep_engagement p \<and> policy_ok p)"

text \<open>The file holds what memory holds (no file yet: nothing was ever stored).\<close>

definition synced :: "policy_store \<Rightarrow> bool" where
  "synced s \<longleftrightarrow> (\<exists>m. policies_of_file (ps_file s) = Inr m \<and> map_of m = map_of (ps_policies s))"

lemma load_policies_printed:
  assumes "\<forall>(k, p)\<in>set m. k = ep_engagement p \<and> policy_ok p" "distinct (map fst (acc @ m))"
  shows "load_policies (map (\<lambda>(_, p). norm (policy_to_dict p)) m) acc = Inr (acc @ m)"
  using assms
proof (induction m arbitrary: acc)
  case (Cons x m)
  obtain k p where x: "x = (k, p)" by (cases x)
  with Cons.prems have "map_of acc (ep_engagement p) = None"
    by (auto simp: map_of_eq_None_iff)
  with Cons x show ?case by (simp add: policy_from_to_dict)
qed simp

lemma payload_json: "json_ok (policy_payload m)"
  by (simp add: policy_payload_def list_all_iff policy_to_dict_json split_def)

lemma store_ok_sorted:
  assumes "store_ok s"
  shows "distinct (map fst (sort_key fst (ps_policies s)))"
    "map_of (sort_key fst (ps_policies s)) = map_of (ps_policies s)"
proof -
  have "distinct (map fst (ps_policies s))" using assms by (simp add: store_ok_def)
  then show "distinct (map fst (sort_key fst (ps_policies s)))"
    by (metis (no_types) distinct_map distinct_sort set_sort)
  show "map_of (sort_key fst (ps_policies s)) = map_of (ps_policies s)"
    by (rule map_of_sort_key) fact
qed

lemma policies_of_text:
  assumes "store_ok s"
  shows "policies_of_file (Some (policy_text (ps_policies s))) = Inr (sort_key fst (ps_policies s))"
proof -
  let ?m = "sort_key fst (ps_policies s)"
  have pay: "norm (policy_payload (ps_policies s)) =
      PDict [(''policies'', PList (map (\<lambda>(_, p). norm (policy_to_dict p)) ?m)), (''schema_version'', PInt 1)]"
    by (simp add: policy_payload_def comp_def split_def)
  have "load_policies (map (\<lambda>(_, p). norm (policy_to_dict p)) ?m) [] = Inr ?m"
    using load_policies_printed [of ?m "[]"] assms store_ok_sorted(1) [OF assms]
    by (simp add: store_ok_def)
  then show ?thesis
    unfolding policies_of_file_def policy_text_def
    by (simp add: loads_dumps_line payload_json pay is_dict_with_def dget_def)
qed

lemma persist_cases:
  obtains "persist io s = (Inr (), s\<lparr>ps_file := Some (policy_text (ps_policies s))\<rparr>)"
  | e where "persist io s = (Inl e, s)"
  by (cases "io_write_ok io"; cases "replace_policy_file io") (auto simp: persist_def)

lemma alist_update_back:
  "(k, v) \<in> set m \<Longrightarrow> distinct (map fst m) \<Longrightarrow> AList.update k v m = m"
  by (induction m) force+

lemma alist_delete_fresh: "map_of m k = None \<Longrightarrow> AList.delete k (AList.update k w m) = m"
  by (induction m) (auto simp: AList.delete_eq)

lemma in_alist_update: "x \<in> set (AList.update k v m) \<Longrightarrow> x = (k, v) \<or> x \<in> set m"
  by (induction m) (auto split: if_splits)

definition stored :: "policy_store \<Rightarrow> exec_policy \<Rightarrow> policy_store" where
  "stored s p =
     (let m = AList.update (ep_engagement p) p (ps_policies s)
      in s\<lparr>ps_policies := m, ps_file := Some (policy_text m)\<rparr>)"

lemma stored_policies [simp]: "ps_policies (stored s p) = AList.update (ep_engagement p) p (ps_policies s)"
  by (simp add: stored_def Let_def)

lemma store_ok_file [simp]: "store_ok (s\<lparr>ps_file := f\<rparr>) = store_ok s"
  by (simp add: store_ok_def)

lemma store_ok_stored: "store_ok s \<Longrightarrow> policy_ok p \<Longrightarrow> store_ok (stored s p)"
  by (auto simp: store_ok_def distinct_update dest!: in_alist_update)

lemma synced_stored:
  assumes "store_ok s" "policy_ok p"
  shows "synced (stored s p)"
proof -
  have "ps_file (stored s p) = Some (policy_text (ps_policies (stored s p)))"
    by (simp add: stored_def Let_def)
  then show ?thesis
    using policies_of_text [OF store_ok_stored [OF assms]] store_ok_sorted(2) [OF store_ok_stored [OF assms]]
    by (simp add: synced_def del: stored_policies)
qed

lemma store_lookup:
  "store_ok s \<Longrightarrow> map_of (ps_policies s) k = Some p \<Longrightarrow> ep_engagement p = k \<and> policy_ok p"
  by (auto simp: store_ok_def dest: map_of_SomeD)


lemma set_policy_cases:
  assumes "store_ok s"
  shows "(\<exists>e. set_policy io p s = (Inl e, s))
    \<or> (set_policy io p s = (Inr (), s) \<and> map_of (ps_policies s) (ep_engagement p) = Some p)
    \<or> (set_policy io p s = (Inr (), stored s p) \<and> map_of (ps_policies s) (ep_engagement p) = None)"
proof -
  let ?s = "s\<lparr>ps_policies := AList.update (ep_engagement p) p (ps_policies s)\<rparr>"
  show ?thesis
    by (rule persist_cases [of io ?s])
      (auto simp: set_policy_def alist_delete_fresh stored_def Let_def split: option.splits)
qed

lemma replace_policy_cases:
  assumes "store_ok s"
  shows "(\<exists>e. replace_policy io p s = (Inl e, s))
    \<or> (replace_policy io p s = (Inr (), stored s p) \<and> map_of (ps_policies s) (ep_engagement p) \<noteq> None)"
proof -
  let ?s = "s\<lparr>ps_policies := AList.update (ep_engagement p) p (ps_policies s)\<rparr>"
  have "distinct (map fst (ps_policies s))" using assms by (simp add: store_ok_def)
  then show ?thesis
    by (rule_tac persist_cases [of io ?s])
      (auto simp: replace_policy_def alist_update_back stored_def Let_def split: option.splits)
qed

lemma store_policy_Inr: "store_policy s k = Inr x \<Longrightarrow> x = map_of (ps_policies s) k"
  by (auto simp: store_policy_def res_simps)

lemma revoke_policy_cases:
  assumes "store_ok s"
  shows "(\<exists>e. revoke_policy io k s = (Inl e, s))
    \<or> (\<exists>p. revoke_policy io k s = (Inr p, s) \<and> map_of (ps_policies s) k = Some p \<and> ep_revoked p)
    \<or> (\<exists>p. revoke_policy io k s = (Inr (p\<lparr>ep_revoked := True\<rparr>), stored s (p\<lparr>ep_revoked := True\<rparr>))
         \<and> map_of (ps_policies s) k = Some p \<and> \<not> ep_revoked p \<and> policy_ok (p\<lparr>ep_revoked := True\<rparr>))"
proof (cases "store_policy s k")
  case (Inr x)
  note x = store_policy_Inr [OF Inr]
  show ?thesis
  proof (cases x)
    case (Some p)
    then have ok: "policy_make (p\<lparr>ep_revoked := True\<rparr>) = Inr (p\<lparr>ep_revoked := True\<rparr>)"
      using store_lookup [OF assms] policy_ok_revoked x by (metis policy_ok_def)
    show ?thesis
      using replace_policy_cases [OF assms, of io "p\<lparr>ep_revoked := True\<rparr>"] Inr Some x ok
      by (auto simp: revoke_policy_def policy_ok_def)
  qed (use Inr in \<open>simp add: revoke_policy_def\<close>)
qed (simp add: revoke_policy_def)

lemma consume_action_cases:
  assumes "store_ok s"
  shows "(\<exists>e. consume_action io k s = (Inl e, s))
    \<or> (\<exists>p. consume_action io k s = (Inr (p\<lparr>ep_used := ep_used p + 1\<rparr>), stored s (p\<lparr>ep_used := ep_used p + 1\<rparr>))
         \<and> map_of (ps_policies s) k = Some p \<and> ep_used p < ep_max_actions p
         \<and> policy_ok (p\<lparr>ep_used := ep_used p + 1\<rparr>))"
proof (cases "store_policy s k")
  case (Inr x)
  note x = store_policy_Inr [OF Inr]
  show ?thesis
  proof (cases x)
    case (Some p)
    then have "policy_ok p" using store_lookup [OF assms] x by metis
    then have ok: "ep_used p < ep_max_actions p \<Longrightarrow>
        policy_make (p\<lparr>ep_used := ep_used p + 1\<rparr>) = Inr (p\<lparr>ep_used := ep_used p + 1\<rparr>)"
      using policy_ok_used [of p "ep_used p + 1"] unfolding policy_ok_facts policy_ok_def [symmetric]
      by (simp add: policy_facts_def)
    show ?thesis
      using replace_policy_cases [OF assms, of io "p\<lparr>ep_used := ep_used p + 1\<rparr>"] Inr Some x ok
      by (auto simp: consume_action_def policy_ok_def)
  qed (use Inr in \<open>simp add: consume_action_def\<close>)
qed (simp add: consume_action_def)

section \<open>The store as a component with operations\<close>

text \<open>
  The calls a client makes on the store; \<open>io\<close> is what the operating system does during
  the call.  A policy that is stored has been constructed, which validates it.
\<close>

datatype policy_call =
    SetPolicy io_env exec_policy
  | ReplacePolicy io_env exec_policy
  | RevokePolicy io_env string
  | ConsumeAction io_env string

definition store_inv :: "policy_store \<Rightarrow> bool" where
  "store_inv s \<longleftrightarrow> store_ok s \<and> synced s"

fun policy_step :: "policy_call \<Rightarrow> policy_store \<Rightarrow> unit res \<times> policy_store" where
  "policy_step (SetPolicy io p) s =
     (case policy_make p of Inl e \<Rightarrow> (Inl e, s) | Inr q \<Rightarrow> set_policy io q s)"
| "policy_step (ReplacePolicy io p) s =
     (case policy_make p of Inl e \<Rightarrow> (Inl e, s) | Inr q \<Rightarrow> replace_policy io q s)"
| "policy_step (RevokePolicy io k) s =
     (case revoke_policy io k s of (r, s') \<Rightarrow> (bindE r (\<lambda>_. Inr ()), s'))"
| "policy_step (ConsumeAction io k) s =
     (case consume_action io k s of (r, s') \<Rightarrow> (bindE r (\<lambda>_. Inr ()), s'))"

text \<open>A policy only spends its budget and only loses its authorization.\<close>

definition spends :: "exec_policy \<Rightarrow> exec_policy \<Rightarrow> bool" where
  "spends p q \<longleftrightarrow>
     q = p\<lparr>ep_revoked := ep_revoked q, ep_used := ep_used q\<rparr> \<and> ep_used p \<le> ep_used q \<and>
     (ep_revoked p \<longrightarrow> ep_revoked q)"

text \<open>The order that every call keeps: a stored engagement stays stored.\<close>

definition store_le :: "policy_store \<Rightarrow> policy_store \<Rightarrow> bool" where
  "store_le s t \<longleftrightarrow> dom (map_of (ps_policies s)) \<subseteq> dom (map_of (ps_policies t))"

lemma spends_refl: "spends p p"
  by (simp add: spends_def)

lemma spends_trans: "spends p q \<Longrightarrow> spends q r \<Longrightarrow> spends p r"
  by (cases p; cases q; cases r) (auto simp: spends_def)

lemma map_of_stored: "map_of (ps_policies (stored s p)) = (map_of (ps_policies s))(ep_engagement p \<mapsto> p)"
  by (simp add: update_conv')

lemma store_le_refl: "store_le s s"
  by (simp add: store_le_def)

lemma store_le_stored: "store_le s (stored s q)"
  by (auto simp: store_le_def map_of_stored simp del: stored_policies)

lemma store_inv_stored: "store_ok s \<Longrightarrow> policy_ok p \<Longrightarrow> store_inv (stored s p)"
  by (simp add: store_inv_def store_ok_stored synced_stored)

lemma policy_make_Inr: "policy_make p = Inr q \<Longrightarrow> policy_ok q"
  unfolding policy_make_def by (rule policy_init_ok)

lemma policy_step_cases:
  assumes "store_ok s"
  shows "(\<exists>e. policy_step a s = (Inl e, s)) \<or> policy_step a s = (Inr (), s)
    \<or> (\<exists>q. policy_step a s = (Inr (), stored s q) \<and> policy_ok q)"
proof (cases a)
  case (SetPolicy io p)
  then show ?thesis
    using set_policy_cases [OF assms, of io "projr (policy_make p)"] policy_make_Inr [of p]
    by (cases "policy_make p") auto
next
  case (ReplacePolicy io p)
  then show ?thesis
    using replace_policy_cases [OF assms, of io "projr (policy_make p)"] policy_make_Inr [of p]
    by (cases "policy_make p") auto
next
  case (RevokePolicy io k)
  then show ?thesis using revoke_policy_cases [OF assms, of io k] by auto
next
  case (ConsumeAction io k)
  then show ?thesis using consume_action_cases [OF assms, of io k] by auto
qed

interpretation policy_machine: atomic_machine policy_step store_inv store_le
proof
  fix s a e s'
  assume "store_inv s" "policy_step a s = (Inl e, s')"
  then show "s' = s" using policy_step_cases [of s a] by (auto simp: store_inv_def)
next
  fix s a r s'
  assume "store_inv s" "policy_step a s = (Inr r, s')"
  then show "store_inv s'" "store_le s s'"
    using policy_step_cases [of s a]
    by (auto simp: store_inv_def store_ok_stored synced_stored store_le_stored store_le_refl)
qed (auto simp: store_le_def)

lemma empty_store_inv: "store_inv \<lparr>ps_policies = [], ps_file = None\<rparr>"
  by (simp add: store_inv_def store_ok_def synced_def policies_of_file_def)

section \<open>The retry loop and the audit file\<close>

definition sharing_violation :: "os_outcome \<Rightarrow> bool" where
  "sharing_violation r \<longleftrightarrow> r = Denied (Some 5) \<or> r = Denied (Some 32)"

lemma replace_loop_Inr:
  "attempt + n = 6 \<Longrightarrow> 0 < n \<Longrightarrow> replace_loop io attempt n = Inr () \<longleftrightarrow>
     (\<exists>k\<ge>attempt. k < 6 \<and> io_replace io k = Replaced \<and>
        (\<forall>j. attempt \<le> j \<and> j < k \<longrightarrow> io_windows io \<and> sharing_violation (io_replace io j)))"
  (is "_ \<Longrightarrow> _ \<Longrightarrow> _ \<longleftrightarrow> (\<exists>k\<ge>attempt. ?P attempt k)")
proof (induction n arbitrary: attempt)
  case (Suc n)
  let ?P = "\<lambda>a k. k < 6 \<and> io_replace io k = Replaced \<and>
        (\<forall>j. a \<le> j \<and> j < k \<longrightarrow> io_windows io \<and> sharing_violation (io_replace io j))"
  have split: "(\<exists>k\<ge>attempt. ?P attempt k) \<longleftrightarrow> io_replace io attempt = Replaced \<or>
      (io_windows io \<and> sharing_violation (io_replace io attempt) \<and> (\<exists>k\<ge>Suc attempt. ?P (Suc attempt) k))"
    using Suc.prems by (auto simp: Suc_le_eq) (metis le_neq_implies_less less_or_eq_imp_le not_less_eq_eq)+
  show ?case
  proof (cases n)
    case 0
    with Suc.prems have "attempt = 5" by simp
    with 0 show ?thesis
      unfolding split by (auto split: os_outcome.splits)
  next
    case (Suc m)
    with Suc.prems have "attempt \<noteq> 5" "Suc attempt + n = 6" "0 < n" by auto
    with Suc.IH [of "Suc attempt"] show ?thesis
      unfolding split by (auto simp: sharing_violation_def split: os_outcome.splits)
  qed
qed simp

lemma audit_to_dict_json: "json_ok (audit_to_dict r)"
  by (simp add: audit_to_dict_def)

lemma audit_from_to_dict: "audit_from_dict (norm (audit_to_dict r)) = Inr r"
proof -
  obtain d where d: "norm (audit_to_dict r) = PDict d"
    unfolding audit_to_dict_def by simp
  have k: "is_dict_with (''schema_version'' # audit_keys) (norm (audit_to_dict r))"
    unfolding audit_to_dict_def is_dict_with_norm
    by (simp add: is_dict_with_def audit_keys_def)
  have "dget (dict_items (norm (audit_to_dict r))) ''occurred_at'' = PStr (au_occurred r)"
    "dget (dict_items (norm (audit_to_dict r))) ''engagement_id'' = PStr (au_engagement r)"
    "dget (dict_items (norm (audit_to_dict r))) ''allowed'' = PBool (au_allowed r)"
    "dget (dict_items (norm (audit_to_dict r))) ''reason_code'' = PStr (au_code r)"
    "dget (dict_items (norm (audit_to_dict r))) ''capability'' = PStr (au_capability r)"
    "dget (dict_items (norm (audit_to_dict r))) ''target'' = PStr (au_target r)"
    "dget (dict_items (norm (audit_to_dict r))) ''impact'' = PStr (au_impact r)"
    "dget (dict_items (norm (audit_to_dict r))) ''approval_present'' = PBool (au_approval r)"
    "dget (dict_items (norm (audit_to_dict r))) ''actions_used'' = PInt (au_used r)"
    "dget (dict_items (norm (audit_to_dict r))) ''max_actions'' = PInt (au_max r)"
    unfolding audit_to_dict_def
    by (simp_all add: dget_norm del: norm.simps) (simp_all add: dget_def)
  with k show ?thesis by (simp add: audit_from_dict_def Let_def)
qed

interpretation audit_codec: record_codec audit_to_dict audit_from_dict "\<lambda>_. True"
  by unfold_locales (simp_all add: audit_to_dict_json audit_from_to_dict)


lemma strip_not_blank: "\<not> py_space c \<Longrightarrow> strip (c # s) \<noteq> []"
  by (simp add: strip_def lstrip_def)

lemma audit_line_not_blank: "strip (dumps asc (audit_to_dict r)) \<noteq> []"
proof -
  have "dumps asc (audit_to_dict r) = CHR ''{'' # tl (dumps asc (audit_to_dict r))"
    by (simp add: dumps_def audit_to_dict_def)
  moreover have "\<not> py_space CHR ''{''" by (simp add: py_space_def)
  ultimately show ?thesis using strip_not_blank by metis
qed

lemma read_audit_snoc:
  assumes "read_audit lines = Inr rs"
  shows "read_audit (lines @ [dumps True (audit_to_dict r)]) = Inr (rs @ [r])"
  using assms
proof (induction lines arbitrary: rs)
  case Nil
  then show ?case using audit_codec.read_text [where x = r and asc = True] audit_line_not_blank [of True r] by auto
next
  case (Cons l ls)
  then show ?case by (auto simp: bindE_Inr split: if_splits option.splits)
qed

text \<open>How many actions of engagement \<open>k\<close> a sequence of calls consumed.\<close>

fun consumed :: "string \<Rightarrow> policy_call list \<Rightarrow> policy_store \<Rightarrow> int" where
  "consumed k [] s = 0"
| "consumed k (a # as) s =
     (case a of ConsumeAction io j \<Rightarrow> (if j = k \<and> is_ok (fst (policy_step a s)) then 1 else 0) | _ \<Rightarrow> 0)
     + consumed k as (snd (policy_step a s))"

definition run_policy :: "policy_call list \<Rightarrow> policy_store \<Rightarrow> policy_store" where
  "run_policy as s = fold (\<lambda>a s. snd (policy_step a s)) as s"

text \<open>
  The books of an engagement \<open>k\<close>, kept from the calls and whether they returned alone: the
  policy it was last given, how many actions were consumed since, and whether it was
  revoked since.  The policy in force is then determined.
\<close>

type_synonym account = "exec_policy \<times> int \<times> bool"

fun account_step :: "string \<Rightarrow> policy_call \<Rightarrow> account \<Rightarrow> account" where
  "account_step k (SetPolicy io p) c = c"
| "account_step k (ReplacePolicy io p) c =
     (case policy_make p of Inl e \<Rightarrow> c | Inr q \<Rightarrow> if ep_engagement q = k then (q, 0, False) else c)"
| "account_step k (RevokePolicy io j) (b, n, v) = (b, n, v \<or> j = k)"
| "account_step k (ConsumeAction io j) (b, n, v) = (b, if j = k then n + 1 else n, v)"

fun account_of :: "string \<Rightarrow> policy_call list \<Rightarrow> policy_store \<Rightarrow> account \<Rightarrow> account" where
  "account_of k [] s c = c"
| "account_of k (a # as) s c =
     account_of k as (snd (policy_step a s)) (if is_ok (fst (policy_step a s)) then account_step k a c else c)"

fun in_force :: "account \<Rightarrow> exec_policy" where
  "in_force (b, n, v) = b\<lparr>ep_revoked := ep_revoked b \<or> v, ep_used := ep_used b + n\<rparr>"

lemma account_one_step:
  assumes "store_ok s" "map_of (ps_policies s) k = Some (in_force c)"
  shows "map_of (ps_policies (snd (policy_step a s))) k =
    Some (in_force (if is_ok (fst (policy_step a s)) then account_step k a c else c))"
proof -
  obtain b n v where c: "c = (b, n, v)" by (cases c)
  note p = assms(2) [unfolded c, simplified] and e = store_lookup [OF assms, unfolded c, simplified]
  show ?thesis
  proof (cases a)
    case (SetPolicy io r)
    then show ?thesis
      using set_policy_cases [OF assms(1), of io "projr (policy_make r)"] p c
      by (cases "policy_make r") (auto simp: map_of_stored simp del: stored_policies)
  next
    case (ReplacePolicy io r)
    then show ?thesis
      using replace_policy_cases [OF assms(1), of io "projr (policy_make r)"] p c
      by (cases "policy_make r") (auto simp: map_of_stored simp del: stored_policies)
  next
    case (RevokePolicy io j)
    then show ?thesis
      using revoke_policy_cases [OF assms(1), of io j] p e c store_lookup [OF assms(1)]
      by (cases "j = k") (auto simp: map_of_stored simp del: stored_policies)
  next
    case (ConsumeAction io j)
    then show ?thesis
      using consume_action_cases [OF assms(1), of io j] p e c store_lookup [OF assms(1)]
      by (cases "j = k") (auto simp: map_of_stored algebra_simps simp del: stored_policies)
  qed
qed

lemma account_in_force:
  assumes "store_inv s" "map_of (ps_policies s) k = Some (in_force c)"
  shows "map_of (ps_policies (run_policy as s)) k = Some (in_force (account_of k as s c)) \<and>
    policy_ok (in_force (account_of k as s c))"
  using assms
proof (induction as arbitrary: s c)
  case Nil
  then show ?case using store_lookup by (auto simp: run_policy_def store_inv_def)
next
  case (Cons a as)
  have "store_ok s" using Cons.prems(1) by (simp add: store_inv_def)
  from Cons.IH [OF policy_machine.keeps_inv [OF Cons.prems(1)] account_one_step [OF this Cons.prems(2)]]
  show ?case by (simp add: run_policy_def)
qed

text \<open>Only a replacement of that very engagement resets the books.\<close>

definition replaced_by :: "string \<Rightarrow> policy_call list \<Rightarrow> exec_policy \<Rightarrow> bool" where
  "replaced_by k as b \<longleftrightarrow>
     ep_engagement b = k \<and> (\<exists>io r. ReplacePolicy io r \<in> set as \<and> policy_make r = Inr b)"

lemma account_of_cases:
  assumes "account_of k as s (b0, n0, v0) = (b, n, v)" "0 \<le> n0"
  shows "0 \<le> n \<and> (b = b0 \<and> n = n0 + consumed k as s \<and> (v0 \<longrightarrow> v) \<or> replaced_by k as b)"
  using assms
proof (induction as arbitrary: s b0 n0 v0)
  case (Cons a as)
  let ?c = "if is_ok (fst (policy_step a s)) then account_step k a (b0, n0, v0) else (b0, n0, v0)"
  obtain b1 n1 v1 where c: "?c = (b1, n1, v1)" by (metis prod_cases3)
  have step: "0 \<le> n1 \<and> (b1 = b0 \<and> n1 = n0 + consumed k [a] s \<and> (v0 \<longrightarrow> v1) \<or> replaced_by k [a] b1)"
    using c Cons.prems(2)
    by (cases a) (auto simp: replaced_by_def split: if_splits sum.splits)
  have rest: "account_of k as (snd (policy_step a s)) (b1, n1, v1) = (b, n, v)"
    using Cons.prems(1) c by simp
  have "consumed k (a # as) s = consumed k [a] s + consumed k as (snd (policy_step a s))" by simp
  with step Cons.IH [OF rest] show ?case by (auto simp: replaced_by_def simp del: consumed.simps)
qed simp

end
