(* ===== verification/EngagementStore.thy ===== *)
theory EngagementStore
  imports Contracts PolicyStore
begin

text \<open>
  \<^verbatim>\<open>nightrecon_shared_core/store.py\<close> and \<^verbatim>\<open>file_store.py\<close>: the in-memory engagement store
  and the file-backed store around it.  A Python dictionary is an association list in
  insertion order.  The file-backed store changes memory first and writes the file after
  it, without a rollback; its operations return the result with the state.
\<close>

section \<open>In memory\<close>

record mem_store =
  ms_records :: "((string \<times> string) \<times> evidence) list"
  ms_metadata :: "(string \<times> metadata) list"

definition empty_mem :: mem_store where
  "empty_mem = \<lparr>ms_records = [], ms_metadata = []\<rparr>"

definition mem_set_metadata :: "metadata \<Rightarrow> mem_store \<Rightarrow> mem_store res" where
  "mem_set_metadata m s =
     (case map_of (ms_metadata s) (em_engagement m) of
        None \<Rightarrow> Inr (s\<lparr>ms_metadata := AList.update (em_engagement m) m (ms_metadata s)\<rparr>)
      | Some old \<Rightarrow> if old \<noteq> m then Inl (MetadataConflictError (em_engagement m)) else Inr s)"

definition check_id :: "string \<Rightarrow> unit res" where
  "check_id eid = req (strip eid \<noteq> []) (ValueError ''engagement_id must be a nonblank string'') (Inr ())"

definition mem_metadata :: "mem_store \<Rightarrow> string \<Rightarrow> metadata option res" where
  "mem_metadata s eid = bindE (check_id eid) (\<lambda>_. Inr (map_of (ms_metadata s) eid))"

definition mem_replace_metadata :: "metadata \<Rightarrow> mem_store \<Rightarrow> mem_store res" where
  "mem_replace_metadata m s =
     req (map_of (ms_metadata s) (em_engagement m) \<noteq> None)
         (ValueError (''engagement metadata not found: '' @ em_engagement m))
         (Inr (s\<lparr>ms_metadata := AList.update (em_engagement m) m (ms_metadata s)\<rparr>))"

definition ev_key :: "evidence \<Rightarrow> string \<times> string" where
  "ev_key r = (er_engagement r, er_id r)"

definition mem_append :: "evidence \<Rightarrow> mem_store \<Rightarrow> mem_store res" where
  "mem_append r s =
     (case map_of (ms_records s) (ev_key r) of
        None \<Rightarrow> Inr (s\<lparr>ms_records := AList.update (ev_key r) r (ms_records s)\<rparr>)
      | Some old \<Rightarrow> if \<not> evidence_eq old r then Inl (EvidenceConflictError (er_id r)) else Inr s)"

definition check_record :: "mem_store \<Rightarrow> evidence \<Rightarrow> unit res" where
  "check_record s r =
     (case map_of (ms_records s) (ev_key r) of
        None \<Rightarrow> Inr ()
      | Some old \<Rightarrow> if \<not> evidence_eq old r then Inl (EvidenceConflictError (er_id r)) else Inr ())"

definition put_record :: "evidence \<Rightarrow> mem_store \<Rightarrow> mem_store" where
  "put_record r s = s\<lparr>ms_records := AList.update (ev_key r) r (ms_records s)\<rparr>"

definition mem_append_envelope :: "envelope \<Rightarrow> mem_store \<Rightarrow> mem_store res" where
  "mem_append_envelope en s =
     bindE (case en_metadata en of
              None \<Rightarrow> Inr ()
            | Some m \<Rightarrow>
                (case map_of (ms_metadata s) (en_engagement en) of
                   None \<Rightarrow> Inr ()
                 | Some old \<Rightarrow> if old \<noteq> m then Inl (MetadataConflictError (en_engagement en)) else Inr ())) (\<lambda>_.
     bindE (checkE (check_record s) (en_records en)) (\<lambda>_.
     Inr (fold put_record (en_records en)
            (case en_metadata en of
               None \<Rightarrow> s
             | Some m \<Rightarrow> s\<lparr>ms_metadata := AList.update (en_engagement en) m (ms_metadata s)\<rparr>))))"

definition mem_records :: "mem_store \<Rightarrow> string \<Rightarrow> string option \<Rightarrow> string option \<Rightarrow> evidence list res" where
  "mem_records s eid night typ =
     bindE (check_id eid) (\<lambda>_.
     Inr (sort_key er_id
       (map snd (filter (\<lambda>((stored, _), r). stored = eid
                          \<and> (case night of None \<Rightarrow> True | Some n \<Rightarrow> er_night r = n)
                          \<and> (case typ of None \<Rightarrow> True | Some t \<Rightarrow> er_type r = t)) (ms_records s)))))"

definition mem_export :: "mem_store \<Rightarrow> string \<Rightarrow> envelope res" where
  "mem_export s eid =
     bindE (mem_metadata s eid) (\<lambda>m.
     bindE (mem_records s eid None None) (\<lambda>rs. envelope_init (PInt 1) (PStr eid) rs m))"

definition mem_engagements :: "mem_store \<Rightarrow> string list" where
  "mem_engagements s = sort (remdups (map fst (ms_metadata s) @ map (fst \<circ> fst) (ms_records s)))"

text \<open>\<^verbatim>\<open>extend\<close>: the records before the one that raises stay.\<close>

fun mem_extend :: "evidence list \<Rightarrow> mem_store \<Rightarrow> unit res \<times> mem_store" where
  "mem_extend [] s = (Inr (), s)"
| "mem_extend (r # rs) s =
     (case mem_append r s of Inl e \<Rightarrow> (Inl e, s) | Inr s' \<Rightarrow> mem_extend rs s')"

section \<open>In a file\<close>

record file_store =
  fs_memory :: mem_store
  fs_file :: "string option"

fun load_envelopes :: "pyval list \<Rightarrow> string list \<Rightarrow> mem_store \<Rightarrow> mem_store res" where
  "load_envelopes [] seen s = Inr s"
| "load_envelopes (x # xs) seen s =
     bindE (envelope_from_dict x) (\<lambda>en.
     req (en_engagement en \<notin> set seen) (ValueError ''engagement store contains a duplicate engagement'')
    (bindE (mem_append_envelope en s) (\<lambda>s'. load_envelopes xs (en_engagement en # seen) s')))"

definition mem_of_file :: "string option \<Rightarrow> mem_store res" where
  "mem_of_file file =
     (case file of
        None \<Rightarrow> Inr empty_mem
      | Some text \<Rightarrow>
          (case loads text of
             None \<Rightarrow> Inl (ValueError ''engagement store is not valid UTF-8 JSON'')
           | Some payload \<Rightarrow>
               req (is_dict_with [''schema_version'', ''engagements''] payload)
                   (ValueError ''engagement store schema is not supported'')
              (req (py_eq_int (dget (dict_items payload) ''schema_version'') 1)
                   (ValueError ''engagement store schema version is not supported'')
                (case dget (dict_items payload) ''engagements'' of
                   PList items \<Rightarrow> load_envelopes items [] empty_mem
                 | _ \<Rightarrow> Inl (ValueError ''engagements must be a list'')))))"

definition open_file_store :: "string option \<Rightarrow> file_store res" where
  "open_file_store file = bindE (mem_of_file file) (\<lambda>m. Inr \<lparr>fs_memory = m, fs_file = file\<rparr>)"

definition store_text :: "mem_store \<Rightarrow> string res" where
  "store_text m =
     bindE (mapE (\<lambda>eid. bindE (mem_export m eid) (\<lambda>en. Inr (envelope_to_dict en))) (mem_engagements m)) (\<lambda>ens.
     Inr (dumps True (PDict [(''schema_version'', PInt 1), (''engagements'', PList ens)]) @ ''\<newline>''))"

text \<open>This \<^verbatim>\<open>_persist\<close> calls \<^verbatim>\<open>os.replace\<close> once.\<close>

definition replace_once :: "io_env \<Rightarrow> unit res" where
  "replace_once io =
     (case io_replace io 0 of
        Replaced \<Rightarrow> Inr ()
      | Denied _ \<Rightarrow> Inl (PermissionError ''os.replace'')
      | Failed \<Rightarrow> Inl OSError)"

definition fs_persist :: "io_env \<Rightarrow> file_store \<Rightarrow> unit res \<times> file_store" where
  "fs_persist io s =
     (case store_text (fs_memory s) of
        Inl e \<Rightarrow> (Inl e, s)
      | Inr text \<Rightarrow>
          (if \<not> io_write_ok io then (Inl OSError, s)
           else (case replace_once io of
                   Inl e \<Rightarrow> (Inl e, s)
                 | Inr _ \<Rightarrow> (Inr (), s\<lparr>fs_file := Some text\<rparr>))))"

definition fs_set_metadata :: "io_env \<Rightarrow> metadata \<Rightarrow> file_store \<Rightarrow> unit res \<times> file_store" where
  "fs_set_metadata io m s =
     (case mem_metadata (fs_memory s) (em_engagement m) of
        Inl e \<Rightarrow> (Inl e, s)
      | Inr before \<Rightarrow>
          (case mem_set_metadata m (fs_memory s) of
             Inl e \<Rightarrow> (Inl e, s)
           | Inr mem \<Rightarrow>
               (if before \<noteq> Some m then fs_persist io (s\<lparr>fs_memory := mem\<rparr>)
                else (Inr (), s\<lparr>fs_memory := mem\<rparr>))))"

definition fs_replace_metadata :: "io_env \<Rightarrow> metadata \<Rightarrow> file_store \<Rightarrow> unit res \<times> file_store" where
  "fs_replace_metadata io m s =
     (case mem_metadata (fs_memory s) (em_engagement m) of
        Inl e \<Rightarrow> (Inl e, s)
      | Inr before \<Rightarrow>
          (case mem_replace_metadata m (fs_memory s) of
             Inl e \<Rightarrow> (Inl e, s)
           | Inr mem \<Rightarrow>
               (if before \<noteq> Some m then fs_persist io (s\<lparr>fs_memory := mem\<rparr>)
                else (Inr (), s\<lparr>fs_memory := mem\<rparr>))))"

definition records_eq :: "evidence list \<Rightarrow> evidence list \<Rightarrow> bool" where
  "records_eq xs ys = list_all2 evidence_eq xs ys"

definition fs_append :: "io_env \<Rightarrow> evidence \<Rightarrow> file_store \<Rightarrow> unit res \<times> file_store" where
  "fs_append io r s =
     (case mem_records (fs_memory s) (er_engagement r) None None of
        Inl e \<Rightarrow> (Inl e, s)
      | Inr before \<Rightarrow>
          (case mem_append r (fs_memory s) of
             Inl e \<Rightarrow> (Inl e, s)
           | Inr mem \<Rightarrow>
               (case mem_records mem (er_engagement r) None None of
                  Inl e \<Rightarrow> (Inl e, s\<lparr>fs_memory := mem\<rparr>)
                | Inr after \<Rightarrow>
                    (if \<not> records_eq after before then fs_persist io (s\<lparr>fs_memory := mem\<rparr>)
                     else (Inr (), s\<lparr>fs_memory := mem\<rparr>)))))"

definition envelope_eq :: "envelope \<Rightarrow> envelope \<Rightarrow> bool" where
  "envelope_eq a b =
     (en_engagement a = en_engagement b \<and> records_eq (en_records a) (en_records b)
      \<and> en_metadata a = en_metadata b)"

definition fs_append_envelope :: "io_env \<Rightarrow> envelope \<Rightarrow> file_store \<Rightarrow> unit res \<times> file_store" where
  "fs_append_envelope io en s =
     (case mem_export (fs_memory s) (en_engagement en) of
        Inl e \<Rightarrow> (Inl e, s)
      | Inr before \<Rightarrow>
          (case mem_append_envelope en (fs_memory s) of
             Inl e \<Rightarrow> (Inl e, s)
           | Inr mem \<Rightarrow>
               (case mem_export mem (en_engagement en) of
                  Inl e \<Rightarrow> (Inl e, s\<lparr>fs_memory := mem\<rparr>)
                | Inr after \<Rightarrow>
                    (if \<not> envelope_eq after before then fs_persist io (s\<lparr>fs_memory := mem\<rparr>)
                     else (Inr (), s\<lparr>fs_memory := mem\<rparr>)))))"

section \<open>Facts on the in-memory store\<close>

abbreviation lookup :: "mem_store \<Rightarrow> string \<times> string \<Rightarrow> evidence option" where
  "lookup s \<equiv> map_of (ms_records s)"

lemma evidence_eq_refl [simp]: "evidence_eq r r"
  by (simp add: evidence_eq_def py_eq_def)

lemma evidence_eq_sym: "evidence_eq r s \<Longrightarrow> evidence_eq s r"
  by (simp add: evidence_eq_def py_eq_def)

lemma evidence_eq_trans: "evidence_eq r s \<Longrightarrow> evidence_eq s t \<Longrightarrow> evidence_eq r t"
  by (simp add: evidence_eq_def py_eq_def)

lemma evidence_eq_key: "evidence_eq r s \<Longrightarrow> ev_key r = ev_key s"
  by (cases r; cases s) (simp add: evidence_eq_def ev_key_def)

lemma records_eq_refl [simp]: "records_eq xs xs"
  by (simp add: records_eq_def list_all2_refl)

lemma records_eq_length: "records_eq xs ys \<Longrightarrow> length xs = length ys"
  by (simp add: records_eq_def list_all2_lengthD)

lemma lookup_put [simp]: "lookup (put_record r s) = (lookup s)(ev_key r \<mapsto> r)"
  by (simp add: put_record_def update_conv')

lemma put_metadata [simp]: "ms_metadata (put_record r s) = ms_metadata s"
  by (simp add: put_record_def)

lemma fold_put_metadata [simp]: "ms_metadata (fold put_record rs s) = ms_metadata s"
  by (induction rs arbitrary: s) simp_all

lemma lookup_fold_put:
  "distinct (map ev_key rs) \<Longrightarrow>
   lookup (fold put_record rs s) k =
     (case find (\<lambda>r. ev_key r = k) rs of None \<Rightarrow> lookup s k | Some r \<Rightarrow> Some r)"
proof (induction rs arbitrary: s)
  case (Cons r rs)
  have "find (\<lambda>x. ev_key x = ev_key r) rs = None"
    using Cons.prems unfolding find_None_iff by (metis distinct.simps(2) image_eqI list.map(2) list.set_map)
  with Cons show ?case by (auto split: option.splits)
qed simp

lemma envelope_init_Inr:
  "envelope_init schema eid rs m = Inr en \<longleftrightarrow>
     py_eq_int schema 1 \<and> eid = PStr (en_engagement en) \<and> rs = en_records en \<and> m = en_metadata en \<and>
     trimmed (en_engagement en) \<and> list_all (\<lambda>r. er_engagement r = en_engagement en) rs \<and>
     (\<forall>x. m = Some x \<longrightarrow> em_engagement x = en_engagement en) \<and> distinct (map er_id rs)"
  by (cases en) (auto simp: envelope_init_def res_simps split: option.splits)

lemma envelope_make_facts:
  "envelope_make en = Inr en \<Longrightarrow>
    list_all (\<lambda>r. er_engagement r = en_engagement en) (en_records en) \<and> distinct (map ev_key (en_records en))
    \<and> trimmed (en_engagement en) \<and> (\<forall>x. en_metadata en = Some x \<longrightarrow> em_engagement x = en_engagement en)"
  by (auto simp: envelope_make_def envelope_init_Inr distinct_map ev_key_def inj_on_def list_all_iff)

lemma check_record_Inr: "check_record s r = Inr u \<longleftrightarrow> (\<forall>old. lookup s (ev_key r) = Some old \<longrightarrow> evidence_eq old r)"
  by (auto simp: check_record_def split: option.splits)

lemma mem_append_Inr:
  "mem_append r s = Inr t \<longleftrightarrow>
     (\<forall>old. lookup s (ev_key r) = Some old \<longrightarrow> evidence_eq old r) \<and>
     t = (if lookup s (ev_key r) = None then put_record r s else s)"
  by (auto simp: mem_append_def put_record_def split: option.splits)

definition envelope_fits :: "envelope \<Rightarrow> mem_store \<Rightarrow> bool" where
  "envelope_fits en s \<longleftrightarrow>
     (\<forall>m old. en_metadata en = Some m \<and> map_of (ms_metadata s) (en_engagement en) = Some old \<longrightarrow> old = m) \<and>
     (\<forall>r\<in>set (en_records en). \<forall>old. lookup s (ev_key r) = Some old \<longrightarrow> evidence_eq old r)"

definition merged :: "envelope \<Rightarrow> mem_store \<Rightarrow> mem_store" where
  "merged en s = fold put_record (en_records en)
     (case en_metadata en of None \<Rightarrow> s | Some m \<Rightarrow> s\<lparr>ms_metadata := AList.update (en_engagement en) m (ms_metadata s)\<rparr>)"

lemma mem_append_envelope_Inr:
  "mem_append_envelope en s = Inr t \<longleftrightarrow> envelope_fits en s \<and> t = merged en s"
  by (auto simp: mem_append_envelope_def envelope_fits_def merged_def bindE_Inr checkE_Inr_iff check_record_Inr
      split: option.splits)

lemma lookup_merged:
  assumes "envelope_make en = Inr en"
  shows "lookup (merged en s) k =
    (case find (\<lambda>r. ev_key r = k) (en_records en) of None \<Rightarrow> lookup s k | Some r \<Rightarrow> Some r)"
  using envelope_make_facts [OF assms]
  by (simp add: merged_def lookup_fold_put split: option.splits)

lemma metadata_merged:
  "map_of (ms_metadata (merged en s)) =
    (case en_metadata en of None \<Rightarrow> map_of (ms_metadata s) | Some m \<Rightarrow> (map_of (ms_metadata s))(en_engagement en \<mapsto> m))"
  by (simp add: merged_def update_conv' split: option.splits)

section \<open>Evidence is written once\<close>

datatype mem_call =
    MemSetMetadata metadata
  | MemReplaceMetadata metadata
  | MemAppend evidence
  | MemAppendEnvelope envelope
  | MemExtend "evidence list"

fun mem_step :: "mem_call \<Rightarrow> mem_store \<Rightarrow> mem_store" where
  "mem_step (MemSetMetadata m) s = (case mem_set_metadata m s of Inl _ \<Rightarrow> s | Inr t \<Rightarrow> t)"
| "mem_step (MemReplaceMetadata m) s = (case mem_replace_metadata m s of Inl _ \<Rightarrow> s | Inr t \<Rightarrow> t)"
| "mem_step (MemAppend r) s = (case mem_append r s of Inl _ \<Rightarrow> s | Inr t \<Rightarrow> t)"
| "mem_step (MemAppendEnvelope en) s =
     (case bindE (envelope_make en) (\<lambda>en. mem_append_envelope en s) of Inl _ \<Rightarrow> s | Inr t \<Rightarrow> t)"
| "mem_step (MemExtend rs) s = snd (mem_extend rs s)"

definition mem_le :: "mem_store \<Rightarrow> mem_store \<Rightarrow> bool" where
  "mem_le s t \<longleftrightarrow> (\<forall>k r. lookup s k = Some r \<longrightarrow> (\<exists>r'. lookup t k = Some r' \<and> evidence_eq r r'))"

lemma mem_le_refl: "mem_le s s"
  by (simp add: mem_le_def)

lemma mem_le_trans: "mem_le s t \<Longrightarrow> mem_le t u \<Longrightarrow> mem_le s u"
  unfolding mem_le_def by (meson evidence_eq_trans)

lemma mem_le_same: "ms_records t = ms_records s \<Longrightarrow> mem_le s t"
  by (simp add: mem_le_def)

lemma mem_le_append: "mem_append r s = Inr t \<Longrightarrow> mem_le s t"
  by (auto simp: mem_append_Inr mem_le_def)

lemma mem_le_extend: "mem_le s (snd (mem_extend rs s))"
proof (induction rs arbitrary: s)
  case (Cons r rs)
  then show ?case
    by (auto simp: mem_le_refl split: sum.splits intro: mem_le_trans [OF mem_le_append])
qed (simp add: mem_le_refl)

lemma mem_le_merged:
  assumes "envelope_make en = Inr en" "envelope_fits en s"
  shows "mem_le s (merged en s)"
  unfolding mem_le_def lookup_merged [OF assms(1)]
  using assms(2) by (auto simp: envelope_fits_def find_Some_iff split: option.splits)

lemma envelope_make_idem: "envelope_make en = Inr en' \<Longrightarrow> en' = en"
  by (cases en; cases en') (auto simp: envelope_make_def envelope_init_Inr)

interpretation mem_machine: guarded_machine mem_step "\<lambda>_. True" mem_le
proof
  fix s a
  show "mem_le s (mem_step a s)"
  proof (cases a)
    case (MemSetMetadata m)
    then show ?thesis
      by (auto simp: mem_set_metadata_def intro: mem_le_same split: option.splits)
  next
    case (MemReplaceMetadata m)
    then show ?thesis
      by (auto simp: mem_replace_metadata_def req_def intro: mem_le_same)
  next
    case (MemAppend r)
    then show ?thesis by (auto intro: mem_le_append mem_le_refl split: sum.splits)
  next
    case (MemAppendEnvelope en)
    then show ?thesis
      by (auto simp: bindE_Inr mem_append_envelope_Inr mem_le_refl dest: envelope_make_idem
          intro!: mem_le_merged split: sum.splits)
  qed (simp add: mem_le_extend)
qed (auto intro: mem_le_refl mem_le_trans)


section \<open>Facts on the file-backed store\<close>

lemma ev_key_eq: "ev_key r = (er_engagement r, er_id r)"
  by (simp add: ev_key_def)

text \<open>The records of an engagement, before they are sorted.\<close>

definition own_records :: "mem_store \<Rightarrow> string \<Rightarrow> evidence list" where
  "own_records s eid = map snd (filter (\<lambda>((e, _), _). e = eid) (ms_records s))"

lemma mem_records_all:
  "mem_records s eid None None = bindE (check_id eid) (\<lambda>_. Inr (sort_key er_id (own_records s eid)))"
  by (simp add: mem_records_def own_records_def split_def)

lemma own_records_put_fresh:
  "lookup s (ev_key r) = None \<Longrightarrow>
   own_records (put_record r s) eid = own_records s eid @ (if er_engagement r = eid then [r] else [])"
  by (simp add: own_records_def put_record_def update_fresh map_of_eq_None_iff ev_key_def)

lemma fs_persist_fails: "\<not> io_write_ok io \<Longrightarrow> \<exists>e. fs_persist io s = (Inl e, s)"
  by (auto simp: fs_persist_def split: sum.splits)

lemma fs_append_new:
  assumes "check_id (er_engagement r) = Inr ()" "lookup (fs_memory s) (ev_key r) = None"
  shows "fs_append io r s = fs_persist io (s\<lparr>fs_memory := put_record r (fs_memory s)\<rparr>)"
proof -
  let ?m = "fs_memory s" and ?e = "er_engagement r"
  have "length (sort_key er_id (own_records (put_record r ?m) ?e)) \<noteq> length (sort_key er_id (own_records ?m ?e))"
    by (simp add: own_records_put_fresh [OF assms(2)])
  then have "\<not> records_eq (sort_key er_id (own_records (put_record r ?m) ?e)) (sort_key er_id (own_records ?m ?e))"
    using records_eq_length by blast
  with assms show ?thesis
    by (simp add: fs_append_def mem_records_all mem_append_def put_record_def)
qed

lemma fs_append_known:
  assumes "check_id (er_engagement r) = Inr ()" "lookup (fs_memory s) (ev_key r) = Some old" "evidence_eq old r"
  shows "fs_append io r s = (Inr (), s)"
  using assms by (simp add: fs_append_def mem_records_all mem_append_def)

section \<open>Reopening the file\<close>

definition mem_ok :: "mem_store \<Rightarrow> bool" where
  "mem_ok s \<longleftrightarrow>
     distinct (map fst (ms_records s)) \<and> (\<forall>(k, r)\<in>set (ms_records s). k = ev_key r \<and> evidence_ok r) \<and>
     distinct (map fst (ms_metadata s)) \<and>
     (\<forall>(k, m)\<in>set (ms_metadata s). k = em_engagement m \<and> metadata_ok m)"

lemma evidence_ok_trimmed: "evidence_ok r \<Longrightarrow> trimmed (er_engagement r)"
  by (auto simp: evidence_ok_def evidence_make_def evidence_init_def res_simps)

lemma metadata_ok_trimmed: "metadata_ok m \<Longrightarrow> trimmed (em_engagement m)"
  by (auto simp: metadata_ok_def metadata_make_def metadata_init_def res_simps)

lemma trimmed_check_id: "trimmed eid \<Longrightarrow> check_id eid = Inr ()"
  by (auto simp: trimmed_def check_id_def)

lemma mem_ok_record: "mem_ok s \<Longrightarrow> (k, r) \<in> set (ms_records s) \<Longrightarrow> k = ev_key r \<and> evidence_ok r"
  by (auto simp: mem_ok_def)

lemma mem_ok_metadata: "mem_ok s \<Longrightarrow> (k, m) \<in> set (ms_metadata s) \<Longrightarrow> k = em_engagement m \<and> metadata_ok m"
  by (auto simp: mem_ok_def)

lemma mem_ok_lookup: "mem_ok s \<Longrightarrow> lookup s k = Some r \<longleftrightarrow> (k, r) \<in> set (ms_records s)"
  by (simp add: mem_ok_def)

lemma own_records_iff:
  assumes "mem_ok s"
  shows "r \<in> set (own_records s eid) \<longleftrightarrow> lookup s (ev_key r) = Some r \<and> er_engagement r = eid"
proof -
  have "r \<in> set (own_records s eid) \<longleftrightarrow> (\<exists>k. (k, r) \<in> set (ms_records s) \<and> fst k = eid)"
    by (force simp: own_records_def)
  also have "\<dots> \<longleftrightarrow> lookup s (ev_key r) = Some r \<and> er_engagement r = eid"
    unfolding mem_ok_lookup [OF assms] using mem_ok_record [OF assms]
    by (metis ev_key_def fst_conv)
  finally show ?thesis .
qed

lemma own_records_ids:
  assumes "mem_ok s"
  shows "distinct (map er_id (own_records s eid))"
proof -
  let ?l = "filter (\<lambda>((e, _), _). e = eid) (ms_records s)"
  have "distinct (map fst (ms_records s))" using assms by (simp add: mem_ok_def)
  then have d: "distinct (map fst ?l)" by (rule distinct_map_filter)
  have "fst x = (eid, er_id (snd x))" if "x \<in> set ?l" for x
    using that mem_ok_record [OF assms, of "fst x" "snd x"] by (auto simp: ev_key_def)
  then have "map fst ?l = map (\<lambda>x. (eid, er_id (snd x))) ?l"
    by (intro map_cong refl)
  also have "\<dots> = map (Pair eid) (map er_id (own_records s eid))"
    by (simp add: own_records_def)
  finally have "distinct (map (Pair eid) (map er_id (own_records s eid)))" using d by simp
  then show ?thesis by (simp only: distinct_map)
qed

lemma mem_export_ok:
  assumes "mem_ok s" "trimmed eid"
  shows "\<exists>en. mem_export s eid = Inr en \<and> envelope_ok en \<and> en_engagement en = eid
    \<and> en_metadata en = map_of (ms_metadata s) eid
    \<and> set (en_records en) = set (own_records s eid)"
proof -
  let ?en = "\<lparr>en_engagement = eid, en_records = sort_key er_id (own_records s eid),
              en_metadata = map_of (ms_metadata s) eid\<rparr>"
  have own: "\<forall>r\<in>set (own_records s eid). er_engagement r = eid \<and> evidence_ok r"
    using own_records_iff [OF assms(1)] mem_ok_lookup [OF assms(1)] mem_ok_record [OF assms(1)] by metis
  have m: "\<forall>m. map_of (ms_metadata s) eid = Some m \<longrightarrow> em_engagement m = eid \<and> metadata_ok m"
    using mem_ok_metadata [OF assms(1)] by (metis map_of_SomeD)
  have "distinct (map er_id (sort_key er_id (own_records s eid)))"
    using own_records_ids [OF assms(1), of eid] by (simp add: distinct_map)
  then have "envelope_init (PInt 1) (PStr eid) (sort_key er_id (own_records s eid)) (map_of (ms_metadata s) eid) = Inr ?en"
    using own m assms(2) by (simp add: envelope_init_Inr list_all_iff)
  then show ?thesis
    using own m trimmed_check_id [OF assms(2)]
    by (auto simp: mem_export_def mem_metadata_def mem_records_all envelope_ok_def envelope_make_def list_all_iff
        split: option.splits)
qed

lemma engagements_trimmed: "mem_ok s \<Longrightarrow> eid \<in> set (mem_engagements s) \<Longrightarrow> trimmed eid"
  unfolding mem_engagements_def
  by auto (metis mem_ok_metadata metadata_ok_trimmed, metis mem_ok_record ev_key_def evidence_ok_trimmed fst_conv)

definition fresh_for :: "envelope \<Rightarrow> mem_store \<Rightarrow> bool" where
  "fresh_for en t \<longleftrightarrow> map_of (ms_metadata t) (en_engagement en) = None \<and>
     (\<forall>vid. lookup t (en_engagement en, vid) = None)"

lemma find_ev_key_None: "list_all (\<lambda>r. er_engagement r = e) rs \<Longrightarrow> fst k \<noteq> e \<Longrightarrow> find (\<lambda>r. ev_key r = k) rs = None"
  by (auto simp: find_None_iff list_all_iff ev_key_def)

lemma fresh_for_merged:
  assumes "envelope_ok x" "fresh_for en t" "en_engagement x \<noteq> en_engagement en"
  shows "fresh_for en (merged x t)"
proof -
  have x: "envelope_make x = Inr x" using assms(1) by (simp add: envelope_ok_def)
  have "lookup (merged x t) (en_engagement en, vid) = None" for vid
    using find_ev_key_None [of "en_engagement x" "en_records x" "(en_engagement en, vid)"] envelope_make_facts [OF x] assms
    by (simp add: lookup_merged [OF x] fresh_for_def)
  with assms show ?thesis by (auto simp: fresh_for_def metadata_merged split: option.splits)
qed

lemma fresh_rest:
  "envelope_ok x \<Longrightarrow> en_engagement x \<notin> en_engagement ` set ens \<Longrightarrow>
   \<forall>en\<in>set ens. fresh_for en t \<Longrightarrow> \<forall>en\<in>set ens. fresh_for en (merged x t)"
  by (metis fresh_for_merged image_eqI)

lemma fresh_fits: "envelope_ok x \<Longrightarrow> fresh_for x t \<Longrightarrow> envelope_fits x t"
  using envelope_make_facts [of x]
  by (auto simp: envelope_fits_def fresh_for_def ev_key_def list_all_iff envelope_ok_def)

lemma load_envelopes_printed:
  assumes "list_all envelope_ok ens" "distinct (map en_engagement ens)"
    "\<forall>en\<in>set ens. en_engagement en \<notin> set seen \<and> fresh_for en t"
  shows "load_envelopes (map (\<lambda>en. norm (envelope_to_dict en)) ens) seen t = Inr (fold merged ens t)"
  using assms
proof (induction ens arbitrary: seen t)
  case (Cons x ens)
  then have "mem_append_envelope x t = Inr (merged x t)"
    by (simp add: mem_append_envelope_Inr fresh_fits)
  moreover have "\<forall>en\<in>set ens. en_engagement en \<notin> set (en_engagement x # seen) \<and> fresh_for en (merged x t)"
  proof
    fix en assume en: "en \<in> set ens"
    have nx: "en_engagement x \<notin> en_engagement ` set ens" using Cons.prems(2) by simp
    have "fresh_for en (merged x t)"
      using Cons.prems(1,3) en by (intro bspec [OF fresh_rest [OF _ nx] en]) auto
    moreover have "en_engagement en \<noteq> en_engagement x" using nx en by (metis image_eqI)
    ultimately show "en_engagement en \<notin> set (en_engagement x # seen) \<and> fresh_for en (merged x t)"
      using en Cons.prems(3) by simp
  qed
  ultimately show ?case
    using Cons by (simp add: envelope_from_to_dict)
qed simp

lemma lookup_merged_other:
  "envelope_ok x \<Longrightarrow> fst k \<noteq> en_engagement x \<Longrightarrow> lookup (merged x t) k = lookup t k"
  using find_ev_key_None [of "en_engagement x" "en_records x" k] envelope_make_facts [of x]
  by (simp add: lookup_merged envelope_ok_def)

lemma metadata_merged_other:
  "e \<noteq> en_engagement x \<Longrightarrow> map_of (ms_metadata (merged x t)) e = map_of (ms_metadata t) e"
  by (simp add: metadata_merged split: option.splits)

lemma fold_merged_other:
  assumes "list_all envelope_ok ens" "fst k \<notin> en_engagement ` set ens"
  shows "lookup (fold merged ens t) k = lookup t k \<and>
    map_of (ms_metadata (fold merged ens t)) (fst k) = map_of (ms_metadata t) (fst k)"
  using assms
  by (induction ens arbitrary: t) (simp_all add: lookup_merged_other metadata_merged_other)

lemma fold_merged_own:
  assumes "list_all envelope_ok ens" "distinct (map en_engagement ens)" "\<forall>en\<in>set ens. fresh_for en t"
    "en \<in> set ens" "fst k = en_engagement en"
  shows "lookup (fold merged ens t) k = find (\<lambda>r. ev_key r = k) (en_records en) \<and>
    map_of (ms_metadata (fold merged ens t)) (fst k) = en_metadata en"
  using assms
proof (induction ens arbitrary: t)
  case (Cons x ens)
  have x: "envelope_make x = Inr x" using Cons.prems by (simp add: envelope_ok_def)
  show ?case
  proof (cases "en = x")
    case True
    then have "fst k \<notin> en_engagement ` set ens" using Cons.prems by simp
    moreover have "lookup t k = None \<and> map_of (ms_metadata t) (fst k) = None"
      using Cons.prems True by (cases k) (auto simp: fresh_for_def)
    ultimately show ?thesis
      using Cons.prems True fold_merged_other [of ens k "merged x t"]
      by (auto simp: lookup_merged [OF x] metadata_merged split: option.splits)
  next
    case False
    then show ?thesis
      using Cons.prems fresh_rest [of x ens t] Cons.IH [of "merged x t"] by simp
  qed
qed simp

lemma find_own:
  assumes "mem_ok s" "set rs = set (own_records s (fst k))"
  shows "find (\<lambda>r. ev_key r = k) rs = lookup s k"
proof (cases "find (\<lambda>r. ev_key r = k) rs")
  case None
  then have "\<forall>r. lookup s k \<noteq> Some r"
    using assms(2) own_records_iff [OF assms(1)] mem_ok_lookup [OF assms(1)] mem_ok_record [OF assms(1)]
    unfolding find_None_iff by (metis ev_key_def fst_conv)
  with None show ?thesis by simp
next
  case (Some r)
  then have "r \<in> set rs" "ev_key r = k" by (auto simp: find_Some_iff)
  with Some assms(2) own_records_iff [OF assms(1)] show ?thesis by simp
qed

lemma store_text_reopens:
  assumes "mem_ok s"
  shows "\<exists>text t. store_text s = Inr text \<and> mem_of_file (Some text) = Inr t
    \<and> lookup t = lookup s \<and> map_of (ms_metadata t) = map_of (ms_metadata s)"
proof -
  let ?ids = "mem_engagements s"
  define ex where "ex eid = projr (mem_export s eid)" for eid
  have ex: "\<And>eid. eid \<in> set ?ids \<Longrightarrow> mem_export s eid = Inr (ex eid) \<and> envelope_ok (ex eid) \<and> en_engagement (ex eid) = eid
    \<and> en_metadata (ex eid) = map_of (ms_metadata s) eid \<and> set (en_records (ex eid)) = set (own_records s eid)"
  proof -
    fix eid assume e: "eid \<in> set ?ids"
    obtain en where "mem_export s eid = Inr en" "envelope_ok en \<and> en_engagement en = eid
      \<and> en_metadata en = map_of (ms_metadata s) eid \<and> set (en_records en) = set (own_records s eid)"
      using mem_export_ok [OF assms engagements_trimmed [OF assms e]] by blast
    then show "mem_export s eid = Inr (ex eid) \<and> envelope_ok (ex eid) \<and> en_engagement (ex eid) = eid
      \<and> en_metadata (ex eid) = map_of (ms_metadata s) eid \<and> set (en_records (ex eid)) = set (own_records s eid)"
      by (simp add: ex_def)
  qed
  let ?ens = "map ex ?ids"
  have ids: "map en_engagement ?ens = ?ids" by (simp add: ex map_idI)
  have ok: "list_all envelope_ok ?ens" by (simp add: list_all_iff ex)
  have d: "distinct (map en_engagement ?ens)" unfolding ids by (simp add: mem_engagements_def)
  have fresh: "\<forall>en\<in>set ?ens. fresh_for en empty_mem" by (simp add: fresh_for_def empty_mem_def)
  let ?t = "fold merged ?ens empty_mem"
  let ?payload = "PDict [(''schema_version'', PInt 1), (''engagements'', PList (map envelope_to_dict ?ens))]"
  have "mapE (\<lambda>eid. bindE (mem_export s eid) (\<lambda>en. Inr (envelope_to_dict en))) ?ids = Inr (map envelope_to_dict ?ens)"
    unfolding mapE_Inr_iff by (simp add: list.rel_map list_all2_same ex)
  then have st: "store_text s = Inr (dumps True ?payload @ ''\<newline>'')" by (simp add: store_text_def)
  have j: "json_ok ?payload" using envelope_codec.printable_list [OF ok] by simp
  have "load_envelopes (map (\<lambda>en. norm (envelope_to_dict en)) ?ens) [] empty_mem = Inr ?t"
    using fresh by (intro load_envelopes_printed ok d) simp
  then have load: "mem_of_file (Some (dumps True ?payload @ ''\<newline>'')) = Inr ?t"
    using j unfolding mem_of_file_def by (simp add: loads_dumps_line is_dict_with_def dget_def comp_def)
  have "lookup ?t k = lookup s k \<and> map_of (ms_metadata ?t) (fst k) = map_of (ms_metadata s) (fst k)" for k
  proof (cases "fst k \<in> set ?ids")
    case True
    have "find (\<lambda>r. ev_key r = k) (en_records (ex (fst k))) = lookup s k"
      using ex [OF True] by (intro find_own assms) simp
    with fold_merged_own [OF ok d fresh, of "ex (fst k)" k] True ex show ?thesis by simp
  next
    case False
    then have "lookup s k = None \<and> map_of (ms_metadata s) (fst k) = None"
      by (force simp: mem_engagements_def map_of_eq_None_iff)
    moreover have "fst k \<notin> en_engagement ` set ?ens"
      using False ids by (metis list.set_map)
    ultimately show ?thesis
      using fold_merged_other [OF ok, of k empty_mem] by (simp add: empty_mem_def)
  qed
  then have "lookup ?t = lookup s" "map_of (ms_metadata ?t) = map_of (ms_metadata s)"
    by (auto simp: fun_eq_iff)
  with st load show ?thesis by blast
qed

end
