(* ===== verification/Workspace.thy ===== *)
theory Workspace
  imports EngagementStore
begin

text \<open>
  \<^verbatim>\<open>nightrecon_shared_core/workspace.py\<close>: the local workspace, which joins the engagement
  store, the policy store and the authorization audit file, and the views and reports it
  derives from them.
\<close>

record workspace =
  ws_store :: file_store
  ws_policies :: policy_store
  ws_audit :: "string list"

record workspace_summary =
  su_engagement :: string
  su_name :: "string option"
  su_status :: "string option"
  su_nights :: "string list"
  su_count :: nat
  su_types :: "string list"

record evidence_breakdown =
  eb_nights :: "(string \<times> nat) list"
  eb_types :: "(string \<times> nat) list"

record timeline_item =
  ti_id :: string
  ti_night :: string
  ti_type :: string
  ti_observed :: string
  ti_provenance :: string
  ti_limitations :: "string list"

record merge_report =
  mr_engagement :: string
  mr_applied :: bool
  mr_added :: nat
  mr_identical :: nat
  mr_conflicts :: "string list"
  mr_metadata_conflict :: bool
  mr_nights :: "string list"

definition status_transitions :: "string \<Rightarrow> string list" where
  "status_transitions s =
     (if s = ''planned'' then [''active'', ''archived'']
      else if s = ''active'' then [''paused'', ''completed'']
      else if s = ''paused'' then [''active'', ''completed'']
      else if s = ''completed'' then [''archived'']
      else [])"

definition open_workspace :: "string option \<Rightarrow> string option \<Rightarrow> string list \<Rightarrow> workspace res" where
  "open_workspace store_file policy_file audit =
     bindE (open_file_store store_file) (\<lambda>s.
     bindE (open_store policy_file) (\<lambda>p.
     Inr \<lparr>ws_store = s, ws_policies = p, ws_audit = audit\<rparr>))"

definition ws_exists :: "workspace \<Rightarrow> string \<Rightarrow> bool" where
  "ws_exists w eid = (eid \<in> set (mem_engagements (fs_memory (ws_store w))))"

definition not_found :: "string \<Rightarrow> pyexc" where
  "not_found eid = ValueError (''engagement not found: '' @ eid)"

section \<open>Execution policies\<close>

definition set_execution_policy :: "io_env \<Rightarrow> exec_policy \<Rightarrow> workspace \<Rightarrow> exec_policy res \<times> workspace" where
  "set_execution_policy io p w =
     (if \<not> ws_exists w (ep_engagement p) then (Inl (not_found (ep_engagement p)), w)
      else (case set_policy io p (ws_policies w) of
              (Inl e, s) \<Rightarrow> (Inl e, w\<lparr>ws_policies := s\<rparr>)
            | (Inr _, s) \<Rightarrow> (Inr p, w\<lparr>ws_policies := s\<rparr>)))"

definition execution_policy :: "workspace \<Rightarrow> string \<Rightarrow> exec_policy res" where
  "execution_policy w eid =
     req (ws_exists w eid) (not_found eid)
    (bindE (store_policy (ws_policies w) eid) (\<lambda>p.
       case p of
         None \<Rightarrow> Inl (ValueError (''engagement authorization policy not found: '' @ eid))
       | Some q \<Rightarrow> Inr q))"

definition revoke_execution :: "io_env \<Rightarrow> string \<Rightarrow> workspace \<Rightarrow> exec_policy res \<times> workspace" where
  "revoke_execution io eid w =
     (if \<not> ws_exists w eid then (Inl (not_found eid), w)
      else (case revoke_policy io eid (ws_policies w) of (r, s) \<Rightarrow> (r, w\<lparr>ws_policies := s\<rparr>)))"

definition ws_envelope :: "workspace \<Rightarrow> string \<Rightarrow> envelope res" where
  "ws_envelope w eid =
     req (ws_exists w eid) (not_found eid) (mem_export (fs_memory (ws_store w)) eid)"

text \<open>The decision reported after the action has been consumed.\<close>

definition consumed_decision :: "decision \<Rightarrow> exec_policy \<Rightarrow> decision" where
  "consumed_decision d p =
     d\<lparr>de_allowed := True, de_used := ep_used p, de_max := ep_max_actions p,
       de_remaining := ep_max_actions p - ep_used p\<rparr>"

definition audited :: "bool \<Rightarrow> pydt \<Rightarrow> decision \<Rightarrow> workspace \<Rightarrow> decision res \<times> workspace" where
  "audited audit_ok now d w =
     (case append_audit audit_ok (ws_audit w) d now of
        (Inl e, ls) \<Rightarrow> (Inl e, w\<lparr>ws_audit := ls\<rparr>)
      | (Inr _, ls) \<Rightarrow> (Inr d, w\<lparr>ws_audit := ls\<rparr>))"

definition authorize_action ::
  "io_env \<Rightarrow> bool \<Rightarrow> string \<Rightarrow> action \<Rightarrow> bool \<Rightarrow> pydt \<Rightarrow> workspace \<Rightarrow> decision res \<times> workspace" where
  "authorize_action io audit_ok eid a consume now w =
     (case bindE (execution_policy w eid) (\<lambda>p.
           bindE (ws_envelope w eid) (\<lambda>en.
             evaluate_action p (map_option em_status (en_metadata en)) a now)) of
        Inl e \<Rightarrow> (Inl e, w)
      | Inr d \<Rightarrow>
          (if de_allowed d \<and> consume then
             (case consume_action io eid (ws_policies w) of
                (Inl e, s) \<Rightarrow> (Inl e, w\<lparr>ws_policies := s\<rparr>)
              | (Inr p, s) \<Rightarrow> audited audit_ok now (consumed_decision d p) (w\<lparr>ws_policies := s\<rparr>))
           else audited audit_ok now d w))"

definition authorization_audit :: "workspace \<Rightarrow> string \<Rightarrow> audit_record list res" where
  "authorization_audit w eid =
     req (ws_exists w eid) (not_found eid)
       (bindE (read_audit (ws_audit w)) (\<lambda>rs. Inr (filter (\<lambda>r. au_engagement r = eid) rs)))"

section \<open>Views\<close>

definition sorted_set :: "string list \<Rightarrow> string list" where
  "sorted_set xs = sort (remdups xs)"

definition ws_summary :: "workspace \<Rightarrow> string \<Rightarrow> workspace_summary res" where
  "ws_summary w eid =
     bindE (ws_envelope w eid) (\<lambda>en.
     Inr \<lparr>su_engagement = eid, su_name = map_option em_name (en_metadata en),
          su_status = map_option em_status (en_metadata en),
          su_nights = sorted_set (map er_night (en_records en)), su_count = length (en_records en),
          su_types = sorted_set (map er_type (en_records en))\<rparr>)"

definition ws_summaries :: "workspace \<Rightarrow> workspace_summary list res" where
  "ws_summaries w = mapE (ws_summary w) (mem_engagements (fs_memory (ws_store w)))"

text \<open>\<^verbatim>\<open>sorted(Counter(xs).items())\<close>\<close>

definition sorted_counts :: "string list \<Rightarrow> (string \<times> nat) list" where
  "sorted_counts xs = map (\<lambda>k. (k, count_list xs k)) (sorted_set xs)"

definition ws_breakdown :: "workspace \<Rightarrow> string \<Rightarrow> evidence_breakdown res" where
  "ws_breakdown w eid =
     bindE (ws_envelope w eid) (\<lambda>_.
     bindE (mem_records (fs_memory (ws_store w)) eid None None) (\<lambda>rs.
     Inr \<lparr>eb_nights = sorted_counts (map er_night rs), eb_types = sorted_counts (map er_type rs)\<rparr>))"

definition timeline_of :: "evidence \<Rightarrow> timeline_item" where
  "timeline_of r =
     \<lparr>ti_id = er_id r, ti_night = er_night r, ti_type = er_type r, ti_observed = er_observed r,
      ti_provenance = er_provenance r, ti_limitations = er_limitations r\<rparr>"

definition ws_timeline :: "workspace \<Rightarrow> string \<Rightarrow> timeline_item list res" where
  "ws_timeline w eid =
     bindE (ws_envelope w eid) (\<lambda>en.
     Inr (map timeline_of (sort_key (\<lambda>r. (er_observed r, er_id r)) (en_records en))))"

section \<open>Engagements\<close>

definition create_engagement :: "io_env \<Rightarrow> metadata \<Rightarrow> workspace \<Rightarrow> workspace_summary res \<times> workspace" where
  "create_engagement io m w =
     (if ws_exists w (em_engagement m)
      then (Inl (ValueError (''engagement already exists: '' @ em_engagement m)), w)
      else (case fs_set_metadata io m (ws_store w) of
              (Inl e, s) \<Rightarrow> (Inl e, w\<lparr>ws_store := s\<rparr>)
            | (Inr _, s) \<Rightarrow>
                (let w' = w\<lparr>ws_store := s\<rparr> in (ws_summary w' (em_engagement m), w'))))"

definition update_status :: "io_env \<Rightarrow> string \<Rightarrow> string \<Rightarrow> workspace \<Rightarrow> workspace_summary res \<times> workspace" where
  "update_status io eid status w =
     (case ws_envelope w eid of
        Inl e \<Rightarrow> (Inl e, w)
      | Inr en \<Rightarrow>
          (case en_metadata en of
             None \<Rightarrow> (Inl (ValueError ''engagement metadata is required to update status''), w)
           | Some m \<Rightarrow>
               (if status = em_status m then (ws_summary w eid, w)
                else if status \<notin> set (status_transitions (em_status m))
                then (Inl (ValueError (''invalid engagement status transition: '' @ em_status m @ '' -> '' @ status)), w)
                else (case metadata_make (m\<lparr>em_status := status\<rparr>) of
                        Inl e \<Rightarrow> (Inl e, w)
                      | Inr m' \<Rightarrow>
                          (case fs_replace_metadata io m' (ws_store w) of
                             (Inl e, s) \<Rightarrow> (Inl e, w\<lparr>ws_store := s\<rparr>)
                           | (Inr _, s) \<Rightarrow>
                               (let w' = w\<lparr>ws_store := s\<rparr> in (ws_summary w' eid, w')))))))"

section \<open>Merging\<close>

definition same_as_existing :: "evidence list \<Rightarrow> evidence \<Rightarrow> bool" where
  "same_as_existing current r =
     (case map_of (map (\<lambda>x. (er_id x, x)) current) (er_id r) of
        None \<Rightarrow> False
      | Some old \<Rightarrow> evidence_eq old r)"

definition unknown_record :: "evidence list \<Rightarrow> evidence \<Rightarrow> bool" where
  "unknown_record current r = (map_of (map (\<lambda>x. (er_id x, x)) current) (er_id r) = None)"

definition merge_conflicts :: "evidence list \<Rightarrow> evidence list \<Rightarrow> string list" where
  "merge_conflicts current new =
     map er_id (filter (\<lambda>r. \<not> unknown_record current r \<and> \<not> same_as_existing current r) new)"

definition merge_envelope :: "io_env \<Rightarrow> envelope \<Rightarrow> workspace \<Rightarrow> merge_report res \<times> workspace" where
  "merge_envelope io en w =
     (case (if ws_exists w (en_engagement en) then mem_export (fs_memory (ws_store w)) (en_engagement en)
            else envelope_init (PInt 1) (PStr (en_engagement en)) [] None) of
        Inl e \<Rightarrow> (Inl e, w)
      | Inr current \<Rightarrow>
          (let meta = (en_metadata current \<noteq> None \<and> en_metadata en \<noteq> None
                       \<and> en_metadata current \<noteq> en_metadata en);
               conflicts = merge_conflicts (en_records current) (en_records en);
               identical = length (filter (same_as_existing (en_records current)) (en_records en));
               added = length (filter (unknown_record (en_records current)) (en_records en))
           in if meta \<or> conflicts \<noteq> [] then
                (Inr \<lparr>mr_engagement = en_engagement en, mr_applied = False, mr_added = 0,
                      mr_identical = identical, mr_conflicts = sort conflicts, mr_metadata_conflict = meta,
                      mr_nights = sorted_set (map er_night (en_records current @ en_records en))\<rparr>, w)
              else (case fs_append_envelope io en (ws_store w) of
                      (Inl e, s) \<Rightarrow> (Inl e, w\<lparr>ws_store := s\<rparr>)
                    | (Inr _, s) \<Rightarrow>
                        (bindE (mem_export (fs_memory s) (en_engagement en)) (\<lambda>merged.
                           Inr \<lparr>mr_engagement = en_engagement en, mr_applied = True, mr_added = added,
                                mr_identical = identical, mr_conflicts = [], mr_metadata_conflict = False,
                                mr_nights = sorted_set (map er_night (en_records merged))\<rparr>),
                         w\<lparr>ws_store := s\<rparr>))))"

definition import_file :: "io_env \<Rightarrow> string \<Rightarrow> workspace \<Rightarrow> merge_report res \<times> workspace" where
  "import_file io text w =
     (case envelope_from_json text of
        Inl e \<Rightarrow> (Inl e, w)
      | Inr en \<Rightarrow> merge_envelope io en w)"

text \<open>\<^verbatim>\<open>export_file\<close>: the new content of the destination, or the exception that left it alone.\<close>

definition export_file :: "io_env \<Rightarrow> string \<Rightarrow> workspace \<Rightarrow> string res" where
  "export_file io eid w =
     bindE (ws_envelope w eid) (\<lambda>en.
     req (io_write_ok io) OSError
       (bindE (replace_once io) (\<lambda>_. Inr (envelope_to_json en @ ''\<newline>''))))"

section \<open>The life cycle of an engagement\<close>

text \<open>One allowed change of status, and any number of them.\<close>

inductive status_step :: "string \<Rightarrow> string \<Rightarrow> bool" where
  activate: "status_step ''planned'' ''active''"
| shelve: "status_step ''planned'' ''archived''"
| pause: "status_step ''active'' ''paused''"
| finish: "status_step ''active'' ''completed''"
| resume: "status_step ''paused'' ''active''"
| abandon: "status_step ''paused'' ''completed''"
| archive: "status_step ''completed'' ''archived''"

inductive_cases from_archived: "status_step ''archived'' s"
inductive_cases from_completed: "status_step ''completed'' s"

lemma status_transitions_step: "t \<in> set (status_transitions s) \<Longrightarrow> status_step s t"
  by (auto simp: status_transitions_def intro: status_step.intros split: if_splits)

lemma status_step_transitions: "status_step s t \<Longrightarrow> t \<in> set (status_transitions s)"
  by (induction rule: status_step.induct) (simp_all add: status_transitions_def)

abbreviation status_path :: "string \<Rightarrow> string \<Rightarrow> bool" where
  "status_path \<equiv> status_step\<^sup>*\<^sup>*"

lemma archived_terminal: "status_path ''archived'' s \<Longrightarrow> s = ''archived''"
  by (induction rule: rtranclp_induct) (auto elim: from_archived)

datatype ws_call =
    CreateEngagement io_env metadata
  | UpdateStatus io_env string string
  | MergeEnvelope io_env envelope
  | ImportFile io_env string
  | SetExecutionPolicy io_env exec_policy
  | RevokeExecution io_env string
  | AuthorizeAction io_env bool string action bool pydt

fun ws_step :: "ws_call \<Rightarrow> workspace \<Rightarrow> workspace" where
  "ws_step (CreateEngagement io m) w = snd (create_engagement io m w)"
| "ws_step (UpdateStatus io eid st) w = snd (update_status io eid st w)"
| "ws_step (MergeEnvelope io en) w = snd (merge_envelope io en w)"
| "ws_step (ImportFile io txt) w = snd (import_file io txt w)"
| "ws_step (SetExecutionPolicy io p) w = snd (set_execution_policy io p w)"
| "ws_step (RevokeExecution io eid) w = snd (revoke_execution io eid w)"
| "ws_step (AuthorizeAction io ok eid a c now) w = snd (authorize_action io ok eid a c now w)"

abbreviation meta_of :: "workspace \<Rightarrow> string \<Rightarrow> metadata option" where
  "meta_of w \<equiv> map_of (ms_metadata (fs_memory (ws_store w)))"

text \<open>Metadata only ever moves along the life cycle; every other field stays.\<close>

definition advances :: "metadata \<Rightarrow> metadata \<Rightarrow> bool" where
  "advances m m' \<longleftrightarrow> m' = m\<lparr>em_status := em_status m'\<rparr> \<and> status_path (em_status m) (em_status m')"

definition ws_le :: "workspace \<Rightarrow> workspace \<Rightarrow> bool" where
  "ws_le w v \<longleftrightarrow> (\<forall>eid m. meta_of w eid = Some m \<longrightarrow> (\<exists>m'. meta_of v eid = Some m' \<and> advances m m'))"

lemma advances_refl: "advances m m"
  by (simp add: advances_def)

lemma advances_trans: "advances m n \<Longrightarrow> advances n k \<Longrightarrow> advances m k"
  by (cases m; cases n; cases k) (auto simp: advances_def)

lemma ws_le_refl: "ws_le w w"
  by (auto simp: ws_le_def advances_refl)

lemma ws_le_trans: "ws_le u v \<Longrightarrow> ws_le v w \<Longrightarrow> ws_le u w"
  unfolding ws_le_def by (meson advances_trans)

lemma ws_le_same: "ms_metadata (fs_memory (ws_store v)) = ms_metadata (fs_memory (ws_store w)) \<Longrightarrow> ws_le w v"
  by (auto simp: ws_le_def advances_refl)

lemma fs_persist_memory: "fs_memory (snd (fs_persist io s)) = fs_memory s"
  by (auto simp: fs_persist_def split: sum.splits)

lemma fs_set_metadata_memory:
  "fs_memory (snd (fs_set_metadata io m s)) =
    (case bindE (check_id (em_engagement m)) (\<lambda>_. mem_set_metadata m (fs_memory s)) of Inl _ \<Rightarrow> fs_memory s | Inr t \<Rightarrow> t)"
  by (auto simp: fs_set_metadata_def mem_metadata_def fs_persist_memory bindE_def split: sum.splits)

lemma fs_append_envelope_memory:
  "fs_memory (snd (fs_append_envelope io en s)) =
    (case bindE (mem_export (fs_memory s) (en_engagement en)) (\<lambda>_. mem_append_envelope en (fs_memory s)) of
       Inl _ \<Rightarrow> fs_memory s | Inr t \<Rightarrow> t)"
  by (auto simp: fs_append_envelope_def fs_persist_memory bindE_def split: sum.splits)

lemma merge_le: "ws_le w (snd (merge_envelope io en w))"
proof -
  have "ws_le w (w\<lparr>ws_store := snd (fs_append_envelope io en (ws_store w))\<rparr>)"
    by (auto simp: ws_le_def fs_append_envelope_memory bindE_Inr mem_append_envelope_Inr metadata_merged
        envelope_fits_def advances_refl split: sum.splits option.splits)
  then show ?thesis
    by (auto simp: merge_envelope_def Let_def ws_le_refl split: sum.splits prod.splits)
qed


lemma iso8601_text_Inr: "iso8601_text v f = Inr s \<longleftrightarrow> v = PStr s \<and> trimmed s \<and> iso_parse s \<noteq> None"
  by (auto simp: iso8601_text_def res_simps)

lemma optional_text_opt_str: "optional_text (opt_str x) f = Inr y \<longleftrightarrow> y = x \<and> (\<forall>s. x = Some s \<longrightarrow> trimmed s)"
  by (cases x) (auto simp: optional_text_def opt_str_def res_simps)

lemma metadata_make_idem: "metadata_make m = Inr m' \<Longrightarrow> m' = m"
  unfolding metadata_make_def metadata_init_def bindE_Inr req_Inr iso8601_text_Inr required_text_Inr
    member_value_Inr optional_text_opt_str
  by auto

lemma fs_replace_metadata_memory:
  "fs_memory (snd (fs_replace_metadata io m s)) =
    (case bindE (check_id (em_engagement m)) (\<lambda>_. mem_replace_metadata m (fs_memory s)) of Inl _ \<Rightarrow> fs_memory s | Inr t \<Rightarrow> t)"
  by (auto simp: fs_replace_metadata_def mem_metadata_def fs_persist_memory bindE_def split: sum.splits)

lemma ws_envelope_metadata:
  "ws_envelope w eid = Inr en \<Longrightarrow> en_metadata en = meta_of w eid \<and> en_engagement en = eid
    \<and> (\<forall>m. en_metadata en = Some m \<longrightarrow> em_engagement m = eid)"
  by (auto simp: ws_envelope_def mem_export_def mem_metadata_def res_simps envelope_init_Inr)

lemma update_status_cases:
  "(\<exists>r. update_status io eid st w = (r, w)) \<or>
   (\<exists>m r. meta_of w eid = Some m \<and> em_engagement m = eid \<and> st \<in> set (status_transitions (em_status m)) \<and>
      update_status io eid st w = (r, w\<lparr>ws_store := snd (fs_replace_metadata io (m\<lparr>em_status := st\<rparr>) (ws_store w))\<rparr>))"
proof (cases "ws_envelope w eid")
  case (Inr en)
  note e = ws_envelope_metadata [OF Inr]
  show ?thesis
  proof (cases "en_metadata en")
    case (Some m)
    then have m: "meta_of w eid = Some m" "em_engagement m = eid" using e by auto
    show ?thesis
    proof (cases "metadata_make (m\<lparr>em_status := st\<rparr>)")
      case (Inr m')
      with metadata_make_idem have "m' = m\<lparr>em_status := st\<rparr>" by blast
      with Inr Some m \<open>ws_envelope w eid = Inr en\<close> show ?thesis
        by (cases "fs_replace_metadata io (m\<lparr>em_status := st\<rparr>) (ws_store w)")
          (auto simp: update_status_def Let_def split: sum.splits)
    qed (use Some \<open>ws_envelope w eid = Inr en\<close> in \<open>auto simp: update_status_def\<close>)
  qed (use Inr in \<open>auto simp: update_status_def\<close>)
qed (auto simp: update_status_def)

lemma update_status_le: "ws_le w (snd (update_status io eid st w))"
proof -
  have "ws_le w (w\<lparr>ws_store := snd (fs_replace_metadata io (m\<lparr>em_status := st\<rparr>) (ws_store w))\<rparr>)"
    if m: "meta_of w eid = Some m" "em_engagement m = eid" "st \<in> set (status_transitions (em_status m))" for m
  proof -
    have "advances m (m\<lparr>em_status := st\<rparr>)"
      using status_transitions_step [OF m(3)] by (auto simp: advances_def)
    with m show ?thesis
      by (auto simp: ws_le_def fs_replace_metadata_memory bindE_Inr mem_replace_metadata_def res_simps
          update_conv' advances_refl split: sum.splits)
  qed
  then show ?thesis
    using update_status_cases [of io eid st w] ws_le_refl by (metis snd_conv)
qed

lemma create_engagement_le: "ws_le w (snd (create_engagement io m w))"
proof -
  have "ws_le w (w\<lparr>ws_store := snd (fs_set_metadata io m (ws_store w))\<rparr>)"
    by (auto simp: ws_le_def fs_set_metadata_memory bindE_Inr mem_set_metadata_def update_conv' advances_refl
        split: sum.splits option.splits if_splits)
  then show ?thesis
    by (auto simp: create_engagement_def Let_def ws_le_refl split: sum.splits prod.splits)
qed

lemma audited_store: "ws_store (snd (audited ok now d w)) = ws_store w"
  by (auto simp: audited_def split: prod.splits sum.splits)

interpretation ws_machine: guarded_machine ws_step "\<lambda>_. True" ws_le
proof
  fix w a
  show "ws_le w (ws_step a w)"
  proof (cases a)
    case (ImportFile io body)
    then show ?thesis
      using merge_le ws_le_refl by (auto simp: import_file_def split: sum.splits)
  next
    case (AuthorizeAction io ok eid act c now)
    have "ws_store (snd (authorize_action io ok eid act c now w)) = ws_store w"
      by (auto simp: authorize_action_def audited_store split: sum.splits prod.splits)
    with AuthorizeAction show ?thesis by (auto intro: ws_le_same)
  next
    case (SetExecutionPolicy io p)
    then show ?thesis
      by (auto simp: set_execution_policy_def intro: ws_le_same split: sum.splits prod.splits)
  next
    case (RevokeExecution io eid)
    then show ?thesis by (auto simp: revoke_execution_def intro: ws_le_same split: prod.splits)
  qed (simp_all add: create_engagement_le update_status_le merge_le)
qed (auto intro: ws_le_refl ws_le_trans)

section \<open>Authorizing an action\<close>

lemma execution_policy_Inr:
  "execution_policy w eid = Inr p \<Longrightarrow> map_of (ps_policies (ws_policies w)) eid = Some p"
proof -
  assume "execution_policy w eid = Inr p"
  then have "store_policy (ws_policies w) eid = Inr (Some p)"
    unfolding execution_policy_def bindE_Inr req_Inr by (auto split: option.splits)
  then show ?thesis using store_policy_Inr by metis
qed

lemma audited_Inr:
  assumes "read_audit (ws_audit w) = Inr rs" "audited ok now d w = (Inr d', w')"
  shows "d' = d \<and> ws_policies w' = ws_policies w \<and> ws_store w' = ws_store w
    \<and> read_audit (ws_audit w') = Inr (rs @ [audit_of d (isoformat now)])"
  using assms(2) read_audit_snoc [OF assms(1)]
  by (auto simp: audited_def append_audit_def Let_def split: if_splits)

lemma evaluate_action_engagement:
  "evaluate_action p st a now = Inr d \<Longrightarrow> de_engagement d = ep_engagement p"
  by (auto simp: evaluate_action_def bindE_Inr decide_def)

lemma authorize_action_Inr:
  assumes "store_inv (ws_policies w)" "read_audit (ws_audit w) = Inr rs"
    "authorize_action io ok eid a consume now w = (Inr d, w')"
  obtains p where "map_of (ps_policies (ws_policies w)) eid = Some p" "ws_store w' = ws_store w"
    "evaluate_action p (map_option em_status (meta_of w eid)) a now =
       Inr (d\<lparr>de_used := ep_used p, de_max := ep_max_actions p, de_remaining := ep_max_actions p - ep_used p\<rparr>)"
    "read_audit (ws_audit w') = Inr (rs @ [audit_of d (isoformat now)])"
    "if de_allowed d \<and> consume
     then ws_policies w' = stored (ws_policies w) (p\<lparr>ep_used := ep_used p + 1\<rparr>) \<and> de_used d = ep_used p + 1
       \<and> de_used d \<le> ep_max_actions p
     else ws_policies w' = ws_policies w"
proof -
  have ok: "store_ok (ws_policies w)" using assms(1) by (simp add: store_inv_def)
  obtain p en d0 where e: "execution_policy w eid = Inr p" "ws_envelope w eid = Inr en"
    "evaluate_action p (map_option em_status (en_metadata en)) a now = Inr d0"
    using assms(3) by (auto simp: authorize_action_def bindE_def split: sum.splits)
  note p = execution_policy_Inr [OF e(1)]
  note m = ws_envelope_metadata [OF e(2)]
  have pok: "policy_ok p" using store_lookup [OF ok p] by simp
  have d0: "d0\<lparr>de_used := ep_used p, de_max := ep_max_actions p, de_remaining := ep_max_actions p - ep_used p\<rparr> = d0"
    using e(3) pok by (cases d0) (auto simp: evaluate_action_def bindE_Inr decide_def policy_ok_facts policy_facts_def)
  show ?thesis
  proof (cases "de_allowed d0 \<and> consume")
    case False
    with assms(3) e have au: "audited ok now d0 w = (Inr d, w')" by (auto simp: authorize_action_def)
    from audited_Inr [OF assms(2) this] False e d0 m show ?thesis by (intro that [OF p]) auto
  next
    case True
    from True assms(3) e obtain q s where q: "consume_action io eid (ws_policies w) = (Inr q, s)"
      "audited ok now (consumed_decision d0 q) (w\<lparr>ws_policies := s\<rparr>) = (Inr d, w')"
      by (auto simp: authorize_action_def split: sum.splits prod.splits)
    have q': "q = p\<lparr>ep_used := ep_used p + 1\<rparr>" "s = stored (ws_policies w) q" "ep_used p < ep_max_actions p"
      using consume_action_cases [OF ok, of io eid] q(1) p by auto
    have rd: "read_audit (ws_audit (w\<lparr>ws_policies := s\<rparr>)) = Inr rs" using assms(2) by simp
    have d: "d = consumed_decision d0 q" using audited_Inr [OF rd q(2)] by simp
    have "d\<lparr>de_used := ep_used p, de_max := ep_max_actions p, de_remaining := ep_max_actions p - ep_used p\<rparr> = d0"
      using d d0 True q' by (cases d0) (simp add: consumed_decision_def)
    with audited_Inr [OF rd q(2)] e m True q' d show ?thesis
      by (intro that [OF p]) (auto simp: consumed_decision_def)
  qed
qed

section \<open>Merging\<close>

text \<open>What the report is built from: the stored envelope of the engagement, if there is one.\<close>

definition stored_envelope :: "workspace \<Rightarrow> string \<Rightarrow> envelope res" where
  "stored_envelope w eid =
     (if ws_exists w eid then mem_export (fs_memory (ws_store w)) eid
      else envelope_init (PInt 1) (PStr eid) [] None)"

lemma stored_envelope_Inr:
  assumes "stored_envelope w eid = Inr en" "mem_ok (fs_memory (ws_store w))"
  shows "en_metadata en = meta_of w eid"
    "r \<in> set (en_records en) \<longleftrightarrow> lookup (fs_memory (ws_store w)) (ev_key r) = Some r \<and> er_engagement r = eid"
proof -
  let ?m = "fs_memory (ws_store w)"
  have "en_metadata en = meta_of w eid \<and> (r \<in> set (en_records en) \<longleftrightarrow> r \<in> set (own_records ?m eid))"
  proof (cases "ws_exists w eid")
    case True
    with assms(1) have "en_metadata en = meta_of w eid \<and> en_records en = sort_key er_id (own_records ?m eid)"
      by (auto simp: stored_envelope_def mem_export_def mem_metadata_def mem_records_all bindE_Inr envelope_init_Inr)
    then show ?thesis by simp
  next
    case False
    then have "meta_of w eid = None" "own_records ?m eid = []"
      by (force simp: ws_exists_def mem_engagements_def map_of_eq_None_iff own_records_def filter_empty_conv)+
    with False assms(1) show ?thesis by (auto simp: stored_envelope_def envelope_init_Inr)
  qed
  then show "en_metadata en = meta_of w eid"
    "r \<in> set (en_records en) \<longleftrightarrow> lookup ?m (ev_key r) = Some r \<and> er_engagement r = eid"
    using own_records_iff [OF assms(2)] by auto
qed

lemma merge_conflicts_unfit:
  assumes "stored_envelope w (en_engagement en) = Inr cur" "mem_ok (fs_memory (ws_store w))" "envelope_ok en"
    "merge_conflicts (en_records cur) (en_records en) \<noteq> []"
  shows "\<not> envelope_fits en (fs_memory (ws_store w))"
proof -
  obtain r where r: "r \<in> set (en_records en)" "\<not> unknown_record (en_records cur) r" "\<not> same_as_existing (en_records cur) r"
    using assms(4) by (auto simp: merge_conflicts_def filter_empty_conv)
  then obtain old where o: "map_of (map (\<lambda>x. (er_id x, x)) (en_records cur)) (er_id r) = Some old" "\<not> evidence_eq old r"
    by (auto simp: unknown_record_def same_as_existing_def)
  then have "(er_id r, old) \<in> set (map (\<lambda>x. (er_id x, x)) (en_records cur))" by (intro map_of_SomeD)
  then have "old \<in> set (en_records cur)" "er_id old = er_id r" by auto
  moreover have "er_engagement r = en_engagement en"
    using r(1) assms(3) envelope_make_facts [of en] by (simp add: envelope_ok_def list_all_iff)
  ultimately have "lookup (fs_memory (ws_store w)) (ev_key r) = Some old"
    using stored_envelope_Inr(2) [OF assms(1,2), of old] by (metis ev_key_def)
  with r o show ?thesis by (auto simp: envelope_fits_def)
qed

lemma merge_counts:
  "merge_conflicts cur new = [] \<Longrightarrow>
   length (filter (unknown_record cur) new) + length (filter (same_as_existing cur) new) = length new"
proof (induction new)
  case (Cons r new)
  have "\<not> (unknown_record cur r \<and> same_as_existing cur r)"
    by (auto simp: unknown_record_def same_as_existing_def)
  with Cons show ?case by (auto simp: merge_conflicts_def split: if_splits)
qed simp

lemma merge_envelope_Inr:
  assumes "merge_envelope io en w = (Inr rep, w')" "mem_ok (fs_memory (ws_store w))" "envelope_ok en"
  shows "if mr_applied rep
    then envelope_fits en (fs_memory (ws_store w)) \<and> fs_memory (ws_store w') = merged en (fs_memory (ws_store w))
      \<and> mr_added rep + mr_identical rep = length (en_records en) \<and> mr_conflicts rep = []
    else \<not> envelope_fits en (fs_memory (ws_store w)) \<and> w' = w"
proof -
  obtain cur where cur: "stored_envelope w (en_engagement en) = Inr cur"
    using assms(1) by (cases "stored_envelope w (en_engagement en)") (auto simp: merge_envelope_def stored_envelope_def)
  let ?meta = "en_metadata cur \<noteq> None \<and> en_metadata en \<noteq> None \<and> en_metadata cur \<noteq> en_metadata en"
  let ?conf = "merge_conflicts (en_records cur) (en_records en)"
  show ?thesis
  proof (cases "?meta \<or> ?conf \<noteq> []")
    case True
    have "\<not> envelope_fits en (fs_memory (ws_store w))"
    proof (cases "?conf = []")
      case False
      then show ?thesis by (rule merge_conflicts_unfit [OF cur assms(2,3)])
    next
      case True
      with \<open>?meta \<or> ?conf \<noteq> []\<close> show ?thesis
        using stored_envelope_Inr(1) [OF cur assms(2)] by (auto simp: envelope_fits_def)
    qed
    with True cur assms(1) show ?thesis
      by (auto simp: merge_envelope_def stored_envelope_def [symmetric] Let_def)
  next
    case False
    with cur assms(1) obtain u s where s: "fs_append_envelope io en (ws_store w) = (Inr u, s)"
      "mr_applied rep" "mr_added rep = length (filter (unknown_record (en_records cur)) (en_records en))"
      "mr_identical rep = length (filter (same_as_existing (en_records cur)) (en_records en))"
      "mr_conflicts rep = []" "w' = w\<lparr>ws_store := s\<rparr>"
      by (auto simp: merge_envelope_def stored_envelope_def [symmetric] Let_def bindE_Inr split: prod.splits sum.splits)
    have "\<exists>t. mem_append_envelope en (fs_memory (ws_store w)) = Inr t"
      using s(1) by (auto simp: fs_append_envelope_def split: sum.splits)
    moreover obtain b where "mem_export (fs_memory (ws_store w)) (en_engagement en) = Inr b"
      using s(1) by (auto simp: fs_append_envelope_def split: sum.splits)
    moreover from calculation obtain t where "mem_append_envelope en (fs_memory (ws_store w)) = Inr t" by blast
    ultimately have "envelope_fits en (fs_memory (ws_store w)) \<and> fs_memory s = merged en (fs_memory (ws_store w))"
      using fs_append_envelope_memory [of io en "ws_store w"] s(1) mem_append_envelope_Inr [of en "fs_memory (ws_store w)" t]
      by simp
    with s merge_counts [of "en_records cur" "en_records en"] False show ?thesis by simp
  qed
qed

end
