(* ===== verification/PolicyProps.thy ===== *)
theory PolicyProps
  imports PolicyStore
begin

text \<open>
  The properties of scope checking, of the execution policy and its decisions, of the
  policy store and of the authorization audit file, each with a concrete instance.
\<close>

section \<open>A sample policy\<close>

definition sample_policy :: exec_policy where
  "sample_policy =
     \<lparr>ep_engagement = ''ENG-1'', ep_scope = [''10.0.0.0/24'', ''lab.example''],
      ep_valid_from = ''2024-01-01T00:00:00Z'', ep_valid_until = ''2024-02-01T00:00:00Z'',
      ep_max_actions = 2, ep_permitted = [''scan.tcp'', ''probe''], ep_max_impact = ''high'',
      ep_approval_required = [''probe''], ep_revoked = False, ep_used = 1\<rparr>"

definition sample_action :: action where
  "sample_action =
     \<lparr>ac_capability = ''scan.tcp'', ac_target = ''10.0.0.7'', ac_impact = ''standard'', ac_approval = False\<rparr>"

definition sample_now :: pydt where
  "sample_now = \<lparr>dt_local = time_of ''2024-01-05T00:00:00Z'', dt_offset = Some 0\<rparr>"

definition io_fine :: io_env where
  "io_fine = \<lparr>io_windows = False, io_write_ok = True, io_replace = (\<lambda>_. Replaced)\<rparr>"

definition sample_store :: policy_store where
  "sample_store = stored \<lparr>ps_policies = [], ps_file = None\<rparr> sample_policy"

lemma sample_ok: "policy_ok sample_policy" by code_simp
lemma sample_store_inv: "store_inv sample_store"
  unfolding sample_store_def
  by (rule store_inv_stored) (simp_all add: sample_ok store_ok_def)

section \<open>Scope\<close>

text \<open>A scope that authorizes a network authorizes every address of that network.\<close>
lemma cidr_covers_addresses:
  assumes "parse_target net = Inr t" "t_type t = CIDR" "ip_network (t_value t) = Some n"
    "parse_target addr = Inr a" "ip_address (t_value a) = Some ip" "t_type a = IPV4 \<or> t_type a = IPV6"
    "net_contains n ip" "scope_from_values vs = Inr sc" "is_authorized sc t = Inr True"
  shows "is_authorized sc a = Inr True"
proof -
  have sc: "list_all target_ok sc" using scope_from_values_ok [OF assms(8)] by simp
  have t: "target_ok t" "target_ok a" using parse_target_ok assms(1,4) by auto
  obtain r where r: "r \<in> set sc" "scope_matches r t = Inr True"
    using assms(9) is_authorized_True [OF sc t(1)] by auto
  from r(2) assms(2,3) obtain rn where rn: "t_type r = CIDR" "ip_network (t_value r) = Some rn"
      "net_ver rn = net_ver n" "subnet_of n rn"
    by (auto simp: scope_matches_def the_network_def bindE_Inr split: if_splits option.splits)
  then have "net_contains rn ip"
    using subnet_of_contains [of n rn ip] ip_network_ok [of "t_value t" n] ip_network_ok [of "t_value r" rn]
      assms(3,7) by simp
  with rn assms(5,6) have "scope_matches r a = Inr True"
    by (auto simp: scope_matches_def the_network_def the_address_def)
  with r(1) show ?thesis using is_authorized_True [OF sc t(2)] by auto
qed

lemma cidr_covers_addresses_witness:
  "is_authorized [\<lparr>t_value = ''10.0.0.0/8'', t_type = CIDR\<rparr>] \<lparr>t_value = ''10.1.2.3'', t_type = IPV4\<rparr> = Inr True"
  by (rule cidr_covers_addresses [where net = "''10.1.0.0/16''" and t = "\<lparr>t_value = ''10.1.0.0/16'', t_type = CIDR\<rparr>"
        and n = "the (ip_network ''10.1.0.0/16'')" and addr = "''10.1.2.3''" and ip = "the (ip_address ''10.1.2.3'')"
        and vs = "[''10.0.0.0/8'']"]) code_simp+

section \<open>Decisions\<close>

text \<open>
  C1: on a valid policy and a well-formed request, \<open>evaluate_action\<close> returns a decision,
  and the decision allows the action exactly when all nine conditions hold: active
  engagement, not revoked, inside the window, permitted capability, impact under the
  ceiling, target covered by a scope rule, budget left, approval present where required.
\<close>
lemma evaluate_action_allowed_iff:
  assumes "policy_ok p" "check_request a now = Inr t"
  shows "\<exists>d. evaluate_action p status a now = Inr d \<and> 
    (de_allowed d \<longleftrightarrow> 
     status = Some ''active'' \<and> \<not> ep_revoked p \<and>
     time_of (ep_valid_from p) \<le> instant now \<and> instant now \<le> time_of (ep_valid_until p) \<and>
     ac_capability a \<in> set (ep_permitted p) \<and> 
     impact_rank (ac_impact a) \<le> impact_rank (ep_max_impact p) \<and>
     covered (ep_scope p) t \<and> ep_used p < ep_max_actions p \<and>
     (ac_impact a = ''high'' \<or> ac_capability a \<in> set (ep_approval_required p) \<longrightarrow> ac_approval a))"
  using action_verdict_allowed [OF assms(1), of t status a "instant now"] check_request_target [OF assms(2)]
  by (auto simp: evaluate_action_def assms(2) decide_def may_run_def needs_approval_def)

lemma evaluate_action_allowed_iff_witness:
  "\<exists>d. evaluate_action sample_policy (Some ''active'') sample_action sample_now = Inr d \<and> de_allowed d"
proof -
  have t: "check_request sample_action sample_now = Inr \<lparr>t_value = ''10.0.0.7'', t_type = IPV4\<rparr>" by code_simp
  have "\<not> ep_revoked sample_policy \<and> time_of (ep_valid_from sample_policy) \<le> instant sample_now
    \<and> instant sample_now \<le> time_of (ep_valid_until sample_policy)
    \<and> ac_capability sample_action \<in> set (ep_permitted sample_policy)
    \<and> impact_rank (ac_impact sample_action) \<le> impact_rank (ep_max_impact sample_policy)
    \<and> ep_used sample_policy < ep_max_actions sample_policy
    \<and> ac_impact sample_action \<noteq> ''high'' \<and> ac_capability sample_action \<notin> set (ep_approval_required sample_policy)"
    by code_simp
  moreover have "covered (ep_scope sample_policy) \<lparr>t_value = ''10.0.0.7'', t_type = IPV4\<rparr>"
  proof -
    have "parse_target ''10.0.0.0/24'' = Inr \<lparr>t_value = ''10.0.0.0/24'', t_type = CIDR\<rparr>"
      "scope_matches \<lparr>t_value = ''10.0.0.0/24'', t_type = CIDR\<rparr> \<lparr>t_value = ''10.0.0.7'', t_type = IPV4\<rparr> = Inr True"
      by code_simp+
    then show ?thesis unfolding covered_def by (intro bexI exI conjI) (auto simp: sample_policy_def)
  qed
  ultimately show ?thesis
    using evaluate_action_allowed_iff [OF sample_ok t, of "Some ''active''"] by auto
qed

text \<open>
  An action that was authorized and then consumed stays authorized for the reserved
  re-check with the same arguments, and the consumption is visible as one action less.
\<close>
lemma reserved_after_consume:
  assumes "policy_ok p" "evaluate_action p status a now = Inr d" "de_allowed d"
  shows "\<exists>r. evaluate_reserved_action (p\<lparr>ep_used := ep_used p + 1\<rparr>) status a now = Inr r \<and> de_allowed r
           \<and> de_remaining r + 1 = de_remaining d"
proof -
  obtain t where t: "check_request a now = Inr t" "may_run p status a t (instant now)"
    "ep_used p < ep_max_actions p" "de_remaining d = ep_max_actions p - ep_used p"
    using evaluate_action_Inr [OF assms(1,2)] assms(3) by metis
  have "policy_ok (p\<lparr>ep_used := ep_used p + 1\<rparr>)"
    using assms(1) t(3) by (intro policy_ok_used) (auto simp: policy_ok_facts policy_facts_def)
  from evaluate_reserved_run [OF this t(1), of status] t show ?thesis by auto
qed

lemma reserved_after_consume_witness:
  "\<exists>r. evaluate_reserved_action (sample_policy\<lparr>ep_used := ep_used sample_policy + 1\<rparr>) (Some ''active'')
         sample_action sample_now = Inr r \<and> de_allowed r \<and> de_remaining r + 1 = 1"
proof -
  let ?d = "projr (evaluate_action sample_policy (Some ''active'') sample_action sample_now)"
  have "is_ok (evaluate_action sample_policy (Some ''active'') sample_action sample_now)
    \<and> de_allowed ?d \<and> de_remaining ?d = 1" by code_simp
  then have d: "evaluate_action sample_policy (Some ''active'') sample_action sample_now = Inr ?d"
    "de_allowed ?d" "de_remaining ?d = 1" by (auto intro: is_ok_projr)
  from reserved_after_consume [OF sample_ok d(1,2)] d(3) show ?thesis by simp
qed


section \<open>The store\<close>

text \<open>A valid policy written as a line of JSON and read back is the same policy.\<close>
lemma policy_json_roundtrip:
  assumes "policy_ok p"
  shows "\<exists>v. loads (dumps True (policy_to_dict p) @ ''\<newline>'') = Some v \<and> policy_from_dict v = Inr p"
  by (rule policy_codec.read_line [OF assms])

lemma policy_json_roundtrip_witness:
  "\<exists>v. loads (dumps True (policy_to_dict sample_policy) @ ''\<newline>'') = Some v \<and> policy_from_dict v = Inr sample_policy"
  by (rule policy_json_roundtrip [OF sample_ok])

text \<open>
  C4: from a consistent store, every call (storing, replacing, revoking, consuming, whatever the
  operating system does meanwhile) either raises and leaves memory and file exactly as they
  were, or returns; in both cases opening the file again gives the policies in memory.
\<close>
lemma policy_store_atomic_durable:
  assumes "store_inv s" "policy_step a s = (r, s')"
  shows "(\<not> is_ok r \<longrightarrow> s' = s) \<and>
    (\<exists>t. open_store (ps_file s') = Inr t \<and> map_of (ps_policies t) = map_of (ps_policies s'))"
proof -
  have "\<not> is_ok r \<Longrightarrow> s' = s"
    using policy_machine.raise_keeps [OF assms(1)] assms(2) by (cases r) auto
  moreover have "synced s'"
    using policy_machine.keeps_inv [OF assms(1), of a] assms(2) by (simp add: store_inv_def)
  ultimately show ?thesis by (auto simp: synced_def open_store_def)
qed

definition io_broken :: io_env where
  "io_broken = \<lparr>io_windows = True, io_write_ok = True, io_replace = (\<lambda>_. Denied (Some 5))\<rparr>"

lemma policy_store_atomic_durable_witness:
  "snd (policy_step (ConsumeAction io_broken ''ENG-1'') sample_store) = sample_store"
proof -
  let ?r = "policy_step (ConsumeAction io_broken ''ENG-1'') sample_store"
  have "\<not> is_ok (fst ?r)" by code_simp
  then show ?thesis
    using policy_store_atomic_durable [OF sample_store_inv, of "ConsumeAction io_broken ''ENG-1''" "fst ?r" "snd ?r"]
    by simp
qed

text \<open>
  C2: over any sequence of calls, replacements included, the policy in force is the one the
  engagement was last given, with its counter raised by the number of actions consumed since
  and revoked when it was or has been revoked since; the consumed actions never exceed what
  its budget left.  As long as nobody replaces it, that is the policy of the start and
  every successful consumption.
\<close>
lemma policy_budget_accounting:
  assumes "store_inv s" "map_of (ps_policies s) k = Some p"
  shows "\<exists>b n v. account_of k as s (p, 0, False) = (b, n, v) \<and>
    map_of (ps_policies (run_policy as s)) k =
      Some (b\<lparr>ep_revoked := ep_revoked b \<or> v, ep_used := ep_used b + n\<rparr>) \<and>
    0 \<le> n \<and> n \<le> ep_max_actions b - ep_used b \<and>
    (b = p \<and> n = consumed k as s \<or> replaced_by k as b)"
proof -
  obtain b n v where a: "account_of k as s (p, 0, False) = (b, n, v)" by (metis prod_cases3)
  have q: "map_of (ps_policies (run_policy as s)) k = Some (in_force (b, n, v))" "policy_ok (in_force (b, n, v))"
    using account_in_force [OF assms(1), of k "(p, 0, False)" as] assms(2) a by simp_all
  have "ep_used b + n \<le> ep_max_actions b"
    using q(2) by (simp add: policy_ok_facts policy_facts_def)
  with a q(1) account_of_cases [OF a] show ?thesis by auto
qed

lemma policy_budget_accounting_witness:
  "consumed ''ENG-1'' [ConsumeAction io_broken ''ENG-1'', ConsumeAction io_fine ''ENG-1'', ConsumeAction io_fine ''ENG-1'']
     sample_store \<le> 2 - 1"
proof -
  have "map_of (ps_policies sample_store) ''ENG-1'' = Some sample_policy" by code_simp
  from policy_budget_accounting [OF sample_store_inv this] show ?thesis
    by (fastforce simp: sample_policy_def replaced_by_def simp del: consumed.simps account_of.simps)
qed

text \<open>
  C3: once \<open>revoke\<close> has returned, the authorization only comes back when a later call
  replaces the policy of that very engagement by one that is not revoked: without such a
  replacement neither evaluator ever allows an action of the engagement again.
\<close>
lemma revocation_is_final:
  assumes "store_inv s" "revoke_policy io k s = (Inr p, s1)"
    "map_of (ps_policies (run_policy as s1)) k = Some q"
    "evaluate_action q status a now = Inr d \<or> evaluate_reserved_action q status a now = Inr d"
    "de_allowed d"
  shows "\<exists>b. replaced_by k as b \<and> \<not> ep_revoked b"
proof -
  have ok: "store_ok s" using assms(1) by (simp add: store_inv_def)
  have s1: "store_inv s1"
    using policy_machine.keeps_inv [OF assms(1), of "RevokePolicy io k"] assms(2) by simp
  have p: "map_of (ps_policies s1) k = Some p \<and> ep_revoked p"
    using revoke_policy_cases [OF ok, of io k] assms(2) store_lookup [OF ok]
    by (auto simp: map_of_stored simp del: stored_policies)
  obtain b n v where acc: "account_of k as s1 (p, 0, False) = (b, n, v)" by (metis prod_cases3)
  have q: "q = in_force (b, n, v)" "policy_ok q"
    using account_in_force [OF s1, of k "(p, 0, False)" as] p acc assms(3) by auto
  have "\<not> ep_revoked q"
  proof (cases "evaluate_action q status a now = Inr d")
    case True
    then show ?thesis by (rule evaluate_action_Inr [OF q(2)]) (use assms(5) in \<open>simp add: may_run_def\<close>)
  next
    case False
    with assms(4) have r: "evaluate_reserved_action q status a now = Inr d" by simp
    then obtain t where "check_request a now = Inr t"
      by (auto simp: evaluate_reserved_action_def bindE_Inr)
    from evaluate_reserved_run [OF q(2) this, of status] r assms(5) show ?thesis
      by (simp add: may_run_def)
  qed
  with q(1) p account_of_cases [OF acc] show ?thesis by auto
qed

definition fresh_policy :: exec_policy where
  "fresh_policy = sample_policy\<lparr>ep_max_actions := 5, ep_used := 0\<rparr>"

lemma revocation_is_final_witness:
  "\<exists>b. replaced_by ''ENG-1'' [ConsumeAction io_fine ''ENG-1'', ReplacePolicy io_fine fresh_policy] b \<and> \<not> ep_revoked b"
proof -
  let ?r = "revoke_policy io_fine ''ENG-1'' sample_store"
  let ?as = "[ConsumeAction io_fine ''ENG-1'', ReplacePolicy io_fine fresh_policy]"
  let ?e = "evaluate_action fresh_policy (Some ''active'') sample_action sample_now"
  have "is_ok (fst ?r) \<and> map_of (ps_policies (run_policy ?as (snd ?r))) ''ENG-1'' = Some fresh_policy
    \<and> is_ok ?e \<and> de_allowed (projr ?e)" by code_simp
  then have a: "?r = (Inr (projr (fst ?r)), snd ?r)"
      "map_of (ps_policies (run_policy ?as (snd ?r))) ''ENG-1'' = Some fresh_policy"
    and b: "?e = Inr (projr ?e)" and c: "de_allowed (projr ?e)"
    by (auto simp: prod_eq_iff intro: is_ok_projr)
  show ?thesis by (rule revocation_is_final [OF sample_store_inv a disjI1 [OF b] c])
qed

text \<open>
  Replacing the policy file succeeds exactly when one of six attempts does and every
  attempt before it was a Windows sharing violation; anything else fails closed.
\<close>
lemma replace_policy_file_iff:
  "replace_policy_file io = Inr () \<longleftrightarrow>
     (\<exists>k<6. io_replace io k = Replaced \<and>
        (\<forall>j. j < k \<longrightarrow> io_windows io \<and> (io_replace io j = Denied (Some 5) \<or> io_replace io j = Denied (Some 32))))"
  using replace_loop_Inr [of 0 6 io] by (simp add: replace_policy_file_def sharing_violation_def)

lemma replace_policy_file_iff_witness:
  "replace_policy_file io_broken \<noteq> Inr ()"
  using replace_policy_file_iff [of io_broken] by (simp add: io_broken_def)

text \<open>
  Appending a decision to a readable audit file succeeds for a timestamp with a timezone,
  and reading the file then gives the earlier records followed by exactly the new one.
\<close>
lemma audit_append_read:
  assumes "read_audit lines = Inr rs" "aware at"
  shows "append_audit True lines d at = (Inr (audit_of d (isoformat at)), lines @ [dumps True (audit_to_dict (audit_of d (isoformat at)))])
    \<and> read_audit (snd (append_audit True lines d at)) = Inr (rs @ [audit_of d (isoformat at)])"
  using assms(2) read_audit_snoc [OF assms(1)] by (simp add: append_audit_def Let_def)

lemma audit_append_read_witness:
  "read_audit (snd (append_audit True [] (decide sample_policy sample_action \<lparr>t_value = ''10.0.0.7'', t_type = IPV4\<rparr>
       (True, ''authorized'', ''ok'')) sample_now)) =
   Inr [audit_of (decide sample_policy sample_action \<lparr>t_value = ''10.0.0.7'', t_type = IPV4\<rparr> (True, ''authorized'', ''ok''))
       (isoformat sample_now)]"
proof -
  have a: "aware sample_now" and r: "read_audit [] = Inr []" by (simp_all add: sample_now_def aware_def)
  show ?thesis
    using conjunct2 [OF audit_append_read [OF r a]] by (simp only: append_Nil)
qed

end
