(* ===== verification/WorkspaceProps.thy ===== *)
theory WorkspaceProps
  imports Workspace PolicyProps
begin

text \<open>
  The properties of the evidence contracts, the engagement store and the workspace, each
  with a concrete instance.
\<close>

section \<open>Sample data\<close>

definition sample_metadata :: metadata where
  "sample_metadata =
     \<lparr>em_engagement = ''ENG-1'', em_name = ''Lab'', em_created = ''2024-01-01T00:00:00Z'',
      em_reference = ''AUTH-7'', em_status = ''active'', em_description = None\<rparr>"

definition sample_evidence :: evidence where
  "sample_evidence =
     \<lparr>er_engagement = ''ENG-1'', er_id = ''E-1'', er_night = ''red'', er_type = ''port'',
      er_observed = ''2024-01-02T00:00:00Z'', er_provenance = ''scan'',
      er_data = PDict [(''port'', PInt 22)], er_limitations = [''single probe'']\<rparr>"

definition sample_envelope :: envelope where
  "sample_envelope =
     \<lparr>en_engagement = ''ENG-1'', en_records = [sample_evidence], en_metadata = Some sample_metadata\<rparr>"

lemma sample_metadata_ok: "metadata_ok sample_metadata"
  by code_simp

lemma sample_evidence_ok: "evidence_ok sample_evidence"
  by code_simp

lemma sample_envelope_ok: "envelope_ok sample_envelope"
  unfolding envelope_ok_def
  by (intro conjI) (code_simp, simp_all add: sample_envelope_def sample_evidence_ok sample_metadata_ok)

definition sample_mem :: mem_store where
  "sample_mem =
     \<lparr>ms_records = [(ev_key sample_evidence, sample_evidence)],
      ms_metadata = [(''ENG-1'', sample_metadata)]\<rparr>"

lemma sample_mem_ok: "mem_ok sample_mem"
  by (simp add: mem_ok_def sample_mem_def sample_evidence_ok sample_metadata_ok)
    (simp add: sample_metadata_def)

definition sample_workspace :: workspace where
  "sample_workspace =
     \<lparr>ws_store = \<lparr>fs_memory = sample_mem, fs_file = None\<rparr>, ws_policies = sample_store, ws_audit = []\<rparr>"

section \<open>Evidence\<close>

text \<open>
  C7: an accepted evidence record has no secret-like field name at any depth of its data,
  carries the data it was given unchanged, and names one of the five Nights.
\<close>
lemma evidence_has_no_secret_keys:
  assumes "evidence_from_dict payload = Inr r"
  shows "(\<forall>k\<in>nested_keys (er_data r). \<forall>f\<in>set forbidden_fragments. \<not> contains f (lower k))
    \<and> er_night r \<in> set valid_nights
    \<and> er_data r = dget (dict_items payload) ''data''"
  using assms
  by (auto simp: evidence_from_dict_def evidence_init_def bindE_Inr req_Inr member_value_Inr
      reject_secret_keys_iff secret_like_def list_ex_iff split: pyval.splits)

lemma evidence_has_no_secret_keys_witness:
  "er_night sample_evidence \<in> set valid_nights"
  using evidence_has_no_secret_keys [OF evidence_from_to_dict [OF sample_evidence_ok]] by blast

text \<open>An envelope exported as JSON is imported as the same envelope.\<close>
lemma envelope_json_roundtrip:
  assumes "envelope_ok en"
  shows "envelope_from_json (envelope_to_json en) = Inr en"
  using envelope_codec.read_text [OF assms, of True]
  by (auto simp: envelope_from_json_def envelope_to_json_def)

lemma envelope_json_roundtrip_witness:
  "envelope_from_json (envelope_to_json sample_envelope) = Inr sample_envelope"
  by (rule envelope_json_roundtrip [OF sample_envelope_ok])

text \<open>
  Appending an envelope succeeds exactly when its metadata and every record agree
  with what is stored under the same identifiers; then exactly the identifiers of the
  envelope are set, and otherwise the store is returned as an error and nothing is written.
\<close>
lemma append_envelope_all_or_nothing:
  assumes "envelope_make en = Inr en"
  shows "(is_ok (mem_append_envelope en s) \<longleftrightarrow> envelope_fits en s) \<and>
    (\<forall>t. mem_append_envelope en s = Inr t \<longrightarrow>
       (\<forall>r\<in>set (en_records en). lookup t (ev_key r) = Some r) \<and>
       (\<forall>k. k \<notin> ev_key ` set (en_records en) \<longrightarrow> lookup t k = lookup s k) \<and>
       (\<forall>e. e \<noteq> en_engagement en \<longrightarrow> map_of (ms_metadata t) e = map_of (ms_metadata s) e))"
proof -
  have d: "distinct (map ev_key (en_records en))" using envelope_make_facts [OF assms] by simp
  have "find (\<lambda>x. ev_key x = ev_key r) (en_records en) = Some r" if "r \<in> set (en_records en)" for r
  proof (cases "find (\<lambda>x. ev_key x = ev_key r) (en_records en)")
    case None
    with that show ?thesis by (auto simp: find_None_iff)
  next
    case (Some x)
    then have "x \<in> set (en_records en)" "ev_key x = ev_key r" by (auto simp: find_Some_iff)
    with that d Some show ?thesis by (auto simp: distinct_map inj_on_def)
  qed
  moreover have "find (\<lambda>x. ev_key x = k) (en_records en) = None" if "k \<notin> ev_key ` set (en_records en)" for k
    using that by (auto simp: find_None_iff)
  ultimately show ?thesis
    by (auto simp: is_ok_iff mem_append_envelope_Inr lookup_merged [OF assms] metadata_merged_other)
qed

lemma append_envelope_all_or_nothing_witness:
  "envelope_fits sample_envelope empty_mem \<and>
   lookup (merged sample_envelope empty_mem) (ev_key sample_evidence) = Some sample_evidence"
proof -
  have en: "envelope_make sample_envelope = Inr sample_envelope"
    using sample_envelope_ok by (simp add: envelope_ok_def)
  have fits: "envelope_fits sample_envelope empty_mem" by (simp add: envelope_fits_def empty_mem_def)
  then have m: "mem_append_envelope sample_envelope empty_mem = Inr (merged sample_envelope empty_mem)"
    by (simp add: mem_append_envelope_Inr)
  have "sample_evidence \<in> set (en_records sample_envelope)" by (simp add: sample_envelope_def)
  with append_envelope_all_or_nothing [OF en, of empty_mem] m fits show ?thesis by blast
qed

text \<open>
  Whatever sequence of calls the in-memory store sees, an evidence record that is
  stored stays stored under its key with an equal value.
\<close>
lemma evidence_is_write_once:
  assumes "lookup s k = Some r"
  shows "\<exists>r'. lookup (fold mem_step calls s) k = Some r' \<and> evidence_eq r r'"
  using mem_machine.le_run [of s calls] assms unfolding mem_le_def by blast

lemma evidence_is_write_once_witness:
  "\<exists>r'. lookup (mem_step (MemAppend (sample_evidence\<lparr>er_data := PDict []\<rparr>)) sample_mem) (ev_key sample_evidence)
     = Some r' \<and> evidence_eq sample_evidence r'"
  using evidence_is_write_once [of sample_mem "ev_key sample_evidence" sample_evidence
      "[MemAppend (sample_evidence\<lparr>er_data := PDict []\<rparr>)]"]
  by (simp add: sample_mem_def)

section \<open>The engagement file\<close>

text \<open>
  When the file-backed store persists a well-formed memory, opening the written file
  gives a store with the same record under every key and the same metadata.
\<close>
lemma engagement_file_reopens:
  assumes "mem_ok (fs_memory s)" "fs_persist io s = (Inr u, s')"
  shows "\<exists>t. open_file_store (fs_file s') = Inr t \<and> lookup (fs_memory t) = lookup (fs_memory s')
    \<and> map_of (ms_metadata (fs_memory t)) = map_of (ms_metadata (fs_memory s'))"
proof -
  obtain content t where t: "store_text (fs_memory s) = Inr content" "mem_of_file (Some content) = Inr t"
    "lookup t = lookup (fs_memory s)" "map_of (ms_metadata t) = map_of (ms_metadata (fs_memory s))"
    using store_text_reopens [OF assms(1)] by blast
  with assms(2) have "s' = s\<lparr>fs_file := Some content\<rparr>"
    by (auto simp: fs_persist_def split: if_splits sum.splits)
  with t show ?thesis by (simp add: open_file_store_def)
qed

lemma engagement_file_reopens_witness:
  "\<exists>t. open_file_store (fs_file (snd (fs_persist io_fine \<lparr>fs_memory = sample_mem, fs_file = None\<rparr>))) = Inr t
     \<and> lookup (fs_memory t) (ev_key sample_evidence) = Some sample_evidence"
proof -
  let ?s = "\<lparr>fs_memory = sample_mem, fs_file = None\<rparr>"
  obtain content where "store_text sample_mem = Inr content" using store_text_reopens [OF sample_mem_ok] by blast
  then have p: "fs_persist io_fine ?s = (Inr (), snd (fs_persist io_fine ?s))"
    and m: "fs_memory (snd (fs_persist io_fine ?s)) = sample_mem"
    by (simp_all add: fs_persist_def io_fine_def replace_once_def)
  have ok: "mem_ok (fs_memory ?s)" by (simp add: sample_mem_ok)
  from engagement_file_reopens [OF ok p] m show ?thesis
    by (auto simp: sample_mem_def)
qed

text \<open>
  Memory is changed before the file is written and is not restored when writing fails:
  after a failed append of a new record, repeating the same append reports success and
  writes nothing, so the record is in memory only.
\<close>
lemma append_after_failed_persist_is_lost:
  assumes "trimmed (er_engagement r)" "lookup (fs_memory s) (ev_key r) = None" "\<not> io_write_ok io"
  shows "\<exists>e s'. fs_append io r s = (Inl e, s') \<and> fs_file s' = fs_file s \<and>
    lookup (fs_memory s') (ev_key r) = Some r \<and>
    (\<forall>io'. fs_append io' r s' = (Inr (), s'))"
proof -
  have c: "check_id (er_engagement r) = Inr ()" by (rule trimmed_check_id [OF assms(1)])
  let ?s = "s\<lparr>fs_memory := put_record r (fs_memory s)\<rparr>"
  obtain e where "fs_append io r s = (Inl e, ?s)"
    using fs_append_new [OF c assms(2), of io] fs_persist_fails [OF assms(3), of ?s] by auto
  moreover have "\<forall>io'. fs_append io' r ?s = (Inr (), ?s)"
    using c by (intro allI fs_append_known) auto
  ultimately show ?thesis by auto
qed

lemma append_after_failed_persist_is_lost_witness:
  "\<exists>s'. fs_append io_fine sample_evidence s' = (Inr (), s') \<and> fs_file s' = None
     \<and> lookup (fs_memory s') (ev_key sample_evidence) = Some sample_evidence"
proof -
  let ?s = "\<lparr>fs_memory = empty_mem, fs_file = None\<rparr>"
  have "trimmed (er_engagement sample_evidence)" "lookup (fs_memory ?s) (ev_key sample_evidence) = None"
    by (simp_all add: sample_evidence_ok evidence_ok_trimmed empty_mem_def)
  moreover have "\<not> io_write_ok (io_fine\<lparr>io_write_ok := False\<rparr>)" by simp
  ultimately show ?thesis
    using append_after_failed_persist_is_lost [of sample_evidence ?s "io_fine\<lparr>io_write_ok := False\<rparr>"] by auto
qed

section \<open>The workspace\<close>

text \<open>
  C6: over any sequence of workspace calls, the metadata of an engagement keeps every field
  but its status, its status moves only along the allowed transitions, and an archived
  engagement stays archived.
\<close>
lemma engagement_life_cycle:
  assumes "meta_of w eid = Some m"
  shows "\<exists>m'. meta_of (fold ws_step calls w) eid = Some m' \<and> m' = m\<lparr>em_status := em_status m'\<rparr> \<and>
    status_path (em_status m) (em_status m') \<and> (em_status m = ''archived'' \<longrightarrow> em_status m' = ''archived'')"
proof -
  have "ws_le w (fold ws_step calls w)" by (rule ws_machine.le_run) simp
  then obtain m' where m: "meta_of (fold ws_step calls w) eid = Some m'" "advances m m'"
    using assms unfolding ws_le_def by blast
  then have p: "m' = m\<lparr>em_status := em_status m'\<rparr>" "status_path (em_status m) (em_status m')"
    unfolding advances_def by blast+
  moreover have "em_status m' = ''archived''" if "em_status m = ''archived''"
    using p(2) unfolding that by (rule archived_terminal)
  ultimately show ?thesis using m(1) by blast
qed

lemma engagement_life_cycle_witness:
  "\<exists>m'. meta_of (ws_step (UpdateStatus io_fine ''ENG-1'' ''planned'') sample_workspace) ''ENG-1'' = Some m'
     \<and> status_path ''active'' (em_status m')"
proof -
  have "meta_of sample_workspace ''ENG-1'' = Some sample_metadata" "em_status sample_metadata = ''active''"
    by (simp_all add: sample_workspace_def sample_mem_def sample_metadata_def)
  with engagement_life_cycle [of sample_workspace "''ENG-1''" sample_metadata
      "[UpdateStatus io_fine ''ENG-1'' ''planned'']"]
  show ?thesis by auto
qed

text \<open>
  C5: \<open>authorize_action\<close>, when it returns, has appended exactly one audit record, the one of
  the decision it returned; if it allowed and was asked to consume, exactly one action of
  that engagement was consumed and reported, and otherwise no policy changed.
\<close>
lemma authorize_action_accounts:
  assumes "store_inv (ws_policies w)" "read_audit (ws_audit w) = Inr rs"
    "authorize_action io ok eid a consume now w = (Inr d, w')"
  shows "read_audit (ws_audit w') = Inr (rs @ [audit_of d (isoformat now)]) \<and> ws_store w' = ws_store w \<and>
    (if de_allowed d \<and> consume
     then \<exists>p. map_of (ps_policies (ws_policies w)) eid = Some p \<and>
       map_of (ps_policies (ws_policies w')) =
         (map_of (ps_policies (ws_policies w)))(eid \<mapsto> p\<lparr>ep_used := ep_used p + 1\<rparr>) \<and>
       de_used d = ep_used p + 1 \<and> de_used d \<le> ep_max_actions p
     else ws_policies w' = ws_policies w)"
proof -
  obtain p where p: "map_of (ps_policies (ws_policies w)) eid = Some p" "ws_store w' = ws_store w"
    "read_audit (ws_audit w') = Inr (rs @ [audit_of d (isoformat now)])"
    "if de_allowed d \<and> consume
     then ws_policies w' = stored (ws_policies w) (p\<lparr>ep_used := ep_used p + 1\<rparr>) \<and> de_used d = ep_used p + 1
       \<and> de_used d \<le> ep_max_actions p
     else ws_policies w' = ws_policies w"
    by (rule authorize_action_Inr [OF assms])
  have "ep_engagement p = eid"
    using store_lookup p(1) assms(1) by (auto simp: store_inv_def)
  with p show ?thesis by (auto simp: map_of_stored simp del: stored_policies split: if_splits)
qed

lemma sample_authorize:
  "authorize_action io_fine True ''ENG-1'' sample_action True sample_now sample_workspace =
     (Inr (projr (fst (authorize_action io_fine True ''ENG-1'' sample_action True sample_now sample_workspace))),
      snd (authorize_action io_fine True ''ENG-1'' sample_action True sample_now sample_workspace))"
proof -
  have "is_ok (fst (authorize_action io_fine True ''ENG-1'' sample_action True sample_now sample_workspace))"
    by code_simp
  then show ?thesis by (metis is_ok_projr prod.collapse)
qed

lemma authorize_action_accounts_witness:
  "\<exists>r. read_audit (ws_audit (snd (authorize_action io_fine True ''ENG-1'' sample_action True sample_now
        sample_workspace))) = Inr [r]"
proof -
  have "store_inv (ws_policies sample_workspace)" "read_audit (ws_audit sample_workspace) = Inr []"
    by (simp_all add: sample_workspace_def sample_store_inv)
  from authorize_action_accounts [OF this sample_authorize] show ?thesis by auto
qed

text \<open>
  Merging an envelope reports conflicts exactly when it does not fit what is stored, and then
  changes nothing; otherwise its records are all stored, every stored record keeps its value,
  and the report counts each record of the envelope as added or identical.
\<close>
lemma merge_report_is_true:
  assumes "merge_envelope io en w = (Inr rep, w')" "mem_ok (fs_memory (ws_store w))" "envelope_ok en"
  shows "(mr_applied rep \<longleftrightarrow> envelope_fits en (fs_memory (ws_store w))) \<and>
    (\<not> mr_applied rep \<longrightarrow> w' = w) \<and>
    (mr_applied rep \<longrightarrow>
       mr_added rep + mr_identical rep = length (en_records en) \<and> mr_conflicts rep = [] \<and>
       mem_append_envelope en (fs_memory (ws_store w)) = Inr (fs_memory (ws_store w')) \<and>
       mem_le (fs_memory (ws_store w)) (fs_memory (ws_store w')))"
proof -
  have en: "envelope_make en = Inr en" using assms(3) by (simp add: envelope_ok_def)
  show ?thesis
    using merge_envelope_Inr [OF assms] mem_le_merged [OF en]
    by (auto simp: mem_append_envelope_Inr split: if_splits)
qed

lemma merge_report_is_true_witness:
  "mr_applied (projr (fst (merge_envelope io_fine sample_envelope sample_workspace)))"
proof -
  let ?r = "merge_envelope io_fine sample_envelope sample_workspace"
  have "is_ok (fst ?r)" by code_simp
  then have r: "?r = (Inr (projr (fst ?r)), snd ?r)" by (metis is_ok_projr prod.collapse)
  have ok: "mem_ok (fs_memory (ws_store sample_workspace))" by (simp add: sample_workspace_def sample_mem_ok)
  have "envelope_fits sample_envelope (fs_memory (ws_store sample_workspace))"
    by (simp add: envelope_fits_def sample_envelope_def sample_workspace_def sample_mem_def)
  with merge_report_is_true [OF r ok sample_envelope_ok] show ?thesis by blast
qed

end
