(* ===== verification/Approval.thy ===== *)
theory Approval
  imports Interfaces Authorization
begin

text \<open>
  \<^verbatim>\<open>nightrecon_white_engine/approval_engine.py\<close>, the values: principals, approval policies,
  requests, events and grants with their validating constructors and dictionary forms.

  SHA-256 is the parameter \<open>h\<close> of the definitions, a function from the canonical JSON text
  to the hexadecimal digest.  A constructor takes raw values and returns the typed record,
  normalized as the code normalizes it; \<open>_make\<close> is the constructor on typed fields.
\<close>

section \<open>Validators\<close>

abbreviation AWE :: "string \<Rightarrow> pyexc" where
  "AWE \<equiv> ApprovalWorkflowError"

definition ident_text :: "(string \<Rightarrow> pyexc) \<Rightarrow> pyval \<Rightarrow> string \<Rightarrow> string res" where
  "ident_text exc v field =
     bindE (required_text exc v field) (\<lambda>s.
       req (id_pattern s) (exc (field @ '' contains unsupported characters'')) (Inr s))"

definition sha256_text :: "(string \<Rightarrow> pyexc) \<Rightarrow> pyval \<Rightarrow> string \<Rightarrow> string res" where
  "sha256_text exc v field =
     bindE (required_text exc v field) (\<lambda>s.
       req (length s = 64 \<and> list_all is_hex_lower s) (exc (field @ '' must be a lowercase SHA-256'')) (Inr s))"

definition fingerprint :: "(string \<Rightarrow> string) \<Rightarrow> pyval \<Rightarrow> string" where
  "fingerprint h v = h (dumps False v)"

text \<open>\<^verbatim>\<open>None\<close> or a validated text.\<close>

definition optional :: "(pyval \<Rightarrow> string res) \<Rightarrow> pyval \<Rightarrow> string option res" where
  "optional f v = (if v = PNone then Inr None else bindE (f v) (\<lambda>s. Inr (Some s)))"

definition opt_pstr :: "string option \<Rightarrow> pyval" where
  "opt_pstr x = (case x of None \<Rightarrow> PNone | Some s \<Rightarrow> PStr s)"

text \<open>\<^verbatim>\<open>_sorted_unique\<close>, with the element check as an argument.\<close>

definition sorted_unique ::
  "(pyval \<Rightarrow> string res) \<Rightarrow> string \<Rightarrow> nat \<Rightarrow> pyval list \<Rightarrow> string list res" where
  "sorted_unique check field minimum vs =
     req (minimum \<le> length vs) (AWE (field @ '' must contain at least '' @ str_nat minimum @ '' item(s)''))
    (bindE (py_unique vs) (\<lambda>u.
     req u (AWE (field @ '' must not contain duplicates''))
    (bindE (mapE check vs) (\<lambda>ss. Inr (sort ss)))))"

definition roles_of :: "string \<Rightarrow> nat \<Rightarrow> pyval list \<Rightarrow> string list res" where
  "roles_of field minimum vs = sorted_unique (\<lambda>v. ident_text AWE v field) field minimum vs"

fun bool_value :: "pyexc \<Rightarrow> pyval \<Rightarrow> bool res" where
  "bool_value e (PBool b) = Inr b"
| "bool_value e _ = Inl e"

fun int_of :: "pyexc \<Rightarrow> pyval \<Rightarrow> int res" where
  "int_of e (PInt i) = Inr i"
| "int_of e _ = Inl e"

section \<open>Principals\<close>

record principal =
  pr_id :: string
  pr_roles :: "string list"

definition principal_init :: "pyval \<Rightarrow> pyval list \<Rightarrow> principal res" where
  "principal_init pid roles =
     bindE (ident_text AWE pid ''principal_id'') (\<lambda>i.
     bindE (roles_of ''roles'' 1 roles) (\<lambda>rs. Inr \<lparr>pr_id = i, pr_roles = rs\<rparr>))"

definition principal_to_dict :: "principal \<Rightarrow> pyval" where
  "principal_to_dict p =
     PDict [(''principal_id'', PStr (pr_id p)), (''roles'', PList (map PStr (pr_roles p)))]"

definition principal_from_dict :: "pyval \<Rightarrow> principal res" where
  "principal_from_dict v =
     req (is_dict_with [''principal_id'', ''roles''] v) (AWE ''approval principal schema is not supported'')
       (case dget (dict_items v) ''roles'' of
          PList rs \<Rightarrow> principal_init (dget (dict_items v) ''principal_id'') rs
        | _ \<Rightarrow> Inl (AWE ''principal roles must be a list''))"

section \<open>Approval policies\<close>

record approval_policy =
  ap_mode :: string
  ap_required :: int
  ap_eligible :: "string list"
  ap_requester_may :: bool
  ap_delegation :: bool
  ap_escalation_after :: "int option"
  ap_escalation_roles :: "string list"

definition seconds_value :: "pyval \<Rightarrow> int option res" where
  "seconds_value v =
     (if v = PNone then Inr None
      else bindE (int_of (AWE ''escalation_after_seconds must be a positive integer'') v) (\<lambda>n.
        req (1 \<le> n) (AWE ''escalation_after_seconds must be a positive integer'') (Inr (Some n))))"

definition approval_policy_init ::
  "pyval \<Rightarrow> pyval \<Rightarrow> pyval list \<Rightarrow> pyval \<Rightarrow> pyval \<Rightarrow> pyval \<Rightarrow> pyval list \<Rightarrow> approval_policy res" where
  "approval_policy_init mode required eligible requester delegation seconds escalation =
     bindE (member_value [''single'', ''dual'', ''quorum'']
              (AWE ''approval mode must be single, dual, or quorum'') mode) (\<lambda>m.
     bindE (int_of (AWE ''required_approvals must be positive'') required) (\<lambda>n.
     req (1 \<le> n) (AWE ''required_approvals must be positive'')
    (req (m = ''single'' \<longrightarrow> n = 1) (AWE ''single approval requires exactly one approval'')
    (req (m = ''dual'' \<longrightarrow> n = 2) (AWE ''dual approval requires exactly two approvals'')
    (req (m = ''quorum'' \<longrightarrow> 2 \<le> n) (AWE ''quorum approval requires at least two approvals'')
    (bindE (roles_of ''eligible_roles'' 1 eligible) (\<lambda>el.
     bindE (roles_of ''escalation_roles'' 0 escalation) (\<lambda>es.
     bindE (bool_value (AWE ''requester_may_approve must be boolean'') requester) (\<lambda>r.
     bindE (bool_value (AWE ''allow_delegation must be boolean'') delegation) (\<lambda>d.
     bindE (seconds_value seconds) (\<lambda>sec.
     Inr \<lparr>ap_mode = m, ap_required = n, ap_eligible = el, ap_requester_may = r, ap_delegation = d,
          ap_escalation_after = sec, ap_escalation_roles = es\<rparr>)))))))))))"

definition opt_int :: "int option \<Rightarrow> pyval" where
  "opt_int x = (case x of None \<Rightarrow> PNone | Some i \<Rightarrow> PInt i)"

definition approval_policy_to_dict :: "approval_policy \<Rightarrow> pyval" where
  "approval_policy_to_dict p = PDict
     [(''mode'', PStr (ap_mode p)), (''required_approvals'', PInt (ap_required p)),
      (''eligible_roles'', PList (map PStr (ap_eligible p))),
      (''requester_may_approve'', PBool (ap_requester_may p)),
      (''allow_delegation'', PBool (ap_delegation p)),
      (''escalation_after_seconds'', opt_int (ap_escalation_after p)),
      (''escalation_roles'', PList (map PStr (ap_escalation_roles p)))]"

definition approval_policy_keys :: "string list" where
  "approval_policy_keys =
     [''mode'', ''required_approvals'', ''eligible_roles'', ''requester_may_approve'', ''allow_delegation'',
      ''escalation_after_seconds'', ''escalation_roles'']"

definition approval_policy_from_dict :: "pyval \<Rightarrow> approval_policy res" where
  "approval_policy_from_dict v =
     req (is_dict_with approval_policy_keys v) (AWE ''approval policy schema is not supported'')
       (let d = dict_items v in
        case dget d ''eligible_roles'' of
          PList el \<Rightarrow>
            (case dget d ''escalation_roles'' of
               PList es \<Rightarrow>
                 approval_policy_init (dget d ''mode'') (dget d ''required_approvals'') el
                   (dget d ''requester_may_approve'') (dget d ''allow_delegation'')
                   (dget d ''escalation_after_seconds'') es
             | _ \<Rightarrow> Inl (AWE ''escalation_roles must be a list''))
        | _ \<Rightarrow> Inl (AWE ''eligible_roles must be a list''))"

section \<open>Requests\<close>

record approval_request =
  rq_id :: string
  rq_engagement :: string
  rq_bundle :: string
  rq_at :: string
  rq_expires :: string
  rq_by :: string
  rq_principals :: "principal list"
  rq_capability :: string
  rq_target :: string
  rq_impact :: string
  rq_reason :: string
  rq_policy :: approval_policy
  rq_operation :: "string option"

definition eligible_principals :: "approval_policy \<Rightarrow> string \<Rightarrow> principal list \<Rightarrow> string list" where
  "eligible_principals pol by ps =
     map pr_id (filter (\<lambda>p. list_ex (\<lambda>r. r \<in> set (ap_eligible pol)) (pr_roles p)
                           \<and> (ap_requester_may pol \<or> pr_id p \<noteq> by)) ps)"

fun capability_text :: "pyval \<Rightarrow> string res" where
  "capability_text (PStr s) = req (lower_name_pattern 63 s) (AWE ''capability is invalid'') (Inr s)"
| "capability_text _ = Inl (AWE ''capability is invalid'')"

text \<open>\<^verbatim>\<open>parse_target(v).value\<close>\<close>

fun target_value :: "pyval \<Rightarrow> string res" where
  "target_value (PStr s) = bindE (parse_target s) (\<lambda>t. Inr (t_value t))"
| "target_value _ = Inl AttributeError"

definition impact_text :: "pyval \<Rightarrow> string res" where
  "impact_text v = member_value [''low'', ''standard'', ''high''] (AWE ''impact must be low, standard, or high'') v"

definition request_init ::
  "pyval \<Rightarrow> pyval \<Rightarrow> pyval \<Rightarrow> pyval \<Rightarrow> pyval \<Rightarrow> pyval \<Rightarrow> pyval \<Rightarrow> principal list \<Rightarrow> pyval \<Rightarrow> pyval
   \<Rightarrow> pyval \<Rightarrow> pyval \<Rightarrow> approval_policy \<Rightarrow> pyval \<Rightarrow> approval_request res" where
  "request_init schema rid eid bundle at expires by principals capability target impact reason pol operation =
     req (py_eq_int schema 1) (AWE ''unsupported approval request schema'')
    (bindE (ident_text AWE rid ''request_id'') (\<lambda>rid'.
     bindE (ident_text AWE eid ''engagement_id'') (\<lambda>eid'.
     bindE (sha256_text AWE bundle ''policy_bundle_fingerprint'') (\<lambda>bundle'.
     bindE (iso8601 AWE at ''requested_at'') (\<lambda>at'.
     bindE (iso8601 AWE expires ''expires_at'') (\<lambda>expires'.
     req (time_of at' < time_of expires') (AWE ''expires_at must be later than requested_at'')
    (bindE (ident_text AWE by ''requested_by'') (\<lambda>by'.
     bindE (optional (\<lambda>v. ident_text AWE v ''operation_id'') operation) (\<lambda>operation'.
     req (principals \<noteq> []) (AWE ''principals must be a nonempty tuple'')
    (let ps = sort_key pr_id principals in
     req (distinct (map pr_id ps)) (AWE ''principal_id values must be unique'')
    (req (by' \<in> set (map pr_id ps)) (AWE ''requested_by must identify a principal'')
    (bindE (capability_text capability) (\<lambda>cap.
     bindE (target_value target) (\<lambda>tgt.
     bindE (impact_text impact) (\<lambda>imp.
     bindE (required_text AWE reason ''reason'') (\<lambda>reason'.
     req (ap_required pol \<le> int (length (eligible_principals pol by' ps)))
         (AWE ''not enough eligible principals for required approvals'')
    (Inr \<lparr>rq_id = rid', rq_engagement = eid', rq_bundle = bundle', rq_at = at', rq_expires = expires',
          rq_by = by', rq_principals = ps, rq_capability = cap, rq_target = tgt, rq_impact = imp,
          rq_reason = reason', rq_policy = pol, rq_operation = operation'\<rparr>)))))))))))))))))"

definition find_principal :: "approval_request \<Rightarrow> string \<Rightarrow> principal res" where
  "find_principal rq pid =
     (case find (\<lambda>p. pr_id p = pid) (rq_principals rq) of
        None \<Rightarrow> Inl (AWE (''unknown approval principal: '' @ pid))
      | Some p \<Rightarrow> Inr p)"

definition request_to_dict :: "approval_request \<Rightarrow> pyval" where
  "request_to_dict rq = PDict
     [(''schema_version'', PInt 1), (''request_id'', PStr (rq_id rq)),
      (''engagement_id'', PStr (rq_engagement rq)), (''policy_bundle_fingerprint'', PStr (rq_bundle rq)),
      (''requested_at'', PStr (rq_at rq)), (''expires_at'', PStr (rq_expires rq)),
      (''requested_by'', PStr (rq_by rq)),
      (''principals'', PList (map principal_to_dict (rq_principals rq))),
      (''capability'', PStr (rq_capability rq)), (''target'', PStr (rq_target rq)),
      (''impact'', PStr (rq_impact rq)), (''reason'', PStr (rq_reason rq)),
      (''policy'', approval_policy_to_dict (rq_policy rq)),
      (''operation_id'', opt_pstr (rq_operation rq))]"

definition request_keys :: "string list" where
  "request_keys =
     [''schema_version'', ''request_id'', ''engagement_id'', ''policy_bundle_fingerprint'', ''requested_at'',
      ''expires_at'', ''requested_by'', ''principals'', ''capability'', ''target'', ''impact'', ''reason'',
      ''policy'', ''operation_id'']"

definition request_from_dict :: "pyval \<Rightarrow> approval_request res" where
  "request_from_dict v =
     req (is_dict_with request_keys v) (AWE ''approval request schema is not supported'')
       (let d = dict_items v in
        case dget d ''principals'' of
          PList ps \<Rightarrow>
            bindE (mapE principal_from_dict ps) (\<lambda>principals.
            bindE (approval_policy_from_dict (dget d ''policy'')) (\<lambda>pol.
              request_init (dget d ''schema_version'') (dget d ''request_id'') (dget d ''engagement_id'')
                (dget d ''policy_bundle_fingerprint'') (dget d ''requested_at'') (dget d ''expires_at'')
                (dget d ''requested_by'') principals (dget d ''capability'') (dget d ''target'')
                (dget d ''impact'') (dget d ''reason'') pol (dget d ''operation_id'')))
        | _ \<Rightarrow> Inl (AWE ''principals must be a list''))"

definition request_fingerprint :: "(string \<Rightarrow> string) \<Rightarrow> approval_request \<Rightarrow> string" where
  "request_fingerprint h rq = fingerprint h (request_to_dict rq)"

section \<open>Events\<close>

record approval_event =
  ev_id :: string
  ev_request :: string
  ev_seq :: int
  ev_type :: string
  ev_at :: string
  ev_actor :: string
  ev_role :: "string option"
  ev_reason :: string
  ev_details :: "(string \<times> string) list"
  ev_prev :: "string option"

definition event_types :: "string list" where
  "event_types = [''requested'', ''approved'', ''rejected'', ''delegated'', ''escalated'', ''revoked'']"

text \<open>
  Details as pairs of raw values.  A pair that is not a pair of strings always raises, from
  sorting, hashing or \<^verbatim>\<open>_required_text\<close>; the model does not separate sorting from the rest.
\<close>

definition detail_text :: "pyval \<times> pyval \<Rightarrow> (string \<times> string) res" where
  "detail_text kv =
     (case kv of (k, v) \<Rightarrow>
        bindE (required_text AWE k ''event detail key'') (\<lambda>k'.
        bindE (required_text AWE v ''event detail value'') (\<lambda>v'. Inr (k', v'))))"

definition event_details :: "(pyval \<times> pyval) list \<Rightarrow> (string \<times> string) list res" where
  "event_details ds =
     (if list_all (\<lambda>(k, v). is_str k \<and> is_str v) ds then
        (let norm_ds = sort (map (\<lambda>(k, v). (str_of k, str_of v)) ds) in
         req (distinct norm_ds) (AWE ''event details must not contain duplicates'')
        (req (distinct (map fst norm_ds)) (AWE ''event detail keys must be unique'')
           (mapE (\<lambda>(k, v). detail_text (PStr k, PStr v)) norm_ds)))
      else if list_all (\<lambda>(k, v). hashable k \<and> hashable v) ds
      then Inl (AWE ''event detail value must be a nonblank, trimmed string'')
      else Inl TypeError)"

definition event_init ::
  "pyval \<Rightarrow> pyval \<Rightarrow> pyval \<Rightarrow> pyval \<Rightarrow> pyval \<Rightarrow> pyval \<Rightarrow> pyval \<Rightarrow> pyval \<Rightarrow> pyval \<Rightarrow> (pyval \<times> pyval) list
   \<Rightarrow> pyval \<Rightarrow> approval_event res" where
  "event_init schema vid rid sq typ at actor role reason details prev =
     req (py_eq_int schema 1) (AWE ''unsupported approval event schema'')
    (bindE (ident_text AWE vid ''event_id'') (\<lambda>vid'.
     bindE (ident_text AWE rid ''request_id'') (\<lambda>rid'.
     bindE (int_of (AWE ''event sequence must be nonnegative'') sq) (\<lambda>n.
     req (0 \<le> n) (AWE ''event sequence must be nonnegative'')
    (bindE (member_value event_types (AWE ''unsupported approval event type'') typ) (\<lambda>typ'.
     bindE (iso8601 AWE at ''occurred_at'') (\<lambda>at'.
     bindE (ident_text AWE actor ''actor_id'') (\<lambda>actor'.
     bindE (optional (\<lambda>v. ident_text AWE v ''actor_role'') role) (\<lambda>role'.
     bindE (required_text AWE reason ''reason'') (\<lambda>reason'.
     bindE (optional (\<lambda>v. sha256_text AWE v ''previous_event_fingerprint'') prev) (\<lambda>prev'.
     bindE (event_details details) (\<lambda>details'.
     Inr \<lparr>ev_id = vid', ev_request = rid', ev_seq = n, ev_type = typ', ev_at = at', ev_actor = actor',
          ev_role = role', ev_reason = reason', ev_details = details', ev_prev = prev'\<rparr>))))))))))))"

definition event_make :: "approval_event \<Rightarrow> approval_event res" where
  "event_make e =
     event_init (PInt 1) (PStr (ev_id e)) (PStr (ev_request e)) (PInt (ev_seq e)) (PStr (ev_type e))
       (PStr (ev_at e)) (PStr (ev_actor e)) (opt_pstr (ev_role e)) (PStr (ev_reason e))
       (map (\<lambda>(k, v). (PStr k, PStr v)) (ev_details e)) (opt_pstr (ev_prev e))"

definition event_fields :: "approval_event \<Rightarrow> (string \<times> pyval) list" where
  "event_fields e =
     [(''schema_version'', PInt 1), (''event_id'', PStr (ev_id e)), (''request_id'', PStr (ev_request e)),
      (''sequence'', PInt (ev_seq e)), (''event_type'', PStr (ev_type e)), (''occurred_at'', PStr (ev_at e)),
      (''actor_id'', PStr (ev_actor e)), (''actor_role'', opt_pstr (ev_role e)),
      (''reason'', PStr (ev_reason e)),
      (''details'', PList (map (\<lambda>(k, v). PList [PStr k, PStr v]) (ev_details e))),
      (''previous_event_fingerprint'', opt_pstr (ev_prev e))]"

definition event_fingerprint :: "(string \<Rightarrow> string) \<Rightarrow> approval_event \<Rightarrow> string" where
  "event_fingerprint h e = fingerprint h (PDict (event_fields e))"

definition event_to_dict :: "(string \<Rightarrow> string) \<Rightarrow> approval_event \<Rightarrow> pyval" where
  "event_to_dict h e = PDict (event_fields e @ [(''fingerprint'', PStr (event_fingerprint h e))])"

definition detail :: "approval_event \<Rightarrow> string \<Rightarrow> string option" where
  "detail e k = map_option snd (find (\<lambda>(k', _). k' = k) (ev_details e))"

definition event_keys :: "string list" where
  "event_keys =
     [''schema_version'', ''event_id'', ''request_id'', ''sequence'', ''event_type'', ''occurred_at'',
      ''actor_id'', ''actor_role'', ''reason'', ''details'', ''previous_event_fingerprint'', ''fingerprint'']"

fun detail_pair :: "pyval \<Rightarrow> (pyval \<times> pyval) res" where
  "detail_pair (PList [a, b]) = Inr (a, b)"
| "detail_pair _ = Inl (AWE ''approval event detail is invalid'')"

definition event_from_dict :: "(string \<Rightarrow> string) \<Rightarrow> pyval \<Rightarrow> approval_event res" where
  "event_from_dict h v =
     req (is_dict_with event_keys v) (AWE ''approval event schema is not supported'')
       (let d = dict_items v in
        case dget d ''details'' of
          PList items \<Rightarrow>
            bindE (mapE detail_pair items) (\<lambda>details.
            bindE (event_init (dget d ''schema_version'') (dget d ''event_id'') (dget d ''request_id'')
                     (dget d ''sequence'') (dget d ''event_type'') (dget d ''occurred_at'') (dget d ''actor_id'')
                     (dget d ''actor_role'') (dget d ''reason'') details
                     (dget d ''previous_event_fingerprint'')) (\<lambda>e.
            req (dget d ''fingerprint'' = PStr (event_fingerprint h e))
                (AWE ''approval event fingerprint verification failed'') (Inr e)))
        | _ \<Rightarrow> Inl (AWE ''approval event details must be a list''))"

section \<open>Grants\<close>

record approval_grant =
  gr_request :: string
  gr_engagement :: string
  gr_bundle :: string
  gr_capability :: string
  gr_target :: string
  gr_impact :: string
  gr_at :: string
  gr_expires :: string
  gr_approvers :: "string list"
  gr_workflow :: string

definition grant_init ::
  "pyval \<Rightarrow> pyval \<Rightarrow> pyval \<Rightarrow> pyval \<Rightarrow> pyval \<Rightarrow> pyval \<Rightarrow> pyval \<Rightarrow> pyval \<Rightarrow> pyval \<Rightarrow> pyval list \<Rightarrow> pyval
   \<Rightarrow> approval_grant res" where
  "grant_init schema rid eid bundle capability target impact at expires approvers workflow =
     req (py_eq_int schema 1) (AWE ''unsupported approval grant schema'')
    (bindE (ident_text AWE rid ''request_id'') (\<lambda>rid'.
     bindE (ident_text AWE eid ''engagement_id'') (\<lambda>eid'.
     bindE (sha256_text AWE bundle ''policy_bundle_fingerprint'') (\<lambda>bundle'.
     bindE (capability_text capability) (\<lambda>cap.
     bindE (target_value target) (\<lambda>tgt.
     bindE (impact_text impact) (\<lambda>imp.
     bindE (iso8601 AWE at ''approved_at'') (\<lambda>at'.
     bindE (iso8601 AWE expires ''expires_at'') (\<lambda>expires'.
     bindE (sorted_unique (\<lambda>v. required_text AWE v ''approver_ids'') ''approver_ids'' 1 approvers) (\<lambda>ids.
     bindE (sha256_text AWE workflow ''workflow_fingerprint'') (\<lambda>wf.
     Inr \<lparr>gr_request = rid', gr_engagement = eid', gr_bundle = bundle', gr_capability = cap,
          gr_target = tgt, gr_impact = imp, gr_at = at', gr_expires = expires', gr_approvers = ids,
          gr_workflow = wf\<rparr>)))))))))))"

definition grant_fields :: "approval_grant \<Rightarrow> (string \<times> pyval) list" where
  "grant_fields g =
     [(''schema_version'', PInt 1), (''request_id'', PStr (gr_request g)),
      (''engagement_id'', PStr (gr_engagement g)), (''policy_bundle_fingerprint'', PStr (gr_bundle g)),
      (''capability'', PStr (gr_capability g)), (''target'', PStr (gr_target g)),
      (''impact'', PStr (gr_impact g)), (''approved_at'', PStr (gr_at g)), (''expires_at'', PStr (gr_expires g)),
      (''approver_ids'', PList (map PStr (gr_approvers g))), (''workflow_fingerprint'', PStr (gr_workflow g))]"

definition grant_fingerprint :: "(string \<Rightarrow> string) \<Rightarrow> approval_grant \<Rightarrow> string" where
  "grant_fingerprint h g = fingerprint h (PDict (grant_fields g))"

definition grant_to_dict :: "(string \<Rightarrow> string) \<Rightarrow> approval_grant \<Rightarrow> pyval" where
  "grant_to_dict h g = PDict (grant_fields g @ [(''grant_fingerprint'', PStr (grant_fingerprint h g))])"

definition grant_keys :: "string list" where
  "grant_keys =
     [''schema_version'', ''request_id'', ''engagement_id'', ''policy_bundle_fingerprint'', ''capability'',
      ''target'', ''impact'', ''approved_at'', ''expires_at'', ''approver_ids'', ''workflow_fingerprint'',
      ''grant_fingerprint'']"

definition grant_from_dict :: "(string \<Rightarrow> string) \<Rightarrow> pyval \<Rightarrow> approval_grant res" where
  "grant_from_dict h v =
     req (is_dict_with grant_keys v) (AWE ''approval grant schema is not supported'')
       (let d = dict_items v in
        case dget d ''approver_ids'' of
          PList ids \<Rightarrow>
            bindE (grant_init (dget d ''schema_version'') (dget d ''request_id'') (dget d ''engagement_id'')
                     (dget d ''policy_bundle_fingerprint'') (dget d ''capability'') (dget d ''target'')
                     (dget d ''impact'') (dget d ''approved_at'') (dget d ''expires_at'') ids
                     (dget d ''workflow_fingerprint'')) (\<lambda>g.
            req (dget d ''grant_fingerprint'' = PStr (grant_fingerprint h g))
                (AWE ''approval grant fingerprint verification failed'') (Inr g))
        | _ \<Rightarrow> Inl (AWE ''approver_ids must be a list''))"

end
