(* ===== verification/ApprovalFlow.thy ===== *)
theory ApprovalFlow
  imports Approval
begin

text \<open>
  \<^verbatim>\<open>nightrecon_white_engine/approval_engine.py\<close>, the class \<^verbatim>\<open>ApprovalWorkflow\<close>: the validator that
  every workflow value passes (event chain, origin, and the replay of the history), and the
  operations, each of which builds one event and validates the longer history.
\<close>

section \<open>Workflow values\<close>

record workflow =
  wf_request :: approval_request
  wf_events :: "approval_event list"

definition before_request :: "approval_request \<Rightarrow> approval_event \<Rightarrow> bool" where
  "before_request rq e = (time_of (ev_at e) < time_of (rq_at rq))"

text \<open>The loop of \<^verbatim>\<open>__post_init__\<close>: \<open>prev\<close> is the event before, \<open>seen\<close> the identifiers so far.\<close>

fun check_chain ::
  "(string \<Rightarrow> string) \<Rightarrow> approval_request \<Rightarrow> string list \<Rightarrow> approval_event option \<Rightarrow> nat
   \<Rightarrow> approval_event list \<Rightarrow> unit res" where
  "check_chain h rq seen prev i [] = Inr ()"
| "check_chain h rq seen prev i (e # es) =
     req (ev_id e \<notin> set seen) (AWE ''approval event IDs must be unique'')
    (req (ev_request e = rq_id rq) (AWE ''approval event belongs to another request'')
    (req (ev_seq e = int i) (AWE ''approval event sequence is not contiguous'')
    (req (ev_prev e = map_option (event_fingerprint h) prev) (AWE ''approval event chain verification failed'')
    (req (\<not> before_request rq e) (AWE ''approval event predates the request'')
    (req (case prev of None \<Rightarrow> True | Some p \<Rightarrow> time_of (ev_at p) \<le> time_of (ev_at e))
         (AWE ''approval events are not chronologically ordered'')
       (check_chain h rq (ev_id e # seen) (Some e) (Suc i) es))))))"

section \<open>Replaying the history\<close>

datatype wf_state = WPending | WApproved | WRejected | WRevoked

record replay =
  rp_state :: wf_state
  rp_actors :: "string list"
  rp_sources :: "string list"
  rp_escalated :: bool
  rp_prior :: "approval_event list"

definition direct_role :: "approval_request \<Rightarrow> string \<Rightarrow> string option \<Rightarrow> bool res" where
  "direct_role rq actor role =
     (case role of
        None \<Rightarrow> Inr False
      | Some r \<Rightarrow>
          bindE (find_principal rq actor) (\<lambda>p.
            Inr (r \<in> set (pr_roles p) \<and> r \<in> set (ap_eligible (rq_policy rq)))))"

text \<open>\<open>evs\<close> are the prior events, the latest first.\<close>

fun delegated_source :: "approval_event list \<Rightarrow> string \<Rightarrow> string \<Rightarrow> int \<Rightarrow> string option res" where
  "delegated_source [] actor role at = Inr None"
| "delegated_source (p # ps) actor role at =
     (if ev_type p = ''delegated'' \<and> detail p ''delegate_id'' = Some actor
         \<and> detail p ''delegated_role'' = Some role
      then (case detail p ''valid_until'' of
              None \<Rightarrow> delegated_source ps actor role at
            | Some u \<Rightarrow>
                (if time_of (ev_at p) \<le> at then
                   bindE (iso_instant u) (\<lambda>t.
                     if at < t then Inr (Some (ev_actor p)) else delegated_source ps actor role at)
                 else delegated_source ps actor role at))
      else delegated_source ps actor role at)"

text \<open>Whose authority a decision counts against.\<close>

definition decision_source :: "approval_request \<Rightarrow> approval_event list \<Rightarrow> approval_event \<Rightarrow> string option res" where
  "decision_source rq prior e =
     bindE (direct_role rq (ev_actor e) (ev_role e)) (\<lambda>direct.
       if direct then Inr (Some (ev_actor e))
       else (case ev_role e of
               None \<Rightarrow> Inr None
             | Some r \<Rightarrow> delegated_source (rev prior) (ev_actor e) r (time_of (ev_at e))))"

definition replay_decision :: "approval_request \<Rightarrow> approval_event \<Rightarrow> replay \<Rightarrow> replay res" where
  "replay_decision rq e s =
     req (rp_state s = WPending) (AWE ''approval decision is not valid in current state'')
    (bindE (find_principal rq (ev_actor e)) (\<lambda>_.
     req (ap_requester_may (rq_policy rq) \<or> ev_actor e \<noteq> rq_by rq)
         (AWE ''requester cannot decide their own approval request'')
    (bindE (decision_source rq (rp_prior s) e) (\<lambda>source.
     (case source of
        None \<Rightarrow> Inl (AWE ''approval decision lacks eligible authority'')
      | Some src \<Rightarrow>
          req (detail e ''authority_source'' = Some src) (AWE ''approval decision authority source is invalid'')
            (if ev_type e = ''approved'' then
               req (ev_actor e \<notin> set (rp_actors s)) (AWE ''principal approved the request more than once'')
              (req (src \<notin> set (rp_sources s)) (AWE ''approval authority source was counted more than once'')
              (Inr (s\<lparr>rp_actors := ev_actor e # rp_actors s, rp_sources := src # rp_sources s,
                      rp_state := (if ap_required (rq_policy rq) \<le> int (length (src # rp_sources s))
                                   then WApproved else WPending)\<rparr>)))
             else Inr (s\<lparr>rp_state := WRejected\<rparr>)))))))"

definition detail_names :: "approval_event \<Rightarrow> string set" where
  "detail_names e = set (map fst (ev_details e))"

definition replay_delegation :: "approval_request \<Rightarrow> approval_event \<Rightarrow> replay \<Rightarrow> replay res" where
  "replay_delegation rq e s =
     req (rp_state s = WPending) (AWE ''delegation is not valid in current state'')
    (req (ap_delegation (rq_policy rq)) (AWE ''approval workflow contains forbidden delegation'')
    (case (detail e ''delegate_id'', detail e ''delegated_role'', detail e ''valid_until'') of
       (Some who, Some role, Some until) \<Rightarrow>
         req (set (map fst (ev_details e)) = {''delegate_id'', ''delegated_role'', ''valid_until''})
             (AWE ''approval delegation evidence is incomplete'')
        (bindE (find_principal rq who) (\<lambda>_.
         req (ev_actor e \<noteq> who) (AWE ''delegator and delegate must differ'')
        (req (ap_requester_may (rq_policy rq) \<or> (ev_actor e \<noteq> rq_by rq \<and> who \<noteq> rq_by rq))
             (AWE ''separation of duties forbids requester delegation'')
        (req (ev_role e = Some role \<and> role \<in> set (ap_eligible (rq_policy rq)))
             (AWE ''delegation lacks direct eligible authority'')
        (bindE (direct_role rq (ev_actor e) (Some role)) (\<lambda>direct.
         req direct (AWE ''delegation lacks direct eligible authority'')
        (bindE (iso_instant until) (\<lambda>t.
         req (time_of (ev_at e) < t \<and> t \<le> time_of (rq_expires rq))
             (AWE ''approval delegation validity is out of bounds'') (Inr s)))))))))
     | _ \<Rightarrow> Inl (AWE ''approval delegation evidence is incomplete'')))"

definition replay_escalation :: "approval_request \<Rightarrow> approval_event \<Rightarrow> replay \<Rightarrow> replay res" where
  "replay_escalation rq e s =
     req (rp_state s = WPending) (AWE ''escalation is not valid in current state'')
    (bindE (find_principal rq (ev_actor e)) (\<lambda>_.
     (case ap_escalation_after (rq_policy rq) of
        None \<Rightarrow> Inl (AWE ''approval workflow contains unconfigured escalation'')
      | Some seconds \<Rightarrow>
          bindE (plus_seconds (rq_at rq) seconds) (\<lambda>due.
          req (due \<le> time_of (ev_at e)) (AWE ''approval escalation occurred before it was due'')
         (req (\<not> rp_escalated s) (AWE ''approval workflow was escalated more than once'')
         (case detail e ''escalation_roles'' of
            None \<Rightarrow> Inl (AWE ''approval escalation evidence is incomplete'')
          | Some encoded \<Rightarrow>
              req (set (map fst (ev_details e)) = {''escalation_roles''})
                  (AWE ''approval escalation evidence is incomplete'')
             (case loads encoded of
                None \<Rightarrow> Inl (AWE ''approval escalation roles are invalid'')
              | Some (PList rs) \<Rightarrow>
                  req (py_sortable rs) TypeError
                 (req (list_all is_str rs \<and> sort (map str_of rs) = ap_escalation_roles (rq_policy rq))
                      (AWE ''approval escalation roles do not match policy'')
                      (Inr (s\<lparr>rp_escalated := True\<rparr>)))
              | Some _ \<Rightarrow> Inl (AWE ''approval escalation roles do not match policy'')))))))) "

definition replay_revocation :: "approval_request \<Rightarrow> approval_event \<Rightarrow> replay \<Rightarrow> replay res" where
  "replay_revocation rq e s =
     req (rp_state s = WApproved) (AWE ''revocation requires an approved workflow'')
    (bindE (direct_role rq (ev_actor e) (ev_role e)) (\<lambda>direct.
     req direct (AWE ''revocation requires direct eligible authority'')
       (Inr (s\<lparr>rp_state := WRevoked\<rparr>))))"

text \<open>One iteration of \<^verbatim>\<open>_validate_history\<close>.\<close>

definition replay_event :: "approval_request \<Rightarrow> approval_event \<Rightarrow> replay \<Rightarrow> replay res" where
  "replay_event rq e s =
     req (time_of (ev_at e) < time_of (rq_expires rq))
         (AWE ''approval workflow contains a decision after request expiry'')
    (req (rp_state s \<noteq> WRejected \<and> rp_state s \<noteq> WRevoked)
         (AWE ''approval workflow contains events after terminal state'')
    (req (rp_state s = WApproved \<longrightarrow> ev_type e = ''revoked'') (AWE ''approved workflow may only be revoked'')
    (req (ev_type e \<noteq> ''requested'') (AWE ''approval workflow contains duplicate requested event'')
    (bindE (if ev_type e = ''approved'' \<or> ev_type e = ''rejected'' then replay_decision rq e s
            else if ev_type e = ''delegated'' then replay_delegation rq e s
            else if ev_type e = ''escalated'' then replay_escalation rq e s
            else if ev_type e = ''revoked'' then replay_revocation rq e s
            else Inr s) (\<lambda>s'.
     Inr (s'\<lparr>rp_prior := rp_prior s @ [e]\<rparr>))))))"

fun replay_events :: "approval_request \<Rightarrow> approval_event list \<Rightarrow> replay \<Rightarrow> replay res" where
  "replay_events rq [] s = Inr s"
| "replay_events rq (e # es) s = bindE (replay_event rq e s) (\<lambda>s'. replay_events rq es s')"

definition replay_start :: "approval_event \<Rightarrow> replay" where
  "replay_start first =
     \<lparr>rp_state = WPending, rp_actors = [], rp_sources = [], rp_escalated = False, rp_prior = [first]\<rparr>"

definition check_origin :: "(string \<Rightarrow> string) \<Rightarrow> approval_request \<Rightarrow> approval_event \<Rightarrow> unit res" where
  "check_origin h rq first =
     req (ev_type first = ''requested'') (AWE ''approval workflow must begin with requested event'')
    (req (detail first ''request_fingerprint'' = Some (request_fingerprint h rq))
         (AWE ''requested event is not bound to request fingerprint'')
    (req (ev_at first = rq_at rq \<and> ev_actor first = rq_by rq)
         (AWE ''requested event does not match request origin'') (Inr ())))"

definition workflow_init ::
  "(string \<Rightarrow> string) \<Rightarrow> approval_request \<Rightarrow> approval_event list \<Rightarrow> workflow res" where
  "workflow_init h rq events =
     (case events of
        [] \<Rightarrow> Inl (AWE ''approval workflow requires events'')
      | first # rest \<Rightarrow>
          bindE (check_chain h rq [] None 0 events) (\<lambda>_.
          bindE (check_origin h rq first) (\<lambda>_.
          bindE (replay_events rq rest (replay_start first)) (\<lambda>_.
          Inr \<lparr>wf_request = rq, wf_events = events\<rparr>))))"

section \<open>Fingerprint and JSON\<close>

definition workflow_fingerprint :: "(string \<Rightarrow> string) \<Rightarrow> workflow \<Rightarrow> string" where
  "workflow_fingerprint h w = fingerprint h (PDict
     [(''request_fingerprint'', PStr (request_fingerprint h (wf_request w))),
      (''event_fingerprints'', PList (map (\<lambda>e. PStr (event_fingerprint h e)) (wf_events w)))])"

definition workflow_to_dict :: "(string \<Rightarrow> string) \<Rightarrow> workflow \<Rightarrow> pyval" where
  "workflow_to_dict h w = PDict
     [(''request'', request_to_dict (wf_request w)),
      (''events'', PList (map (event_to_dict h) (wf_events w))),
      (''workflow_fingerprint'', PStr (workflow_fingerprint h w))]"

definition workflow_to_json :: "(string \<Rightarrow> string) \<Rightarrow> workflow \<Rightarrow> string" where
  "workflow_to_json h w = dumps False (workflow_to_dict h w)"

definition workflow_from_dict :: "(string \<Rightarrow> string) \<Rightarrow> pyval \<Rightarrow> workflow res" where
  "workflow_from_dict h v =
     req (is_dict_with [''request'', ''events'', ''workflow_fingerprint''] v)
         (AWE ''approval workflow schema is not supported'')
       (let d = dict_items v in
        case dget d ''request'' of
          PDict rd \<Rightarrow>
            (case dget d ''events'' of
               PList es \<Rightarrow>
                 bindE (request_from_dict (PDict rd)) (\<lambda>rq.
                 bindE (mapE (event_from_dict h) es) (\<lambda>events.
                 bindE (workflow_init h rq events) (\<lambda>w.
                 req (dget d ''workflow_fingerprint'' = PStr (workflow_fingerprint h w))
                     (AWE ''approval workflow fingerprint verification failed'') (Inr w))))
             | _ \<Rightarrow> Inl (AWE ''approval events must be a list''))
        | _ \<Rightarrow> Inl (AWE ''approval request must be an object''))"

definition workflow_from_json :: "(string \<Rightarrow> string) \<Rightarrow> string \<Rightarrow> workflow res" where
  "workflow_from_json h s =
     (case loads s of
        None \<Rightarrow> Inl (AWE ''approval workflow is not valid JSON'')
      | Some v \<Rightarrow> workflow_from_dict h v)"

section \<open>Reading the state\<close>

definition at_instant :: "string \<Rightarrow> int res" where
  "at_instant at = bindE (iso8601 AWE (PStr at) ''at'') (\<lambda>s. Inr (time_of s))"

text \<open>The events of a type up to an instant (\<open>None\<close>: all of them).\<close>

definition events_of :: "workflow \<Rightarrow> string \<Rightarrow> int option \<Rightarrow> approval_event list" where
  "events_of w typ cutoff =
     filter (\<lambda>e. ev_type e = typ \<and> (case cutoff of None \<Rightarrow> True | Some c \<Rightarrow> time_of (ev_at e) \<le> c)) (wf_events w)"

definition approval_events :: "workflow \<Rightarrow> string \<Rightarrow> approval_event list res" where
  "approval_events w at = bindE (at_instant at) (\<lambda>c. Inr (events_of w ''approved'' (Some c)))"

definition first_event :: "approval_event list \<Rightarrow> approval_event option" where
  "first_event es = (case es of [] \<Rightarrow> None | e # _ \<Rightarrow> Some e)"

definition rejection_event :: "workflow \<Rightarrow> string \<Rightarrow> approval_event option res" where
  "rejection_event w at = bindE (at_instant at) (\<lambda>c. Inr (first_event (events_of w ''rejected'' (Some c))))"

definition revocation_event :: "workflow \<Rightarrow> string \<Rightarrow> approval_event option res" where
  "revocation_event w at = bindE (at_instant at) (\<lambda>c. Inr (first_event (events_of w ''revoked'' (Some c))))"

definition wf_escalated :: "workflow \<Rightarrow> string \<Rightarrow> bool res" where
  "wf_escalated w at = bindE (at_instant at) (\<lambda>c. Inr (events_of w ''escalated'' (Some c) \<noteq> []))"

definition wf_status :: "workflow \<Rightarrow> string \<Rightarrow> string res" where
  "wf_status w at =
     bindE (revocation_event w at) (\<lambda>rv.
     if rv \<noteq> None then Inr ''revoked'' else
     bindE (rejection_event w at) (\<lambda>rj.
     if rj \<noteq> None then Inr ''rejected''
     else if time_of (rq_expires (wf_request w)) \<le> time_of at then Inr ''expired''
     else bindE (approval_events w at) (\<lambda>ap.
       if ap_required (rq_policy (wf_request w)) \<le> int (length ap) then Inr ''approved''
       else Inr ''pending'')))"

definition ensure_pending :: "workflow \<Rightarrow> string \<Rightarrow> unit res" where
  "ensure_pending w at =
     bindE (wf_status w at) (\<lambda>st.
       req (st = ''pending'') (AWE (''approval request is not pending: '' @ st)) (Inr ()))"

section \<open>Operations\<close>

definition append_event ::
  "(string \<Rightarrow> string) \<Rightarrow> workflow \<Rightarrow> string \<Rightarrow> string \<Rightarrow> string \<Rightarrow> string \<Rightarrow> string option \<Rightarrow> string
   \<Rightarrow> (string \<times> string) list \<Rightarrow> workflow res" where
  "append_event h w vid typ at actor role reason details =
     bindE (event_init (PInt 1) (PStr vid) (PStr (rq_id (wf_request w))) (PInt (int (length (wf_events w))))
              (PStr typ) (PStr at) (PStr actor) (opt_pstr role) (PStr reason)
              (map (\<lambda>(k, v). (PStr k, PStr v)) details)
              (PStr (event_fingerprint h (last (wf_events w))))) (\<lambda>e.
       workflow_init h (wf_request w) (wf_events w @ [e]))"

definition create_workflow ::
  "(string \<Rightarrow> string) \<Rightarrow> approval_request \<Rightarrow> string \<Rightarrow> string option \<Rightarrow> string \<Rightarrow> workflow res" where
  "create_workflow h rq vid actor reason =
     (let who = (case actor of None \<Rightarrow> rq_by rq | Some a \<Rightarrow> a) in
      bindE (find_principal rq who) (\<lambda>_.
      bindE (event_init (PInt 1) (PStr vid) (PStr (rq_id rq)) (PInt 0) (PStr ''requested'') (PStr (rq_at rq))
               (PStr who) PNone (PStr reason)
               [(PStr ''request_fingerprint'', PStr (request_fingerprint h rq))] PNone) (\<lambda>e.
        workflow_init h rq [e])))"

text \<open>\<open>evs\<close> are the events, the latest first.\<close>

fun delegated_authority :: "approval_policy \<Rightarrow> approval_event list \<Rightarrow> string \<Rightarrow> string \<Rightarrow> (string \<times> string) res" where
  "delegated_authority pol [] actor at = Inl (AWE ''principal does not hold eligible approval authority'')"
| "delegated_authority pol (e # es) actor at =
     (case (detail e ''delegated_role'', detail e ''valid_until'') of
        (Some role, Some until) \<Rightarrow>
          (if ev_type e = ''delegated'' \<and> detail e ''delegate_id'' = Some actor \<and> role \<in> set (ap_eligible pol)
              \<and> time_of (ev_at e) \<le> time_of at
           then bindE (iso_instant until) (\<lambda>t.
                  if time_of at < t then Inr (role, ev_actor e) else delegated_authority pol es actor at)
           else delegated_authority pol es actor at)
      | _ \<Rightarrow> delegated_authority pol es actor at)"

definition held_roles :: "approval_policy \<Rightarrow> principal \<Rightarrow> string list" where
  "held_roles pol p = sort (filter (\<lambda>r. r \<in> set (ap_eligible pol)) (pr_roles p))"

definition eligible_authority :: "workflow \<Rightarrow> string \<Rightarrow> string \<Rightarrow> (string \<times> string) res" where
  "eligible_authority w actor at =
     bindE (find_principal (wf_request w) actor) (\<lambda>p.
       case held_roles (rq_policy (wf_request w)) p of
         r # _ \<Rightarrow> Inr (r, actor)
       | [] \<Rightarrow> delegated_authority (rq_policy (wf_request w)) (rev (wf_events w)) actor at)"

definition wf_approve ::
  "(string \<Rightarrow> string) \<Rightarrow> string \<Rightarrow> string \<Rightarrow> string \<Rightarrow> string \<Rightarrow> workflow \<Rightarrow> workflow res" where
  "wf_approve h vid actor at reason w =
     bindE (iso8601 AWE (PStr at) ''occurred_at'') (\<lambda>_.
     bindE (ensure_pending w at) (\<lambda>_.
     req (ap_requester_may (rq_policy (wf_request w)) \<or> actor \<noteq> rq_by (wf_request w))
         (AWE ''requester cannot approve this request'')
    (req (\<not> list_ex (\<lambda>e. ev_actor e = actor) (events_of w ''approved'' None))
         (AWE ''principal already approved this request'')
    (bindE (eligible_authority w actor at) (\<lambda>(role, src).
     bindE (approval_events w at) (\<lambda>aps.
     req (Some src \<notin> set (map (\<lambda>e. detail e ''authority_source'') aps))
         (AWE ''approval authority source already counted for this request'')
       (append_event h w vid ''approved'' at actor (Some role) reason [(''authority_source'', src)])))))))"

definition wf_reject ::
  "(string \<Rightarrow> string) \<Rightarrow> string \<Rightarrow> string \<Rightarrow> string \<Rightarrow> string \<Rightarrow> workflow \<Rightarrow> workflow res" where
  "wf_reject h vid actor at reason w =
     bindE (iso8601 AWE (PStr at) ''occurred_at'') (\<lambda>_.
     bindE (ensure_pending w at) (\<lambda>_.
     req (ap_requester_may (rq_policy (wf_request w)) \<or> actor \<noteq> rq_by (wf_request w))
         (AWE ''requester cannot reject their own request'')
    (bindE (eligible_authority w actor at) (\<lambda>(role, src).
       append_event h w vid ''rejected'' at actor (Some role) reason [(''authority_source'', src)]))))"

definition wf_delegate ::
  "(string \<Rightarrow> string) \<Rightarrow> string \<Rightarrow> string \<Rightarrow> string \<Rightarrow> string \<Rightarrow> string \<Rightarrow> string \<Rightarrow> string \<Rightarrow> workflow
   \<Rightarrow> workflow res" where
  "wf_delegate h vid delegator delegate role at until reason w =
     (let rq = wf_request w; pol = rq_policy rq in
      bindE (iso8601 AWE (PStr at) ''occurred_at'') (\<lambda>_.
      bindE (iso8601 AWE (PStr until) ''valid_until'') (\<lambda>_.
      bindE (ensure_pending w at) (\<lambda>_.
      req (ap_delegation pol) (AWE ''approval delegation is disabled'')
     (req (delegator \<noteq> delegate) (AWE ''delegator and delegate must differ'')
     (req (ap_requester_may pol \<or> (delegator \<noteq> rq_by rq \<and> delegate \<noteq> rq_by rq))
          (AWE ''separation of duties forbids requester delegation'')
     (bindE (find_principal rq delegator) (\<lambda>p.
      bindE (find_principal rq delegate) (\<lambda>_.
      bindE (ident_text AWE (PStr role) ''delegated_role'') (\<lambda>_.
      req (role \<in> set (ap_eligible pol)) (AWE ''delegated role is not approval-eligible'')
     (req (role \<in> set (pr_roles p)) (AWE ''delegator does not directly hold delegated role'')
     (req (time_of at < time_of until) (AWE ''delegation valid_until must be later than occurred_at'')
     (req (time_of until \<le> time_of (rq_expires rq)) (AWE ''delegation cannot outlive the approval request'')
       (append_event h w vid ''delegated'' at delegator (Some role) reason
          [(''delegate_id'', delegate), (''delegated_role'', role), (''valid_until'', until)]))))))))))))))"

definition escalation_due :: "workflow \<Rightarrow> string \<Rightarrow> bool res" where
  "escalation_due w at =
     bindE (at_instant at) (\<lambda>t.
       case ap_escalation_after (rq_policy (wf_request w)) of
         None \<Rightarrow> Inr False
       | Some seconds \<Rightarrow>
           bindE (wf_status w at) (\<lambda>st.
             if st \<noteq> ''pending'' then Inr False else
             bindE (wf_escalated w at) (\<lambda>esc.
               if esc then Inr False
               else bindE (plus_seconds (rq_at (wf_request w)) seconds) (\<lambda>due. Inr (due \<le> t)))))"

definition wf_escalate ::
  "(string \<Rightarrow> string) \<Rightarrow> string \<Rightarrow> string \<Rightarrow> string \<Rightarrow> string \<Rightarrow> workflow \<Rightarrow> workflow res" where
  "wf_escalate h vid actor at reason w =
     bindE (iso8601 AWE (PStr at) ''occurred_at'') (\<lambda>_.
     bindE (find_principal (wf_request w) actor) (\<lambda>_.
     bindE (escalation_due w at) (\<lambda>due.
     req due (AWE ''approval escalation is not due'')
       (append_event h w vid ''escalated'' at actor None reason
          [(''escalation_roles'',
            dumps True (PList (map PStr (ap_escalation_roles (rq_policy (wf_request w))))))]))))"

definition wf_revoke ::
  "(string \<Rightarrow> string) \<Rightarrow> string \<Rightarrow> string \<Rightarrow> string \<Rightarrow> string \<Rightarrow> workflow \<Rightarrow> workflow res" where
  "wf_revoke h vid actor at reason w =
     bindE (iso8601 AWE (PStr at) ''occurred_at'') (\<lambda>_.
     bindE (wf_status w at) (\<lambda>st.
     req (st = ''approved'') (AWE ''only a currently approved request can be revoked'')
    (bindE (find_principal (wf_request w) actor) (\<lambda>p.
       case held_roles (rq_policy (wf_request w)) p of
         [] \<Rightarrow> Inl (AWE ''revocation requires direct eligible authority'')
       | r # _ \<Rightarrow> append_event h w vid ''revoked'' at actor (Some r) reason []))))"

definition wf_grant :: "(string \<Rightarrow> string) \<Rightarrow> workflow \<Rightarrow> string \<Rightarrow> approval_grant res" where
  "wf_grant h w at =
     (let rq = wf_request w; n = nat (ap_required (rq_policy rq)) in
      bindE (wf_status w at) (\<lambda>st.
      req (st = ''approved'') (AWE ''approval grant is unavailable unless request is approved'')
     (bindE (approval_events w at) (\<lambda>aps.
        grant_init (PInt 1) (PStr (rq_id rq)) (PStr (rq_engagement rq)) (PStr (rq_bundle rq))
          (PStr (rq_capability rq)) (PStr (rq_target rq)) (PStr (rq_impact rq))
          (PStr (ev_at (aps ! (n - 1)))) (PStr (rq_expires rq))
          (map (\<lambda>e. PStr (ev_actor e)) (take n aps)) (PStr (workflow_fingerprint h w))))))"

definition grant_matches ::
  "(string \<Rightarrow> string) \<Rightarrow> workflow \<Rightarrow> approval_grant \<Rightarrow> string \<Rightarrow> string \<Rightarrow> string \<Rightarrow> string \<Rightarrow> string \<Rightarrow> string
   \<Rightarrow> bool res" where
  "grant_matches h w g engagement bundle capability target impact at =
     (let rq = wf_request w in
      bindE (iso8601 AWE (PStr at) ''at'') (\<lambda>_.
      case parse_target target of
        Inl _ \<Rightarrow> Inr False
      | Inr t \<Rightarrow>
          bindE (wf_status w at) (\<lambda>st.
            if st \<noteq> ''approved'' then Inr False
            else (case wf_grant h w at of
                    Inl e \<Rightarrow> (case e of ApprovalWorkflowError _ \<Rightarrow> Inr False | _ \<Rightarrow> Inl e)
                  | Inr expected \<Rightarrow>
                      Inr (g = expected
                        \<and> gr_request g = rq_id rq
                        \<and> gr_engagement g = engagement \<and> engagement = rq_engagement rq
                        \<and> gr_bundle g = bundle \<and> bundle = rq_bundle rq
                        \<and> gr_capability g = capability \<and> capability = rq_capability rq
                        \<and> gr_target g = t_value t \<and> t_value t = rq_target rq
                        \<and> gr_impact g = impact \<and> impact = rq_impact rq
                        \<and> time_of at < time_of (gr_expires g))))))"

end
