(* ===== verification/ApprovalFacts.thy ===== *)
theory ApprovalFacts
  imports ApprovalFlow
begin

text \<open>
  Facts on approval workflows: what replaying an accepted history establishes (who approved
  on whose authority), the chain of event fingerprints, the operations as a component whose
  histories only grow, and the JSON forms.
\<close>

section \<open>What an accepted history establishes\<close>

definition of_type :: "string \<Rightarrow> approval_event list \<Rightarrow> approval_event list" where
  "of_type t es = filter (\<lambda>e. ev_type e = t) es"

lemma of_type_append [simp]: "of_type t (xs @ ys) = of_type t xs @ of_type t ys"
  by (simp add: of_type_def)

lemma of_type_single [simp]: "of_type t [e] = (if ev_type e = t then [e] else [])"
  by (simp add: of_type_def)

lemma in_of_type [simp]: "e \<in> set (of_type t es) \<longleftrightarrow> e \<in> set es \<and> ev_type e = t"
  by (auto simp: of_type_def)

text \<open>The principal \<open>who\<close> directly holds the approval role \<open>r\<close>.\<close>

definition holds :: "approval_request \<Rightarrow> string \<Rightarrow> string \<Rightarrow> bool" where
  "holds rq who r \<longleftrightarrow> (\<exists>p\<in>set (rq_principals rq). pr_id p = who \<and> r \<in> set (pr_roles p))
     \<and> r \<in> set (ap_eligible (rq_policy rq))"

definition not_requester :: "approval_request \<Rightarrow> string \<Rightarrow> bool" where
  "not_requester rq who \<longleftrightarrow> ap_requester_may (rq_policy rq) \<or> who \<noteq> rq_by rq"

definition sound_delegation :: "approval_request \<Rightarrow> approval_event \<Rightarrow> bool" where
  "sound_delegation rq d \<longleftrightarrow>
     (\<exists>who r until. detail d ''delegate_id'' = Some who \<and> detail d ''delegated_role'' = Some r \<and>
        detail d ''valid_until'' = Some until \<and> holds rq (ev_actor d) r \<and> who \<noteq> ev_actor d \<and>
        not_requester rq (ev_actor d) \<and> not_requester rq who \<and> is_timestamp until \<and>
        time_of (ev_at d) < time_of until \<and> time_of until \<le> time_of (rq_expires rq))"

text \<open>\<open>d\<close> is a delegation of role \<open>r\<close> to the actor of \<open>e\<close> that is in force at \<open>e\<close>.\<close>

definition delegates :: "approval_event \<Rightarrow> approval_event \<Rightarrow> string \<Rightarrow> bool" where
  "delegates d e r \<longleftrightarrow> ev_type d = ''delegated'' \<and> detail d ''delegate_id'' = Some (ev_actor e) \<and>
     detail d ''delegated_role'' = Some r \<and> time_of (ev_at d) \<le> time_of (ev_at e) \<and>
     (\<exists>until. detail d ''valid_until'' = Some until \<and> time_of (ev_at e) < time_of until)"

definition sound_decision :: "approval_request \<Rightarrow> approval_event list \<Rightarrow> approval_event \<Rightarrow> bool" where
  "sound_decision rq prior e \<longleftrightarrow>
     (\<exists>src r. detail e ''authority_source'' = Some src \<and> ev_role e = Some r \<and> holds rq src r \<and>
        not_requester rq src \<and> not_requester rq (ev_actor e) \<and>
        (src = ev_actor e \<or> (\<exists>d\<in>set prior. ev_actor d = src \<and> delegates d e r)))"

lemma find_principal_Inr:
  "find_principal rq who = Inr p \<Longrightarrow> p \<in> set (rq_principals rq) \<and> pr_id p = who"
  by (auto simp: find_principal_def find_Some_iff split: option.splits)

lemma direct_role_holds: "direct_role rq who (Some r) = Inr True \<Longrightarrow> holds rq who r"
  by (auto simp: direct_role_def bindE_Inr holds_def dest!: find_principal_Inr)

lemma direct_role_Some: "direct_role rq who role = Inr True \<Longrightarrow> \<exists>r. role = Some r"
  by (cases role) (auto simp: direct_role_def)

lemma delegated_source_Some:
  "delegated_source ps actor r at = Inr (Some src) \<Longrightarrow>
   \<exists>d\<in>set ps. ev_actor d = src \<and> ev_type d = ''delegated'' \<and> detail d ''delegate_id'' = Some actor \<and>
     detail d ''delegated_role'' = Some r \<and> time_of (ev_at d) \<le> at \<and>
     (\<exists>until. detail d ''valid_until'' = Some until \<and> at < time_of until)"
proof (induction ps)
  case (Cons p ps)
  then show ?case
    by (auto simp: bindE_Inr iso_instant_Inr split: if_splits option.splits)
qed simp

lemma decision_source_sound:
  assumes "decision_source rq prior e = Inr (Some src)" "detail e ''authority_source'' = Some src"
    "\<forall>d\<in>set prior. ev_type d = ''delegated'' \<longrightarrow> sound_delegation rq d" "not_requester rq (ev_actor e)"
  shows "sound_decision rq prior e"
proof -
  obtain b where b: "direct_role rq (ev_actor e) (ev_role e) = Inr b"
    using assms(1) by (auto simp: decision_source_def bindE_Inr)
  show ?thesis
  proof (cases b)
    case True
    with b have "direct_role rq (ev_actor e) (ev_role e) = Inr True" by simp
    then obtain r where r: "ev_role e = Some r" using direct_role_Some by blast
    with b True direct_role_holds have "holds rq (ev_actor e) r" by simp
    with assms b True r show ?thesis by (auto simp: sound_decision_def decision_source_def)
  next
    case False
    with assms(1) b obtain r where r: "ev_role e = Some r"
      "delegated_source (rev prior) (ev_actor e) r (time_of (ev_at e)) = Inr (Some src)"
      by (auto simp: decision_source_def split: option.splits)
    from delegated_source_Some [OF r(2)] obtain d where d: "d \<in> set prior" "ev_actor d = src" "delegates d e r"
      by (auto simp: delegates_def)
    then have "sound_delegation rq d" using assms(3) by (simp add: delegates_def)
    with d have "holds rq src r" "not_requester rq src" by (auto simp: sound_delegation_def delegates_def)
    with assms(2,4) d r show ?thesis by (auto simp: sound_decision_def)
  qed
qed

lemma sound_decision_mono: "sound_decision rq prior e \<Longrightarrow> set prior \<subseteq> set prior' \<Longrightarrow> sound_decision rq prior' e"
  unfolding sound_decision_def by blast

definition history_inv :: "approval_request \<Rightarrow> approval_event list \<Rightarrow> replay \<Rightarrow> bool" where
  "history_inv rq evs s \<longleftrightarrow>
     rp_prior s = evs \<and> evs \<noteq> [] \<and>
     rp_actors s = rev (map ev_actor (of_type ''approved'' evs)) \<and> distinct (rp_actors s) \<and>
     map Some (rp_sources s) = rev (map (\<lambda>e. detail e ''authority_source'') (of_type ''approved'' evs)) \<and>
     distinct (rp_sources s) \<and>
     (\<forall>e\<in>set (of_type ''approved'' evs) \<union> set (of_type ''rejected'' evs). sound_decision rq evs e) \<and>
     (\<forall>d\<in>set (of_type ''delegated'' evs). sound_delegation rq d) \<and>
     (\<forall>e\<in>set (of_type ''revoked'' evs). \<exists>r. ev_role e = Some r \<and> holds rq (ev_actor e) r) \<and>
     (\<forall>e\<in>set (tl evs). time_of (ev_at e) < time_of (rq_expires rq)) \<and>
     (rp_state s = WRevoked \<longleftrightarrow> of_type ''revoked'' evs \<noteq> []) \<and>
     (rp_state s = WRejected \<longleftrightarrow> of_type ''rejected'' evs \<noteq> []) \<and>
     (rp_escalated s \<longleftrightarrow> of_type ''escalated'' evs \<noteq> []) \<and>
     (if rp_state s = WApproved \<or> rp_state s = WRevoked
      then int (length (rp_sources s)) = ap_required (rq_policy rq)
      else int (length (rp_sources s)) < ap_required (rq_policy rq))"

lemma history_inv_start:
  "ev_type first = ''requested'' \<Longrightarrow> 1 \<le> ap_required (rq_policy rq) \<Longrightarrow> history_inv rq [first] (replay_start first)"
  by (simp add: history_inv_def replay_start_def)

lemma replay_decision_inv:
  assumes "history_inv rq evs s" "replay_decision rq e s = Inr s'" "time_of (ev_at e) < time_of (rq_expires rq)"
    "ev_type e = ''approved'' \<or> ev_type e = ''rejected''"
  shows "history_inv rq (evs @ [e]) (s'\<lparr>rp_prior := rp_prior s @ [e]\<rparr>)"
proof -
  obtain src where src: "rp_state s = WPending" "not_requester rq (ev_actor e)"
    "decision_source rq (rp_prior s) e = Inr (Some src)" "detail e ''authority_source'' = Some src"
    "s' = (if ev_type e = ''approved''
      then s\<lparr>rp_actors := ev_actor e # rp_actors s, rp_sources := src # rp_sources s,
             rp_state := (if ap_required (rq_policy rq) \<le> int (length (src # rp_sources s)) then WApproved else WPending)\<rparr>
      else s\<lparr>rp_state := WRejected\<rparr>)"
    "ev_type e = ''approved'' \<Longrightarrow> ev_actor e \<notin> set (rp_actors s) \<and> src \<notin> set (rp_sources s)"
    using assms(2)
    by (auto simp: replay_decision_def bindE_Inr req_Inr not_requester_def split: option.splits if_splits)
  have prior: "rp_prior s = evs" using assms(1) by (simp add: history_inv_def)
  have "sound_decision rq evs e"
    using decision_source_sound [OF src(3,4) _ src(2)] assms(1) prior
    by (simp add: history_inv_def)
  then have snd: "sound_decision rq (evs @ [e]) e" by (rule sound_decision_mono) auto
  have old: "\<forall>e\<in>set (of_type ''approved'' evs) \<union> set (of_type ''rejected'' evs). sound_decision rq (evs @ [e']) e" for e'
    using assms(1) unfolding history_inv_def by (auto intro: sound_decision_mono)
  show ?thesis
    using assms(1,3,4) src snd old [of e]
    by (cases "ev_type e = ''approved''") (auto simp: history_inv_def)
qed


lemma replay_delegation_same:
  "replay_delegation rq e s = Inr s' \<Longrightarrow> s' = s \<and> rp_state s = WPending \<and> sound_delegation rq e"
proof -
  assume a: "replay_delegation rq e s = Inr s'"
  obtain who role until where d: "detail e ''delegate_id'' = Some who" "detail e ''delegated_role'' = Some role"
    "detail e ''valid_until'' = Some until"
    using a by (cases "detail e ''delegate_id''"; cases "detail e ''delegated_role''"; cases "detail e ''valid_until''")
      (simp_all add: replay_delegation_def req_Inr)
  have "s' = s \<and> rp_state s = WPending \<and> ev_actor e \<noteq> who \<and>
    not_requester rq (ev_actor e) \<and> not_requester rq who \<and>
    direct_role rq (ev_actor e) (Some role) = Inr True \<and> is_timestamp until \<and>
    time_of (ev_at e) < time_of until \<and> time_of until \<le> time_of (rq_expires rq)"
    using a unfolding replay_delegation_def d not_requester_def option.case prod.case bindE_Inr req_Inr iso_instant_Inr
    by (elim conjE exE) (simp only: Inr_inject, simp, blast?)
  then show ?thesis
    using d direct_role_holds by (auto simp: sound_delegation_def)
qed

lemma replay_escalation_same:
  "replay_escalation rq e s = Inr s' \<Longrightarrow> s' = s\<lparr>rp_escalated := True\<rparr> \<and> rp_state s = WPending \<and> \<not> rp_escalated s"
  by (auto simp: replay_escalation_def bindE_Inr req_Inr split: option.splits pyval.splits)

lemma replay_revocation_same:
  "replay_revocation rq e s = Inr s' \<Longrightarrow> s' = s\<lparr>rp_state := WRevoked\<rparr> \<and> rp_state s = WApproved
     \<and> (\<exists>r. ev_role e = Some r \<and> holds rq (ev_actor e) r)"
proof -
  assume "replay_revocation rq e s = Inr s'"
  then have d: "direct_role rq (ev_actor e) (ev_role e) = Inr True"
    and s: "s' = s\<lparr>rp_state := WRevoked\<rparr> \<and> rp_state s = WApproved"
    by (auto simp: replay_revocation_def bindE_Inr req_Inr)
  obtain r where "ev_role e = Some r" using direct_role_Some [OF d] by blast
  with d direct_role_holds s show ?thesis by simp
qed

lemma history_inv_extend:
  assumes "history_inv rq evs s" "time_of (ev_at e) < time_of (rq_expires rq)"
    "ev_type e \<noteq> ''approved''" "ev_type e \<noteq> ''rejected''"
    "ev_type e = ''delegated'' \<Longrightarrow> sound_delegation rq e"
    "ev_type e = ''revoked'' \<Longrightarrow> rp_state s = WApproved \<and> (\<exists>r. ev_role e = Some r \<and> holds rq (ev_actor e) r)"
    "s' = s\<lparr>rp_state := (if ev_type e = ''revoked'' then WRevoked else rp_state s),
            rp_escalated := (rp_escalated s \<or> ev_type e = ''escalated'')\<rparr>"
  shows "history_inv rq (evs @ [e]) (s'\<lparr>rp_prior := rp_prior s @ [e]\<rparr>)"
proof -
  have snd: "\<forall>x\<in>set (of_type ''approved'' evs) \<union> set (of_type ''rejected'' evs). sound_decision rq (evs @ [e]) x"
    using assms(1) unfolding history_inv_def by (auto intro: sound_decision_mono)
  have late: "\<forall>x\<in>set (tl (evs @ [e])). time_of (ev_at x) < time_of (rq_expires rq)"
    using assms(1,2) unfolding history_inv_def by (cases evs) auto
  have del: "\<forall>d\<in>set (of_type ''delegated'' (evs @ [e])). sound_delegation rq d"
    using assms(1,5) unfolding history_inv_def by auto
  have rev: "\<forall>x\<in>set (of_type ''revoked'' (evs @ [e])). \<exists>r. ev_role x = Some r \<and> holds rq (ev_actor x) r"
    using assms(1,6) unfolding history_inv_def by auto
  have st: "rp_state s = WApproved" if "ev_type e = ''revoked''" using assms(6) that by simp
  show ?thesis
    using assms(1,3,4) snd late del rev st unfolding history_inv_def assms(7)
    by (cases "ev_type e = ''revoked''"; cases "ev_type e = ''escalated''") simp_all
qed

lemma replay_event_inv:
  assumes "history_inv rq evs s" "replay_event rq e s = Inr s'"
  shows "history_inv rq (evs @ [e]) s'"
proof -
  let ?k = "\<lambda>t. t\<lparr>rp_prior := rp_prior s @ [e]\<rparr>"
  have e: "time_of (ev_at e) < time_of (rq_expires rq)"
    using assms(2) by (simp add: replay_event_def req_Inr)
  consider (decision) t where "ev_type e = ''approved'' \<or> ev_type e = ''rejected''" "replay_decision rq e s = Inr t" "s' = ?k t"
    | (delegation) t where "ev_type e = ''delegated''" "replay_delegation rq e s = Inr t" "s' = ?k t"
    | (escalation) t where "ev_type e = ''escalated''" "replay_escalation rq e s = Inr t" "s' = ?k t"
    | (revocation) t where "ev_type e = ''revoked''" "replay_revocation rq e s = Inr t" "s' = ?k t"
    | (other) "ev_type e \<notin> {''approved'', ''rejected'', ''delegated'', ''escalated'', ''revoked''}" "s' = ?k s"
    using assms(2) by (auto simp: replay_event_def req_Inr bindE_Inr split: if_splits)
  then show ?thesis
  proof cases
    case decision
    then show ?thesis using replay_decision_inv [OF assms(1) decision(2) e] by simp
  next
    case (delegation t)
    with replay_delegation_same [OF delegation(2)] show ?thesis
      by (intro history_inv_extend [OF assms(1) e, THEN back_subst [of "history_inv rq (evs @ [e])"]]) auto
  next
    case (escalation t)
    with replay_escalation_same [OF escalation(2)] show ?thesis
      by (intro history_inv_extend [OF assms(1) e, THEN back_subst [of "history_inv rq (evs @ [e])"]]) auto
  next
    case (revocation t)
    with replay_revocation_same [OF revocation(2)] show ?thesis
      by (intro history_inv_extend [OF assms(1) e, THEN back_subst [of "history_inv rq (evs @ [e])"]]) auto
  next
    case other
    then show ?thesis
      by (intro history_inv_extend [OF assms(1) e, THEN back_subst [of "history_inv rq (evs @ [e])"]]) auto
  qed
qed

lemma replay_events_inv:
  "history_inv rq evs s \<Longrightarrow> replay_events rq es s = Inr s' \<Longrightarrow> history_inv rq (evs @ es) s'"
proof (induction es arbitrary: evs s)
  case (Cons e es)
  then obtain t where "replay_event rq e s = Inr t" "replay_events rq es t = Inr s'"
    by (auto simp: bindE_Inr)
  with Cons.IH [OF replay_event_inv [OF Cons.prems(1)]] show ?case by simp
qed simp

section \<open>Accepted workflows\<close>

definition principal_make :: "principal \<Rightarrow> principal res" where
  "principal_make p = principal_init (PStr (pr_id p)) (map PStr (pr_roles p))"

definition approval_policy_make :: "approval_policy \<Rightarrow> approval_policy res" where
  "approval_policy_make p =
     approval_policy_init (PStr (ap_mode p)) (PInt (ap_required p)) (map PStr (ap_eligible p))
       (PBool (ap_requester_may p)) (PBool (ap_delegation p)) (opt_int (ap_escalation_after p))
       (map PStr (ap_escalation_roles p))"

definition request_make :: "approval_request \<Rightarrow> approval_request res" where
  "request_make rq =
     request_init (PInt 1) (PStr (rq_id rq)) (PStr (rq_engagement rq)) (PStr (rq_bundle rq)) (PStr (rq_at rq))
       (PStr (rq_expires rq)) (PStr (rq_by rq)) (rq_principals rq) (PStr (rq_capability rq)) (PStr (rq_target rq))
       (PStr (rq_impact rq)) (PStr (rq_reason rq)) (rq_policy rq) (opt_pstr (rq_operation rq))"

definition request_ok :: "approval_request \<Rightarrow> bool" where
  "request_ok rq \<longleftrightarrow> request_make rq = Inr rq \<and> approval_policy_make (rq_policy rq) = Inr (rq_policy rq) \<and>
     list_all (\<lambda>p. principal_make p = Inr p) (rq_principals rq)"

definition workflow_ok :: "(string \<Rightarrow> string) \<Rightarrow> workflow \<Rightarrow> bool" where
  "workflow_ok h w \<longleftrightarrow> request_ok (wf_request w) \<and> workflow_init h (wf_request w) (wf_events w) = Inr w
     \<and> list_all (\<lambda>e. event_make e = Inr e) (wf_events w)"

lemma int_of_Inr [res_simps]: "int_of e v = Inr i \<longleftrightarrow> v = PInt i"
  by (cases v) auto

lemma bool_value_Inr [res_simps]: "bool_value e v = Inr b \<longleftrightarrow> v = PBool b"
  by (cases v) auto

lemma approval_policy_required: "approval_policy_make p = Inr p \<Longrightarrow> 1 \<le> ap_required p"
  by (auto simp: approval_policy_make_def approval_policy_init_def bindE_Inr req_Inr int_of_Inr)

lemma workflow_init_Inr:
  "workflow_init h rq es = Inr w \<longleftrightarrow>
     w = \<lparr>wf_request = rq, wf_events = es\<rparr> \<and> es \<noteq> [] \<and> check_chain h rq [] None 0 es = Inr () \<and>
     check_origin h rq (hd es) = Inr () \<and> is_ok (replay_events rq (tl es) (replay_start (hd es)))"
  by (cases es) (auto simp: workflow_init_def bindE_Inr is_ok_iff)

lemma workflow_replay:
  assumes "workflow_init h rq es = Inr w" "1 \<le> ap_required (rq_policy rq)"
  shows "\<exists>s. history_inv rq es s"
proof -
  from assms(1) obtain s where s: "es \<noteq> []" "ev_type (hd es) = ''requested''"
    "replay_events rq (tl es) (replay_start (hd es)) = Inr s"
    by (auto simp: workflow_init_Inr is_ok_iff check_origin_def req_Inr)
  from replay_events_inv [OF history_inv_start [OF s(2) assms(2)] s(3)] s(1) show ?thesis by auto
qed

lemma workflow_history: "workflow_ok h w \<Longrightarrow> \<exists>s. history_inv (wf_request w) (wf_events w) s"
  using workflow_replay approval_policy_required unfolding workflow_ok_def request_ok_def by blast

lemma check_chain_Inr:
  "check_chain h rq seen prev i es = Inr u \<Longrightarrow>
     chained (event_fingerprint h) ev_prev (map_option (event_fingerprint h) prev) es \<and>
     distinct (map ev_id es) \<and> set (map ev_id es) \<inter> set seen = {} \<and>
     (\<forall>k<length es. ev_seq (es ! k) = int (i + k) \<and> ev_request (es ! k) = rq_id rq) \<and>
     sorted (map (\<lambda>e. time_of (ev_at e)) es) \<and>
     (\<forall>p. prev = Some p \<longrightarrow> (\<forall>e\<in>set es. time_of (ev_at p) \<le> time_of (ev_at e)))"
proof (induction es arbitrary: seen prev i)
  case (Cons e es)
  then have c: "ev_id e \<notin> set seen" "ev_request e = rq_id rq" "ev_seq e = int i"
    "ev_prev e = map_option (event_fingerprint h) prev"
    "case prev of None \<Rightarrow> True | Some p \<Rightarrow> time_of (ev_at p) \<le> time_of (ev_at e)"
    and r: "check_chain h rq (ev_id e # seen) (Some e) (Suc i) es = Inr u"
    by (simp_all add: req_Inr)
  have "ev_seq ((e # es) ! k) = int (i + k) \<and> ev_request ((e # es) ! k) = rq_id rq" if "k < length (e # es)" for k
    using that c Cons.IH [OF r] by (cases k) auto
  with c Cons.IH [OF r] show ?case
    by (force split: option.splits)
qed simp

lemma ident_text_Inr [res_simps]:
  "ident_text exc v f = Inr s \<longleftrightarrow> v = PStr s \<and> trimmed s \<and> id_pattern s"
  by (auto simp: ident_text_def bindE_Inr req_Inr required_text_Inr)

lemma sha256_text_Inr [res_simps]:
  "sha256_text exc v f = Inr s \<longleftrightarrow> v = PStr s \<and> trimmed s \<and> length s = 64 \<and> list_all is_hex_lower s"
  by (auto simp: sha256_text_def bindE_Inr req_Inr required_text_Inr)

lemma opt_pstr_inject [simp]: "opt_pstr a = opt_pstr b \<longleftrightarrow> a = b"
  by (cases a; cases b) (auto simp: opt_pstr_def)

lemma optional_Inr:
  assumes "\<And>v s. f v = Inr s \<longleftrightarrow> v = PStr s \<and> P s"
  shows "optional f v = Inr r \<longleftrightarrow> v = opt_pstr r \<and> (\<forall>s. r = Some s \<longrightarrow> P s)"
  using assms by (cases r) (auto simp: optional_def opt_pstr_def bindE_Inr)

lemmas optional_ident = optional_Inr [OF ident_text_Inr]
lemmas optional_sha = optional_Inr [OF sha256_text_Inr]

lemma event_init_Inr:
  "event_init schema vid rid sq typ at actor role reason ds prev = Inr e \<longleftrightarrow>
     py_eq_int schema 1 \<and> vid = PStr (ev_id e) \<and> rid = PStr (ev_request e) \<and> sq = PInt (ev_seq e) \<and>
     typ = PStr (ev_type e) \<and> at = PStr (ev_at e) \<and> actor = PStr (ev_actor e) \<and> role = opt_pstr (ev_role e) \<and>
     reason = PStr (ev_reason e) \<and> prev = opt_pstr (ev_prev e) \<and> event_details ds = Inr (ev_details e) \<and>
     trimmed (ev_id e) \<and> id_pattern (ev_id e) \<and> trimmed (ev_request e) \<and> id_pattern (ev_request e) \<and>
     0 \<le> ev_seq e \<and> ev_type e \<in> set event_types \<and> trimmed (ev_at e) \<and> is_timestamp (ev_at e) \<and>
     trimmed (ev_actor e) \<and> id_pattern (ev_actor e) \<and> (\<forall>s. ev_role e = Some s \<longrightarrow> trimmed s \<and> id_pattern s) \<and>
     trimmed (ev_reason e) \<and>
     (\<forall>s. ev_prev e = Some s \<longrightarrow> trimmed s \<and> length s = 64 \<and> list_all is_hex_lower s)"
  (is "?L \<longleftrightarrow> ?R")
proof
  assume ?L
  then show ?R
    unfolding event_init_def bindE_Inr req_Inr ident_text_Inr int_of_Inr member_value_Inr iso8601_Inr
      required_text_Inr optional_ident optional_sha
    by (elim conjE exE) (drule Inr_inject, hypsubst, simp)
next
  assume ?R
  then show ?L
    unfolding event_init_def bindE_Inr req_Inr ident_text_Inr int_of_Inr member_value_Inr iso8601_Inr
      required_text_Inr optional_ident optional_sha
    by simp
qed

lemma detail_text_Inr: "detail_text (PStr a, PStr b) = Inr y \<longleftrightarrow> y = (a, b) \<and> trimmed a \<and> trimmed b"
  by (auto simp: detail_text_def bindE_Inr required_text_Inr)

lemma event_details_strs:
  "event_details (map (\<lambda>(k, v). (PStr k, PStr v)) ds) = Inr ds' \<longleftrightarrow>
     ds' = sort ds \<and> distinct (map fst (sort ds)) \<and> list_all (\<lambda>(k, v). trimmed k \<and> trimmed v) ds"
proof -
  have "mapE (\<lambda>(k, v). detail_text (PStr k, PStr v)) xs = Inr ys \<longleftrightarrow> ys = xs \<and> list_all (\<lambda>(k, v). trimmed k \<and> trimmed v) xs"
    for xs ys
    by (rule mapE_checked) (auto simp: detail_text_Inr)
  then have m: "mapE (\<lambda>(k, v). detail_text (PStr k, PStr v)) (sort ds) = Inr ds' \<longleftrightarrow>
      ds' = sort ds \<and> list_all (\<lambda>(k, v). trimmed k \<and> trimmed v) ds"
    by (simp add: list_all_iff)
  have strs: "list_all (\<lambda>(k, v). is_str k \<and> is_str v) (map (\<lambda>(k, v). (PStr k, PStr v)) ds)"
    by (auto simp: list_all_iff)
  have bk: "map (\<lambda>(k, v). (str_of k, str_of v)) (map (\<lambda>(k, v). (PStr k, PStr v)) ds) = ds"
    by (simp add: map_idI split_def)
  have "distinct (map fst (sort ds)) \<Longrightarrow> distinct (sort ds)" by (simp only: distinct_map)
  then show ?thesis
    unfolding event_details_def bk using strs m by (simp add: Let_def req_Inr) blast
qed

section \<open>Operations only append\<close>

lemma event_make_Inr:
  "event_init (PInt 1) (PStr vid) (PStr rid) (PInt n) (PStr typ) (PStr at) (PStr actor) (opt_pstr role) (PStr reason)
     (map (\<lambda>(k, v). (PStr k, PStr v)) ds) prev = Inr e \<Longrightarrow> event_make e = Inr e"
  by (auto simp: event_make_def event_init_Inr event_details_strs sorted_sort_id list_all_iff)

lemma append_event_Inr:
  assumes "append_event h w vid typ at actor role reason ds = Inr w'" "workflow_ok h w"
  obtains e where "w' = w\<lparr>wf_events := wf_events w @ [e]\<rparr>" "workflow_ok h w'" "ev_type e = typ" "ev_at e = at"
    "ev_actor e = actor" "ev_role e = role" "ev_details e = sort ds"
proof -
  obtain e where e: "event_init (PInt 1) (PStr vid) (PStr (rq_id (wf_request w))) (PInt (int (length (wf_events w))))
      (PStr typ) (PStr at) (PStr actor) (opt_pstr role) (PStr reason) (map (\<lambda>(k, v). (PStr k, PStr v)) ds)
      (PStr (event_fingerprint h (last (wf_events w)))) = Inr e"
    "workflow_init h (wf_request w) (wf_events w @ [e]) = Inr w'"
    using assms(1) unfolding append_event_def bindE_Inr by blast
  have w': "w' = w\<lparr>wf_events := wf_events w @ [e]\<rparr>"
    using e(2) by (cases w) (auto simp: workflow_init_Inr)
  moreover have "workflow_ok h w'"
    using e(2) event_make_Inr [OF e(1)] assms(2) unfolding w' workflow_ok_def by simp
  moreover have "ev_details e = sort ds"
    using e(1) by (simp add: event_init_Inr event_details_strs)
  ultimately show ?thesis using e(1) by (intro that) (simp_all add: event_init_Inr)
qed

datatype wf_call =
    WfApprove string string string string
  | WfReject string string string string
  | WfDelegate string string string string string string string
  | WfEscalate string string string string
  | WfRevoke string string string string

fun wf_op :: "(string \<Rightarrow> string) \<Rightarrow> wf_call \<Rightarrow> workflow \<Rightarrow> workflow res" where
  "wf_op h (WfApprove vid actor at reason) w = wf_approve h vid actor at reason w"
| "wf_op h (WfReject vid actor at reason) w = wf_reject h vid actor at reason w"
| "wf_op h (WfDelegate vid delegator delegate role at until reason) w =
     wf_delegate h vid delegator delegate role at until reason w"
| "wf_op h (WfEscalate vid actor at reason) w = wf_escalate h vid actor at reason w"
| "wf_op h (WfRevoke vid actor at reason) w = wf_revoke h vid actor at reason w"

lemma wf_op_append:
  assumes "wf_op h c w = Inr w'"
  shows "\<exists>vid typ at actor role reason ds. append_event h w vid typ at actor role reason ds = Inr w'"
proof (cases c)
  case (WfApprove vid actor at reason)
  with assms obtain role src where "append_event h w vid ''approved'' at actor (Some role) reason [(''authority_source'', src)] = Inr w'"
    unfolding wf_op.simps WfApprove wf_approve_def by (auto simp: bindE_Inr req_Inr)
  then show ?thesis by blast
next
  case (WfReject vid actor at reason)
  with assms obtain role src where "append_event h w vid ''rejected'' at actor (Some role) reason [(''authority_source'', src)] = Inr w'"
    unfolding wf_op.simps WfReject wf_reject_def by (auto simp: bindE_Inr req_Inr)
  then show ?thesis by blast
next
  case (WfDelegate vid delegator delegate role at until reason)
  with assms show ?thesis
    unfolding wf_op.simps WfDelegate wf_delegate_def bindE_Inr req_Inr Let_def by blast
next
  case (WfEscalate vid actor at reason)
  with assms show ?thesis unfolding wf_op.simps WfEscalate wf_escalate_def bindE_Inr req_Inr by blast
next
  case (WfRevoke vid actor at reason)
  with assms obtain p where "(case held_roles (rq_policy (wf_request w)) p of
      [] \<Rightarrow> Inl (AWE ''revocation requires direct eligible authority'')
    | r # _ \<Rightarrow> append_event h w vid ''revoked'' at actor (Some r) reason []) = Inr w'"
    unfolding wf_op.simps WfRevoke wf_revoke_def bindE_Inr req_Inr by blast
  then show ?thesis by (cases "held_roles (rq_policy (wf_request w)) p") (simp_all, blast)
qed

definition wf_step :: "(string \<Rightarrow> string) \<Rightarrow> wf_call \<Rightarrow> workflow \<Rightarrow> workflow" where
  "wf_step h c w = (case wf_op h c w of Inl _ \<Rightarrow> w | Inr w' \<Rightarrow> w')"

definition wf_le :: "workflow \<Rightarrow> workflow \<Rightarrow> bool" where
  "wf_le w v \<longleftrightarrow> wf_request v = wf_request w \<and> prefix (wf_events w) (wf_events v)"

lemma wf_op_Inr:
  assumes "wf_op h c w = Inr w'" "workflow_ok h w"
  shows "workflow_ok h w' \<and> (\<exists>e. w' = w\<lparr>wf_events := wf_events w @ [e]\<rparr>)"
proof -
  obtain vid ty at actor role reason ds where "append_event h w vid ty at actor role reason ds = Inr w'"
    using wf_op_append [OF assms(1)] by blast
  then show ?thesis by (rule append_event_Inr [OF _ assms(2)]) blast
qed

interpretation wf_machine: guarded_machine "wf_step h" "workflow_ok h" wf_le for h
proof
  fix w c assume ok: "workflow_ok h w"
  show "workflow_ok h (wf_step h c w)" "wf_le w (wf_step h c w)"
    using wf_op_Inr [OF _ ok, of c] ok by (auto simp: wf_step_def wf_le_def split: sum.splits)
qed (auto simp: wf_le_def intro: prefix_order.trans)

section \<open>Status\<close>

lemma at_instant_Inr: "at_instant at = Inr t \<longleftrightarrow> trimmed at \<and> is_timestamp at \<and> t = time_of at"
  by (auto simp: at_instant_def bindE_Inr iso8601_Inr)

lemma events_of_mono: "prefix (wf_events w) (wf_events v) \<Longrightarrow> c \<le> d \<Longrightarrow> set (events_of w t (Some c)) \<subseteq> set (events_of v t (Some d))"
  by (auto simp: events_of_def prefix_def)

lemma first_event_None [simp]: "first_event es = None \<longleftrightarrow> es = []"
  by (simp add: first_event_def split: list.splits)

lemma wf_status_eq:
  assumes "trimmed at" "is_timestamp at"
  shows "wf_status w at = Inr
    (if events_of w ''revoked'' (Some (time_of at)) \<noteq> [] then ''revoked''
     else if events_of w ''rejected'' (Some (time_of at)) \<noteq> [] then ''rejected''
     else if time_of (rq_expires (wf_request w)) \<le> time_of at then ''expired''
     else if ap_required (rq_policy (wf_request w)) \<le> int (length (events_of w ''approved'' (Some (time_of at)))) then ''approved''
     else ''pending'')"
proof -
  have t: "at_instant at = Inr (time_of at)" using assms by (simp add: at_instant_Inr)
  show ?thesis
    by (simp add: wf_status_def revocation_event_def rejection_event_def approval_events_def t)
qed

lemma wf_status_timed: "wf_status w at = Inr st \<Longrightarrow> trimmed at \<and> is_timestamp at"
  by (auto simp: wf_status_def revocation_event_def bindE_Inr at_instant_Inr)

lemma no_rejected_and_revoked:
  assumes "workflow_ok h w"
  shows "of_type ''rejected'' (wf_events w) = [] \<or> of_type ''revoked'' (wf_events w) = []"
proof -
  obtain s where "history_inv (wf_request w) (wf_events w) s" using workflow_history [OF assms] by blast
  then show ?thesis unfolding history_inv_def by (metis wf_state.distinct(11))
qed

lemma events_of_subset: "set (events_of w t c) \<subseteq> set (of_type t (wf_events w))"
  by (auto simp: events_of_def)

section \<open>The validator accepts what the guards of an approval admit\<close>

lemma delegated_authority_eligible:
  "delegated_authority pol es actor at = Inr (role, src) \<Longrightarrow> role \<in> set (ap_eligible pol)"
  by (induction es) (auto simp: bindE_Inr split: option.splits if_splits)

lemma delegated_authority_source:
  "delegated_authority pol es actor at = Inr (role, src) \<Longrightarrow>
   delegated_source es actor role (time_of at) = Inr (Some src)"
proof (induction es)
  case (Cons e es)
  note el = delegated_authority_eligible [OF Cons.prems]
  show ?case
  proof (cases "detail e ''delegated_role''")
    case None
    with Cons show ?thesis by simp
  next
    case (Some r)
    show ?thesis
    proof (cases "detail e ''valid_until''")
      case None
      with Some Cons show ?thesis by auto
    next
      case (Some u)
      with \<open>detail e ''delegated_role'' = Some r\<close> Cons el show ?thesis
        by (auto simp: bindE_Inr split: if_splits)
    qed
  qed
qed simp

lemma delegated_authority_actor:
  "delegated_authority pol es actor at = Inr (role, src) \<Longrightarrow> \<exists>d\<in>set es. ev_actor d = src \<and> ev_type d = ''delegated''"
  by (induction es) (auto simp: bindE_Inr split: option.splits if_splits)

lemma eligible_authority_source:
  assumes "eligible_authority w actor at = Inr (role, src)" "ev_actor e = actor" "ev_role e = Some role"
    "time_of (ev_at e) = time_of at"
  shows "decision_source (wf_request w) (wf_events w) e = Inr (Some src)
    \<and> (\<exists>p. find_principal (wf_request w) actor = Inr p) \<and> role \<in> set (ap_eligible (rq_policy (wf_request w)))"
proof -
  let ?rq = "wf_request w" and ?pol = "rq_policy (wf_request w)"
  obtain p where p: "find_principal ?rq actor = Inr p" and c: "(case held_roles ?pol p of r # _ \<Rightarrow> Inr (r, actor)
      | [] \<Rightarrow> delegated_authority ?pol (rev (wf_events w)) actor at) = Inr (role, src)"
    using assms(1) unfolding eligible_authority_def bindE_Inr by blast
  have held: "r \<in> set (held_roles ?pol p) \<longleftrightarrow> r \<in> set (pr_roles p) \<and> r \<in> set (ap_eligible ?pol)" for r
    by (auto simp: held_roles_def)
  show ?thesis
  proof (cases "held_roles ?pol p")
    case Nil
    with c have d: "delegated_authority ?pol (rev (wf_events w)) actor at = Inr (role, src)" by simp
    note el = delegated_authority_eligible [OF d]
    with held Nil have "role \<notin> set (pr_roles p)" by (metis empty_iff list.set(1))
    with p el delegated_authority_source [OF d] assms(2-4) show ?thesis
      by (simp add: decision_source_def direct_role_def)
  next
    case (Cons r rs)
    with c have "role = r" "src = actor" by simp_all
    moreover from this held Cons have "r \<in> set (pr_roles p)" "r \<in> set (ap_eligible ?pol)"
      by (metis list.set_intros(1))+
    ultimately show ?thesis using p assms(2-4) by (simp add: decision_source_def direct_role_def)
  qed
qed

lemma replay_events_append:
  "replay_events rq (es @ fs) s = bindE (replay_events rq es s) (replay_events rq fs)"
  by (induction es arbitrary: s) (auto simp: bindE_def split: sum.splits)

lemma check_chain_append:
  "check_chain h rq seen prev i (es @ [e]) = Inr () \<longleftrightarrow>
     check_chain h rq seen prev i es = Inr () \<and> ev_id e \<notin> set seen \<union> set (map ev_id es) \<and>
     ev_request e = rq_id rq \<and> ev_seq e = int (i + length es) \<and>
     ev_prev e = map_option (event_fingerprint h) (if es = [] then prev else Some (last es)) \<and>
     \<not> before_request rq e \<and>
     (\<forall>p. (if es = [] then prev else Some (last es)) = Some p \<longrightarrow> time_of (ev_at p) \<le> time_of (ev_at e))"
proof (induction es arbitrary: seen prev i)
  case Nil
  then show ?case by (auto simp: req_Inr split: option.splits)
next
  case (Cons x es)
  have "(if x # es = [] then prev else Some (last (x # es))) = (if es = [] then Some x else Some (last es))"
    by simp
  then show ?case
    unfolding append_Cons check_chain.simps(2) req_Inr Cons.IH by (simp only:) auto
qed

definition last_time :: "workflow \<Rightarrow> int" where
  "last_time w = time_of (ev_at (last (wf_events w)))"

lemma workflow_sorted:
  assumes "workflow_ok h w" "e \<in> set (wf_events w)"
  shows "time_of (rq_at (wf_request w)) \<le> time_of (ev_at e) \<and> time_of (ev_at e) \<le> last_time w"
proof -
  have c: "check_chain h (wf_request w) [] None 0 (wf_events w) = Inr ()" and ne: "wf_events w \<noteq> []"
    and o: "check_origin h (wf_request w) (hd (wf_events w)) = Inr ()"
    using assms(1) by (auto simp: workflow_ok_def workflow_init_Inr)
  have s: "sorted (map (\<lambda>e. time_of (ev_at e)) (wf_events w))"
    using check_chain_Inr [OF c] by simp
  obtain i where i: "i < length (wf_events w)" "e = wf_events w ! i"
    using assms(2) by (metis in_set_conv_nth)
  have "time_of (ev_at (hd (wf_events w))) \<le> time_of (ev_at e)"
    using sorted_nth_mono [OF s, of 0 i] i ne by (simp add: hd_conv_nth)
  moreover have "time_of (ev_at e) \<le> last_time w"
    using sorted_nth_mono [OF s, of i "length (wf_events w) - 1"] i ne by (simp add: last_conv_nth last_time_def)
  ultimately show ?thesis using o by (simp add: check_origin_def req_Inr)
qed

lemma events_of_all:
  "workflow_ok h w \<Longrightarrow> last_time w \<le> c \<Longrightarrow> events_of w t (Some c) = of_type t (wf_events w)"
  unfolding events_of_def of_type_def by (rule filter_cong) (auto dest!: workflow_sorted)

lemma events_of_None [simp]: "events_of w t None = of_type t (wf_events w)"
  by (simp add: events_of_def of_type_def)

lemma pending_replay:
  assumes "workflow_ok h w" "wf_status w at = Inr ''pending''" "last_time w \<le> time_of at"
  shows "\<exists>s. replay_events (wf_request w) (tl (wf_events w)) (replay_start (hd (wf_events w))) = Inr s \<and>
    history_inv (wf_request w) (wf_events w) s \<and> rp_state s = WPending \<and>
    time_of at < time_of (rq_expires (wf_request w))"
proof -
  let ?rq = "wf_request w"
  obtain s where s: "replay_events ?rq (tl (wf_events w)) (replay_start (hd (wf_events w))) = Inr s"
      "wf_events w \<noteq> []" "ev_type (hd (wf_events w)) = ''requested''"
    using assms(1) by (auto simp: workflow_ok_def workflow_init_Inr is_ok_iff check_origin_def req_Inr)
  have n: "1 \<le> ap_required (rq_policy ?rq)"
    using assms(1) approval_policy_required by (simp add: workflow_ok_def request_ok_def)
  have inv: "history_inv ?rq (wf_events w) s"
    using replay_events_inv [OF history_inv_start [OF s(3) n] s(1)] s(2) by simp
  note ev = events_of_all [OF assms(1,3)]
  have "trimmed at" "is_timestamp at" using wf_status_timed [OF assms(2)] by auto
  with assms(2) have st: "of_type ''revoked'' (wf_events w) = []" "of_type ''rejected'' (wf_events w) = []"
    "time_of at < time_of (rq_expires ?rq)"
    "int (length (of_type ''approved'' (wf_events w))) < ap_required (rq_policy ?rq)"
    by (auto simp: wf_status_eq ev split: if_splits)
  have "map Some (rp_sources s) = rev (map (\<lambda>e. detail e ''authority_source'') (of_type ''approved'' (wf_events w)))"
    using inv unfolding history_inv_def by (elim conjE)
  from arg_cong [OF this, of length] have "length (rp_sources s) = length (of_type ''approved'' (wf_events w))"
    by simp
  with inv st have "rp_state s = WPending"
    by (cases "rp_state s") (auto simp: history_inv_def)
  with s inv st show ?thesis by blast
qed


lemma request_principal_ok:
  assumes "request_ok rq" "find_principal rq who = Inr p"
  shows "trimmed who \<and> id_pattern who"
proof -
  have "principal_make p = Inr p" "pr_id p = who"
    using assms find_principal_Inr by (auto simp: request_ok_def list_all_iff)
  then show ?thesis by (auto simp: principal_make_def principal_init_def bindE_Inr ident_text_Inr)
qed

lemma roles_of_Inr: "roles_of f n (map PStr rs) = Inr ss \<Longrightarrow> ss = sort rs \<and> (\<forall>r\<in>set rs. trimmed r \<and> id_pattern r)"
proof -
  assume "roles_of f n (map PStr rs) = Inr ss"
  then obtain ts where "mapE (\<lambda>v. ident_text AWE v f) (map PStr rs) = Inr ts" "ss = sort ts"
    by (auto simp: roles_of_def sorted_unique_def bindE_Inr req_Inr)
  then show ?thesis by (simp add: mapE_PStr_iff [OF ident_text_Inr] list_all_iff)
qed

lemma eligible_role_ok:
  assumes "request_ok rq" "r \<in> set (ap_eligible (rq_policy rq))"
  shows "trimmed r \<and> id_pattern r"
proof -
  have "approval_policy_make (rq_policy rq) = Inr (rq_policy rq)" using assms(1) by (simp add: request_ok_def)
  then have "\<exists>ss. roles_of ''eligible_roles'' 1 (map PStr (ap_eligible (rq_policy rq))) = Inr ss"
    unfolding approval_policy_make_def approval_policy_init_def bindE_Inr req_Inr by blast
  with roles_of_Inr assms(2) show ?thesis by blast
qed

lemma request_id_ok: "request_ok rq \<Longrightarrow> trimmed (rq_id rq) \<and> id_pattern (rq_id rq)"
  unfolding request_ok_def request_make_def request_init_def bindE_Inr req_Inr ident_text_Inr by auto

text \<open>Authority comes from a known principal.\<close>

lemma authority_source_ok:
  assumes "workflow_ok h w" "eligible_authority w actor at = Inr (role, src)"
  shows "trimmed src"
proof -
  let ?rq = "wf_request w"
  have rq: "request_ok ?rq" using assms(1) by (simp add: workflow_ok_def)
  obtain p where p: "find_principal ?rq actor = Inr p" and c: "(case held_roles (rq_policy ?rq) p of r # _ \<Rightarrow> Inr (r, actor)
      | [] \<Rightarrow> delegated_authority (rq_policy ?rq) (rev (wf_events w)) actor at) = Inr (role, src)"
    using assms(2) unfolding eligible_authority_def bindE_Inr by blast
  show ?thesis
  proof (cases "held_roles (rq_policy ?rq) p")
    case Nil
    with c delegated_authority_actor obtain d where "d \<in> set (wf_events w)" "ev_actor d = src" by fastforce
    then have "event_make d = Inr d" using assms(1) by (simp add: workflow_ok_def list_all_iff)
    with \<open>ev_actor d = src\<close> show ?thesis by (auto simp: event_make_def event_init_Inr)
  next
    case (Cons r rs)
    with c request_principal_ok [OF rq p] show ?thesis by simp
  qed
qed

text \<open>A new event that the chain and the replay accept makes an accepted workflow.\<close>

lemma append_event_accepted:
  assumes ok: "workflow_ok h w"
    and e: "event_init (PInt 1) (PStr vid) (PStr (rq_id (wf_request w))) (PInt (int (length (wf_events w))))
      (PStr ty) (PStr at) (PStr actor) (opt_pstr role) (PStr reason) (map (\<lambda>(k, v). (PStr k, PStr v)) ds)
      (PStr (event_fingerprint h (last (wf_events w)))) = Inr e"
    and vid: "vid \<notin> ev_id ` set (wf_events w)" and late: "last_time w \<le> time_of at"
    and r: "replay_events (wf_request w) (tl (wf_events w)) (replay_start (hd (wf_events w))) = Inr s"
      "is_ok (replay_event (wf_request w) e s)"
  shows "append_event h w vid ty at actor role reason ds = Inr (w\<lparr>wf_events := wf_events w @ [e]\<rparr>)"
proof -
  have c: "check_chain h (wf_request w) [] None 0 (wf_events w) = Inr ()" and ne: "wf_events w \<noteq> []"
    and o: "check_origin h (wf_request w) (hd (wf_events w)) = Inr ()"
    using ok by (auto simp: workflow_ok_def workflow_init_Inr)
  have f: "ev_id e = vid \<and> ev_request e = rq_id (wf_request w) \<and> ev_seq e = int (length (wf_events w)) \<and> ev_at e = at
      \<and> ev_prev e = Some (event_fingerprint h (last (wf_events w)))"
    using e by (auto simp: event_init_Inr opt_pstr_def split: option.splits)
  have "time_of (rq_at (wf_request w)) \<le> last_time w"
    using workflow_sorted [OF ok, of "last (wf_events w)"] ne by simp
  then have "check_chain h (wf_request w) [] None 0 (wf_events w @ [e]) = Inr ()"
    unfolding check_chain_append using c f vid late ne by (simp add: before_request_def last_time_def)
  moreover have "is_ok (replay_events (wf_request w) (tl (wf_events w @ [e])) (replay_start (hd (wf_events w @ [e]))))"
    using r ne by (simp add: replay_events_append is_ok_iff) (auto simp: bindE_Inr)
  ultimately show ?thesis
    using e ne o by (cases w) (simp add: append_event_def workflow_init_Inr)
qed

lemma create_workflow_ok:
  assumes "request_ok rq" "create_workflow h rq vid actor reason = Inr w"
  shows "workflow_ok h w \<and> wf_request w = rq \<and> length (wf_events w) = 1"
proof -
  obtain who e where e: "event_init (PInt 1) (PStr vid) (PStr (rq_id rq)) (PInt 0) (PStr ''requested'') (PStr (rq_at rq))
      (PStr who) (opt_pstr None) (PStr reason) (map (\<lambda>(k, v). (PStr k, PStr v))
      [(''request_fingerprint'', request_fingerprint h rq)]) PNone = Inr e" "workflow_init h rq [e] = Inr w"
    using assms(2) by (auto simp: create_workflow_def Let_def bindE_Inr opt_pstr_def)
  have w: "w = \<lparr>wf_request = rq, wf_events = [e]\<rparr>" using e(2) by (simp add: workflow_init_Inr)
  show ?thesis using event_make_Inr [OF e(1)] e(2) assms(1) by (simp add: w workflow_ok_def)
qed

end
