(* ===== verification/ApprovalCodec.thy ===== *)
theory ApprovalCodec
  imports ApprovalFacts
begin

text \<open>
  The JSON forms of the approval values as interpretations of \<open>record_codec\<close>, and what equal
  fingerprints say about workflows when the hash tells the texts in use apart.
\<close>

section \<open>JSON forms\<close>

lemma norm_opt_pstr [simp]: "norm (opt_pstr x) = opt_pstr x"
  by (simp add: opt_pstr_def split: option.splits)

lemma norm_opt_int [simp]: "norm (opt_int x) = opt_int x"
  by (simp add: opt_int_def split: option.splits)

lemma json_ok_opts [simp]: "json_ok (opt_pstr x)" "json_ok (opt_int y)"
  by (simp_all add: opt_pstr_def opt_int_def split: option.splits)

lemma norm_detail_pairs [simp]: "norm \<circ> (\<lambda>(k, v). PList [PStr k, PStr v]) = (\<lambda>(k, v). PList [PStr k, PStr v])"
  by auto

lemma detail_pairs_back: "mapE detail_pair (map (\<lambda>(k, v). PList [PStr k, PStr v]) ds) = Inr (map (\<lambda>(k, v). (PStr k, PStr v)) ds)"
  by (induction ds) auto

lemma event_from_to_dict:
  "event_make e = Inr e \<Longrightarrow> event_from_dict h (norm (event_to_dict h e)) = Inr e"
  by (simp add: event_to_dict_def event_fields_def event_from_dict_def is_dict_with_def event_keys_def dget_def
      detail_pairs_back event_make_def Let_def)

lemma event_to_dict_json: "json_ok (event_to_dict h e)" "json_ok (PDict (event_fields e))"
  by (auto simp: event_to_dict_def event_fields_def list_all_iff)

interpretation event_codec: record_codec "event_to_dict h" "event_from_dict h" "\<lambda>e. event_make e = Inr e" for h
  by unfold_locales (simp_all add: event_from_to_dict event_to_dict_json)

lemma principal_from_to_dict: "principal_make p = Inr p \<Longrightarrow> principal_from_dict (norm (principal_to_dict p)) = Inr p"
  by (simp add: principal_to_dict_def principal_from_dict_def is_dict_with_def dget_def principal_make_def)

interpretation principal_codec: record_codec principal_to_dict principal_from_dict "\<lambda>p. principal_make p = Inr p"
  by unfold_locales (simp_all add: principal_from_to_dict, simp add: principal_to_dict_def)

lemma approval_policy_from_to_dict:
  "approval_policy_make p = Inr p \<Longrightarrow> approval_policy_from_dict (norm (approval_policy_to_dict p)) = Inr p"
  by (simp add: approval_policy_to_dict_def approval_policy_from_dict_def is_dict_with_def approval_policy_keys_def
      dget_def Let_def approval_policy_make_def)

interpretation approval_policy_codec:
  record_codec approval_policy_to_dict approval_policy_from_dict "\<lambda>p. approval_policy_make p = Inr p"
  by unfold_locales (simp_all add: approval_policy_from_to_dict, simp add: approval_policy_to_dict_def)

lemma request_from_to_dict:
  assumes "request_ok rq"
  shows "request_from_dict (norm (request_to_dict rq)) = Inr rq"
proof -
  have "mapE principal_from_dict (map (norm \<circ> principal_to_dict) (rq_principals rq)) = Inr (rq_principals rq)"
    using principal_codec.dec_list [of "rq_principals rq"] assms by (simp add: request_ok_def comp_def)
  moreover have "approval_policy_from_dict (norm (approval_policy_to_dict (rq_policy rq))) = Inr (rq_policy rq)"
    using assms by (intro approval_policy_from_to_dict) (simp add: request_ok_def)
  ultimately show ?thesis
    using assms
    by (simp add: request_to_dict_def request_from_dict_def is_dict_with_def request_keys_def dget_def Let_def
        request_ok_def request_make_def)
qed

lemma request_to_dict_json: "request_ok rq \<Longrightarrow> json_ok (request_to_dict rq)"
  using principal_codec.printable_list [of "rq_principals rq"] approval_policy_codec.printable [of "rq_policy rq"]
  by (simp add: request_to_dict_def request_ok_def)

interpretation request_codec: record_codec request_to_dict request_from_dict request_ok
  by unfold_locales (simp_all add: request_from_to_dict request_to_dict_json)

lemma workflow_from_to_dict:
  assumes "workflow_ok h w"
  shows "workflow_from_dict h (norm (workflow_to_dict h w)) = Inr w"
proof -
  have e: "mapE (event_from_dict h) (map (norm \<circ> event_to_dict h) (wf_events w)) = Inr (wf_events w)"
    using event_codec.dec_list [of "wf_events w" h] assms by (simp add: workflow_ok_def comp_def)
  obtain rd where rd: "norm (request_to_dict (wf_request w)) = PDict rd"
    by (simp add: request_to_dict_def)
  have r: "request_from_dict (PDict rd) = Inr (wf_request w)"
    using request_from_to_dict [of "wf_request w"] assms rd by (simp add: workflow_ok_def)
  show ?thesis
    using assms e r
    by (simp add: workflow_to_dict_def workflow_from_dict_def is_dict_with_def dget_def Let_def rd workflow_ok_def)
qed

lemma workflow_to_dict_json: "workflow_ok h w \<Longrightarrow> json_ok (workflow_to_dict h w)"
  using event_codec.printable_list [of "wf_events w" h] request_to_dict_json [of "wf_request w"]
  by (simp add: workflow_to_dict_def workflow_ok_def)

interpretation workflow_codec: record_codec "workflow_to_dict h" "workflow_from_dict h" "workflow_ok h" for h
  by unfold_locales (simp_all add: workflow_from_to_dict workflow_to_dict_json)

lemma workflow_json_back: "workflow_ok h w \<Longrightarrow> workflow_from_json h (workflow_to_json h w) = Inr w"
  using workflow_codec.read_text [of h w False] by (auto simp: workflow_from_json_def workflow_to_json_def)

section \<open>Fingerprints\<close>

lemma hash_inject:
  assumes "inj_on h T" "dumps False v \<in> T" "dumps False u \<in> T" "json_ok v" "json_ok u" "fingerprint h v = fingerprint h u"
  shows "norm v = norm u"
  using inj_onD [OF assms(1) _ assms(2,3)] assms(4-6) by (simp add: fingerprint_def dumps_inject)

lemma pair_lists_inject: "map (\<lambda>(k, v). PList [PStr k, PStr v]) xs = map (\<lambda>(k, v). PList [PStr k, PStr v]) ys \<longleftrightarrow> xs = ys"
  by (rule inj_map_eq_map) (auto simp: inj_def)

lemma event_fields_inject: "norm (PDict (event_fields e)) = norm (PDict (event_fields f)) \<longleftrightarrow> e = f"
  by (cases e; cases f) (auto simp: event_fields_def pair_lists_inject)

text \<open>The texts a workflow hashes.\<close>

definition hashed_texts :: "(string \<Rightarrow> string) \<Rightarrow> workflow \<Rightarrow> string set" where
  "hashed_texts h w =
     {dumps False (request_to_dict (wf_request w)),
      dumps False (PDict [(''request_fingerprint'', PStr (request_fingerprint h (wf_request w))),
        (''event_fingerprints'', PList (map (\<lambda>e. PStr (event_fingerprint h e)) (wf_events w)))])}
     \<union> (\<lambda>e. dumps False (PDict (event_fields e))) ` set (wf_events w)"

lemma event_fingerprint_inject:
  assumes "inj_on h T" "dumps False (PDict (event_fields e)) \<in> T" "dumps False (PDict (event_fields f)) \<in> T"
    "event_fingerprint h e = event_fingerprint h f"
  shows "e = f"
  using hash_inject [OF assms(1-3) event_to_dict_json(2) event_to_dict_json(2)] assms(4)
    event_fields_inject unfolding event_fingerprint_def by blast

lemma workflow_fingerprint_inject:
  assumes "inj_on h (hashed_texts h w \<union> hashed_texts h v)" "workflow_ok h w" "workflow_ok h v"
    "workflow_fingerprint h w = workflow_fingerprint h v"
  shows "w = v"
proof -
  let ?T = "hashed_texts h w \<union> hashed_texts h v"
  let ?p = "\<lambda>w. PDict [(''request_fingerprint'', PStr (request_fingerprint h (wf_request w))),
      (''event_fingerprints'', PList (map PStr (map (event_fingerprint h) (wf_events w))))]"
  have "norm (?p w) = norm (?p v)"
    by (rule hash_inject [OF assms(1)])
      (use assms(4) in \<open>auto simp: hashed_texts_def workflow_fingerprint_def comp_def list_all_iff\<close>)
  then have rq: "request_fingerprint h (wf_request w) = request_fingerprint h (wf_request v)"
    and ev: "map (event_fingerprint h) (wf_events w) = map (event_fingerprint h) (wf_events v)"
    by (simp_all del: map_map)
  have "norm (request_to_dict (wf_request w)) = norm (request_to_dict (wf_request v))"
    by (rule hash_inject [OF assms(1)])
      (use rq assms(2,3) in \<open>auto simp: hashed_texts_def request_fingerprint_def workflow_ok_def intro: request_to_dict_json\<close>)
  then have "wf_request w = wf_request v"
    using request_codec.enc_norm_inject assms(2,3) by (simp add: workflow_ok_def)
  moreover have "inj_on (event_fingerprint h) (set (wf_events w) \<union> set (wf_events v))"
    by (rule inj_onI, rule event_fingerprint_inject [OF assms(1)]) (auto simp: hashed_texts_def)
  then have "wf_events w = wf_events v"
    using ev inj_on_map_eq_map by blast
  ultimately show ?thesis by (cases w; cases v) simp
qed

end
