(* ===== verification/ApprovalSample.thy ===== *)
theory ApprovalSample
  imports ApprovalCodec
begin

text \<open>
  A small approval request, its workflow before and after the one approval it needs, and a
  stand-in for the hash, on which the properties are evaluated.
\<close>

section \<open>A sample workflow\<close>

definition toy_hash :: "string \<Rightarrow> string" where
  "toy_hash s = replicate 64 (''0123456789abcdef'' ! (length s mod 16))"

definition sample_request :: approval_request where
  "sample_request =
     \<lparr>rq_id = ''REQ-1'', rq_engagement = ''ENG-1'', rq_bundle = toy_hash '''',
      rq_at = ''2024-01-01T00:00:00Z'', rq_expires = ''2024-01-02T00:00:00Z'', rq_by = ''alice'',
      rq_principals = [\<lparr>pr_id = ''alice'', pr_roles = [''analyst'']\<rparr>, \<lparr>pr_id = ''bob'', pr_roles = [''lead'']\<rparr>],
      rq_capability = ''scan.tcp'', rq_target = ''10.0.0.7'', rq_impact = ''high'', rq_reason = ''window'',
      rq_policy = \<lparr>ap_mode = ''single'', ap_required = 1, ap_eligible = [''lead''], ap_requester_may = False,
        ap_delegation = True, ap_escalation_after = None, ap_escalation_roles = []\<rparr>,
      rq_operation = None\<rparr>"

definition sample_workflow :: workflow where
  "sample_workflow =
     \<lparr>wf_request = sample_request,
      wf_events = [\<lparr>ev_id = ''E1'', ev_request = ''REQ-1'', ev_seq = 0, ev_type = ''requested'',
        ev_at = ''2024-01-01T00:00:00Z'', ev_actor = ''alice'', ev_role = None, ev_reason = ''window'',
        ev_details = [(''request_fingerprint'', replicate 64 (CHR ''f''))], ev_prev = None\<rparr>]\<rparr>"

definition approved_workflow :: workflow where
  "approved_workflow =
     \<lparr>wf_request = sample_request,
      wf_events = wf_events sample_workflow @
       [\<lparr>ev_id = ''E2'', ev_request = ''REQ-1'', ev_seq = 1, ev_type = ''approved'',
         ev_at = ''2024-01-01T01:00:00Z'', ev_actor = ''bob'', ev_role = Some ''lead'', ev_reason = ''ok'',
         ev_details = [(''authority_source'', ''bob'')], ev_prev = Some (replicate 64 (CHR ''4''))\<rparr>]\<rparr>"

definition rejected_workflow :: workflow where
  "rejected_workflow =
     \<lparr>wf_request = sample_request,
      wf_events = wf_events sample_workflow @
       [\<lparr>ev_id = ''E2'', ev_request = ''REQ-1'', ev_seq = 1, ev_type = ''rejected'',
         ev_at = ''2024-01-01T01:00:00Z'', ev_actor = ''bob'', ev_role = Some ''lead'', ev_reason = ''no'',
         ev_details = [(''authority_source'', ''bob'')], ev_prev = Some (replicate 64 (CHR ''4''))\<rparr>]\<rparr>"

lemma trimmed_replicate: "\<not> py_space c \<Longrightarrow> trimmed (replicate (Suc n) c)"
  by (simp add: trimmed_def strip_def lstrip_def replicate_append_same)

lemma toy_hash_ok: "length (toy_hash s) = 64 \<and> list_all is_hex_lower (toy_hash s) \<and> trimmed (toy_hash s)"
proof -
  have "list_all (\<lambda>c. is_hex_lower c \<and> \<not> py_space c) ''0123456789abcdef''" by code_simp
  then have "is_hex_lower (''0123456789abcdef'' ! (length s mod 16)) \<and> \<not> py_space (''0123456789abcdef'' ! (length s mod 16))"
    unfolding list_all_length by simp
  then show ?thesis using trimmed_replicate [of _ 63] by (simp add: toy_hash_def list_all_iff)
qed

lemma sample_request_ok: "request_ok sample_request" by code_simp

lemma sample_created: "create_workflow toy_hash sample_request ''E1'' None ''window'' = Inr sample_workflow"
  by code_simp
lemma sample_approved: "wf_approve toy_hash ''E2'' ''bob'' ''2024-01-01T01:00:00Z'' ''ok'' sample_workflow = Inr approved_workflow"
  by code_simp

lemma sample_workflow_ok: "workflow_ok toy_hash sample_workflow" "wf_request sample_workflow = sample_request"
  using create_workflow_ok [OF sample_request_ok sample_created] by simp_all

lemma approved_workflow_ok: "workflow_ok toy_hash approved_workflow"
  using wf_op_Inr [OF _ sample_workflow_ok(1), of "WfApprove ''E2'' ''bob'' ''2024-01-01T01:00:00Z'' ''ok''"] sample_approved
  by simp

lemma approved_status: "wf_status approved_workflow ''2024-01-01T02:00:00Z'' = Inr ''approved''" by code_simp
lemma approved_approvals: "approval_events approved_workflow ''2024-01-01T02:00:00Z'' = Inr (tl (wf_events approved_workflow))" by code_simp
lemma sample_grant_init: "list_all is_hex_lower f \<and> length f = 64 \<and> trimmed f \<Longrightarrow> is_ok (grant_init (PInt 1) (PStr ''REQ-1'') (PStr ''ENG-1'') (PStr (toy_hash '''')) (PStr ''scan.tcp'') (PStr ''10.0.0.7'')
   (PStr ''high'') (PStr ''2024-01-01T01:00:00Z'') (PStr ''2024-01-02T00:00:00Z'') [PStr ''bob''] (PStr f))" 
proof -
  assume f: "list_all is_hex_lower f \<and> length f = 64 \<and> trimmed f"
  have "ident_text AWE (PStr ''REQ-1'') ''request_id'' = Inr ''REQ-1''" 
  "ident_text AWE (PStr ''ENG-1'') ''engagement_id'' = Inr ''ENG-1''" "capability_text (PStr ''scan.tcp'') = Inr ''scan.tcp''"
  "target_value (PStr ''10.0.0.7'') = Inr ''10.0.0.7''" "impact_text (PStr ''high'') = Inr ''high''"
  "iso8601 AWE (PStr ''2024-01-01T01:00:00Z'') ''approved_at'' = Inr ''2024-01-01T01:00:00Z''"
  "iso8601 AWE (PStr ''2024-01-02T00:00:00Z'') ''expires_at'' = Inr ''2024-01-02T00:00:00Z''"
  "sorted_unique (\<lambda>v. required_text AWE v ''approver_ids'') ''approver_ids'' 1 [PStr ''bob''] = Inr [''bob'']"
  "sha256_text AWE (PStr (toy_hash '''')) ''policy_bundle_fingerprint'' = Inr (toy_hash '''')"
    by code_simp+
  moreover have "sha256_text AWE (PStr f) ''workflow_fingerprint'' = Inr f" using f by (simp add: sha256_text_Inr)
  ultimately show ?thesis by (simp add: grant_init_def)
qed
lemma sample_grant: "is_ok (wf_grant toy_hash approved_workflow ''2024-01-01T02:00:00Z'')"
proof -
  have "is_ok (wf_grant toy_hash approved_workflow ''2024-01-01T02:00:00Z'') = is_ok (grant_init (PInt 1) (PStr ''REQ-1'') (PStr ''ENG-1'') (PStr (toy_hash '''')) (PStr ''scan.tcp'') (PStr ''10.0.0.7'')
   (PStr ''high'') (PStr ''2024-01-01T01:00:00Z'') (PStr ''2024-01-02T00:00:00Z'') [PStr ''bob''] (PStr (workflow_fingerprint toy_hash approved_workflow)))"
    by (simp add: wf_grant_def Let_def approved_status approved_approvals) (simp add: approved_workflow_def sample_request_def sample_workflow_def)
  with sample_grant_init [of "workflow_fingerprint toy_hash approved_workflow"] toy_hash_ok show ?thesis by (simp add: workflow_fingerprint_def fingerprint_def)
qed

end
