(* ===== verification/ApprovalProps.thy ===== *)
theory ApprovalProps
  imports ApprovalSample
begin

text \<open>
  The properties of approval workflows: who may have approved, what a grant stands for, what
  cannot be undone or altered, and that an admitted approval is accepted.
\<close>

section \<open>What approvals establish\<close>

lemma history_quorum:
  assumes "history_inv rq es s"
  shows "distinct (map ev_actor (of_type ''approved'' es))"
    and "distinct (map (\<lambda>e. detail e ''authority_source'') (of_type ''approved'' es))"
    and "int (length (of_type ''approved'' es)) \<le> ap_required (rq_policy rq)"
    and "e \<in> set (of_type ''approved'' es) \<Longrightarrow> sound_decision rq es e"
proof -
  let ?n = "length (of_type ''approved'' es)"
  have a: "distinct (rev (map ev_actor (of_type ''approved'' es)))"
    and b: "map Some (rp_sources s) = rev (map (\<lambda>e. detail e ''authority_source'') (of_type ''approved'' es))"
      "distinct (rp_sources s)"
    using assms unfolding history_inv_def by metis+
  show "distinct (map ev_actor (of_type ''approved'' es))" using a by simp
  have "distinct (rev (map (\<lambda>e. detail e ''authority_source'') (of_type ''approved'' es)))"
    using b by (metis distinct_map inj_Some inj_on_subset subset_UNIV)
  then show "distinct (map (\<lambda>e. detail e ''authority_source'') (of_type ''approved'' es))" by simp
  have "length (rp_sources s) = ?n" using arg_cong [OF b(1), of length] by simp
  then show "int ?n \<le> ap_required (rq_policy rq)"
    using assms by (auto simp: history_inv_def split: if_splits)
  show "e \<in> set (of_type ''approved'' es) \<Longrightarrow> sound_decision rq es e"
    using assms by (simp add: history_inv_def)
qed

lemma from_dict_required:
  "approval_policy_from_dict v = Inr p \<Longrightarrow> 1 \<le> ap_required p"
  by (auto simp: approval_policy_from_dict_def approval_policy_init_def Let_def req_Inr bindE_Inr int_of_Inr
      split: pyval.splits)

lemma request_from_dict_required: "request_from_dict v = Inr rq \<Longrightarrow> 1 \<le> ap_required (rq_policy rq)"
  by (auto simp: request_from_dict_def request_init_def Let_def req_Inr bindE_Inr split: pyval.splits dest: from_dict_required)

text \<open>C8: in whatever workflow text is read, the approving principals are distinct, the
  principals whose authority they used are distinct, there are no more approvals than required,
  and each approval is by someone other than the requester (unless the policy allows it) who
  holds an eligible role directly or by a delegation in force, from one who holds it.\<close>
lemma approvals_are_independent:
  assumes "workflow_from_json h text = Inr w"
  shows "distinct (map ev_actor (of_type ''approved'' (wf_events w)))
    \<and> distinct (map (\<lambda>e. detail e ''authority_source'') (of_type ''approved'' (wf_events w)))
    \<and> int (length (of_type ''approved'' (wf_events w))) \<le> ap_required (rq_policy (wf_request w))
    \<and> (\<forall>e\<in>set (of_type ''approved'' (wf_events w)). sound_decision (wf_request w) (wf_events w) e)"
proof -
  obtain rd es rq where "request_from_dict (PDict rd) = Inr rq" "workflow_init h rq es = Inr w"
    using assms
    by (auto simp: workflow_from_json_def workflow_from_dict_def req_Inr bindE_Inr Let_def
        split: option.splits pyval.splits)
  then obtain s where "history_inv (wf_request w) (wf_events w) s"
    using workflow_replay [OF _ request_from_dict_required] by (force simp: workflow_init_Inr)
  then show ?thesis using history_quorum by blast
qed

lemma approvals_are_independent_witness:
  "distinct (map (\<lambda>e. detail e ''authority_source'') (of_type ''approved'' (wf_events approved_workflow)))"
  using approvals_are_independent [OF workflow_json_back [OF approved_workflow_ok]] by blast

section \<open>What a grant stands for\<close>

lemma sorted_unique_PStr:
  assumes "sorted_unique (\<lambda>v. required_text exc v g) field n (map (\<lambda>e. PStr (f e)) es) = Inr ys"
  shows "ys = sort (map f es)"
proof -
  have "map (\<lambda>e. PStr (f e)) es = map PStr (map f es)" by simp
  with assms obtain ss where "mapE (\<lambda>v. required_text exc v g) (map PStr (map f es)) = Inr ss" "ys = sort ss"
    unfolding sorted_unique_def bindE_Inr req_Inr by auto
  then show ?thesis unfolding mapE_PStr_iff [OF required_text_Inr] map_PStr_eq by simp
qed

lemma grant_init_Inr:
  assumes "grant_init schema (PStr rid) (PStr eid) (PStr bundle) (PStr cap) (PStr tgt) (PStr imp) (PStr at) (PStr ex)
    (map (\<lambda>e. PStr (f e)) es) (PStr wff) = Inr g"
  shows "gr_request g = rid \<and> gr_engagement g = eid \<and> gr_bundle g = bundle \<and> gr_capability g = cap
    \<and> target_value (PStr tgt) = Inr (gr_target g) \<and> gr_impact g = imp \<and> gr_at g = at \<and> gr_expires g = ex
    \<and> gr_approvers g = sort (map f es) \<and> gr_workflow g = wff"
  using assms
  by (auto simp: grant_init_def bindE_Inr req_Inr ident_text_Inr sha256_text_Inr iso8601_Inr impact_text_def
      member_value_Inr dest: sorted_unique_PStr)

lemma request_target: "request_ok rq \<Longrightarrow> target_value (PStr (rq_target rq)) = Inr (rq_target rq)"
  unfolding request_ok_def request_make_def request_init_def bindE_Inr req_Inr Let_def
  by (auto dest!: arg_cong [where f = rq_target])

lemma filter_all: "length (filter P xs) = length xs \<Longrightarrow> filter P xs = xs"
  using length_filter_less [of _ xs P] by (auto simp: filter_id_conv)

lemma between: "int b \<le> n \<Longrightarrow> a \<le> b \<Longrightarrow> n \<le> int a \<Longrightarrow> a = b \<and> nat n = b"
  by simp

lemma first_approvals:
  assumes ok: "workflow_ok h w" and q: "ap_required (rq_policy (wf_request w)) \<le> int (length (events_of w ''approved'' (Some c)))"
  shows "take (nat (ap_required (rq_policy (wf_request w)))) (events_of w ''approved'' (Some c)) = events_of w ''approved'' (Some c)
    \<and> events_of w ''approved'' (Some c) = of_type ''approved'' (wf_events w)"
proof -
  let ?evs = "of_type ''approved'' (wf_events w)" and ?n = "ap_required (rq_policy (wf_request w))"
  have e: "events_of w ''approved'' (Some c) = filter (\<lambda>e. time_of (ev_at e) \<le> c) ?evs"
    by (auto simp: events_of_def of_type_def intro: filter_cong)
  have "int (length ?evs) \<le> ?n" using workflow_history [OF ok] history_quorum(3) by blast
  moreover have "length (filter (\<lambda>e. time_of (ev_at e) \<le> c) ?evs) \<le> length ?evs" by (rule length_filter_le)
  moreover have "?n \<le> int (length (filter (\<lambda>e. time_of (ev_at e) \<le> c) ?evs))" using q by (simp only: e)
  ultimately have l: "length (filter (\<lambda>e. time_of (ev_at e) \<le> c) ?evs) = length ?evs" "nat ?n = length ?evs"
    using between [of "length ?evs" ?n] by blast+
  from l(1) have "filter (\<lambda>e. time_of (ev_at e) \<le> c) ?evs = ?evs"
    by (rule filter_all)
  with e l(2) show ?thesis by simp
qed

text \<open>C9: a grant stands for a full quorum: its approvers are distinct, as many as the policy
  requires, each with a sound approval in the history at or before the instant asked for; it
  names the engagement, capability, target and impact of the request, which has not expired
  and has been neither rejected nor revoked by then.\<close>
lemma grant_is_quorum:
  assumes ok: "workflow_ok h w" and g: "wf_grant h w at = Inr g"
  shows "distinct (gr_approvers g) \<and> int (length (gr_approvers g)) = ap_required (rq_policy (wf_request w))
    \<and> (\<forall>a\<in>set (gr_approvers g). \<exists>e\<in>set (wf_events w). ev_type e = ''approved'' \<and> ev_actor e = a
        \<and> time_of (ev_at e) \<le> time_of at \<and> sound_decision (wf_request w) (wf_events w) e)
    \<and> gr_engagement g = rq_engagement (wf_request w) \<and> gr_bundle g = rq_bundle (wf_request w)
    \<and> gr_capability g = rq_capability (wf_request w) \<and> gr_target g = rq_target (wf_request w)
    \<and> gr_impact g = rq_impact (wf_request w) \<and> gr_workflow g = workflow_fingerprint h w
    \<and> time_of at < time_of (rq_expires (wf_request w))
    \<and> events_of w ''rejected'' (Some (time_of at)) = [] \<and> events_of w ''revoked'' (Some (time_of at)) = []"
proof -
  let ?rq = "wf_request w" and ?evs = "events_of w ''approved'' (Some (time_of at))"
  have st: "wf_status w at = Inr ''approved''" using g by (simp add: wf_grant_def Let_def bindE_Inr req_Inr)
  then have at: "trimmed at" "is_timestamp at" using wf_status_timed by blast+
  from st at have q: "ap_required (rq_policy ?rq) \<le> int (length ?evs)" "time_of at < time_of (rq_expires ?rq)"
    "events_of w ''rejected'' (Some (time_of at)) = []" "events_of w ''revoked'' (Some (time_of at)) = []"
    by (auto simp: wf_status_eq split: if_splits)
  note f = first_approvals [OF ok q(1)]
  from g st f at have gi: "gr_engagement g = rq_engagement ?rq \<and> gr_bundle g = rq_bundle ?rq
    \<and> gr_capability g = rq_capability ?rq \<and> target_value (PStr (rq_target ?rq)) = Inr (gr_target g)
    \<and> gr_impact g = rq_impact ?rq \<and> gr_approvers g = sort (map ev_actor ?evs) \<and> gr_workflow g = workflow_fingerprint h w"
    by (auto simp: wf_grant_def Let_def bindE_Inr req_Inr approval_events_def at_instant_Inr
        dest!: grant_init_Inr [where f = ev_actor])
  obtain s where s: "history_inv ?rq (wf_events w) s" using workflow_history [OF ok] by blast
  have "gr_target g = rq_target ?rq"
    using gi request_target [of ?rq] ok by (simp add: workflow_ok_def)
  moreover have "distinct (gr_approvers g)" "int (length (gr_approvers g)) = ap_required (rq_policy ?rq)"
    using gi f q(1) history_quorum(1,3) [OF s] by simp_all
  moreover have "\<exists>e\<in>set (wf_events w). ev_type e = ''approved'' \<and> ev_actor e = a
        \<and> time_of (ev_at e) \<le> time_of at \<and> sound_decision ?rq (wf_events w) e" if "a \<in> set (gr_approvers g)" for a
    using that gi history_quorum(4) [OF s] by (auto simp: events_of_def)
  ultimately show ?thesis using gi q by blast
qed

lemma grant_is_quorum_witness:
  "distinct (gr_approvers (projr (wf_grant toy_hash approved_workflow ''2024-01-01T02:00:00Z'')))"
  using grant_is_quorum [OF approved_workflow_ok is_ok_projr [OF sample_grant]] by blast

lemma quorum_not_rejected:
  assumes "history_inv rq es s" "int (length (of_type ''approved'' es)) = ap_required (rq_policy rq)"
  shows "of_type ''rejected'' es = []"
proof -
  have "map Some (rp_sources s) = rev (map (\<lambda>e. detail e ''authority_source'') (of_type ''approved'' es))"
    using assms(1) unfolding history_inv_def by blast
  then have "length (rp_sources s) = length (of_type ''approved'' es)"
    by (metis length_map length_rev)
  then have "rp_state s = WApproved \<or> rp_state s = WRevoked"
    using assms unfolding history_inv_def by (metis less_irrefl)
  then have "rp_state s \<noteq> WRejected" by auto
  then show ?thesis using assms(1) unfolding history_inv_def by blast
qed

text \<open>Once the quorum is complete, only expiry and revocation end the approval.\<close>

lemma approved_later:
  assumes ok: "workflow_ok h w" and st: "wf_status w at = Inr ''approved''"
    and later: "trimmed at'" "is_timestamp at'" "time_of at \<le> time_of at'"
  shows "wf_status w at' = Inr ''approved'' \<longleftrightarrow>
      time_of at' < time_of (rq_expires (wf_request w)) \<and> events_of w ''revoked'' (Some (time_of at')) = []"
    and "approval_events w at' = approval_events w at"
proof -
  let ?n = "ap_required (rq_policy (wf_request w))" and ?evs = "of_type ''approved'' (wf_events w)"
  have at: "trimmed at" "is_timestamp at" using wf_status_timed [OF st] by simp_all
  with st have q: "?n \<le> int (length (events_of w ''approved'' (Some (time_of at))))"
    by (auto simp: wf_status_eq split: if_splits)
  have all: "events_of w ''approved'' (Some (time_of at)) = ?evs" using first_approvals [OF ok q] by simp
  have "events_of w ''approved'' (Some (time_of at')) = filter (\<lambda>e. time_of (ev_at e) \<le> time_of at') ?evs"
    by (auto simp: events_of_def of_type_def intro: filter_cong)
  moreover have "\<forall>e\<in>set ?evs. time_of (ev_at e) \<le> time_of at'"
    using later(3) unfolding all [symmetric] by (auto simp: events_of_def)
  ultimately have all': "events_of w ''approved'' (Some (time_of at')) = ?evs" by (simp add: filter_id_conv)
  show "approval_events w at' = approval_events w at"
    using at later by (simp add: approval_events_def at_instant_Inr [THEN iffD2] all all')
  obtain s where s: "history_inv (wf_request w) (wf_events w) s" using workflow_history [OF ok] by blast
  have "int (length ?evs) = ?n" using q history_quorum(3) [OF s] unfolding all by simp
  then have "of_type ''rejected'' (wf_events w) = []" by (rule quorum_not_rejected [OF s])
  then have "events_of w ''rejected'' (Some (time_of at')) = []"
    using events_of_subset [of w "''rejected''"] by (metis set_empty subset_empty)
  then show "wf_status w at' = Inr ''approved'' \<longleftrightarrow>
      time_of at' < time_of (rq_expires (wf_request w)) \<and> events_of w ''revoked'' (Some (time_of at')) = []"
    using later q unfolding wf_status_eq [OF later(1,2)] all all' by auto
qed

text \<open>C10: a grant, once issued, is accepted at every later instant for exactly the use the
  request was made for, up to its expiry and as long as the history has no revocation by then:
  nothing that is recorded after its issue, short of a revocation, invalidates it or widens it,
  and the check itself never raises.\<close>
lemma issued_grant_matches:
  assumes ok: "workflow_ok h w" and g: "wf_grant h w at = Inr g"
    and later: "trimmed at'" "is_timestamp at'" "time_of at \<le> time_of at'"
  shows "grant_matches h w g engagement bundle capability target impact at' = Inr
     ((\<exists>t. parse_target target = Inr t \<and> t_value t = rq_target (wf_request w))
      \<and> engagement = rq_engagement (wf_request w) \<and> bundle = rq_bundle (wf_request w)
      \<and> capability = rq_capability (wf_request w) \<and> impact = rq_impact (wf_request w)
      \<and> time_of at' < time_of (rq_expires (wf_request w)) \<and> events_of w ''revoked'' (Some (time_of at')) = [])"
proof (cases "parse_target target")
  case (Inl x)
  then show ?thesis using later by (simp add: grant_matches_def iso8601_Inr [THEN iffD2])
next
  case (Inr t)
  let ?rq = "wf_request w"
  have i: "iso8601 AWE (PStr at') ''at'' = Inr at'" using later by (simp add: iso8601_Inr)
  have st: "wf_status w at = Inr ''approved''" using g by (simp add: wf_grant_def Let_def bindE_Inr req_Inr)
  note l = approved_later [OF ok st later]
  obtain st' where st': "wf_status w at' = Inr st'" using wf_status_eq [OF later(1,2)] by blast
  have f: "gr_request g = rq_id ?rq \<and> gr_engagement g = rq_engagement ?rq \<and> gr_bundle g = rq_bundle ?rq
    \<and> gr_capability g = rq_capability ?rq \<and> target_value (PStr (rq_target ?rq)) = Inr (gr_target g)
    \<and> gr_impact g = rq_impact ?rq \<and> gr_expires g = rq_expires ?rq"
    using g by (auto simp: wf_grant_def Let_def bindE_Inr req_Inr dest!: grant_init_Inr [where f = ev_actor])
  have tg: "gr_target g = rq_target ?rq"
    using f request_target [of ?rq] ok by (simp add: workflow_ok_def)
  show ?thesis
  proof (cases "st' = ''approved''")
    case True
    have "wf_grant h w at' = wf_grant h w at" by (simp add: wf_grant_def l(2) st st' True)
    then have "wf_grant h w at' = Inr g" using g by simp
    then show ?thesis using l(1) st' True f tg by (auto simp: grant_matches_def Let_def i Inr)
  next
    case False
    then show ?thesis using l(1) st' by (auto simp: grant_matches_def Let_def i Inr)
  qed
qed

lemma issued_grant_matches_witness:
  "grant_matches toy_hash approved_workflow (projr (wf_grant toy_hash approved_workflow ''2024-01-01T02:00:00Z''))
     (rq_engagement (wf_request approved_workflow)) (rq_bundle (wf_request approved_workflow))
     (rq_capability (wf_request approved_workflow)) (rq_target (wf_request approved_workflow))
     (rq_impact (wf_request approved_workflow)) ''2024-01-01T03:00:00Z'' = Inr True"
proof -
  have t: "trimmed ''2024-01-01T03:00:00Z'' \<and> is_timestamp ''2024-01-01T03:00:00Z''
    \<and> time_of ''2024-01-01T02:00:00Z'' \<le> time_of ''2024-01-01T03:00:00Z''" by code_simp
  have r: "is_ok (parse_target (rq_target (wf_request approved_workflow)))
    \<and> t_value (projr (parse_target (rq_target (wf_request approved_workflow)))) = rq_target (wf_request approved_workflow)
    \<and> time_of ''2024-01-01T03:00:00Z'' < time_of (rq_expires (wf_request approved_workflow))
    \<and> events_of approved_workflow ''revoked'' (Some (time_of ''2024-01-01T03:00:00Z'')) = []" by code_simp
  show ?thesis
    unfolding issued_grant_matches [OF approved_workflow_ok is_ok_projr [OF sample_grant] t [THEN conjunct1]
      t [THEN conjunct2, THEN conjunct1] t [THEN conjunct2, THEN conjunct2]]
    using r by (auto simp: is_ok_iff)
qed

section \<open>What cannot be undone\<close>

text \<open>C11: no sequence of calls, failing or not, removes or changes a recorded event or the
  request; events are only appended and every state reached is accepted by the validator.\<close>
lemma approval_history_append_only:
  assumes "request_ok rq" "create_workflow h rq vid actor reason = Inr w"
  shows "prefix (wf_events (fold (wf_step h) cs w)) (wf_events (fold (wf_step h) (cs @ ds) w))
    \<and> wf_request (fold (wf_step h) cs w) = rq \<and> workflow_ok h (fold (wf_step h) cs w)"
proof -
  have ok: "workflow_ok h w" "wf_request w = rq" using create_workflow_ok [OF assms] by simp_all
  show ?thesis
    using wf_machine.le_run_between [OF ok(1), of cs ds] wf_machine.le_run [OF ok(1), of cs]
      wf_machine.inv_run [OF ok(1), of cs] ok(2) by (simp add: wf_le_def)
qed

lemma approval_history_append_only_witness:
  "prefix (wf_events sample_workflow)
     (wf_events (fold (wf_step toy_hash) [WfApprove ''E2'' ''bob'' ''2024-01-01T01:00:00Z'' ''ok''] sample_workflow))"
  using approval_history_append_only [OF sample_request_ok sample_created, of "[]"
    "[WfApprove ''E2'' ''bob'' ''2024-01-01T01:00:00Z'' ''ok'']"] by simp

lemma closed_replay:
  assumes "workflow_ok h w" "of_type ''rejected'' (wf_events w) \<noteq> [] \<or> of_type ''revoked'' (wf_events w) \<noteq> []"
  shows "\<not> is_ok (workflow_init h (wf_request w) (wf_events w @ [e]))"
proof
  let ?rq = "wf_request w"
  assume i: "is_ok (workflow_init h (wf_request w) (wf_events w @ [e]))"
  obtain s where ne: "wf_events w \<noteq> []" and s: "replay_events ?rq (tl (wf_events w)) (replay_start (hd (wf_events w))) = Inr s"
    and f: "ev_type (hd (wf_events w)) = ''requested''"
    using assms(1) by (auto simp: workflow_ok_def workflow_init_Inr is_ok_iff check_origin_def req_Inr)
  have n: "1 \<le> ap_required (rq_policy ?rq)"
    using assms(1) approval_policy_required by (simp add: workflow_ok_def request_ok_def)
  have "history_inv ?rq (wf_events w) s"
    using replay_events_inv [OF history_inv_start [OF f n] s] ne by simp
  with assms(2) have "rp_state s = WRejected \<or> rp_state s = WRevoked" by (auto simp: history_inv_def)
  moreover from i ne s have "is_ok (replay_event ?rq e s)"
    by (auto simp: is_ok_iff workflow_init_Inr replay_events_append bindE_Inr)
  ultimately show False by (auto simp: replay_event_def is_ok_iff req_Inr)
qed

lemma closed_step:
  assumes "workflow_ok h w" "of_type ''rejected'' (wf_events w) \<noteq> [] \<or> of_type ''revoked'' (wf_events w) \<noteq> []"
  shows "\<not> is_ok (wf_op h c w)"
proof
  assume "is_ok (wf_op h c w)"
  then obtain w' where w': "wf_op h c w = Inr w'" by (auto simp: is_ok_iff)
  from wf_op_append [OF w'] obtain e where "is_ok (workflow_init h (wf_request w) (wf_events w @ [e]))"
    by (auto simp: append_event_def bindE_Inr is_ok_iff)
  with closed_replay [OF assms] show False by blast
qed

lemma closed_run:
  assumes "workflow_ok h w" "of_type ''rejected'' (wf_events w) \<noteq> [] \<or> of_type ''revoked'' (wf_events w) \<noteq> []"
  shows "fold (wf_step h) cs w = w"
proof (induction cs)
  case (Cons c cs)
  have "wf_step h c w = w" using closed_step [OF assms, of c] by (simp add: wf_step_def is_ok_iff split: sum.splits)
  with Cons show ?case by simp
qed simp

text \<open>C12: rejection and revocation are final: from then on every call fails, whatever sequence
  of calls is made leaves the workflow unchanged, and the status is the same at every later
  instant.\<close>
lemma rejection_and_revocation_final:
  assumes ok: "workflow_ok h w" and st: "wf_status w at = Inr st" "st = ''rejected'' \<or> st = ''revoked''"
    and later: "trimmed at'" "is_timestamp at'" "time_of at \<le> time_of at'"
  shows "\<not> is_ok (wf_op h c w) \<and> fold (wf_step h) cs w = w \<and> wf_status (fold (wf_step h) cs w) at' = Inr st"
proof -
  note tm = wf_status_timed [OF st(1)]
  have ev: "events_of w ''revoked'' (Some (time_of at)) \<noteq> [] \<or> events_of w ''rejected'' (Some (time_of at)) \<noteq> []"
    using st tm by (auto simp: wf_status_eq split: if_splits)
  have cl: "of_type ''rejected'' (wf_events w) \<noteq> [] \<or> of_type ''revoked'' (wf_events w) \<noteq> []"
    using ev events_of_subset by (metis set_empty subset_empty)
  have mono: "events_of w t (Some (time_of at)) \<noteq> [] \<Longrightarrow> events_of w t (Some (time_of at')) \<noteq> []" for t
    using events_of_mono [OF prefix_order.refl later(3), of w t] by (metis set_empty subset_empty)
  have none: "of_type t (wf_events w) = [] \<Longrightarrow> events_of w t x = []" for t x
    using events_of_subset [of w t x] by simp
  have "wf_status w at' = Inr st"
    using st tm later mono none no_rejected_and_revoked [OF ok] ev
    by (auto simp: wf_status_eq split: if_splits)
  with closed_step [OF ok cl] closed_run [OF ok cl] show ?thesis by simp
qed

lemma sample_rejected: "wf_op toy_hash (WfReject ''E2'' ''bob'' ''2024-01-01T01:00:00Z'' ''no'') sample_workflow = Inr rejected_workflow"
  by code_simp

lemma sample_rejected_status: "wf_status rejected_workflow ''2024-01-01T01:00:00Z'' = Inr ''rejected''"
  by code_simp

lemma rejection_and_revocation_final_witness:
  "\<not> is_ok (wf_approve toy_hash ''E3'' ''bob'' ''2024-01-01T02:00:00Z'' ''ok'' rejected_workflow)"
proof -
  have "workflow_ok toy_hash rejected_workflow"
    using wf_op_Inr [OF sample_rejected sample_workflow_ok(1)] by simp
  from rejection_and_revocation_final [OF this sample_rejected_status, of _ "WfApprove ''E3'' ''bob'' ''2024-01-01T02:00:00Z'' ''ok''" "[]"]
  show ?thesis using wf_status_timed [OF sample_rejected_status] by (metis order_refl wf_op.simps(1))
qed

section \<open>Admitted approvals are recorded\<close>

text \<open>C13: an approval at or after the last event, of a pending request, by a principal who may
  decide and has not approved, with eligible authority that no approval has used and a fresh
  event identifier, is always recorded: the history validator accepts what the guards of
  approve admit.\<close>
lemma approve_accepted:
  assumes ok: "workflow_ok h w" and late: "last_time w \<le> time_of at"
    and st: "wf_status w at = Inr ''pending''"
    and req: "not_requester (wf_request w) actor"
    and fresh: "actor \<notin> ev_actor ` set (of_type ''approved'' (wf_events w))"
    and auth: "eligible_authority w actor at = Inr (role, src)"
    and src: "Some src \<notin> (\<lambda>e. detail e ''authority_source'') ` set (of_type ''approved'' (wf_events w))"
    and vid: "vid \<notin> ev_id ` set (wf_events w)" "trimmed vid" "id_pattern vid" "trimmed reason"
    and hash: "\<And>s. length (h s) = 64 \<and> list_all is_hex_lower (h s) \<and> trimmed (h s)"
  shows "\<exists>e. wf_approve h vid actor at reason w = Inr (w\<lparr>wf_events := wf_events w @ [e]\<rparr>)
    \<and> ev_type e = ''approved'' \<and> ev_actor e = actor"
proof -
  let ?rq = "wf_request w" and ?ds = "[(''authority_source'', src)]"
  have rq: "request_ok ?rq" using ok by (simp add: workflow_ok_def)
  obtain s where s: "replay_events ?rq (tl (wf_events w)) (replay_start (hd (wf_events w))) = Inr s"
    "history_inv ?rq (wf_events w) s" "rp_state s = WPending" "time_of at < time_of (rq_expires ?rq)"
    using pending_replay [OF ok st late] by blast
  define e where "e = \<lparr>ev_id = vid, ev_request = rq_id ?rq, ev_seq = int (length (wf_events w)),
    ev_type = ''approved'', ev_at = at, ev_actor = actor, ev_role = Some role, ev_reason = reason,
    ev_details = ?ds, ev_prev = Some (event_fingerprint h (last (wf_events w)))\<rparr>"
  have ds: "decision_source ?rq (wf_events w) e = Inr (Some src)" "\<exists>p. find_principal ?rq actor = Inr p"
    "role \<in> set (ap_eligible (rq_policy ?rq))"
    using eligible_authority_source [OF auth, of e] by (simp_all add: e_def)
  have at: "trimmed at" "is_timestamp at" using wf_status_timed [OF st] by simp_all
  have d: "event_details (map (\<lambda>(k, v). (PStr k, PStr v)) ?ds) = Inr ?ds"
    unfolding event_details_strs using authority_source_ok [OF ok auth] by (simp add: trimmed_def) code_simp
  have init: "event_init (PInt 1) (PStr vid) (PStr (rq_id ?rq)) (PInt (int (length (wf_events w))))
      (PStr ''approved'') (PStr at) (PStr actor) (opt_pstr (Some role)) (PStr reason) (map (\<lambda>(k, v). (PStr k, PStr v)) ?ds)
      (PStr (event_fingerprint h (last (wf_events w)))) = Inr e"
    using vid at request_id_ok [OF rq] request_principal_ok [OF rq] ds(2) eligible_role_ok [OF rq ds(3)] d hash
    by (auto simp: event_init_Inr e_def event_types_def opt_pstr_def fingerprint_def event_fingerprint_def)
  have act: "actor \<notin> set (rp_actors s)" and sr: "src \<notin> set (rp_sources s)"
  proof -
    show "actor \<notin> set (rp_actors s)" using s(2) fresh by (simp add: history_inv_def)
    have "map Some (rp_sources s) = rev (map (\<lambda>e. detail e ''authority_source'') (of_type ''approved'' (wf_events w)))"
      using s(2) by (simp add: history_inv_def)
    then have "set (map Some (rp_sources s)) = (\<lambda>e. detail e ''authority_source'') ` set (of_type ''approved'' (wf_events w))"
      by simp
    with src show "src \<notin> set (rp_sources s)" by auto
  qed
  have "is_ok (replay_event ?rq e s)"
    using s ds act sr req
    by (auto simp: replay_event_def replay_decision_def e_def history_inv_def not_requester_def detail_def is_ok_iff)
  then have app: "append_event h w vid ''approved'' at actor (Some role) reason ?ds = Inr (w\<lparr>wf_events := wf_events w @ [e]\<rparr>)"
    by (intro append_event_accepted [OF ok init vid(1) late s(1)])
  have aps: "approval_events w at = Inr (of_type ''approved'' (wf_events w))"
    using at events_of_all [OF ok late] by (simp add: approval_events_def at_instant_Inr [THEN iffD2])
  have not_yet: "\<forall>e \<in> set (of_type ''approved'' (wf_events w)). ev_actor e \<noteq> actor" using fresh by auto
  have "wf_approve h vid actor at reason w = append_event h w vid ''approved'' at actor (Some role) reason ?ds"
    using not_yet at st req fresh auth src aps
    by (simp add: wf_approve_def iso8601_Inr [THEN iffD2] ensure_pending_def not_requester_def list_ex_iff image_iff)
  with app show ?thesis by (auto simp: e_def)
qed

lemma approve_accepted_witness:
  "is_ok (wf_approve toy_hash ''E2'' ''bob'' ''2024-01-01T01:00:00Z'' ''ok'' sample_workflow)"
proof -
  let ?at = "''2024-01-01T01:00:00Z''"
  have a: "last_time sample_workflow \<le> time_of ?at \<and> wf_status sample_workflow ?at = Inr ''pending''
      \<and> not_requester (wf_request sample_workflow) ''bob'' \<and> of_type ''approved'' (wf_events sample_workflow) = []
      \<and> eligible_authority sample_workflow ''bob'' ?at = Inr (''lead'', ''bob'')
      \<and> ''E2'' \<notin> ev_id ` set (wf_events sample_workflow) \<and> trimmed ''E2'' \<and> id_pattern ''E2'' \<and> trimmed ''ok''"
    by code_simp
  show ?thesis
    using approve_accepted [OF sample_workflow_ok(1), where at = "?at" and actor = "''bob''" and role = "''lead''"
        and src = "''bob''" and vid = "''E2''" and reason = "''ok''"] a toy_hash_ok
    by (auto simp: is_ok_iff)
qed

section \<open>Files and fingerprints\<close>

text \<open>A workflow written as JSON is read back as the same workflow.\<close>
lemma approval_workflow_json_roundtrip:
  assumes "workflow_ok h w"
  shows "workflow_from_json h (workflow_to_json h w) = Inr w"
  by (rule workflow_json_back [OF assms])

lemma approval_workflow_json_roundtrip_witness:
  "workflow_from_json toy_hash (workflow_to_json toy_hash approved_workflow) = Inr approved_workflow"
  by (rule approval_workflow_json_roundtrip [OF approved_workflow_ok])

interpretation event_chain: hash_chain "event_fingerprint h" ev_prev
  "\<lambda>e. inj_on h T \<and> dumps False (PDict (event_fields e)) \<in> T" for h T
  by unfold_locales (metis event_fingerprint_inject)

lemma workflow_chained: "workflow_ok h w \<Longrightarrow> chained (event_fingerprint h) ev_prev None (wf_events w) \<and> wf_events w \<noteq> []"
  using check_chain_Inr by (fastforce simp: workflow_ok_def workflow_init_Inr)

text \<open>The fingerprint of a workflow's last event pins its whole history, and the workflow
  fingerprint the whole workflow: where the hash tells the hashed texts apart, two accepted
  workflows with the same one are the same.\<close>
lemma workflow_fingerprint_pins:
  assumes inj: "inj_on h (hashed_texts h w \<union> hashed_texts h v)" and ok: "workflow_ok h w" "workflow_ok h v"
  shows "(event_fingerprint h (last (wf_events w)) = event_fingerprint h (last (wf_events v)) \<longleftrightarrow> wf_events w = wf_events v)
    \<and> (workflow_fingerprint h w = workflow_fingerprint h v \<longleftrightarrow> w = v)"
proof -
  have "wf_events w = wf_events v" if "event_fingerprint h (last (wf_events w)) = event_fingerprint h (last (wf_events v))"
    by (rule event_chain.tip_determines [where h = h and T = "hashed_texts h w \<union> hashed_texts h v"])
      (use that inj ok in \<open>auto simp: workflow_chained chain_tip_def list_all_iff hashed_texts_def\<close>)
  then show ?thesis using workflow_fingerprint_inject [OF assms] by auto
qed

definition pinned_workflow :: "string \<Rightarrow> workflow" where
  "pinned_workflow v = projr (create_workflow id sample_request v None ''window'')"

lemma workflow_fingerprint_pins_witness:
  "event_fingerprint id (last (wf_events (pinned_workflow ''E1'')))
     \<noteq> event_fingerprint id (last (wf_events (pinned_workflow ''E2'')))"
proof -
  have made: "is_ok (create_workflow id sample_request ''E1'' None ''window'')"
    "is_ok (create_workflow id sample_request ''E2'' None ''window'')" by code_simp+
  have ok: "workflow_ok id (pinned_workflow ''E1'')" "workflow_ok id (pinned_workflow ''E2'')"
    unfolding pinned_workflow_def
    by (rule conjunct1 [OF create_workflow_ok [OF sample_request_ok is_ok_projr [OF made(1)]]],
        rule conjunct1 [OF create_workflow_ok [OF sample_request_ok is_ok_projr [OF made(2)]]])
  have "map ev_id (wf_events (pinned_workflow ''E1'')) = [''E1'']"
    "map ev_id (wf_events (pinned_workflow ''E2'')) = [''E2'']" by code_simp+
  then have "wf_events (pinned_workflow ''E1'') \<noteq> wf_events (pinned_workflow ''E2'')" by force
  with workflow_fingerprint_pins [OF inj_on_id ok] show ?thesis by blast
qed

end
