(* ===== verification/AuditLog.thy ===== *)
theory AuditLog
  imports ApprovalCodec Contracts
begin

text \<open>
  \<^verbatim>\<open>nightrecon_white_engine/audit_log.py\<close>, the values: audit events and the audit trail, a
  chain of events by fingerprint, with its validator, its JSON form and its summary.  The
  hash is the parameter \<open>h\<close>, as for approvals.
\<close>

section \<open>Events\<close>

abbreviation ATE :: "string \<Rightarrow> pyexc" where
  "ATE \<equiv> AuditTrailError"

record audit_event =
  ae_id :: string
  ae_trail :: string
  ae_engagement :: string
  ae_seq :: int
  ae_type :: string
  ae_at :: string
  ae_actor :: string
  ae_subject_type :: string
  ae_subject :: string
  ae_outcome :: string
  ae_code :: string
  ae_summary :: string
  ae_details :: "(string \<times> string) list"
  ae_prev :: "string option"

definition audit_outcomes :: "string list" where
  "audit_outcomes = [''info'', ''success'', ''denied'', ''error'']"

definition audit_fragments :: "string list" where
  "audit_fragments =
     [''password'', ''passwd'', ''secret'', ''token'', ''credential'', ''cookie'', ''authorization'',
      ''api_key'', ''apikey'', ''private_key'', ''session'']"

definition audit_secret_like :: "string \<Rightarrow> bool" where
  "audit_secret_like k = list_ex (\<lambda>f. contains f (lower k)) audit_fragments"

definition name_text :: "pyval \<Rightarrow> string \<Rightarrow> string res" where
  "name_text v field =
     bindE (required_text ATE v field) (\<lambda>s.
       req (lower_name_pattern 127 s) (ATE (field @ '' is invalid'')) (Inr s))"

definition check_detail :: "string \<times> string \<Rightarrow> unit res" where
  "check_detail kv =
     (case kv of (k, v) \<Rightarrow>
        bindE (required_text ATE (PStr k) ''audit detail key'') (\<lambda>_.
        bindE (required_text ATE (PStr v) ''audit detail value'') (\<lambda>_.
        req (\<not> audit_secret_like k) (ATE (''secret-like audit field is not allowed: $.'' @ k)) (Inr ()))))"

definition audit_details :: "(string \<times> string) list \<Rightarrow> (string \<times> string) list res" where
  "audit_details ds =
     req (distinct (map fst (sort ds))) (ATE ''audit detail keys must be unique'')
       (bindE (checkE check_detail (sort ds)) (\<lambda>_. Inr (sort ds)))"

definition audit_event_init ::
  "pyval \<Rightarrow> pyval \<Rightarrow> pyval \<Rightarrow> pyval \<Rightarrow> pyval \<Rightarrow> pyval \<Rightarrow> pyval \<Rightarrow> pyval \<Rightarrow> pyval \<Rightarrow> pyval \<Rightarrow> pyval
   \<Rightarrow> pyval \<Rightarrow> pyval \<Rightarrow> (string \<times> string) list \<Rightarrow> pyval \<Rightarrow> audit_event res" where
  "audit_event_init schema vid tid gid sq typ at actor stype sid outcome code summary details prev =
     req (py_eq_int schema 1) (ATE ''unsupported audit event schema'')
    (bindE (ident_text ATE vid ''event_id'') (\<lambda>vid'.
     bindE (ident_text ATE tid ''trail_id'') (\<lambda>tid'.
     bindE (ident_text ATE gid ''engagement_id'') (\<lambda>gid'.
     bindE (int_of (ATE ''audit event sequence must be nonnegative'') sq) (\<lambda>n.
     req (0 \<le> n) (ATE ''audit event sequence must be nonnegative'')
    (bindE (name_text typ ''event_type'') (\<lambda>typ'.
     bindE (iso8601 ATE at ''occurred_at'') (\<lambda>at'.
     bindE (ident_text ATE actor ''actor_id'') (\<lambda>actor'.
     bindE (name_text stype ''subject_type'') (\<lambda>stype'.
     bindE (ident_text ATE sid ''subject_id'') (\<lambda>sid'.
     bindE (member_value audit_outcomes (ATE ''unsupported audit outcome'') outcome) (\<lambda>outcome'.
     bindE (name_text code ''reason_code'') (\<lambda>code'.
     bindE (required_text ATE summary ''summary'') (\<lambda>summary'.
     bindE (optional (\<lambda>v. sha256_text ATE v ''previous_event_fingerprint'') prev) (\<lambda>prev'.
     bindE (audit_details details) (\<lambda>details'.
     Inr \<lparr>ae_id = vid', ae_trail = tid', ae_engagement = gid', ae_seq = n, ae_type = typ', ae_at = at',
          ae_actor = actor', ae_subject_type = stype', ae_subject = sid', ae_outcome = outcome',
          ae_code = code', ae_summary = summary', ae_details = details', ae_prev = prev'\<rparr>))))))))))))))))"

definition audit_event_make :: "audit_event \<Rightarrow> audit_event res" where
  "audit_event_make e =
     audit_event_init (PInt 1) (PStr (ae_id e)) (PStr (ae_trail e)) (PStr (ae_engagement e)) (PInt (ae_seq e))
       (PStr (ae_type e)) (PStr (ae_at e)) (PStr (ae_actor e)) (PStr (ae_subject_type e))
       (PStr (ae_subject e)) (PStr (ae_outcome e)) (PStr (ae_code e)) (PStr (ae_summary e))
       (ae_details e) (opt_pstr (ae_prev e))"

definition audit_event_fields :: "audit_event \<Rightarrow> (string \<times> pyval) list" where
  "audit_event_fields e =
     [(''schema_version'', PInt 1), (''event_id'', PStr (ae_id e)), (''trail_id'', PStr (ae_trail e)),
      (''engagement_id'', PStr (ae_engagement e)), (''sequence'', PInt (ae_seq e)),
      (''event_type'', PStr (ae_type e)), (''occurred_at'', PStr (ae_at e)), (''actor_id'', PStr (ae_actor e)),
      (''subject_type'', PStr (ae_subject_type e)), (''subject_id'', PStr (ae_subject e)),
      (''outcome'', PStr (ae_outcome e)), (''reason_code'', PStr (ae_code e)),
      (''summary'', PStr (ae_summary e)),
      (''details'', PList (map (\<lambda>(k, v). PList [PStr k, PStr v]) (ae_details e))),
      (''previous_event_fingerprint'', opt_pstr (ae_prev e))]"

definition audit_fingerprint :: "(string \<Rightarrow> string) \<Rightarrow> audit_event \<Rightarrow> string" where
  "audit_fingerprint h e = fingerprint h (PDict (audit_event_fields e))"

definition audit_event_to_dict :: "(string \<Rightarrow> string) \<Rightarrow> audit_event \<Rightarrow> pyval" where
  "audit_event_to_dict h e = PDict (audit_event_fields e @ [(''fingerprint'', PStr (audit_fingerprint h e))])"

definition audit_event_keys :: "string list" where
  "audit_event_keys =
     [''schema_version'', ''event_id'', ''trail_id'', ''engagement_id'', ''sequence'', ''event_type'',
      ''occurred_at'', ''actor_id'', ''subject_type'', ''subject_id'', ''outcome'', ''reason_code'',
      ''summary'', ''details'', ''previous_event_fingerprint'', ''fingerprint'']"

fun text_pair :: "pyval \<Rightarrow> (string \<times> string) res" where
  "text_pair (PList [PStr a, PStr b]) = Inr (a, b)"
| "text_pair _ = Inl (ATE ''audit detail is invalid'')"

definition audit_event_from_dict :: "(string \<Rightarrow> string) \<Rightarrow> pyval \<Rightarrow> audit_event res" where
  "audit_event_from_dict h v =
     req (is_dict_with audit_event_keys v) (ATE ''audit event schema is not supported'')
       (let d = dict_items v in
        case dget d ''details'' of
          PList items \<Rightarrow>
            bindE (mapE text_pair items) (\<lambda>details.
            bindE (audit_event_init (dget d ''schema_version'') (dget d ''event_id'') (dget d ''trail_id'')
                     (dget d ''engagement_id'') (dget d ''sequence'') (dget d ''event_type'')
                     (dget d ''occurred_at'') (dget d ''actor_id'') (dget d ''subject_type'')
                     (dget d ''subject_id'') (dget d ''outcome'') (dget d ''reason_code'') (dget d ''summary'')
                     details (dget d ''previous_event_fingerprint'')) (\<lambda>e.
            req (dget d ''fingerprint'' = PStr (audit_fingerprint h e))
                (ATE ''audit event fingerprint verification failed'') (Inr e)))
        | _ \<Rightarrow> Inl (ATE ''audit details must be a list''))"

section \<open>Trails\<close>

record audit_trail =
  tr_id :: string
  tr_engagement :: string
  tr_events :: "audit_event list"

text \<open>The loop of \<^verbatim>\<open>__post_init__\<close>: \<open>prev\<close> is the event before, \<open>seen\<close> the identifiers so far.\<close>

fun check_trail ::
  "(string \<Rightarrow> string) \<Rightarrow> string \<Rightarrow> string \<Rightarrow> string list \<Rightarrow> audit_event option \<Rightarrow> nat \<Rightarrow> audit_event list
   \<Rightarrow> unit res" where
  "check_trail h tid gid seen prev i [] = Inr ()"
| "check_trail h tid gid seen prev i (e # es) =
     req (ae_id e \<notin> set seen) (ATE ''audit event IDs must be unique'')
    (req (ae_trail e = tid) (ATE ''audit event belongs to another trail'')
    (req (ae_engagement e = gid) (ATE ''audit event belongs to another engagement'')
    (req (ae_seq e = int i) (ATE ''audit event sequence is not contiguous'')
    (req (ae_prev e = map_option (audit_fingerprint h) prev) (ATE ''audit event chain verification failed'')
    (req (case prev of None \<Rightarrow> True | Some p \<Rightarrow> time_of (ae_at p) \<le> time_of (ae_at e))
         (ATE ''audit events are not chronologically ordered'')
       (check_trail h tid gid (ae_id e # seen) (Some e) (Suc i) es))))))"

definition trail_init ::
  "(string \<Rightarrow> string) \<Rightarrow> pyval \<Rightarrow> pyval \<Rightarrow> pyval \<Rightarrow> audit_event list \<Rightarrow> audit_trail res" where
  "trail_init h schema tid gid events =
     req (py_eq_int schema 1) (ATE ''unsupported audit trail schema'')
    (bindE (ident_text ATE tid ''trail_id'') (\<lambda>tid'.
     bindE (ident_text ATE gid ''engagement_id'') (\<lambda>gid'.
     req (events \<noteq> []) (ATE ''audit trail requires at least one event'')
    (bindE (check_trail h tid' gid' [] None 0 events) (\<lambda>_.
     Inr \<lparr>tr_id = tid', tr_engagement = gid', tr_events = events\<rparr>)))))"

text \<open>What a caller of \<^verbatim>\<open>create\<close> and \<^verbatim>\<open>append\<close> says of the event.\<close>

record audit_entry =
  ax_event :: string
  ax_kind :: string
  ax_at :: string
  ax_actor :: string
  ax_subject_type :: string
  ax_subject :: string
  ax_outcome :: string
  ax_code :: string
  ax_summary :: string
  ax_details :: "(string \<times> string) list"

definition entry_event ::
  "(string \<Rightarrow> string) \<Rightarrow> string \<Rightarrow> string \<Rightarrow> nat \<Rightarrow> audit_entry \<Rightarrow> audit_event option \<Rightarrow> audit_event res" where
  "entry_event h tid gid n x prev =
     audit_event_init (PInt 1) (PStr (ax_event x)) (PStr tid) (PStr gid) (PInt (int n)) (PStr (ax_kind x))
       (PStr (ax_at x)) (PStr (ax_actor x)) (PStr (ax_subject_type x)) (PStr (ax_subject x))
       (PStr (ax_outcome x)) (PStr (ax_code x)) (PStr (ax_summary x)) (ax_details x)
       (opt_pstr (map_option (audit_fingerprint h) prev))"

definition trail_create :: "(string \<Rightarrow> string) \<Rightarrow> string \<Rightarrow> string \<Rightarrow> audit_entry \<Rightarrow> audit_trail res" where
  "trail_create h tid gid x =
     bindE (entry_event h tid gid 0 x None) (\<lambda>e. trail_init h (PInt 1) (PStr tid) (PStr gid) [e])"

definition trail_append :: "(string \<Rightarrow> string) \<Rightarrow> audit_entry \<Rightarrow> audit_trail \<Rightarrow> audit_trail res" where
  "trail_append h x t =
     bindE (entry_event h (tr_id t) (tr_engagement t) (length (tr_events t)) x (Some (last (tr_events t)))) (\<lambda>e.
       trail_init h (PInt 1) (PStr (tr_id t)) (PStr (tr_engagement t)) (tr_events t @ [e]))"

definition trail_fingerprint :: "(string \<Rightarrow> string) \<Rightarrow> audit_trail \<Rightarrow> string" where
  "trail_fingerprint h t = fingerprint h (PDict
     [(''schema_version'', PInt 1), (''trail_id'', PStr (tr_id t)), (''engagement_id'', PStr (tr_engagement t)),
      (''event_fingerprints'', PList (map (\<lambda>e. PStr (audit_fingerprint h e)) (tr_events t)))])"

definition trail_to_dict :: "(string \<Rightarrow> string) \<Rightarrow> audit_trail \<Rightarrow> pyval" where
  "trail_to_dict h t = PDict
     [(''schema_version'', PInt 1), (''trail_id'', PStr (tr_id t)), (''engagement_id'', PStr (tr_engagement t)),
      (''events'', PList (map (audit_event_to_dict h) (tr_events t))),
      (''trail_fingerprint'', PStr (trail_fingerprint h t))]"

definition trail_to_json :: "(string \<Rightarrow> string) \<Rightarrow> audit_trail \<Rightarrow> string" where
  "trail_to_json h t = dumps False (trail_to_dict h t)"

definition trail_keys :: "string list" where
  "trail_keys = [''schema_version'', ''trail_id'', ''engagement_id'', ''events'', ''trail_fingerprint'']"

definition trail_from_dict :: "(string \<Rightarrow> string) \<Rightarrow> pyval \<Rightarrow> audit_trail res" where
  "trail_from_dict h v =
     req (is_dict_with trail_keys v) (ATE ''audit trail schema is not supported'')
       (let d = dict_items v in
        case dget d ''events'' of
          PList items \<Rightarrow>
            bindE (mapE (audit_event_from_dict h) items) (\<lambda>events.
            bindE (trail_init h (dget d ''schema_version'') (dget d ''trail_id'') (dget d ''engagement_id'') events) (\<lambda>t.
            req (dget d ''trail_fingerprint'' = PStr (trail_fingerprint h t))
                (ATE ''audit trail fingerprint verification failed'') (Inr t)))
        | _ \<Rightarrow> Inl (ATE ''audit events must be a list''))"

definition trail_from_json :: "(string \<Rightarrow> string) \<Rightarrow> string \<Rightarrow> audit_trail res" where
  "trail_from_json h s =
     (case loads s of
        None \<Rightarrow> Inl (ATE ''audit trail is not valid JSON'')
      | Some v \<Rightarrow> trail_from_dict h v)"

text \<open>\<^verbatim>\<open>sep.join(xs)\<close>\<close>

definition join_with :: "string \<Rightarrow> string list \<Rightarrow> string" where
  "join_with sep xs = (case xs of [] \<Rightarrow> [] | y # ys \<Rightarrow> y @ concat (map (\<lambda>z. sep @ z) ys))"

definition audit_line :: "(string \<Rightarrow> string) \<Rightarrow> audit_event \<Rightarrow> string" where
  "audit_line h e = join_with '' | ''
     [str_int (ae_seq e), ae_type e, ae_at e, ae_actor e, ae_subject_type e, ae_subject e, ae_outcome e,
      ae_code e, audit_fingerprint h e]"

definition render_audit_summary :: "(string \<Rightarrow> string) \<Rightarrow> audit_trail \<Rightarrow> string" where
  "render_audit_summary h t = join_with ''\<newline>''
     ([''Audit trail: '' @ tr_id t, ''Engagement: '' @ tr_engagement t,
       ''Events: '' @ str_nat (length (tr_events t)), ''Trail fingerprint: '' @ trail_fingerprint h t]
      @ map (audit_line h) (tr_events t))"

end
