(* ===== verification/AuditFacts.thy ===== *)
theory AuditFacts
  imports AuditLog
begin

text \<open>
  Facts on audit trails: what the constructors accept, the JSON forms as interpretations of
  \<open>record_codec\<close>, and the chain of fingerprints as an interpretation of \<open>hash_chain\<close>.
\<close>

section \<open>Events\<close>

lemma name_text_Inr [res_simps]:
  "name_text v f = Inr s \<longleftrightarrow> v = PStr s \<and> trimmed s \<and> lower_name_pattern 127 s"
  by (auto simp: name_text_def bindE_Inr req_Inr required_text_Inr)

lemma check_detail_Inr: "check_detail (k, v) = Inr u \<longleftrightarrow> trimmed k \<and> trimmed v \<and> \<not> audit_secret_like k"
  by (auto simp: check_detail_def bindE_Inr req_Inr required_text_Inr)

lemma audit_details_Inr:
  "audit_details ds = Inr ds' \<longleftrightarrow> ds' = sort ds \<and> distinct (map fst (sort ds)) \<and>
     (\<forall>(k, v)\<in>set ds. trimmed k \<and> trimmed v \<and> \<not> audit_secret_like k)"
  by (auto simp: audit_details_def req_Inr bindE_Inr checkE_Inr_iff check_detail_Inr)

lemma audit_event_init_Inr:
  "audit_event_init schema vid tid gid sq typ at actor stype sid outcome code summary ds prev = Inr e \<longleftrightarrow>
     py_eq_int schema 1 \<and> vid = PStr (ae_id e) \<and> tid = PStr (ae_trail e) \<and> gid = PStr (ae_engagement e) \<and>
     sq = PInt (ae_seq e) \<and> typ = PStr (ae_type e) \<and> at = PStr (ae_at e) \<and> actor = PStr (ae_actor e) \<and>
     stype = PStr (ae_subject_type e) \<and> sid = PStr (ae_subject e) \<and> outcome = PStr (ae_outcome e) \<and>
     code = PStr (ae_code e) \<and> summary = PStr (ae_summary e) \<and> prev = opt_pstr (ae_prev e) \<and>
     audit_details ds = Inr (ae_details e) \<and>
     trimmed (ae_id e) \<and> id_pattern (ae_id e) \<and> trimmed (ae_trail e) \<and> id_pattern (ae_trail e) \<and>
     trimmed (ae_engagement e) \<and> id_pattern (ae_engagement e) \<and> 0 \<le> ae_seq e \<and>
     trimmed (ae_type e) \<and> lower_name_pattern 127 (ae_type e) \<and> trimmed (ae_at e) \<and> is_timestamp (ae_at e) \<and>
     trimmed (ae_actor e) \<and> id_pattern (ae_actor e) \<and>
     trimmed (ae_subject_type e) \<and> lower_name_pattern 127 (ae_subject_type e) \<and>
     trimmed (ae_subject e) \<and> id_pattern (ae_subject e) \<and> ae_outcome e \<in> set audit_outcomes \<and>
     trimmed (ae_code e) \<and> lower_name_pattern 127 (ae_code e) \<and> trimmed (ae_summary e) \<and>
     (\<forall>s. ae_prev e = Some s \<longrightarrow> trimmed s \<and> length s = 64 \<and> list_all is_hex_lower s)"
  (is "?L \<longleftrightarrow> ?R")
proof
  assume ?L
  then show ?R
    unfolding audit_event_init_def bindE_Inr req_Inr ident_text_Inr int_of_Inr member_value_Inr iso8601_Inr
      required_text_Inr name_text_Inr optional_sha
    by (elim conjE exE) (drule Inr_inject, hypsubst, simp)
next
  assume ?R
  then show ?L
    unfolding audit_event_init_def bindE_Inr req_Inr ident_text_Inr int_of_Inr member_value_Inr iso8601_Inr
      required_text_Inr name_text_Inr optional_sha
    by simp
qed

definition audit_event_ok :: "audit_event \<Rightarrow> bool" where
  "audit_event_ok e \<longleftrightarrow> audit_event_make e = Inr e"

lemma audit_event_made:
  "audit_event_init schema vid tid gid sq typ at actor stype sid outcome code summary ds prev = Inr e \<Longrightarrow>
   audit_event_ok e"
  unfolding audit_event_ok_def audit_event_make_def audit_event_init_Inr audit_details_Inr
  by (auto simp: sorted_sort_id)

lemma text_pairs_back: "mapE text_pair (map (\<lambda>(k, v). PList [PStr k, PStr v]) ds) = Inr ds"
  by (induction ds) auto

lemma audit_event_from_to_dict:
  "audit_event_ok e \<Longrightarrow> audit_event_from_dict h (norm (audit_event_to_dict h e)) = Inr e"
  by (simp add: audit_event_to_dict_def audit_event_fields_def audit_event_from_dict_def is_dict_with_def audit_event_keys_def dget_def
      text_pairs_back audit_event_ok_def audit_event_make_def Let_def)

lemma audit_event_to_dict_json: "json_ok (audit_event_to_dict h e)" "json_ok (PDict (audit_event_fields e))"
  by (auto simp: audit_event_to_dict_def audit_event_fields_def list_all_iff)

lemma audit_event_from_dict_ok: "audit_event_from_dict h v = Inr e \<Longrightarrow> audit_event_ok e"
  by (auto simp: audit_event_from_dict_def Let_def req_Inr bindE_Inr split: pyval.splits intro: audit_event_made)

interpretation audit_event_codec: record_codec "audit_event_to_dict h" "audit_event_from_dict h" audit_event_ok for h
  by unfold_locales (simp_all add: audit_event_from_to_dict audit_event_to_dict_json)

lemma audit_event_fields_inject: "norm (PDict (audit_event_fields e)) = norm (PDict (audit_event_fields f)) \<longleftrightarrow> e = f"
  by (cases e; cases f) (auto simp: audit_event_fields_def pair_lists_inject)

interpretation audit_chain: hash_chain "audit_fingerprint h" ae_prev
  "\<lambda>e. inj_on h T \<and> dumps False (PDict (audit_event_fields e)) \<in> T" for h T
  by unfold_locales
    (metis hash_inject audit_fingerprint_def audit_event_to_dict_json(2) audit_event_fields_inject)

section \<open>Trails\<close>

definition trail_ok :: "(string \<Rightarrow> string) \<Rightarrow> audit_trail \<Rightarrow> bool" where
  "trail_ok h t \<longleftrightarrow> trail_init h (PInt 1) (PStr (tr_id t)) (PStr (tr_engagement t)) (tr_events t) = Inr t
     \<and> list_all audit_event_ok (tr_events t)"

lemma trail_init_Inr:
  "trail_init h schema tid gid es = Inr t \<longleftrightarrow>
     py_eq_int schema 1 \<and> tid = PStr (tr_id t) \<and> gid = PStr (tr_engagement t) \<and> es = tr_events t \<and> es \<noteq> [] \<and>
     trimmed (tr_id t) \<and> id_pattern (tr_id t) \<and> trimmed (tr_engagement t) \<and> id_pattern (tr_engagement t) \<and>
     check_trail h (tr_id t) (tr_engagement t) [] None 0 es = Inr ()"
  by (cases t) (auto simp: trail_init_def bindE_Inr req_Inr ident_text_Inr)

lemma check_trail_Inr:
  "check_trail h tid gid seen prev i es = Inr u \<Longrightarrow>
     chained (audit_fingerprint h) ae_prev (map_option (audit_fingerprint h) prev) es \<and>
     distinct (map ae_id es) \<and> set (map ae_id es) \<inter> set seen = {} \<and>
     map ae_seq es = map int [i..<i + length es] \<and>
     (\<forall>e\<in>set es. ae_trail e = tid \<and> ae_engagement e = gid) \<and>
     sorted (map (\<lambda>e. time_of (ae_at e)) es) \<and>
     (\<forall>p. prev = Some p \<longrightarrow> (\<forall>e\<in>set es. time_of (ae_at p) \<le> time_of (ae_at e)))"
proof (induction es arbitrary: seen prev i)
  case (Cons e es)
  then have c: "ae_id e \<notin> set seen" "ae_trail e = tid" "ae_engagement e = gid" "ae_seq e = int i"
    "ae_prev e = map_option (audit_fingerprint h) prev"
    "case prev of None \<Rightarrow> True | Some p \<Rightarrow> time_of (ae_at p) \<le> time_of (ae_at e)"
    and r: "check_trail h tid gid (ae_id e # seen) (Some e) (Suc i) es = Inr u"
    by (simp_all add: req_Inr)
  have "[i..<i + length (e # es)] = i # [Suc i..<Suc i + length es]" by (simp add: upt_rec)
  with c Cons.IH [OF r] show ?case
    by (auto split: option.splits)
qed simp

lemma check_trail_append:
  "check_trail h tid gid seen prev i (xs @ ys) =
     bindE (check_trail h tid gid seen prev i xs) (\<lambda>_.
       check_trail h tid gid (rev (map ae_id xs) @ seen) (if xs = [] then prev else Some (last xs)) (i + length xs) ys)"
  by (induction xs arbitrary: seen prev i) (simp_all add: req_def)

lemma trail_facts:
  assumes "trail_ok h t"
  shows "tr_events t \<noteq> []" "check_trail h (tr_id t) (tr_engagement t) [] None 0 (tr_events t) = Inr ()"
    "list_all audit_event_ok (tr_events t)"
    "chained (audit_fingerprint h) ae_prev None (tr_events t)"
  using assms check_trail_Inr [of h "tr_id t" "tr_engagement t" "[]" None 0 "tr_events t" "()"]
  by (auto simp: trail_ok_def trail_init_Inr)

lemma trail_append_Inr:
  assumes "trail_append h x t = Inr t'" "trail_ok h t"
  obtains e where "t' = t\<lparr>tr_events := tr_events t @ [e]\<rparr>" "trail_ok h t'" "ae_id e = ax_event x"
    "ae_at e = ax_at x" "ae_details e = sort (ax_details x)"
proof -
  obtain e where e: "entry_event h (tr_id t) (tr_engagement t) (length (tr_events t)) x (Some (last (tr_events t))) = Inr e"
    "trail_init h (PInt 1) (PStr (tr_id t)) (PStr (tr_engagement t)) (tr_events t @ [e]) = Inr t'"
    using assms(1) unfolding trail_append_def bindE_Inr by blast
  have t': "t' = t\<lparr>tr_events := tr_events t @ [e]\<rparr>"
    using e(2) by (cases t; cases t') (auto simp: trail_init_Inr)
  moreover have "trail_ok h t'"
    using e(2) assms(2) audit_event_made [OF e(1) [unfolded entry_event_def]] unfolding t' trail_ok_def by simp
  ultimately show ?thesis
    using e(1) by (intro that) (auto simp: entry_event_def audit_event_init_Inr audit_details_Inr)
qed

lemma trail_create_ok: "trail_create h tid gid x = Inr t \<Longrightarrow> trail_ok h t \<and> tr_id t = tid \<and> tr_engagement t = gid"
  by (cases t) (auto simp: trail_create_def bindE_Inr trail_ok_def trail_init_Inr entry_event_def dest: audit_event_made)

lemma trail_from_to_dict:
  assumes "trail_ok h t"
  shows "trail_from_dict h (norm (trail_to_dict h t)) = Inr t"
proof -
  have e: "mapE (audit_event_from_dict h) (map (norm \<circ> audit_event_to_dict h) (tr_events t)) = Inr (tr_events t)"
    using audit_event_codec.dec_list [of "tr_events t" h] assms by (simp add: trail_ok_def comp_def)
  show ?thesis
    using assms e
    by (simp add: trail_to_dict_def trail_from_dict_def is_dict_with_def dget_def Let_def trail_ok_def trail_keys_def)
qed

lemma trail_to_dict_json: "trail_ok h t \<Longrightarrow> json_ok (trail_to_dict h t)"
  using audit_event_codec.printable_list [of "tr_events t" h]
  by (simp add: trail_to_dict_def trail_ok_def)

interpretation trail_codec: record_codec "trail_to_dict h" "trail_from_dict h" "trail_ok h" for h
  by unfold_locales (simp_all add: trail_from_to_dict trail_to_dict_json)

lemma trail_from_dict_ok:
  assumes "trail_from_dict h v = Inr t"
  shows "trail_ok h t"
proof -
  obtain d items schema tid gid es where "mapE (audit_event_from_dict h) items = Inr es"
    "trail_init h schema tid gid es = Inr t"
    using assms by (auto simp: trail_from_dict_def Let_def req_Inr bindE_Inr split: pyval.splits)
  moreover from this have "list_all audit_event_ok es"
    using audit_event_from_dict_ok by (fastforce simp: mapE_Inr_iff list_all2_conv_all_nth list_all_length)
  ultimately show ?thesis by (auto simp: trail_ok_def trail_init_Inr)
qed

lemma trail_from_json_ok: "trail_from_json h s = Inr t \<Longrightarrow> trail_ok h t"
  by (auto simp: trail_from_json_def split: option.splits intro: trail_from_dict_ok)

end
