(* ===== verification/StoredRecords.thy ===== *)
theory StoredRecords
  imports Interfaces
begin

text \<open>
  The contract of the file stores that keep validated records under their identifier: the
  whole table is written as one JSON list in the order of the identifiers, and read back by a
  loop that refuses duplicates.  Opening what was written gives the table that was stored.
\<close>

type_synonym 'a table = "(string \<times> 'a) list"

definition table_ok :: "('a \<Rightarrow> bool) \<Rightarrow> ('a \<Rightarrow> string) \<Rightarrow> 'a table \<Rightarrow> bool" where
  "table_ok ok key m \<longleftrightarrow> distinct (map fst m) \<and> (\<forall>k x. map_of m k = Some x \<longrightarrow> k = key x \<and> ok x)"

definition stored :: "'a table \<Rightarrow> 'a list" where
  "stored m = map (\<lambda>k. the (map_of m k)) (sort (map fst m))"

lemma table_ok_Nil: "table_ok ok key []"
  by (simp add: table_ok_def)

lemma table_ok_update: "table_ok ok key m \<Longrightarrow> ok x \<Longrightarrow> table_ok ok key (AList.update (key x) x m)"
  by (simp add: table_ok_def distinct_update update_conv')

text \<open>\<open>table_le le\<close>: every record that is stored stays, or is followed by one above it.\<close>

definition table_le :: "('a \<Rightarrow> 'a \<Rightarrow> bool) \<Rightarrow> 'a table \<Rightarrow> 'a table \<Rightarrow> bool" where
  "table_le le m m' \<longleftrightarrow> (\<forall>k x. map_of m k = Some x \<longrightarrow> (\<exists>y. map_of m' k = Some y \<and> le x y))"

lemma table_le_refl: "(\<And>x. le x x) \<Longrightarrow> table_le le m m"
  by (auto simp: table_le_def)

lemma table_le_trans:
  "(\<And>x y z. le x y \<Longrightarrow> le y z \<Longrightarrow> le x z) \<Longrightarrow> table_le le m n \<Longrightarrow> table_le le n l \<Longrightarrow> table_le le m l"
  unfolding table_le_def by meson

lemma table_le_update:
  assumes "\<And>x. le x x" "\<And>p. map_of m k = Some p \<Longrightarrow> le p x"
  shows "table_le le m (AList.update k x m)"
  using assms by (auto simp: table_le_def update_conv')

locale stored_records = record_codec enc dec ok
  for enc :: "'a \<Rightarrow> pyval" and dec :: "pyval \<Rightarrow> 'a res" and ok :: "'a \<Rightarrow> bool" +
  fixes key :: "'a \<Rightarrow> string"
    and load :: "pyval list \<Rightarrow> string list \<Rightarrow> 'a table \<Rightarrow> 'a table res"
  assumes load_Nil: "load [] seen m = Inr m"
    and load_Cons: "dec v = Inr x \<Longrightarrow> key x \<notin> set seen \<Longrightarrow> map_of m (key x) = None \<Longrightarrow>
      load (v # vs) seen m = load vs (key x # seen) (AList.update (key x) x m)"
begin

lemma load_back:
  assumes "list_all ok xs" "distinct (map key xs)" "\<And>x. x \<in> set xs \<Longrightarrow> map_of m (key x) = None"
    "set seen \<inter> set (map key xs) = {}"
  shows "\<exists>m'. load (map norm (map enc xs)) seen m = Inr m' \<and>
    map_of m' = map_of (rev (map (\<lambda>x. (key x, x)) xs) @ m)"
  using assms
proof (induction xs arbitrary: seen m)
  case Nil
  then show ?case by (simp add: load_Nil)
next
  case (Cons x xs)
  have "\<exists>m'. load (map norm (map enc xs)) (key x # seen) (AList.update (key x) x m) = Inr m' \<and>
    map_of m' = map_of (rev (map (\<lambda>x. (key x, x)) xs) @ AList.update (key x) x m)"
  proof (rule Cons.IH)
    show "map_of (AList.update (key x) x m) (key u) = None" if "u \<in> set xs" for u
    proof -
      have "key u \<noteq> key x" using that Cons.prems(2) by (simp add: image_iff) metis
      with that Cons.prems(3) show ?thesis by (simp add: update_conv')
    qed
  qed (use Cons.prems in auto)
  moreover have "load (norm (enc x) # vs) seen m = load vs (key x # seen) (AList.update (key x) x m)" for vs
    using Cons.prems by (intro load_Cons dec_enc) auto
  ultimately show ?case
    by (auto simp: update_conv' map_add_def split: option.splits)
qed

lemma stored_ok:
  assumes "table_ok ok key m"
  shows "list_all ok (stored m)" "map key (stored m) = sort (map fst m)"
    "map (map_of m) (sort (map fst m)) = map Some (stored m)"
proof -
  have key: "k = key x \<and> ok x" if "map_of m k = Some x" for k x using assms that by (auto simp: table_ok_def)
  have some: "map_of m k = Some (the (map_of m k))" if "k \<in> set (map fst m)" for k
    using that by (cases "map_of m k") (auto simp: map_of_eq_None_iff)
  show "list_all ok (stored m)" using key some by (auto simp: stored_def list_all_iff)
  show "map key (stored m) = sort (map fst m)"
    unfolding stored_def map_map by (rule map_idI) (use some key in \<open>auto simp: comp_def\<close>)
  show "map (map_of m) (sort (map fst m)) = map Some (stored m)"
    unfolding stored_def map_map by (rule map_cong [OF refl]) (use some in \<open>auto simp: comp_def\<close>)
qed

lemma stored_key:
  assumes "table_ok ok key m" "k \<in> set (map fst m)"
  shows "\<exists>x. ok x \<and> k = key x"
proof -
  from assms(2) obtain x where "map_of m k = Some x" using map_of_eq_None_iff [of m k] by (cases "map_of m k") auto
  with assms(1) show ?thesis unfolding table_ok_def by blast
qed

lemma stored_reopens:
  assumes ok: "table_ok ok key m"
  shows "\<exists>m'. load (map norm (map enc (stored m))) [] [] = Inr m' \<and> map_of m' = map_of m"
proof -
  let ?ks = "sort (map fst m)" and ?ps = "rev (map (\<lambda>x. (key x, x)) (stored m))"
  have d: "distinct ?ks" using ok by (simp add: table_ok_def)
  obtain m' where m': "load (map norm (map enc (stored m))) [] [] = Inr m'" "map_of m' = map_of ?ps"
    using load_back [OF stored_ok(1) [OF ok], of "[]" "[]"] stored_ok(2) [OF ok] d by auto
  have ps: "map fst ?ps = rev ?ks" using stored_ok(2) [OF ok] by (simp add: rev_map [symmetric] comp_def)
  have "map_of ?ps k = map_of m k" for k
  proof (cases "map_of m k")
    case None
    then have "k \<notin> set (map fst ?ps)" unfolding ps by (simp add: map_of_eq_None_iff)
    then have "map_of ?ps k = None" unfolding map_of_eq_None_iff set_map .
    from this None [symmetric] show ?thesis by (rule trans)
  next
    case (Some x)
    then have "x \<in> set (stored m)" "k = key x"
      using ok by (auto simp: stored_def table_ok_def image_iff intro!: bexI [of _ "(k, x)"] dest: map_of_SomeD)
    then have "(k, x) \<in> set ?ps" by simp
    moreover have "distinct (map fst ?ps)" unfolding ps using d by simp
    ultimately show ?thesis using Some map_of_is_SomeI by metis
  qed
  with m' show ?thesis by auto
qed

end

end
