(* ===== verification/AuditStore.thy ===== *)
theory AuditStore
  imports AuditFacts EngagementStore StoredRecords
begin

text \<open>
  \<^verbatim>\<open>nightrecon_white_engine/audit_log.py\<close>, the stores: \<^verbatim>\<open>InMemoryAuditStore\<close> as an association
  list from trail identifiers to trails, and \<^verbatim>\<open>FileAuditStore\<close>, which changes memory first,
  writes the whole file after it and does not roll back.
\<close>

section \<open>In memory\<close>

type_synonym audit_memory = "(string \<times> audit_trail) list"

definition amem_create :: "audit_trail \<Rightarrow> audit_memory \<Rightarrow> audit_memory res" where
  "amem_create t m =
     (case map_of m (tr_id t) of
        None \<Rightarrow> Inr (AList.update (tr_id t) t m)
      | Some existing \<Rightarrow>
          req (existing = t) (ATE (''conflicting audit trail already exists: '' @ tr_id t)) (Inr m))"

definition amem_advance :: "(string \<Rightarrow> string) \<Rightarrow> audit_trail \<Rightarrow> audit_memory \<Rightarrow> audit_memory res" where
  "amem_advance h t m =
     (case map_of m (tr_id t) of
        None \<Rightarrow> Inl (ATE (''audit trail not found: '' @ tr_id t))
      | Some previous \<Rightarrow>
          req (tr_engagement previous = tr_engagement t) (ATE ''audit engagement cannot change'')
            (let old = map (audit_fingerprint h) (tr_events previous);
                 new = map (audit_fingerprint h) (tr_events t) in
             req (take (length old) new = old) (ATE ''audit history is not an append-only extension'')
               (Inr (AList.update (tr_id t) t m))))"

definition amem_trail :: "audit_memory \<Rightarrow> string \<Rightarrow> audit_trail option res" where
  "amem_trail m tid = bindE (ident_text ATE (PStr tid) ''trail_id'') (\<lambda>i. Inr (map_of m i))"

definition amem_trails :: "audit_memory \<Rightarrow> string list" where
  "amem_trails m = sort (map fst m)"

section \<open>In a file\<close>

record audit_store =
  as_memory :: audit_memory
  as_file :: "string option"

fun load_trails :: "(string \<Rightarrow> string) \<Rightarrow> pyval list \<Rightarrow> string list \<Rightarrow> audit_memory \<Rightarrow> audit_memory res" where
  "load_trails h [] seen m = Inr m"
| "load_trails h (x # xs) seen m =
     bindE (trail_from_dict h x) (\<lambda>t.
     req (tr_id t \<notin> set seen) (ATE ''audit store contains duplicate trail'')
    (bindE (amem_create t m) (\<lambda>m'. load_trails h xs (tr_id t # seen) m')))"

definition audits_of_file :: "(string \<Rightarrow> string) \<Rightarrow> string option \<Rightarrow> audit_memory res" where
  "audits_of_file h file =
     (case file of
        None \<Rightarrow> Inr []
      | Some text \<Rightarrow>
          (case loads text of
             None \<Rightarrow> Inl (ATE ''audit store is not valid UTF-8 JSON'')
           | Some payload \<Rightarrow>
               req (is_dict_with [''schema_version'', ''trails''] payload
                    \<and> py_eq_int (dget (dict_items payload) ''schema_version'') 1)
                   (ATE ''audit store schema is not supported'')
                 (case dget (dict_items payload) ''trails'' of
                    PList items \<Rightarrow> load_trails h items [] []
                  | _ \<Rightarrow> Inl (ATE ''audit store schema is not supported''))))"

definition open_audit_store :: "(string \<Rightarrow> string) \<Rightarrow> string option \<Rightarrow> audit_store res" where
  "open_audit_store h file = bindE (audits_of_file h file) (\<lambda>m. Inr \<lparr>as_memory = m, as_file = file\<rparr>)"

definition audit_store_text :: "(string \<Rightarrow> string) \<Rightarrow> audit_memory \<Rightarrow> string res" where
  "audit_store_text h m =
     bindE (mapE (amem_trail m) (amem_trails m)) (\<lambda>ts.
     Inr (dumps False (PDict
       [(''schema_version'', PInt 1), (''trails'', PList (map (trail_to_dict h) (List.map_filter id ts)))])
       @ ''\<newline>''))"

definition as_persist :: "(string \<Rightarrow> string) \<Rightarrow> io_env \<Rightarrow> audit_store \<Rightarrow> unit res \<times> audit_store" where
  "as_persist h io s =
     (case audit_store_text h (as_memory s) of
        Inl e \<Rightarrow> (Inl e, s)
      | Inr text \<Rightarrow>
          (if \<not> io_write_ok io then (Inl OSError, s)
           else (case replace_once io of
                   Inl e \<Rightarrow> (Inl e, s)
                 | Inr _ \<Rightarrow> (Inr (), s\<lparr>as_file := Some text\<rparr>))))"

definition as_create :: "(string \<Rightarrow> string) \<Rightarrow> io_env \<Rightarrow> audit_trail \<Rightarrow> audit_store \<Rightarrow> unit res \<times> audit_store" where
  "as_create h io t s =
     (case amem_trail (as_memory s) (tr_id t) of
        Inl e \<Rightarrow> (Inl e, s)
      | Inr before \<Rightarrow>
          (case amem_create t (as_memory s) of
             Inl e \<Rightarrow> (Inl e, s)
           | Inr m \<Rightarrow>
               (if before \<noteq> Some t then as_persist h io (s\<lparr>as_memory := m\<rparr>)
                else (Inr (), s\<lparr>as_memory := m\<rparr>))))"

definition as_advance :: "(string \<Rightarrow> string) \<Rightarrow> io_env \<Rightarrow> audit_trail \<Rightarrow> audit_store \<Rightarrow> unit res \<times> audit_store" where
  "as_advance h io t s =
     (case amem_trail (as_memory s) (tr_id t) of
        Inl e \<Rightarrow> (Inl e, s)
      | Inr before \<Rightarrow>
          (case amem_advance h t (as_memory s) of
             Inl e \<Rightarrow> (Inl e, s)
           | Inr m \<Rightarrow>
               (if before \<noteq> Some t then as_persist h io (s\<lparr>as_memory := m\<rparr>)
                else (Inr (), s\<lparr>as_memory := m\<rparr>))))"

section \<open>The store as a machine\<close>

text \<open>A trail handed to the store has passed its constructor.\<close>

datatype audit_call = AuCreate io_env audit_trail | AuAdvance io_env audit_trail

fun audit_step :: "(string \<Rightarrow> string) \<Rightarrow> audit_call \<Rightarrow> audit_store \<Rightarrow> audit_store" where
  "audit_step h (AuCreate io t) s = (if trail_ok h t then snd (as_create h io t s) else s)"
| "audit_step h (AuAdvance io t) s = (if trail_ok h t then snd (as_advance h io t s) else s)"

abbreviation amem_ok :: "(string \<Rightarrow> string) \<Rightarrow> audit_memory \<Rightarrow> bool" where
  "amem_ok h \<equiv> table_ok (trail_ok h) tr_id"

definition extends :: "(string \<Rightarrow> string) \<Rightarrow> audit_trail \<Rightarrow> audit_trail \<Rightarrow> bool" where
  "extends h t t' \<longleftrightarrow> tr_id t' = tr_id t \<and> tr_engagement t' = tr_engagement t
     \<and> prefix (map (audit_fingerprint h) (tr_events t)) (map (audit_fingerprint h) (tr_events t'))"

abbreviation amem_le :: "(string \<Rightarrow> string) \<Rightarrow> audit_memory \<Rightarrow> audit_memory \<Rightarrow> bool" where
  "amem_le h \<equiv> table_le (extends h)"

lemmas amem_ok_def = table_ok_def
lemmas amem_le_def = table_le_def

lemma extends_refl: "extends h t t"
  by (simp add: extends_def)

lemma extends_trans: "extends h t u \<Longrightarrow> extends h u v \<Longrightarrow> extends h t v"
  unfolding extends_def by (metis prefix_order.trans)

lemma amem_le_refl: "amem_le h m m"
  by (rule table_le_refl) (rule extends_refl)

lemma amem_le_trans: "amem_le h m n \<Longrightarrow> amem_le h n l \<Longrightarrow> amem_le h m l"
  by (rule table_le_trans) (rule extends_trans)

lemma amem_create_Inr:
  "amem_create t m = Inr m' \<Longrightarrow> (map_of m (tr_id t) = None \<and> m' = AList.update (tr_id t) t m)
     \<or> (map_of m (tr_id t) = Some t \<and> m' = m)"
  by (auto simp: amem_create_def req_Inr split: option.splits)

lemma amem_advance_Inr:
  assumes "amem_advance h t m = Inr m'" "amem_ok h m"
  shows "\<exists>p. map_of m (tr_id t) = Some p \<and> extends h p t \<and> m' = AList.update (tr_id t) t m"
proof -
  obtain p where p: "map_of m (tr_id t) = Some p" using assms(1) by (auto simp: amem_advance_def split: option.splits)
  then have "tr_id p = tr_id t" using assms(2) by (auto simp: amem_ok_def)
  with p assms(1) show ?thesis
    by (auto simp: amem_advance_def Let_def req_Inr extends_def) (metis take_is_prefix length_map)
qed

lemma as_persist_memory: "as_memory (snd (as_persist h io s)) = as_memory s"
  by (simp add: as_persist_def split: sum.splits)

lemma amem_step:
  assumes "amem_ok h m" "trail_ok h t" "amem_create t m = Inr m' \<or> amem_advance h t m = Inr m'"
  shows "amem_ok h m' \<and> amem_le h m m'"
proof -
  have "m' = m \<or> (m' = AList.update (tr_id t) t m \<and> (\<forall>p. map_of m (tr_id t) = Some p \<longrightarrow> extends h p t))"
    using assms(3) amem_create_Inr [of t m m'] amem_advance_Inr [OF _ assms(1), of t m'] by auto
  then show ?thesis
    using table_ok_update [OF assms(1,2)] assms(1)
    by (auto simp: amem_le_refl) (auto simp: amem_le_def update_conv' intro: extends_refl)
qed

lemma audit_step_memory:
  "as_memory (audit_step h c s) = as_memory s \<or>
   (\<exists>t. trail_ok h t \<and> (amem_create t (as_memory s) = Inr (as_memory (audit_step h c s))
      \<or> amem_advance h t (as_memory s) = Inr (as_memory (audit_step h c s))))"
  by (cases c) (auto simp: as_create_def as_advance_def as_persist_memory split: sum.splits if_splits)

interpretation audit_machine:
  guarded_machine "audit_step h" "\<lambda>s :: audit_store. amem_ok h (as_memory s)" "\<lambda>s s'. amem_le h (as_memory s) (as_memory s')" for h
proof
  fix s :: audit_store and c assume ok: "amem_ok h (as_memory s)"
  show "amem_ok h (as_memory (audit_step h c s))" "amem_le h (as_memory s) (as_memory (audit_step h c s))"
    using audit_step_memory [of h c s] amem_step [OF ok] ok by (auto simp: amem_le_refl)
qed (auto intro: amem_le_refl amem_le_trans)

section \<open>Reading and writing the file\<close>

lemma load_trails_ok:
  "load_trails h xs seen m = Inr m' \<Longrightarrow> amem_ok h m \<Longrightarrow> amem_ok h m'"
proof (induction xs arbitrary: seen m)
  case (Cons x xs)
  then obtain t m1 where "trail_from_dict h x = Inr t" "amem_create t m = Inr m1"
    "load_trails h xs (tr_id t # seen) m1 = Inr m'" by (auto simp: bindE_Inr req_Inr)
  with Cons amem_step [OF Cons.prems(2) trail_from_dict_ok] show ?case by blast
qed simp

lemma open_audit_store_ok: "open_audit_store h file = Inr s \<Longrightarrow> amem_ok h (as_memory s) \<and> as_file s = file"
  using load_trails_ok [of h _ "[]" "[]"]
  by (auto simp: open_audit_store_def audits_of_file_def bindE_Inr req_Inr table_ok_Nil
      split: option.splits pyval.splits)

interpretation audit_file:
  stored_records "trail_to_dict h" "trail_from_dict h" "trail_ok h" tr_id "load_trails h" for h
  by unfold_locales (simp_all add: amem_create_def)

lemma audit_text_reopens:
  assumes ok: "amem_ok h m"
  shows "\<exists>text m'. audit_store_text h m = Inr text \<and> audits_of_file h (Some text) = Inr m' \<and> map_of m' = map_of m"
proof -
  note st = audit_file.stored_ok [OF ok]
  have "trimmed k \<and> id_pattern k" if "k \<in> set (amem_trails m)" for k
    using audit_file.stored_key [OF ok, of k] that by (auto simp: amem_trails_def trail_ok_def trail_init_Inr)
  then have "mapE (amem_trail m) (amem_trails m) = Inr (map (map_of m) (amem_trails m))"
    by (auto simp: mapE_Inr_iff list_all2_conv_all_nth amem_trail_def bindE_Inr ident_text_Inr)
  moreover have "map (map_of m) (amem_trails m) = map Some (stored m)"
    using st(3) by (simp add: amem_trails_def)
  moreover have "List.map_filter id (map Some ts) = ts" for ts :: "audit_trail list"
    by (induction ts) (simp_all add: map_filter_simps)
  ultimately have t: "audit_store_text h m = Inr (dumps False (PDict
      [(''schema_version'', PInt 1), (''trails'', PList (map (trail_to_dict h) (stored m)))]) @ ''\<newline>'')"
    by (simp add: audit_store_text_def del: map_map)
  obtain m' where "load_trails h (map norm (map (trail_to_dict h) (stored m))) [] [] = Inr m'" "map_of m' = map_of m"
    using audit_file.stored_reopens [OF ok] by blast
  moreover have "json_ok (PDict [(''schema_version'', PInt 1), (''trails'', PList (map (trail_to_dict h) (stored m)))])"
    using trail_codec.printable_list [OF st(1)] by simp
  ultimately show ?thesis
    unfolding t by (simp add: audits_of_file_def loads_dumps_line is_dict_with_def dget_def)
qed

end
