(* ===== verification/AuditProps.thy ===== *)
theory AuditProps
  imports AuditStore ApprovalSample PolicyProps
begin

text \<open>
  The properties of the audit log: what a trail that is read satisfies, that stored history
  only grows, that the written file reopens, and what a failed write leaves behind.
\<close>

section \<open>A sample trail\<close>

definition sample_entry :: audit_entry where
  "sample_entry =
     \<lparr>ax_event = ''E1'', ax_kind = ''policy.set'', ax_at = ''2024-01-01T00:00:00Z'', ax_actor = ''alice'',
      ax_subject_type = ''policy'', ax_subject = ''P1'', ax_outcome = ''success'', ax_code = ''ok'',
      ax_summary = ''stored'', ax_details = [(''note'', ''x'')]\<rparr>"

definition sample_event :: audit_event where
  "sample_event =
     \<lparr>ae_id = ''E1'', ae_trail = ''T1'', ae_engagement = ''ENG-1'', ae_seq = 0, ae_type = ''policy.set'',
      ae_at = ''2024-01-01T00:00:00Z'', ae_actor = ''alice'', ae_subject_type = ''policy'',
      ae_subject = ''P1'', ae_outcome = ''success'', ae_code = ''ok'', ae_summary = ''stored'',
      ae_details = [(''note'', ''x'')], ae_prev = None\<rparr>"

definition sample_trail :: audit_trail where
  "sample_trail = \<lparr>tr_id = ''T1'', tr_engagement = ''ENG-1'', tr_events = [sample_event]\<rparr>"

lemma sample_trail_created: "trail_create h ''T1'' ''ENG-1'' sample_entry = Inr sample_trail"
proof -
  have "entry_event id ''T1'' ''ENG-1'' 0 sample_entry None = Inr sample_event"
    "ident_text ATE (PStr ''T1'') ''trail_id'' = Inr ''T1''" "ident_text ATE (PStr ''ENG-1'') ''engagement_id'' = Inr ''ENG-1''"
    by code_simp+
  then show ?thesis
    by (simp add: trail_create_def entry_event_def trail_init_def sample_trail_def sample_event_def)
qed

lemma sample_trail_ok: "trail_ok h sample_trail"
  using trail_create_ok [OF sample_trail_created] by simp

section \<open>Trails\<close>

text \<open>Whatever text is read as an audit trail, its events are numbered from zero without a
  gap, have distinct identifiers, name the trail and its engagement, are in chronological order,
  each carries the fingerprint of the one before it, and no detail has a secret-like name.\<close>
lemma audit_trail_read_is_sound:
  assumes "trail_from_json h text = Inr t"
  shows "tr_events t \<noteq> [] \<and> map ae_seq (tr_events t) = map int [0..<length (tr_events t)]
    \<and> distinct (map ae_id (tr_events t))
    \<and> (\<forall>e\<in>set (tr_events t). ae_trail e = tr_id t \<and> ae_engagement e = tr_engagement t)
    \<and> sorted (map (\<lambda>e. time_of (ae_at e)) (tr_events t))
    \<and> chained (audit_fingerprint h) ae_prev None (tr_events t)
    \<and> (\<forall>e\<in>set (tr_events t). \<forall>(k, v)\<in>set (ae_details e). \<not> audit_secret_like k)"
proof -
  have ok: "trail_ok h t" by (rule trail_from_json_ok [OF assms])
  have "\<forall>e\<in>set (tr_events t). \<forall>(k, v)\<in>set (ae_details e). \<not> audit_secret_like k"
    using trail_facts(3) [OF ok]
    by (fastforce simp: list_all_iff audit_event_ok_def audit_event_make_def audit_event_init_Inr audit_details_Inr)
  with trail_facts(1) [OF ok] check_trail_Inr [OF trail_facts(2) [OF ok]] show ?thesis by simp
qed

lemma trail_json_back: "trail_ok h t \<Longrightarrow> trail_from_json h (trail_to_json h t) = Inr t"
  using trail_codec.read_text [of h t False] by (auto simp: trail_from_json_def trail_to_json_def)

lemma audit_trail_read_is_sound_witness:
  "chained (audit_fingerprint id) ae_prev None (tr_events sample_trail)"
  using audit_trail_read_is_sound [OF trail_json_back [OF sample_trail_ok [of id]]] by blast

text \<open>The texts that the fingerprints of a trail's events hash.\<close>

definition audit_texts :: "audit_trail \<Rightarrow> string set" where
  "audit_texts t = (\<lambda>e. dumps False (PDict (audit_event_fields e))) ` set (tr_events t)"

lemma extends_prefix:
  assumes "extends h t t'" "inj_on h (audit_texts t \<union> audit_texts t')"
  shows "prefix (tr_events t) (tr_events t')"
proof -
  let ?f = "audit_fingerprint h" and ?n = "length (tr_events t)"
  have "inj_on ?f (set (tr_events t) \<union> set (tr_events t'))"
    by (rule inj_onI, rule audit_chain.fp_inject [of h "audit_texts t \<union> audit_texts t'"])
      (use assms(2) in \<open>auto simp: audit_texts_def\<close>)
  moreover have "map ?f (tr_events t) = map ?f (take ?n (tr_events t'))"
    using assms(1) by (auto simp: extends_def prefix_def take_map [symmetric])
  ultimately have "tr_events t = take ?n (tr_events t')"
    using inj_on_map_eq_map [of ?f "tr_events t" "take ?n (tr_events t')"]
    by (blast intro: inj_on_subset dest: in_set_takeD)
  then show ?thesis by (metis take_is_prefix)
qed

section \<open>Stores\<close>

text \<open>C14: over any sequence of calls of a store opened on any file, a stored trail is never
  dropped and its events are only extended: the later trail has the same engagement and the
  earlier fingerprints as a prefix, and the earlier events themselves where the hash tells the
  events apart.\<close>
lemma audit_history_append_only:
  assumes "open_audit_store h file = Inr s"
    "map_of (as_memory (fold (audit_step h) cs s)) tid = Some t"
  shows "\<exists>t'. map_of (as_memory (fold (audit_step h) (cs @ ds) s)) tid = Some t' \<and> tr_id t' = tid
    \<and> tr_engagement t' = tr_engagement t
    \<and> prefix (map (audit_fingerprint h) (tr_events t)) (map (audit_fingerprint h) (tr_events t'))
    \<and> (inj_on h (audit_texts t \<union> audit_texts t') \<longrightarrow> prefix (tr_events t) (tr_events t'))"
proof -
  have ok: "amem_ok h (as_memory s)" using open_audit_store_ok [OF assms(1)] by simp
  obtain t' where t': "map_of (as_memory (fold (audit_step h) (cs @ ds) s)) tid = Some t'" "extends h t t'"
    using audit_machine.le_run_between [OF ok, of cs ds] assms(2) unfolding amem_le_def by blast
  moreover have "tr_id t' = tid"
    using audit_machine.inv_run [OF ok, of "cs @ ds"] t'(1) by (auto simp: amem_ok_def)
  ultimately show ?thesis using extends_prefix [OF t'(2)] by (auto simp: extends_def)
qed

lemma as_persist_fails: "\<not> io_write_ok io \<Longrightarrow> \<exists>e. as_persist h io s = (Inl e, s)"
  by (simp add: as_persist_def split: sum.splits)

lemma sample_create:
  "as_memory (fold (audit_step id) [AuCreate io sample_trail] \<lparr>as_memory = [], as_file = None\<rparr>) = [(''T1'', sample_trail)]"
proof -
  have "amem_trail [] ''T1'' = Inr None" by code_simp
  then show ?thesis
    using sample_trail_ok [of id]
    by (simp add: as_create_def amem_create_def as_persist_memory) (simp add: sample_trail_def amem_create_def as_persist_memory)
qed

lemma audit_history_append_only_witness:
  "\<exists>t'. map_of (as_memory (fold (audit_step id) ([AuCreate io_fine sample_trail] @ [AuAdvance io_fine sample_trail])
      \<lparr>as_memory = [], as_file = None\<rparr>)) ''T1'' = Some t' \<and> prefix (tr_events sample_trail) (tr_events t')"
proof -
  have o: "open_audit_store id None = Inr \<lparr>as_memory = [], as_file = None\<rparr>"
    by (simp add: open_audit_store_def audits_of_file_def)
  have "map_of (as_memory (fold (audit_step id) [AuCreate io_fine sample_trail] \<lparr>as_memory = [], as_file = None\<rparr>)) ''T1''
      = Some sample_trail" by (simp only: sample_create) simp
  from audit_history_append_only [OF o this, of "[AuAdvance io_fine sample_trail]"] show ?thesis
    by (auto simp: sample_trail_ok)
qed

text \<open>When the audit store writes its file, opening the written file gives the same trail
  under every identifier.\<close>
lemma audit_file_reopens:
  assumes "amem_ok h (as_memory s)" "as_persist h io s = (Inr u, s')"
  shows "\<exists>r. open_audit_store h (as_file s') = Inr r \<and> map_of (as_memory r) = map_of (as_memory s)"
proof -
  obtain content m where "audit_store_text h (as_memory s) = Inr content" "audits_of_file h (Some content) = Inr m"
    "map_of m = map_of (as_memory s)"
    using audit_text_reopens [OF assms(1)] by blast
  with assms(2) show ?thesis
    by (auto simp: as_persist_def open_audit_store_def split: if_splits sum.splits)
qed

lemma audit_file_reopens_witness:
  "\<exists>r. open_audit_store id (as_file (snd (as_persist id io_fine \<lparr>as_memory = [(''T1'', sample_trail)], as_file = None\<rparr>))) = Inr r
     \<and> map_of (as_memory r) ''T1'' = Some sample_trail"
proof -
  let ?s = "\<lparr>as_memory = [(''T1'', sample_trail)], as_file = None\<rparr> :: audit_store"
  have ok: "amem_ok id (as_memory ?s)" by (simp add: amem_ok_def sample_trail_ok) (simp add: sample_trail_def)
  obtain content where "audit_store_text id (as_memory ?s) = Inr content" using audit_text_reopens [OF ok] by blast
  then have "as_persist id io_fine ?s = (Inr (), snd (as_persist id io_fine ?s))"
    by (simp add: as_persist_def io_fine_def replace_once_def)
  from audit_file_reopens [OF ok this] show ?thesis by auto
qed

text \<open>Memory is advanced before the file is written and is not restored when the write
  fails: repeating the call that failed reports success for every later input and output
  behaviour, and the file still lacks the new events.\<close>
lemma audit_advance_after_failed_write_is_lost:
  assumes "amem_ok h (as_memory s)" "trail_ok h t" "amem_advance h t (as_memory s) = Inr m"
    "map_of (as_memory s) (tr_id t) \<noteq> Some t" "\<not> io_write_ok io"
  shows "\<exists>e s'. as_advance h io t s = (Inl e, s') \<and> as_file s' = as_file s
    \<and> map_of (as_memory s') (tr_id t) = Some t \<and> (\<forall>io'. as_advance h io' t s' = (Inr (), s'))"
proof -
  let ?s = "s\<lparr>as_memory := m\<rparr>"
  have i: "trimmed (tr_id t)" "id_pattern (tr_id t)" using assms(2) by (auto simp: trail_ok_def trail_init_Inr)
  obtain p where p: "map_of (as_memory s) (tr_id t) = Some p" and m: "m = AList.update (tr_id t) t (as_memory s)"
    using amem_advance_Inr [OF assms(3,1)] by blast
  obtain e where "as_persist h io ?s = (Inl e, ?s)"
    using as_persist_fails [OF assms(5)] by blast
  then have "as_advance h io t s = (Inl e, ?s)"
    using assms(3,4) i p by (simp add: as_advance_def amem_trail_def ident_text_def required_text_PStr)
  moreover have t: "map_of m (tr_id t) = Some t" by (simp add: m update_conv')
  moreover have "AList.update (tr_id t) t m = m" unfolding m by simp
  then have "amem_advance h t m = Inr m" using t by (simp add: amem_advance_def)
  then have "as_advance h io' t ?s = (Inr (), ?s)" for io'
    using i t by (simp add: as_advance_def amem_trail_def ident_text_def required_text_PStr)
  ultimately show ?thesis by auto
qed

definition sample_second :: audit_event where
  "sample_second = sample_event\<lparr>ae_id := ''E2'', ae_seq := 1, ae_prev := Some (audit_fingerprint toy_hash sample_event)\<rparr>"

definition longer_trail :: audit_trail where
  "longer_trail = sample_trail\<lparr>tr_events := [sample_event, sample_second]\<rparr>"

lemma longer_trail_ok: "trail_ok toy_hash longer_trail"
proof -
  have "audit_event_ok (sample_event\<lparr>ae_id := ''E2'', ae_seq := 1\<rparr>)" by code_simp
  then have "audit_event_ok sample_second"
    using toy_hash_ok
    by (simp add: sample_second_def audit_event_ok_def audit_event_make_def audit_event_init_Inr
        audit_fingerprint_def fingerprint_def)
  with sample_trail_ok [of toy_hash] show ?thesis
    by (simp add: trail_ok_def trail_init_Inr longer_trail_def req_Inr sample_trail_def)
      (simp add: sample_event_def sample_second_def)
qed

lemma audit_advance_after_failed_write_is_lost_witness:
  "\<exists>s'. as_advance toy_hash io_fine longer_trail s' = (Inr (), s') \<and> as_file s' = None"
proof -
  let ?s = "\<lparr>as_memory = [(''T1'', sample_trail)], as_file = None\<rparr> :: audit_store"
  have ok: "amem_ok toy_hash (as_memory ?s)" by (simp add: amem_ok_def sample_trail_ok) (simp add: sample_trail_def)
  have "amem_advance toy_hash longer_trail (as_memory ?s) = Inr [(''T1'', longer_trail)]"
    "map_of (as_memory ?s) (tr_id longer_trail) \<noteq> Some longer_trail" "\<not> io_write_ok (io_fine\<lparr>io_write_ok := False\<rparr>)"
    by (simp_all add: amem_advance_def longer_trail_def sample_trail_def)
  from audit_advance_after_failed_write_is_lost [OF ok longer_trail_ok this] show ?thesis by auto
qed

end
