(* ===== verification/ActionLedger.thy ===== *)
theory ActionLedger
  imports Interfaces
begin

text \<open>
  \<^verbatim>\<open>nightrecon_red_engine/atomic_action_ledger.py\<close>: the reservation ledger.  The two SQLite
  tables are an association list from engagements to their row and the list of reserved pairs.
  A method runs its statements in one transaction: it commits when the body returns and
  restores the tables when the body raises.  A database that stays locked for ten seconds
  raises before anything is read and is not modelled.
\<close>

section \<open>Transactions\<close>

text \<open>\<^verbatim>\<open>with self._connect() as db: db.execute("BEGIN IMMEDIATE"); body\<close>\<close>

definition transaction :: "('s \<Rightarrow> ('r \<times> 's) res) \<Rightarrow> 's \<Rightarrow> 'r res \<times> 's" where
  "transaction body s = (case body s of Inl e \<Rightarrow> (Inl e, s) | Inr (r, s') \<Rightarrow> (Inr r, s'))"

text \<open>Integers that can be bound to a statement.\<close>

definition sql_int :: "int \<Rightarrow> bool" where
  "sql_int i = (- (2 ^ 63) \<le> i \<and> i < 2 ^ 63)"

lemma transaction_raises: "transaction body s = (Inl e, s') \<Longrightarrow> s' = s"
  by (auto simp: transaction_def split: sum.splits prod.splits)

lemma transaction_returns: "transaction body s = (Inr r, s') \<longleftrightarrow> body s = Inr (r, s')"
  by (auto simp: transaction_def split: sum.splits prod.splits)

lemma map_sum_raises [simp]: "map_sum id f x = Inl e \<longleftrightarrow> x = Inl e"
  by (cases x) auto

section \<open>The ledger\<close>

record limit_row =
  lr_limit :: int
  lr_used :: int
  lr_revoked :: bool

record ledger =
  lg_limits :: "(string \<times> limit_row) list"
  lg_reserved :: "(string \<times> string) list"

record reservation =
  rs_engagement :: string
  rs_action :: string
  rs_used :: int
  rs_limit :: int

definition new_ledger :: ledger where
  "new_ledger = \<lparr>lg_limits = [], lg_reserved = []\<rparr>"

definition put_limit :: "string \<Rightarrow> int \<Rightarrow> bool \<Rightarrow> ledger \<Rightarrow> ledger" where
  "put_limit eid limit revoked s =
     s\<lparr>lg_limits := AList.update eid
       (case map_of (lg_limits s) eid of
          None \<Rightarrow> \<lparr>lr_limit = limit, lr_used = 0, lr_revoked = revoked\<rparr>
        | Some r \<Rightarrow> r\<lparr>lr_limit := min (lr_limit r) limit, lr_revoked := lr_revoked r \<or> revoked\<rparr>)
       (lg_limits s)\<rparr>"

definition provision :: "string \<Rightarrow> int \<Rightarrow> bool \<Rightarrow> ledger \<Rightarrow> unit res \<times> ledger" where
  "provision eid limit revoked s =
     (if eid = [] \<or> limit < 1 then (Inl (ValueError ''Invalid action ledger configuration''), s)
      else transaction (\<lambda>s. req (sql_int limit) OverflowError (Inr ((), put_limit eid limit revoked s))) s)"

definition ledger_revoke :: "string \<Rightarrow> ledger \<Rightarrow> unit res \<times> ledger" where
  "ledger_revoke eid s =
     transaction (\<lambda>s. Inr ((),
       s\<lparr>lg_limits := AList.map_entry eid (\<lambda>r. r\<lparr>lr_revoked := True\<rparr>) (lg_limits s)\<rparr>)) s"

text \<open>The first \<^verbatim>\<open>UPDATE\<close>: the policy of the caller may only tighten the row.\<close>

definition tighten :: "string \<Rightarrow> int option \<Rightarrow> int \<Rightarrow> ledger \<Rightarrow> ledger res" where
  "tighten eid policy_limit policy_used s =
     (case policy_limit of
        None \<Rightarrow> Inr s
      | Some l \<Rightarrow>
          req (sql_int l \<and> sql_int policy_used) OverflowError
            (Inr (s\<lparr>lg_limits := AList.map_entry eid
               (\<lambda>r. r\<lparr>lr_limit := min (lr_limit r) l, lr_used := max (lr_used r) policy_used\<rparr>) (lg_limits s)\<rparr>)))"

definition reserve_body ::
  "string \<Rightarrow> string \<Rightarrow> int option \<Rightarrow> int \<Rightarrow> ledger \<Rightarrow> (reservation \<times> ledger) res" where
  "reserve_body eid aid policy_limit policy_used s0 =
     bindE (tighten eid policy_limit policy_used s0) (\<lambda>s.
     case map_of (lg_limits s) eid of
       None \<Rightarrow> Inl (PermissionError ''Engagement action ledger unavailable or revoked'')
     | Some row \<Rightarrow>
         req (\<not> lr_revoked row) (PermissionError ''Engagement action ledger unavailable or revoked'')
        (req ((eid, aid) \<notin> set (lg_reserved s)) (PermissionError ''Action identifier already reserved'')
        (req (lr_used row < lr_limit row) (PermissionError ''Engagement action budget exhausted'')
        (Inr (\<lparr>rs_engagement = eid, rs_action = aid, rs_used = lr_used row + 1, rs_limit = lr_limit row\<rparr>,
              s\<lparr>lg_limits := AList.map_entry eid (\<lambda>r. r\<lparr>lr_used := lr_used r + 1\<rparr>) (lg_limits s),
                lg_reserved := lg_reserved s @ [(eid, aid)]\<rparr>)))))"

definition reserve ::
  "string \<Rightarrow> string \<Rightarrow> int option \<Rightarrow> int \<Rightarrow> bool \<Rightarrow> ledger \<Rightarrow> reservation res \<times> ledger" where
  "reserve eid aid policy_limit policy_used policy_revoked s =
     (if eid = [] \<or> aid = [] \<or> 128 < length aid then (Inl (ValueError ''Invalid reservation identity''), s)
      else if (case policy_limit of None \<Rightarrow> False | Some l \<Rightarrow> l < 1) then (Inl (ValueError ''Invalid policy limit''), s)
      else if policy_used < 0 then (Inl (ValueError ''Invalid policy usage''), s)
      else if policy_revoked then (Inl (PermissionError ''Engagement policy revoked''), s)
      else transaction (reserve_body eid aid policy_limit policy_used) s)"

section \<open>The ledger as an atomic machine\<close>

datatype ledger_call =
    Provision string int bool
  | LedgerRevoke string
  | Reserve string string "int option" int bool

fun ledger_op :: "ledger_call \<Rightarrow> ledger \<Rightarrow> reservation option res \<times> ledger" where
  "ledger_op (Provision eid limit revoked) s = map_prod (map_sum id (\<lambda>_. None)) id (provision eid limit revoked s)"
| "ledger_op (LedgerRevoke eid) s = map_prod (map_sum id (\<lambda>_. None)) id (ledger_revoke eid s)"
| "ledger_op (Reserve eid aid pl pu pr) s = map_prod (map_sum id Some) id (reserve eid aid pl pu pr s)"

abbreviation ledger_row :: "ledger \<Rightarrow> string \<Rightarrow> limit_row option" where
  "ledger_row s \<equiv> map_of (lg_limits s)"

definition reserved_ids :: "ledger \<Rightarrow> string \<Rightarrow> string list" where
  "reserved_ids s eid = map snd (filter (\<lambda>(e, _). e = eid) (lg_reserved s))"

definition ledger_inv :: "ledger \<Rightarrow> bool" where
  "ledger_inv s \<longleftrightarrow> distinct (lg_reserved s) \<and>
     (\<forall>eid. case ledger_row s eid of
        None \<Rightarrow> reserved_ids s eid = []
      | Some r \<Rightarrow> 1 \<le> lr_limit r \<and> int (length (reserved_ids s eid)) \<le> lr_used r)"

definition row_le :: "limit_row \<Rightarrow> limit_row \<Rightarrow> bool" where
  "row_le r r' \<longleftrightarrow> lr_limit r' \<le> lr_limit r \<and> lr_used r \<le> lr_used r'
     \<and> lr_used r' \<le> max (lr_used r) (lr_limit r) \<and> (lr_revoked r \<longrightarrow> lr_revoked r')"

definition ledger_le :: "ledger \<Rightarrow> ledger \<Rightarrow> bool" where
  "ledger_le s t \<longleftrightarrow> prefix (lg_reserved s) (lg_reserved t) \<and>
     (\<forall>eid r. ledger_row s eid = Some r \<longrightarrow> (\<exists>r'. ledger_row t eid = Some r' \<and> row_le r r'
        \<and> (lr_revoked r \<longrightarrow> reserved_ids t eid = reserved_ids s eid)))"

lemma row_le_refl: "row_le r r"
  by (simp add: row_le_def)

lemma row_le_trans: "row_le r s \<Longrightarrow> row_le s t \<Longrightarrow> row_le r t"
  by (auto simp: row_le_def)

lemma ledger_le_trans: "ledger_le s t \<Longrightarrow> ledger_le t u \<Longrightarrow> ledger_le s u"
  unfolding ledger_le_def by (metis prefix_order.trans row_le_trans row_le_def)

lemma tighten_Inr:
  assumes "tighten eid pl pu s = Inr t"
  shows "lg_reserved t = lg_reserved s \<and> (\<forall>k. k \<noteq> eid \<longrightarrow> ledger_row t k = ledger_row s k) \<and>
    (case ledger_row s eid of None \<Rightarrow> ledger_row t eid = None
     | Some r \<Rightarrow> \<exists>r'. ledger_row t eid = Some r' \<and> lr_limit r' \<le> lr_limit r \<and> lr_used r \<le> lr_used r'
         \<and> lr_revoked r' = lr_revoked r)"
  using assms
  by (auto simp: tighten_def req_Inr AList.map_of_map_entry split: option.splits)

text \<open>What a successful reservation did, seen from the row before it.\<close>

lemma reserve_Inr:
  assumes "reserve eid aid pl pu pr s = (Inr x, t)"
  shows "\<exists>r r'. ledger_row s eid = Some r \<and> ledger_row t = (ledger_row s)(eid \<mapsto> r') \<and>
    \<not> lr_revoked r \<and> \<not> lr_revoked r' \<and> lr_limit r' \<le> lr_limit r \<and> lr_used r < lr_used r' \<and> lr_used r' \<le> lr_limit r' \<and>
    (eid, aid) \<notin> set (lg_reserved s) \<and> lg_reserved t = lg_reserved s @ [(eid, aid)] \<and>
    rs_used x = lr_used r' \<and> rs_limit x = lr_limit r' \<and> \<not> pr"
proof -
  have b: "reserve_body eid aid pl pu s = Inr (x, t)" and pr: "\<not> pr"
    using assms by (auto simp: reserve_def transaction_returns split: if_splits)
  then obtain u row where u: "tighten eid pl pu s = Inr u" "ledger_row u eid = Some row" "\<not> lr_revoked row"
    "(eid, aid) \<notin> set (lg_reserved u)" "lr_used row < lr_limit row"
    "x = \<lparr>rs_engagement = eid, rs_action = aid, rs_used = lr_used row + 1, rs_limit = lr_limit row\<rparr>"
    "t = u\<lparr>lg_limits := AList.map_entry eid (\<lambda>r. r\<lparr>lr_used := lr_used r + 1\<rparr>) (lg_limits u),
           lg_reserved := lg_reserved u @ [(eid, aid)]\<rparr>"
    by (auto simp: reserve_body_def bindE_Inr req_Inr split: option.splits)
  from tighten_Inr [OF u(1)] u(2) obtain r where r: "ledger_row s eid = Some r" "lr_limit row \<le> lr_limit r"
    "lr_used r \<le> lr_used row" "lr_revoked row = lr_revoked r" "lg_reserved u = lg_reserved s"
    "\<forall>k. k \<noteq> eid \<longrightarrow> ledger_row u k = ledger_row s k"
    by (auto split: option.splits)
  have "ledger_row t = (ledger_row s)(eid \<mapsto> row\<lparr>lr_used := lr_used row + 1\<rparr>)"
    using u(2,7) r(6) by (auto simp: AList.map_of_map_entry fun_eq_iff)
  with u r pr show ?thesis by (intro exI [of _ r] exI [of _ "row\<lparr>lr_used := lr_used row + 1\<rparr>"]) auto
qed

lemma reserved_ids_snoc:
  "reserved_ids (s\<lparr>lg_limits := l, lg_reserved := lg_reserved s @ [(e, a)]\<rparr>) k =
     reserved_ids s k @ (if k = e then [a] else [])"
  by (simp add: reserved_ids_def)

lemma reserve_step:
  assumes "reserve eid aid pl pu pr s = (Inr x, t)" "ledger_inv s"
  shows "ledger_inv t \<and> ledger_le s t"
proof -
  obtain r r' where r: "ledger_row s eid = Some r" "ledger_row t = (ledger_row s)(eid \<mapsto> r')"
    "\<not> lr_revoked r" "lr_limit r' \<le> lr_limit r" "lr_used r < lr_used r'" "lr_used r' \<le> lr_limit r'"
    "(eid, aid) \<notin> set (lg_reserved s)" "lg_reserved t = lg_reserved s @ [(eid, aid)]"
    using reserve_Inr [OF assms(1)] by blast
  have ids: "reserved_ids t k = reserved_ids s k @ (if k = eid then [aid] else [])" for k
    by (simp add: reserved_ids_def r(8))
  have inv: "case ledger_row s k of None \<Rightarrow> reserved_ids s k = []
      | Some r \<Rightarrow> 1 \<le> lr_limit r \<and> int (length (reserved_ids s k)) \<le> lr_used r" for k
    using assms(2) unfolding ledger_inv_def by blast
  have u: "0 \<le> lr_used r" "1 \<le> lr_limit r" "int (length (reserved_ids s eid)) \<le> lr_used r" using inv [of eid] r(1) by auto
  have "case ledger_row t k of None \<Rightarrow> reserved_ids t k = []
      | Some r \<Rightarrow> 1 \<le> lr_limit r \<and> int (length (reserved_ids t k)) \<le> lr_used r" for k
    using r u inv [of k] unfolding ids by (auto split: option.splits)
  moreover have "distinct (lg_reserved t)" using assms(2) r by (simp add: ledger_inv_def)
  ultimately have "ledger_inv t" by (simp add: ledger_inv_def)
  moreover have "ledger_le s t"
    using r unfolding ledger_le_def ids by (auto simp: row_le_def)
  ultimately show ?thesis by simp
qed

lemma provision_step:
  assumes "ledger_inv s" "1 \<le> limit"
  shows "ledger_inv (put_limit eid limit rv s) \<and> ledger_le s (put_limit eid limit rv s)"
proof -
  let ?t = "put_limit eid limit rv s"
  have rows: "ledger_row ?t = (ledger_row s)(eid \<mapsto> (case ledger_row s eid of
      None \<Rightarrow> \<lparr>lr_limit = limit, lr_used = 0, lr_revoked = rv\<rparr>
    | Some r \<Rightarrow> r\<lparr>lr_limit := min (lr_limit r) limit, lr_revoked := lr_revoked r \<or> rv\<rparr>))"
    by (simp add: put_limit_def update_conv')
  have ids: "reserved_ids ?t = reserved_ids s" "lg_reserved ?t = lg_reserved s"
    by (simp_all add: put_limit_def reserved_ids_def fun_eq_iff)
  have "ledger_inv ?t"
    using assms unfolding ledger_inv_def ids rows by (auto split: option.splits dest: spec [of _ eid])
  moreover have "ledger_le s ?t"
    unfolding ledger_le_def ids rows by (auto simp: row_le_def split: option.splits)
  ultimately show ?thesis by simp
qed

lemma revoke_step:
  assumes "ledger_inv s" "ledger_revoke eid s = (Inr x, t)"
  shows "ledger_inv t \<and> ledger_le s t \<and> (\<forall>r. ledger_row t eid = Some r \<longrightarrow> lr_revoked r)"
proof -
  have t: "t = s\<lparr>lg_limits := AList.map_entry eid (\<lambda>r. r\<lparr>lr_revoked := True\<rparr>) (lg_limits s)\<rparr>"
    using assms(2) by (simp add: ledger_revoke_def transaction_def)
  have ids: "reserved_ids t = reserved_ids s" "lg_reserved t = lg_reserved s"
    by (simp_all add: t reserved_ids_def fun_eq_iff)
  have rows: "ledger_row t k = (if k = eid then map_option (\<lambda>r. r\<lparr>lr_revoked := True\<rparr>) (ledger_row s k) else ledger_row s k)" for k
    by (simp add: t AList.map_of_map_entry split: option.splits)
  have "ledger_inv t"
    using assms(1) unfolding ledger_inv_def ids rows by (auto split: option.splits if_splits dest: spec [of _ eid])
  moreover have "ledger_le s t"
    unfolding ledger_le_def ids rows by (auto simp: row_le_def)
  ultimately show ?thesis by (auto simp: rows)
qed

interpretation ledger_machine: atomic_machine ledger_op ledger_inv ledger_le
proof
  fix s s' a e assume "ledger_op a s = (Inl e, s')"
  then show "s' = s"
    by (cases a) (auto simp: provision_def ledger_revoke_def reserve_def map_prod_def split: prod.splits if_splits
      sum.splits dest: transaction_raises)
next
  fix s s' a r assume inv: "ledger_inv s" and op: "ledger_op a s = (Inr r, s')"
  have "ledger_inv s' \<and> ledger_le s s'"
  proof (cases a)
    case (Provision eid limit rv)
    with op have "1 \<le> limit" "s' = put_limit eid limit rv s"
      by (auto simp: provision_def map_prod_def transaction_def req_def split: if_splits)
    with provision_step [OF inv] show ?thesis by simp
  next
    case (LedgerRevoke eid)
    with op have "ledger_revoke eid s = (Inr (), s')"
      by (auto simp: ledger_revoke_def map_prod_def transaction_def)
    with revoke_step [OF inv] show ?thesis by blast
  next
    case (Reserve eid aid pl pu pr)
    with op obtain x where "reserve eid aid pl pu pr s = (Inr x, s')"
      by (cases "reserve eid aid pl pu pr s"; cases "fst (reserve eid aid pl pu pr s)") auto
    with reserve_step [OF _ inv] show ?thesis by blast
  qed
  then show "ledger_inv s'" "ledger_le s s'" by simp_all
next
  show "ledger_le s s" for s by (simp add: ledger_le_def row_le_refl)
  show "ledger_le s t \<Longrightarrow> ledger_le t u \<Longrightarrow> ledger_le s u" for s t u by (rule ledger_le_trans)
qed

end
