(* ===== verification/PolicyAuthority.thy ===== *)
theory PolicyAuthority
  imports ActionLedger PolicyStore
begin

text \<open>
  \<^verbatim>\<open>nightrecon_red_engine/transactional_policy_authority.py\<close>: policies, their engagement
  status and spent budget in one SQLite table, and the reserved action identifiers in another.
  The column \<^verbatim>\<open>policy_json\<close> is the JSON value it encodes.  The clock, the hash of the imported
  file and the text of the file are arguments.
\<close>

section \<open>Tables\<close>

record authority_row =
  ar_policy :: pyval
  ar_status :: string
  ar_used :: int
  ar_revision :: int

record authority =
  pa_rows :: "(string \<times> authority_row) list"
  pa_reserved :: "(string \<times> string) list"
  pa_imports :: "(string \<times> int \<times> string list \<times> string) list"

record reserved_decision =
  rd_engagement :: string
  rd_action :: string
  rd_used :: int
  rd_remaining :: int

definition new_authority :: authority where
  "new_authority = \<lparr>pa_rows = [], pa_reserved = [], pa_imports = []\<rparr>"

definition engagement_statuses :: "string list" where
  "engagement_statuses = [''planned'', ''active'', ''paused'', ''completed'', ''archived'']"

text \<open>\<^verbatim>\<open>d[key] = value\<close> on a decoded object.\<close>

definition dict_set :: "string \<Rightarrow> pyval \<Rightarrow> pyval \<Rightarrow> pyval" where
  "dict_set k v d = PDict (AList.update k v (dict_items d))"

section \<open>Operations\<close>

definition insert_policy :: "exec_policy \<Rightarrow> string \<Rightarrow> authority \<Rightarrow> authority res" where
  "insert_policy p status s =
     req (sql_int (ep_used p)) OverflowError
    (req (map_of (pa_rows s) (ep_engagement p) = None)
         (SqliteError ''UNIQUE constraint failed: engagement_authority.engagement_id'')
    (Inr (s\<lparr>pa_rows := pa_rows s @
       [(ep_engagement p,
         \<lparr>ar_policy = policy_to_dict p, ar_status = status, ar_used = ep_used p, ar_revision = 1\<rparr>)]\<rparr>)))"

definition register :: "exec_policy \<Rightarrow> string \<Rightarrow> authority \<Rightarrow> unit res \<times> authority" where
  "register p status s =
     (if status \<notin> set engagement_statuses then (Inl (ValueError ''Invalid engagement status''), s)
      else transaction (\<lambda>s. bindE (insert_policy p status s) (\<lambda>t. Inr ((), t))) s)"

definition update_row :: "string \<Rightarrow> (authority_row \<Rightarrow> authority_row) \<Rightarrow> authority \<Rightarrow> authority" where
  "update_row eid f s =
     s\<lparr>pa_rows := AList.map_entry eid (\<lambda>r. (f r)\<lparr>ar_revision := ar_revision r + 1\<rparr>) (pa_rows s)\<rparr>"

definition authority_set_status :: "string \<Rightarrow> string \<Rightarrow> authority \<Rightarrow> unit res \<times> authority" where
  "authority_set_status eid status s =
     (if status \<notin> set engagement_statuses then (Inl (ValueError ''Invalid engagement status''), s)
      else transaction (\<lambda>s.
        req (map_of (pa_rows s) eid \<noteq> None) (KeyError ''Engagement not found'')
          (Inr ((), update_row eid (\<lambda>r. r\<lparr>ar_status := status\<rparr>) s))) s)"

definition authority_revoke :: "string \<Rightarrow> authority \<Rightarrow> unit res \<times> authority" where
  "authority_revoke eid s =
     transaction (\<lambda>s.
       case map_of (pa_rows s) eid of
         None \<Rightarrow> Inl (KeyError ''Engagement not found'')
       | Some row \<Rightarrow>
           Inr ((), update_row eid (\<lambda>r. r\<lparr>ar_policy := dict_set ''revoked'' (PBool True) (ar_policy row)\<rparr>) s)) s"

text \<open>The policy of a row with the budget spent so far.\<close>

definition row_policy :: "authority_row \<Rightarrow> exec_policy res" where
  "row_policy row = policy_from_dict (dict_set ''actions_used'' (PInt (ar_used row)) (ar_policy row))"

definition authority_reserve ::
  "string \<Rightarrow> string \<Rightarrow> action \<Rightarrow> pydt \<Rightarrow> authority \<Rightarrow> reserved_decision res \<times> authority" where
  "authority_reserve eid aid a now s =
     (if aid = [] \<or> 128 < length aid then (Inl (ValueError ''Invalid action identifier''), s)
      else transaction (\<lambda>s.
        case map_of (pa_rows s) eid of
          None \<Rightarrow> Inl (PermissionError ''Engagement not registered'')
        | Some row \<Rightarrow>
            bindE (row_policy row) (\<lambda>p.
            bindE (evaluate_action p (Some (ar_status row)) a now) (\<lambda>d.
            req (de_allowed d) (PermissionError (de_code d))
           (req ((eid, aid) \<notin> set (pa_reserved s)) (PermissionError ''Duplicate action identifier'')
           (Inr (\<lparr>rd_engagement = eid, rd_action = aid, rd_used = ar_used row + 1,
                  rd_remaining = ep_max_actions p - ar_used row - 1\<rparr>,
                 update_row eid (\<lambda>r. r\<lparr>ar_used := ar_used r + 1\<rparr>)
                   (s\<lparr>pa_reserved := pa_reserved s @ [(eid, aid)]\<rparr>))))))) s)"

definition validate_reserved :: "string \<Rightarrow> string \<Rightarrow> action \<Rightarrow> pydt \<Rightarrow> authority \<Rightarrow> unit res \<times> authority" where
  "validate_reserved eid aid a now s =
     transaction (\<lambda>s.
       case map_of (pa_rows s) eid of
         None \<Rightarrow> Inl (PermissionError ''Engagement unavailable'')
       | Some row \<Rightarrow>
           req ((eid, aid) \<in> set (pa_reserved s)) (PermissionError ''Action is not reserved'')
          (bindE (row_policy row) (\<lambda>p.
           bindE (evaluate_reserved_action p (Some (ar_status row)) a now) (\<lambda>d.
           req (de_allowed d) (PermissionError (de_code d)) (Inr ((), s)))))) s"

fun insert_policies :: "exec_policy list \<Rightarrow> (string \<times> string) list \<Rightarrow> authority \<Rightarrow> authority res" where
  "insert_policies [] statuses s = Inr s"
| "insert_policies (p # ps) statuses s =
     bindE (insert_policy p (the (map_of statuses (ep_engagement p))) s) (insert_policies ps statuses)"

definition legacy_policies :: "string \<Rightarrow> (string \<times> string) list \<Rightarrow> exec_policy list res" where
  "legacy_policies content statuses =
     (case loads content of
        None \<Rightarrow> Inl (ValueError ''JSONDecodeError'')
      | Some payload \<Rightarrow>
          req (is_dict_with [''schema_version'', ''policies''] payload) (ValueError ''Invalid legacy policy document'')
            (case dget (dict_items payload) ''policies'' of
               PList items \<Rightarrow>
                 req (py_eq_int (dget (dict_items payload) ''schema_version'') 1)
                     (ValueError ''Unsupported legacy policy document'')
                (bindE (mapE policy_from_dict items) (\<lambda>ps.
                 let ids = map ep_engagement ps in
                 req (distinct ids) (ValueError ''Duplicate engagement in legacy policy document'')
                (req (set (map fst statuses) = set ids)
                     (ValueError ''Each imported engagement needs an explicit status'')
                (req (list_all (\<lambda>(_, st). st \<in> set engagement_statuses) statuses)
                     (ValueError ''Invalid imported engagement status'') (Inr ps)))))
             | _ \<Rightarrow> Inl (ValueError ''Unsupported legacy policy document'')))"

definition import_legacy ::
  "(string \<Rightarrow> string) \<Rightarrow> string \<Rightarrow> string \<Rightarrow> (string \<times> string) list \<Rightarrow> authority \<Rightarrow> int res \<times> authority" where
  "import_legacy h at content statuses s =
     (case legacy_policies content statuses of
        Inl e \<Rightarrow> (Inl e, s)
      | Inr ps \<Rightarrow>
          transaction (\<lambda>s.
            bindE (insert_policies ps statuses s) (\<lambda>t.
            Inr (int (length ps),
              t\<lparr>pa_imports := pa_imports t @ [(h content, int (length ps), sort (map ep_engagement ps), at)]\<rparr>))) s)"

section \<open>Well-formed tables\<close>

text \<open>The policy a well-formed row stands for; its stored \<^verbatim>\<open>actions_used\<close> is stale.\<close>

definition row_stands :: "string \<Rightarrow> authority_row \<Rightarrow> exec_policy \<Rightarrow> bool" where
  "row_stands eid row p \<longleftrightarrow> policy_ok p \<and> ep_engagement p = eid \<and>
     (\<exists>u. 0 \<le> u \<and> u \<le> ep_max_actions p \<and> ar_policy row = policy_to_dict (p\<lparr>ep_used := u\<rparr>)) \<and>
     ar_used row = ep_used p"

definition authority_inv :: "authority \<Rightarrow> bool" where
  "authority_inv s \<longleftrightarrow> distinct (pa_reserved s) \<and>
     (\<forall>eid row. map_of (pa_rows s) eid = Some row \<longrightarrow> (\<exists>p. row_stands eid row p))"

lemma dict_set_used: "dict_set ''actions_used'' (PInt n) (policy_to_dict p) = policy_to_dict (p\<lparr>ep_used := n\<rparr>)"
  by (simp add: dict_set_def policy_to_dict_def)

lemma dict_set_revoked: "dict_set ''revoked'' (PBool b) (policy_to_dict p) = policy_to_dict (p\<lparr>ep_revoked := b\<rparr>)"
  by (simp add: dict_set_def policy_to_dict_def)

lemma policy_from_stored: "policy_ok p \<Longrightarrow> policy_from_dict (policy_to_dict p) = Inr p"
  by (simp add: policy_from_dict_def policy_to_dict_def is_dict_with_def legacy_keys_def dget_def policy_ok_def
      policy_make_def)

lemma row_policy_stands: "row_stands eid row p \<Longrightarrow> row_policy row = Inr p"
  by (auto simp: row_stands_def row_policy_def dict_set_used policy_from_stored)

lemma row_of_update:
  "map_of (pa_rows (update_row eid f s)) k =
     (if k = eid then map_option (\<lambda>r. (f r)\<lparr>ar_revision := ar_revision r + 1\<rparr>) (map_of (pa_rows s) k)
      else map_of (pa_rows s) k)"
  by (simp add: update_row_def AList.map_of_map_entry split: option.splits)

lemma update_row_reserved [simp]: "pa_reserved (update_row eid f s) = pa_reserved s"
  by (simp add: update_row_def)

section \<open>The authority as an atomic machine\<close>

datatype authority_call =
    Register exec_policy string
  | SetStatus string string
  | AuthorityRevoke string
  | AuthorityReserve string string action pydt
  | ValidateReserved string string action pydt
  | ImportLegacy string string "(string \<times> string) list"

text \<open>A policy handed to \<^verbatim>\<open>register\<close> has passed its constructor.\<close>

definition unit_op :: "'r res \<times> authority \<Rightarrow> unit res \<times> authority" where
  "unit_op x = (map_sum id (\<lambda>_. ()) (fst x), snd x)"

fun authority_op :: "(string \<Rightarrow> string) \<Rightarrow> authority_call \<Rightarrow> authority \<Rightarrow> unit res \<times> authority" where
  "authority_op h (Register p status) s =
     (case policy_make p of Inl e \<Rightarrow> (Inl e, s) | Inr q \<Rightarrow> register q status s)"
| "authority_op h (SetStatus eid status) s = authority_set_status eid status s"
| "authority_op h (AuthorityRevoke eid) s = authority_revoke eid s"
| "authority_op h (AuthorityReserve eid aid a now) s = unit_op (authority_reserve eid aid a now s)"
| "authority_op h (ValidateReserved eid aid a now) s = validate_reserved eid aid a now s"
| "authority_op h (ImportLegacy at content statuses) s = unit_op (import_legacy h at content statuses s)"

definition authority_le :: "authority \<Rightarrow> authority \<Rightarrow> bool" where
  "authority_le s t \<longleftrightarrow> prefix (pa_reserved s) (pa_reserved t) \<and>
     (\<forall>eid row p. map_of (pa_rows s) eid = Some row \<and> row_stands eid row p \<longrightarrow>
        (\<exists>row' q. map_of (pa_rows t) eid = Some row' \<and> row_stands eid row' q \<and> spends p q))"

lemma authority_le_refl: "authority_le s s"
  by (auto simp: authority_le_def intro: spends_refl)

lemma authority_le_trans: "authority_le s t \<Longrightarrow> authority_le t u \<Longrightarrow> authority_le s u"
  unfolding authority_le_def by (meson prefix_order.trans spends_trans)

lemma row_stands_unique: "row_stands eid row p \<Longrightarrow> row_stands eid row q \<Longrightarrow> p = q"
  using row_policy_stands by (metis Inr_inject)

lemma insert_policy_step:
  assumes "insert_policy p status s = Inr t" "policy_ok p" "authority_inv s"
  shows "authority_inv t \<and> authority_le s t"
proof -
  let ?row = "\<lparr>ar_policy = policy_to_dict p, ar_status = status, ar_used = ep_used p, ar_revision = 1\<rparr>"
  have t: "t = s\<lparr>pa_rows := pa_rows s @ [(ep_engagement p, ?row)]\<rparr>" and
    fresh: "map_of (pa_rows s) (ep_engagement p) = None"
    using assms(1) by (auto simp: insert_policy_def req_Inr)
  have st: "row_stands (ep_engagement p) ?row p"
    using assms(2) by (auto simp: row_stands_def policy_ok_facts policy_facts_def intro!: exI [of _ "ep_used p"])
  have rows: "map_of (pa_rows t) k = (case map_of (pa_rows s) k of
      None \<Rightarrow> if k = ep_engagement p then Some ?row else None | Some r \<Rightarrow> Some r)" for k
    by (auto simp: t map_add_def split: option.splits)
  have "authority_inv t"
    using assms(3) st unfolding authority_inv_def rows by (auto simp: t split: option.splits if_splits)
  moreover have "authority_le s t"
    unfolding authority_le_def rows by (auto simp: t intro: spends_refl)
  ultimately show ?thesis by simp
qed

lemma insert_policies_step:
  "insert_policies ps statuses s = Inr t \<Longrightarrow> list_all policy_ok ps \<Longrightarrow> authority_inv s \<Longrightarrow>
   authority_inv t \<and> authority_le s t"
proof (induction ps arbitrary: s)
  case (Cons p ps)
  then obtain u where u: "insert_policy p (the (map_of statuses (ep_engagement p))) s = Inr u"
    "insert_policies ps statuses u = Inr t" by (auto simp: bindE_Inr)
  with Cons insert_policy_step [OF u(1)] show ?case by (auto intro: authority_le_trans)
qed (simp add: authority_le_refl)

lemma update_row_step:
  assumes "authority_inv s" "map_of (pa_rows s) eid = Some row" "row_stands eid row p"
    "row_stands eid (f row) q" "spends p q"
  shows "authority_inv (update_row eid f s) \<and> authority_le s (update_row eid f s)"
proof -
  have st: "row_stands eid ((f row)\<lparr>ar_revision := n\<rparr>) q" for n using assms(4) by (simp add: row_stands_def)
  have "authority_inv (update_row eid f s)"
    using assms(1,2) st unfolding authority_inv_def row_of_update by auto
  moreover have "\<exists>row' q. map_of (pa_rows (update_row eid f s)) k = Some row' \<and> row_stands k row' q \<and> spends p0 q"
    if k: "map_of (pa_rows s) k = Some row0" "row_stands k row0 p0" for k row0 p0
  proof (cases "k = eid")
    case True
    with k assms(2,3) have "p0 = p" using row_stands_unique by auto
    with True assms(2,5) st show ?thesis by (auto simp: row_of_update)
  next
    case False
    with k show ?thesis by (auto simp: row_of_update intro: spends_refl)
  qed
  ultimately show ?thesis by (simp add: authority_le_def)
qed

lemma legacy_policies_ok: "legacy_policies content statuses = Inr ps \<Longrightarrow> list_all policy_ok ps"
proof -
  assume "legacy_policies content statuses = Inr ps"
  then obtain items where "mapE policy_from_dict items = Inr ps"
    by (auto simp: legacy_policies_def req_Inr bindE_Inr Let_def split: option.splits pyval.splits)
  moreover have "policy_from_dict v = Inr p \<Longrightarrow> policy_ok p" for v p
    by (auto simp: policy_from_dict_def req_Inr bindE_Inr split: pyval.splits dest: policy_init_ok)
  ultimately show ?thesis by (fastforce simp: mapE_Inr_iff list_all2_conv_all_nth list_all_length)
qed

text \<open>What a successful reservation found and did.\<close>

lemma authority_reserve_Inr:
  assumes "authority_reserve eid aid a now s = (Inr r, t)" "authority_inv s"
  obtains row p d where "map_of (pa_rows s) eid = Some row" "row_stands eid row p"
    "evaluate_action p (Some (ar_status row)) a now = Inr d" "de_allowed d" "(eid, aid) \<notin> set (pa_reserved s)"
    "ep_used p < ep_max_actions p"
    "r = \<lparr>rd_engagement = eid, rd_action = aid, rd_used = ep_used p + 1, rd_remaining = ep_max_actions p - ep_used p - 1\<rparr>"
    "t = update_row eid (\<lambda>r. r\<lparr>ar_used := ar_used r + 1\<rparr>) (s\<lparr>pa_reserved := pa_reserved s @ [(eid, aid)]\<rparr>)"
proof -
  obtain row p d where o: "map_of (pa_rows s) eid = Some row" "row_policy row = Inr p"
    "evaluate_action p (Some (ar_status row)) a now = Inr d" "de_allowed d" "(eid, aid) \<notin> set (pa_reserved s)"
    "r = \<lparr>rd_engagement = eid, rd_action = aid, rd_used = ar_used row + 1, rd_remaining = ep_max_actions p - ar_used row - 1\<rparr>"
    "t = update_row eid (\<lambda>r. r\<lparr>ar_used := ar_used r + 1\<rparr>) (s\<lparr>pa_reserved := pa_reserved s @ [(eid, aid)]\<rparr>)"
    using assms(1)
    by (auto simp: authority_reserve_def transaction_returns bindE_Inr req_Inr split: if_splits option.splits)
  obtain p' where p': "row_stands eid row p'" using assms(2) o(1) by (auto simp: authority_inv_def)
  with o(2) row_policy_stands have p: "row_stands eid row p" by (metis Inr_inject)
  then have "policy_ok p" "ar_used row = ep_used p" by (simp_all add: row_stands_def)
  moreover have "ep_used p < ep_max_actions p"
    using evaluate_action_Inr [OF \<open>policy_ok p\<close> o(3)] o(4) by metis
  ultimately show ?thesis using that o p by simp
qed

lemma authority_reserve_step:
  assumes "authority_reserve eid aid a now s = (Inr r, t)" "authority_inv s"
  shows "authority_inv t \<and> authority_le s t"
proof -
  from authority_reserve_Inr [OF assms] obtain row p where o: "map_of (pa_rows s) eid = Some row"
    "row_stands eid row p" "(eid, aid) \<notin> set (pa_reserved s)" "ep_used p < ep_max_actions p"
    "t = update_row eid (\<lambda>r. r\<lparr>ar_used := ar_used r + 1\<rparr>) (s\<lparr>pa_reserved := pa_reserved s @ [(eid, aid)]\<rparr>)" .
  let ?s = "s\<lparr>pa_reserved := pa_reserved s @ [(eid, aid)]\<rparr>" and ?q = "p\<lparr>ep_used := ep_used p + 1\<rparr>"
  have ok: "policy_ok p" "0 \<le> ep_used p" using o(2) by (auto simp: row_stands_def policy_ok_facts policy_facts_def)
  have q: "row_stands eid (row\<lparr>ar_used := ar_used row + 1\<rparr>) ?q"
    using o(2,4) policy_ok_used [OF ok(1), of "ep_used p + 1"] ok(2) by (auto simp: row_stands_def)
  have i: "authority_inv ?s" using assms(2) o(3) by (simp add: authority_inv_def)
  have "authority_le s ?s" by (auto simp: authority_le_def intro: spends_refl)
  moreover have "authority_inv t \<and> authority_le ?s t"
    unfolding o(5)
    by (rule update_row_step [OF i, where row = row and p = p and q = ?q]) (use o(1,2) q in \<open>simp_all add: spends_def\<close>)
  ultimately show ?thesis using authority_le_trans by blast
qed

lemma imports_irrelevant [simp]:
  "authority_inv (u\<lparr>pa_imports := x\<rparr>) = authority_inv u" "authority_le s (u\<lparr>pa_imports := x\<rparr>) = authority_le s u"
  by (simp_all add: authority_inv_def authority_le_def)

lemma authority_call_step:
  assumes "authority_op h c s = (Inr r, t)" "authority_inv s"
  shows "authority_inv t \<and> authority_le s t"
proof (cases c)
  case (Register p status)
  with assms(1) obtain q where "policy_make p = Inr q" "insert_policy q status s = Inr t"
    by (auto simp: register_def transaction_returns bindE_Inr split: sum.splits if_splits)
  with insert_policy_step [OF _ policy_make_Inr assms(2)] show ?thesis by blast
next
  case (SetStatus eid status)
  with assms(1) obtain row where t: "map_of (pa_rows s) eid = Some row" "t = update_row eid (\<lambda>r. r\<lparr>ar_status := status\<rparr>) s"
    by (auto simp: authority_set_status_def transaction_returns req_Inr split: if_splits)
  moreover obtain p where "row_stands eid row p" using assms(2) t(1) by (auto simp: authority_inv_def)
  ultimately show ?thesis
    using update_row_step [OF assms(2) t(1), of p "\<lambda>r. r\<lparr>ar_status := status\<rparr>" p] spends_refl
    by (simp add: row_stands_def)
next
  case (AuthorityRevoke eid)
  with assms(1) obtain row where t: "map_of (pa_rows s) eid = Some row"
    "t = update_row eid (\<lambda>r. r\<lparr>ar_policy := dict_set ''revoked'' (PBool True) (ar_policy row)\<rparr>) s"
    by (auto simp: authority_revoke_def transaction_returns split: option.splits)
  obtain p where p: "row_stands eid row p" using assms(2) t(1) by (auto simp: authority_inv_def)
  have q: "row_stands eid (row\<lparr>ar_policy := dict_set ''revoked'' (PBool True) (ar_policy row)\<rparr>) (p\<lparr>ep_revoked := True\<rparr>)"
  proof -
    from p obtain u where u: "0 \<le> u" "u \<le> ep_max_actions p" "ar_policy row = policy_to_dict (p\<lparr>ep_used := u\<rparr>)"
      by (auto simp: row_stands_def)
    have "policy_to_dict (p\<lparr>ep_used := u, ep_revoked := True\<rparr>) = policy_to_dict (p\<lparr>ep_revoked := True, ep_used := u\<rparr>)"
      by (cases p) simp
    with p u policy_ok_revoked [of p True] show ?thesis by (auto simp: row_stands_def dict_set_revoked)
  qed
  show ?thesis
    unfolding t(2)
    by (rule update_row_step [OF assms(2) t(1) p, where q = "p\<lparr>ep_revoked := True\<rparr>"]) (use q in \<open>simp_all add: spends_def\<close>)
next
  case (AuthorityReserve eid aid a now)
  with assms(1) obtain x where "authority_reserve eid aid a now s = (Inr x, t)"
    by (cases "authority_reserve eid aid a now s"; cases "fst (authority_reserve eid aid a now s)") (auto simp: unit_op_def)
  with authority_reserve_step [OF _ assms(2)] show ?thesis by blast
next
  case (ValidateReserved eid aid a now)
  with assms(1) have "t = s"
    by (auto simp: validate_reserved_def transaction_returns req_Inr bindE_Inr split: option.splits)
  with assms(2) authority_le_refl show ?thesis by simp
next
  case (ImportLegacy at content statuses)
  with assms(1) obtain x where "import_legacy h at content statuses s = (Inr x, t)"
    by (cases "import_legacy h at content statuses s"; cases "fst (import_legacy h at content statuses s)") (auto simp: unit_op_def)
  then obtain ps u where u: "legacy_policies content statuses = Inr ps" "insert_policies ps statuses s = Inr u"
    "t = u\<lparr>pa_imports := pa_imports u @ [(h content, int (length ps), sort (map ep_engagement ps), at)]\<rparr>"
    by (auto simp: import_legacy_def transaction_returns bindE_Inr split: sum.splits)
  with insert_policies_step [OF u(2) legacy_policies_ok [OF u(1)] assms(2)] show ?thesis
    by simp
qed

lemma unit_op_raises [simp]: "unit_op x = (Inl e, t) \<longleftrightarrow> x = (Inl e, t)"
  by (cases x) (simp add: unit_op_def)

lemma authority_call_raises:
  assumes "authority_op h c s = (Inl e, t)"
  shows "t = s"
proof (cases c)
  case (AuthorityReserve eid aid a now)
  with assms show ?thesis by (simp add: authority_reserve_def split: if_splits) (rule transaction_raises)
next
  case (ImportLegacy at content statuses)
  with assms show ?thesis by (simp add: import_legacy_def split: sum.splits) (rule transaction_raises)
qed (use assms in \<open>auto simp: register_def authority_set_status_def authority_revoke_def validate_reserved_def
      split: sum.splits if_splits dest: transaction_raises\<close>)

interpretation authority_machine: atomic_machine "authority_op h" authority_inv authority_le for h
  by unfold_locales
    (blast intro: authority_call_raises authority_le_refl authority_le_trans dest: authority_call_step)+

end
