(* ===== verification/LedgerProps.thy ===== *)
theory LedgerProps
  imports PolicyAuthority PolicyProps
begin






section \<open>The transactional authority\<close>

text \<open>The policy and status that a registered engagement stands for.\<close>

definition authority_view :: "authority \<Rightarrow> string \<Rightarrow> (exec_policy \<times> string) option" where
  "authority_view s eid =
     (case map_of (pa_rows s) eid of
        None \<Rightarrow> None
      | Some row \<Rightarrow> (case row_policy row of Inl _ \<Rightarrow> None | Inr p \<Rightarrow> Some (p, ar_status row)))"

text \<open>Reserving against a policy held in memory: evaluate, then spend one action.\<close>

definition spend_one :: "exec_policy \<times> string \<Rightarrow> action \<Rightarrow> pydt \<Rightarrow> (int \<times> (exec_policy \<times> string)) res" where
  "spend_one v a now =
     bindE (evaluate_action (fst v) (Some (snd v)) a now) (\<lambda>d.
     req (de_allowed d) (PermissionError (de_code d))
       (Inr (de_remaining d - 1, ((fst v)\<lparr>ep_used := ep_used (fst v) + 1\<rparr>, snd v))))"

lemma view_stands:
  assumes "authority_inv s"
  shows "authority_view s eid = Some (p, st) \<longleftrightarrow>
    (\<exists>row. map_of (pa_rows s) eid = Some row \<and> row_stands eid row p \<and> ar_status row = st)"
proof (cases "map_of (pa_rows s) eid")
  case (Some row)
  with assms obtain q where q: "row_stands eid row q" by (auto simp: authority_inv_def)
  then have "row_stands eid row p \<longleftrightarrow> p = q" using row_stands_unique by blast
  with Some row_policy_stands [OF q] show ?thesis by (auto simp: authority_view_def)
qed (simp add: authority_view_def)

lemma authority_reserve_new:
  assumes inv: "authority_inv s" and v: "authority_view s eid = Some v"
    and aid: "aid \<noteq> []" "length aid \<le> 128" "(eid, aid) \<notin> set (pa_reserved s)"
  shows "case spend_one v a now of
      Inl e \<Rightarrow> authority_reserve eid aid a now s = (Inl e, s)
    | Inr (left, v') \<Rightarrow> \<exists>t. authority_reserve eid aid a now s =
          (Inr \<lparr>rd_engagement = eid, rd_action = aid, rd_used = ep_used (fst v'), rd_remaining = left\<rparr>, t)
        \<and> authority_view t = (authority_view s)(eid \<mapsto> v') \<and> pa_reserved t = pa_reserved s @ [(eid, aid)]"
proof -
  obtain p st row where v': "v = (p, st)" and row: "map_of (pa_rows s) eid = Some row" "row_stands eid row p" "ar_status row = st"
    using v view_stands [OF inv] by (cases v) auto
  have ok: "policy_ok p" and used: "ar_used row = ep_used p" using row(2) by (simp_all add: row_stands_def)
  show ?thesis
  proof (cases "evaluate_action p (Some st) a now")
    case (Inl e)
    then show ?thesis
      using row aid by (simp add: spend_one_def v' authority_reserve_def transaction_def row_policy_stands)
  next
    case (Inr d)
    show ?thesis
    proof (cases "de_allowed d")
      case False
      then show ?thesis
        using Inr row aid by (simp add: spend_one_def v' authority_reserve_def transaction_def row_policy_stands)
    next
      case True
      let ?t = "update_row eid (\<lambda>r. r\<lparr>ar_used := ar_used r + 1\<rparr>) (s\<lparr>pa_reserved := pa_reserved s @ [(eid, aid)]\<rparr>)"
      have res: "authority_reserve eid aid a now s = (Inr \<lparr>rd_engagement = eid, rd_action = aid, rd_used = ep_used p + 1,
          rd_remaining = ep_max_actions p - ep_used p - 1\<rparr>, ?t)"
        using Inr True row aid used by (simp add: authority_reserve_def transaction_def row_policy_stands)
      have inv': "authority_inv ?t" using authority_reserve_step [OF res inv] by simp
      have "de_remaining d = ep_max_actions p - ep_used p" and lt: "ep_used p < ep_max_actions p"
        using evaluate_action_Inr [OF ok Inr] True by metis+
      moreover have "authority_view ?t eid = Some (p\<lparr>ep_used := ep_used p + 1\<rparr>, st)"
      proof -
        have "0 \<le> ep_used p" using ok by (simp add: policy_ok_facts policy_facts_def)
        then have "row_stands eid ((row\<lparr>ar_used := ar_used row + 1\<rparr>)\<lparr>ar_revision := n\<rparr>) (p\<lparr>ep_used := ep_used p + 1\<rparr>)" for n
          using row(2) lt policy_ok_used [OF ok, of "ep_used p + 1"] by (auto simp: row_stands_def)
        then show ?thesis using row(1,3) by (simp add: view_stands [OF inv'] row_of_update)
      qed
      moreover have "authority_view ?t k = authority_view s k" if "k \<noteq> eid" for k
        using that by (simp add: authority_view_def row_of_update)
      ultimately show ?thesis
        using res Inr True by (simp add: spend_one_def v' fun_eq_iff)
    qed
  qed
qed

lemma authority_reserve_duplicate:
  assumes inv: "authority_inv s" and v: "authority_view s eid = Some v"
    and aid: "aid \<noteq> []" "length aid \<le> 128" "(eid, aid) \<in> set (pa_reserved s)"
  shows "authority_reserve eid aid a now s =
    (Inl (case spend_one v a now of Inl e \<Rightarrow> e | Inr _ \<Rightarrow> PermissionError ''Duplicate action identifier''), s)"
proof -
  obtain p st row where v': "v = (p, st)" and row: "map_of (pa_rows s) eid = Some row" "row_stands eid row p" "ar_status row = st"
    using v view_stands [OF inv] by (cases v) auto
  show ?thesis
    using row aid by (cases "evaluate_action p (Some st) a now")
      (auto simp: spend_one_def v' authority_reserve_def transaction_def row_policy_stands req_def)
qed

text \<open>C16: a transactional reservation does, on the policy it stands for, exactly what evaluating
  the action and spending one action of the budget does, and other engagements keep theirs.
  Its own errors are an identifier that is empty or longer than 128 characters, an engagement
  that is not registered and, after the evaluation has allowed the action, an identifier
  already reserved; every error leaves the authority unchanged.\<close>
lemma authority_reserve_refines:
  assumes "authority_inv s"
  shows "if aid = [] \<or> 128 < length aid then
      authority_reserve eid aid a now s = (Inl (ValueError ''Invalid action identifier''), s)
    else case authority_view s eid of
      None \<Rightarrow> authority_reserve eid aid a now s = (Inl (PermissionError ''Engagement not registered''), s)
    | Some v \<Rightarrow> (case spend_one v a now of
        Inl e \<Rightarrow> authority_reserve eid aid a now s = (Inl e, s)
      | Inr (left, v') \<Rightarrow>
          if (eid, aid) \<in> set (pa_reserved s) then
            authority_reserve eid aid a now s = (Inl (PermissionError ''Duplicate action identifier''), s)
          else \<exists>t. authority_reserve eid aid a now s =
              (Inr \<lparr>rd_engagement = eid, rd_action = aid, rd_used = ep_used (fst v'), rd_remaining = left\<rparr>, t)
            \<and> authority_view t = (authority_view s)(eid \<mapsto> v') \<and> pa_reserved t = pa_reserved s @ [(eid, aid)])"
proof (cases "aid = [] \<or> 128 < length aid")
  case False
  show ?thesis
  proof (cases "authority_view s eid")
    case None
    then have "map_of (pa_rows s) eid = None"
      using assms row_policy_stands by (fastforce simp: authority_view_def authority_inv_def split: option.splits sum.splits)
    then show ?thesis using False None by (simp add: authority_reserve_def transaction_def)
  next
    case (Some v)
    then show ?thesis
      using False authority_reserve_new [OF assms Some, of aid a now]
        authority_reserve_duplicate [OF assms Some, of aid a now]
      by (cases "(eid, aid) \<in> set (pa_reserved s)") (auto split: sum.splits)
  qed
qed (simp add: authority_reserve_def)

definition sample_authority :: authority where
  "sample_authority = snd (register sample_policy ''active'' new_authority)"

lemma sample_authority_inv: "authority_inv sample_authority"
proof -
  have "authority_inv new_authority" by (simp add: authority_inv_def new_authority_def)
  moreover have "insert_policy sample_policy ''active'' new_authority = Inr sample_authority"
    by (simp add: sample_authority_def register_def transaction_def engagement_statuses_def insert_policy_def
        new_authority_def sql_int_def sample_policy_def)
  ultimately show ?thesis using insert_policy_step [OF _ sample_ok] by blast
qed

lemma sample_authority_view: "authority_view sample_authority ''ENG-1'' = Some (sample_policy, ''active'')"
proof -
  have "map_of (pa_rows sample_authority) ''ENG-1'' = Some \<lparr>ar_policy = policy_to_dict sample_policy,
      ar_status = ''active'', ar_used = 1, ar_revision = 1\<rparr>"
    by (simp add: sample_authority_def register_def transaction_def engagement_statuses_def insert_policy_def
        new_authority_def sql_int_def sample_policy_def)
  then show ?thesis
    using sample_ok unfolding view_stands [OF sample_authority_inv]
    by (auto simp: row_stands_def sample_policy_def policy_to_dict_def)
qed

lemma authority_reserve_refines_witness:
  "case spend_one (sample_policy, ''active'') sample_action sample_now of
      Inl e \<Rightarrow> authority_reserve ''ENG-1'' ''a1'' sample_action sample_now sample_authority = (Inl e, sample_authority)
    | Inr (left, v') \<Rightarrow> \<exists>t. authority_reserve ''ENG-1'' ''a1'' sample_action sample_now sample_authority =
          (Inr \<lparr>rd_engagement = ''ENG-1'', rd_action = ''a1'', rd_used = ep_used (fst v'), rd_remaining = left\<rparr>, t)
        \<and> authority_view t = (authority_view sample_authority)(''ENG-1'' \<mapsto> v')
        \<and> pa_reserved t = pa_reserved sample_authority @ [(''ENG-1'', ''a1'')]"
proof -
  have "pa_reserved sample_authority = []"
    by (simp add: sample_authority_def register_def transaction_def engagement_statuses_def insert_policy_def
      new_authority_def sql_int_def sample_policy_def)
  with authority_reserve_refines [OF sample_authority_inv, of "''a1''" "''ENG-1''" sample_action sample_now]
  show ?thesis by (auto simp: sample_authority_view simp del: fun_upd_apply split: sum.splits)
qed

text \<open>C17: once an engagement's policy is revoked, no reservation for it is ever granted and no
  reserved action of it validates, whatever calls are made in between.\<close>
lemma authority_revocation_is_final:
  assumes inv: "authority_inv s" and rv: "authority_revoke eid s = (Inr u, s')"
    and t: "t = fold (\<lambda>c s. snd (authority_op h c s)) cs s'"
  shows "\<not> is_ok (fst (authority_reserve eid aid a now t)) \<and> \<not> is_ok (fst (validate_reserved eid aid a now t))"
proof -
  have op: "authority_op h (AuthorityRevoke eid) s = (Inr u, s')" using rv by simp
  have inv': "authority_inv s'" using authority_call_step [OF op inv] by simp
  have le: "authority_le s' t" and invt: "authority_inv t"
    unfolding t using authority_machine.le_run [OF inv'] authority_machine.inv_run [OF inv'] by simp_all
  obtain row where row1: "map_of (pa_rows s) eid = Some row"
    using rv by (auto simp: authority_revoke_def transaction_returns split: option.splits)
  obtain p where row: "map_of (pa_rows s) eid = Some row" "row_stands eid row p"
    using row1 inv by (auto simp: authority_inv_def)
  have "\<exists>row' q. map_of (pa_rows s') eid = Some row' \<and> row_stands eid row' q \<and> ep_revoked q"
  proof -
    from inv' rv row obtain row' q where r: "map_of (pa_rows s') eid = Some row'" "row_stands eid row' q"
      "ar_policy row' = dict_set ''revoked'' (PBool True) (ar_policy row)"
      by (fastforce simp: authority_revoke_def transaction_returns row_of_update authority_inv_def)
    obtain x y where "ar_policy row' = policy_to_dict (q\<lparr>ep_used := x\<rparr>)" "ar_policy row = policy_to_dict (p\<lparr>ep_used := y\<rparr>)"
      using r(2) row(2) by (auto simp: row_stands_def)
    with r(3) have "policy_to_dict (q\<lparr>ep_used := x\<rparr>) = policy_to_dict (p\<lparr>ep_used := y, ep_revoked := True\<rparr>)"
      by (simp add: dict_set_revoked)
    then have "ep_revoked q" by (simp add: policy_to_dict_def)
    with r show ?thesis by blast
  qed
  then obtain row2 q where q: "map_of (pa_rows t) eid = Some row2" "row_stands eid row2 q" "ep_revoked q"
    using le unfolding authority_le_def spends_def by blast
  have ok: "policy_ok q" using q(2) by (simp add: row_stands_def)
  have "\<not> de_allowed d" if "evaluate_action q st a now = Inr d" for st d
    using evaluate_action_Inr [OF ok that] q(3) unfolding may_run_def by metis
  moreover have "\<not> de_allowed d" if e: "evaluate_reserved_action q st a now = Inr d" for st d
  proof -
    obtain tg where tg: "check_request a now = Inr tg" using e by (auto simp: evaluate_reserved_action_def bindE_Inr)
    show ?thesis using evaluate_reserved_run [OF ok tg, of st] e q(3) by (auto simp: may_run_def)
  qed
  ultimately show ?thesis
    using q(1) row_policy_stands [OF q(2)]
    by (auto simp: authority_reserve_def validate_reserved_def transaction_def is_ok_iff bindE_Inr req_Inr
        split: sum.splits prod.splits)
qed

lemma authority_revocation_is_final_witness:
  "\<not> is_ok (fst (authority_reserve ''ENG-1'' ''a1'' sample_action sample_now
      (fold (\<lambda>c s. snd (authority_op id c s)) [SetStatus ''ENG-1'' ''active'']
        (snd (authority_revoke ''ENG-1'' sample_authority)))))"
proof -
  have "map_of (pa_rows sample_authority) ''ENG-1'' \<noteq> None"
    using sample_authority_view by (auto simp: authority_view_def split: option.splits)
  then have "authority_revoke ''ENG-1'' sample_authority = (Inr (), snd (authority_revoke ''ENG-1'' sample_authority))"
    by (auto simp: authority_revoke_def transaction_def)
  from authority_revocation_is_final [OF sample_authority_inv this refl] show ?thesis by blast
qed

end

