(* ===== verification/TaskText.thy ===== *)
theory TaskText
  imports PyDyn
begin

text \<open>
  The input checks of the task controller (\<^verbatim>\<open>tools/task_automation/controller.py\<close>): the typed
  validators of untrusted JSON, the strict JSON reader, repository paths, and the scope test
  on paths.  Every failure is the exception \<open>Rejected\<close>.

  A byte string is a HOL string whose characters are its bytes.  \<open>json_text\<close> decodes it as
  UTF-8, a byte order mark dropped; a text with a code point above 255, the UTF-16 and UTF-32
  forms that \<^verbatim>\<open>json.loads\<close> also detects, and the interpreter's limits on nesting and on the
  digits of an integer are outside the model.
\<close>

section \<open>Guards and typed values\<close>

text \<open>\<^verbatim>\<open>_require(condition, message)\<close>, then the rest.\<close>

definition need :: "bool \<Rightarrow> string \<Rightarrow> 'a res \<Rightarrow> 'a res" where
  "need c msg k = req c (Rejected msg) k"

lemma need_Inr [res_simps]: "need c msg k = Inr y \<longleftrightarrow> c \<and> k = Inr y"
  by (simp add: need_def req_Inr)

lemma need_simps [simp]: "need True msg k = k" "need False msg k = Inl (Rejected msg)"
  by (simp_all add: need_def)

definition keys_exactly :: "string list \<Rightarrow> pyval \<Rightarrow> (string \<times> pyval) list res" where
  "keys_exactly ks v = need (is_dict_with ks v) ''unexpected fields'' (Inr (dict_items v))"

definition integer :: "pyval \<Rightarrow> int \<Rightarrow> int \<Rightarrow> int res" where
  "integer v low high =
     (case v of
        PInt i \<Rightarrow> need (low \<le> i \<and> i \<le> high) ''invalid integer'' (Inr i)
      | _ \<Rightarrow> Inl (Rejected ''invalid integer''))"

definition control_free :: "string \<Rightarrow> bool" where
  "control_free s =
     list_all (\<lambda>c. 32 \<le> (of_char c :: nat) \<or> (of_char c :: nat) = 10 \<or> (of_char c :: nat) = 9) s"

definition text_ok :: "nat \<Rightarrow> string \<Rightarrow> bool" where
  "text_ok maximum s = (strip s \<noteq> [] \<and> length (strip s) \<le> maximum \<and> control_free s)"

definition text_in :: "pyval \<Rightarrow> nat \<Rightarrow> string res" where
  "text_in v maximum =
     (case v of
        PStr s \<Rightarrow>
          need (strip s \<noteq> [] \<and> length (strip s) \<le> maximum) ''invalid text''
         (need (control_free s) ''control character in text'' (Inr s))
      | _ \<Rightarrow> Inl (Rejected ''invalid text''))"

definition hex_digest :: "nat \<Rightarrow> string \<Rightarrow> bool" where
  "hex_digest n s = (length s = n \<and> list_all is_hex_lower s)"

definition sha_in :: "pyval \<Rightarrow> nat \<Rightarrow> string res" where
  "sha_in v n =
     (case v of
        PStr s \<Rightarrow> need (hex_digest n s) ''invalid digest'' (Inr s)
      | _ \<Rightarrow> Inl (Rejected ''invalid digest''))"

definition strings_in :: "pyval \<Rightarrow> nat \<Rightarrow> string list res" where
  "strings_in v maximum =
     (case v of
        PList vs \<Rightarrow>
          need (vs \<noteq> [] \<and> length vs \<le> maximum) ''invalid list''
         (bindE (mapE (\<lambda>w. text_in w 4096) vs) (\<lambda>ss.
          need (distinct ss) ''duplicate list entries'' (Inr ss)))
      | _ \<Rightarrow> Inl (Rejected ''invalid list''))"

lemma keys_exactly_Inr [res_simps]:
  "keys_exactly ks v = Inr d \<longleftrightarrow> v = PDict d \<and> is_dict_with ks (PDict d)"
  by (cases v) (auto simp: keys_exactly_def need_Inr is_dict_with_def)

lemma integer_Inr [res_simps]: "integer v lo hi = Inr i \<longleftrightarrow> v = PInt i \<and> lo \<le> i \<and> i \<le> hi"
  by (auto simp: integer_def need_Inr split: pyval.splits)

lemma text_in_Inr [res_simps]: "text_in v n = Inr s \<longleftrightarrow> v = PStr s \<and> text_ok n s"
  by (auto simp: text_in_def text_ok_def need_Inr split: pyval.splits)

lemma sha_in_Inr [res_simps]: "sha_in v n = Inr s \<longleftrightarrow> v = PStr s \<and> hex_digest n s"
  by (auto simp: sha_in_def need_Inr split: pyval.splits)

definition strings_ok :: "nat \<Rightarrow> string list \<Rightarrow> bool" where
  "strings_ok maximum ss =
     (ss \<noteq> [] \<and> length ss \<le> maximum \<and> distinct ss \<and> list_all (text_ok 4096) ss)"

lemma strings_in_Inr [res_simps]:
  "strings_in v n = Inr ss \<longleftrightarrow> v = PList (map PStr ss) \<and> strings_ok n ss"
proof (cases v)
  case (PList vs)
  have "mapE (\<lambda>w. text_in w 4096) vs = Inr cs \<longleftrightarrow> vs = map PStr cs \<and> list_all (text_ok 4096) cs" for cs
    by (rule mapE_PStr_iff) (simp add: text_in_Inr)
  with PList show ?thesis
    by (simp add: strings_in_def strings_ok_def need_Inr bindE_Inr) (metis length_map map_is_Nil_conv)
qed (simp_all add: strings_in_def)

section \<open>Strict JSON\<close>

fun utf8_decode :: "string \<Rightarrow> string option" where
  "utf8_decode [] = Some []"
| "utf8_decode (b # s) =
     (let n = of_char b :: nat in
      if n < 128 then map_option ((#) b) (utf8_decode s)
      else if n = 194 \<or> n = 195 then
        (case s of
           [] \<Rightarrow> None
         | b' # s' \<Rightarrow>
             (let m = of_char b' :: nat in
              if 128 \<le> m \<and> m < 192
              then map_option ((#) (char_of ((n - 192) * 64 + (m - 128)))) (utf8_decode s')
              else None))
      else None)"

definition json_text :: "string \<Rightarrow> string option" where
  "json_text raw =
     utf8_decode (if take 3 raw = [CHR 0xEF, CHR 0xBB, CHR 0xBF] then drop 3 raw else raw)"

text \<open>No object with a repeated key and no \<^verbatim>\<open>NaN\<close> or infinity, at any depth.\<close>

fun strict_value :: "pyval \<Rightarrow> bool" where
  "strict_value (PList xs) = list_all strict_value xs"
| "strict_value (PDict d) = (distinct (map fst d) \<and> list_all (\<lambda>(k, v). strict_value v) d)"
| "strict_value (PFloat l) = (l \<notin> {''NaN'', ''Infinity'', ''-Infinity''})"
| "strict_value v = True"

definition json_in :: "string \<Rightarrow> nat \<Rightarrow> (string \<times> pyval) list res" where
  "json_in raw maximum =
     need (length raw \<le> maximum) ''JSON size/type limit''
    (case Option.bind (json_text raw) loads_pairs of
       None \<Rightarrow> Inl (Rejected ''invalid JSON'')
     | Some v \<Rightarrow>
         need (strict_value v) ''invalid JSON''
        (case v of
           PDict d \<Rightarrow> Inr d
         | _ \<Rightarrow> Inl (Rejected ''JSON object required'')))"

definition canonical :: "pyval \<Rightarrow> string" where
  "canonical v = dumps True v"

definition digest_of :: "(string \<Rightarrow> string) \<Rightarrow> pyval \<Rightarrow> string" where
  "digest_of h v = h (canonical v)"

section \<open>Repository paths\<close>

fun join_slash :: "string list \<Rightarrow> string" where
  "join_slash [] = []"
| "join_slash [w] = w"
| "join_slash (w # ws) = w @ ''/'' @ join_slash ws"

definition reserved_names :: "string list" where
  "reserved_names =
     [''con'', ''prn'', ''aux'', ''nul''] @
     concat (map (\<lambda>name. map (\<lambda>n. name @ str_nat n) [1..<10]) [''com'', ''lpt''])"

definition path_char :: "char \<Rightarrow> bool" where
  "path_char c = (is_alnum c \<or> c \<in> set ''_.-'')"

definition path_part :: "string \<Rightarrow> bool" where
  "path_part part =
     (part \<noteq> [] \<and> list_all path_char part \<and> part \<noteq> ''.'' \<and> part \<noteq> ''..''
      \<and> \<not> ends_with ''.'' part \<and> casefold part \<noteq> ''.git''
      \<and> casefold (hd (split_on CHR ''.'' part)) \<notin> set reserved_names)"

definition path_ok :: "bool \<Rightarrow> string \<Rightarrow> bool" where
  "path_ok dir s =
     (s \<noteq> [] \<and> length s \<le> 512
      \<and> list_all path_part (split_on CHR ''/'' (if dir \<and> ends_with ''/'' s then butlast s else s)))"

definition path_name :: "bool \<Rightarrow> pyval \<Rightarrow> string res" where
  "path_name dir v =
     (case v of
        PStr s \<Rightarrow>
          need (s \<noteq> [] \<and> length s \<le> 512) ''invalid path''
         (let path = if dir \<and> ends_with ''/'' s then butlast s else s
          in bindE (checkE (\<lambda>part. need (path_part part) ''non-canonical path'' (Inr ()))
                      (split_on CHR ''/'' path)) (\<lambda>_. Inr s))
      | _ \<Rightarrow> Inl (Rejected ''invalid path''))"

lemma path_name_Inr [res_simps]: "path_name p v = Inr s \<longleftrightarrow> v = PStr s \<and> path_ok p s"
  by (auto simp: path_name_def path_ok_def need_Inr bindE_Inr checkE_Inr_iff list_all_iff Let_def
      split: pyval.splits)

section \<open>Scopes\<close>

text \<open>A scope that ends in a slash covers what starts with it; another one only itself.\<close>

definition covers :: "string \<Rightarrow> string \<Rightarrow> bool" where
  "covers scope path =
     (let scope = casefold scope; path = casefold path
      in if ends_with ''/'' scope then prefix scope path else path = scope)"

definition overlaps :: "string \<Rightarrow> string \<Rightarrow> bool" where
  "overlaps left right = (covers left right \<or> covers right left)"

text \<open>
  Scopes that do not overlap cover no common path: refusing a task whose scope overlaps a
  protected scope keeps every path of the task clear of the protected ones.
\<close>

lemma covers_disjoint:
  assumes "\<not> overlaps p q" "covers p f"
  shows "\<not> covers q f"
proof
  assume "covers q f"
  with assms show False
    unfolding overlaps_def covers_def Let_def
    using prefix_same_cases by (metis prefix_order.order_refl)
qed

end
