(* ===== verification/TaskPolicy.thy ===== *)
theory TaskPolicy
  imports TaskText
begin

text \<open>
  The pinned policy of the task controller and the tasks it accepts
  (\<^verbatim>\<open>tools/task_automation/controller.py\<close>: \<^verbatim>\<open>Policy\<close>, \<^verbatim>\<open>load_policy\<close>, \<^verbatim>\<open>Task\<close>,
  \<^verbatim>\<open>parse_task\<close>).  SHA-256 in hexadecimal is the argument \<open>h\<close>.
\<close>

section \<open>The policy\<close>

record control_policy =
  cp_digest :: string
  cp_base_sha :: string
  cp_branch_prefix :: string
  cp_submitters :: "string list"
  cp_roles :: "string list"
  cp_permitted :: "string list"
  cp_protected :: "string list"
  cp_operations :: "string list"
  cp_modes :: "string list"
  cp_max_task_bytes :: int
  cp_max_files :: int
  cp_max_bytes :: int
  cp_max_repairs :: int
  cp_max_minutes :: int
  cp_checks :: "string list"
  cp_skips :: "string list"

definition policy_flags :: "string list" where
  "policy_flags = [''execution_enabled'', ''publishing_enabled'', ''external_assessments_enabled'']"

definition policy_keys :: "string list" where
  "policy_keys =
     [''base_sha'', ''branch_prefix'', ''allowed_submitters'', ''allowed_roles'', ''permitted_paths'',
      ''protected_paths'', ''permitted_operations'', ''allowed_modes'', ''max_task_bytes'',
      ''max_changed_files'', ''max_changed_bytes'', ''max_repair_attempts'', ''max_runtime_minutes'',
      ''required_checks'', ''allowed_skip_ids'', ''schema_version''] @ policy_flags"

definition required_checks :: "string list" where
  "required_checks =
     [''python-suite'', ''controller-tests'', ''python-syntax'', ''dependency-check'',
      ''red-launcher-smoke'', ''red-package-boundary'']"

definition mandatory_protection :: "string list" where
  "mandatory_protection =
     [''.github/'', ''tools/'', ''AGENTS.md'', ''tests/test_task_automation.py'',
      ''tests/test_objective_controller.py'', ''tests/test_objective_inventory.py'',
      ''docs/AUTONOMOUS_DEVELOPMENT.md'']"

text \<open>The regular expressions of skip identifiers, submitters and check names.\<close>

definition word_lower :: "char \<Rightarrow> bool" where
  "word_lower c = (is_lower c \<or> is_digit c \<or> c = CHR ''_'')"

definition test_word :: "string \<Rightarrow> bool" where
  "test_word s = (take 5 s = ''test_'' \<and> drop 5 s \<noteq> [] \<and> list_all word_lower (drop 5 s))"

definition skip_pattern :: "string \<Rightarrow> bool" where
  "skip_pattern s =
     (case split_on CHR ''.'' s of
        [a, b, c] \<Rightarrow>
          test_word a \<and> b \<noteq> [] \<and> list_all (\<lambda>x. is_alnum x \<or> x = CHR ''_'') b \<and> test_word c
      | _ \<Rightarrow> False)"

definition submitter_pattern :: "string \<Rightarrow> bool" where
  "submitter_pattern s = (case s of [] \<Rightarrow> False
     | c # r \<Rightarrow> is_alnum c \<and> length r \<le> 38 \<and> list_all (\<lambda>x. is_alnum x \<or> x = CHR ''-'') r)"

definition check_pattern :: "string \<Rightarrow> bool" where
  "check_pattern s = (case s of [] \<Rightarrow> False
     | c # r \<Rightarrow> is_lower c \<and> length r \<le> 63
         \<and> list_all (\<lambda>x. is_lower x \<or> is_digit x \<or> x = CHR ''-'') r)"

definition skip_ids :: "pyval \<Rightarrow> string list res" where
  "skip_ids v =
     (case v of
        PList vs \<Rightarrow>
          need (length vs \<le> 64) ''invalid skip allowlist''
         (need (list_all is_str vs) ''invalid skip ID type''
         (let ss = map str_of vs in
          need (distinct ss) ''duplicate skip ID''
         (need (list_all skip_pattern ss) ''invalid skip test ID'' (Inr ss))))
      | _ \<Rightarrow> Inl (Rejected ''invalid skip allowlist''))"

definition each_path :: "string list \<Rightarrow> unit res" where
  "each_path ps = checkE (\<lambda>p. bindE (path_name True (PStr p)) (\<lambda>_. Inr ())) ps"

text \<open>The rules on the lists, after their shapes have been checked.\<close>

definition policy_rules :: "control_policy \<Rightarrow> unit res" where
  "policy_rules p =
     need (set (cp_roles p) \<subseteq> {''admin'', ''maintain''}) ''unsafe role''
    (need (list_all submitter_pattern (cp_submitters p)) ''invalid submitter''
    (bindE (each_path (cp_permitted p)) (\<lambda>_.
     bindE (each_path (cp_protected p)) (\<lambda>_.
     need (set mandatory_protection \<subseteq> set (cp_protected p)) ''missing mandatory control protection''
    (need (set (cp_operations p) \<subseteq> {''add'', ''modify'', ''delete''}) ''unknown operation''
    (need (cp_modes p = [''100644'']) ''unsafe file modes''
    (need (list_all check_pattern (cp_checks p)) ''invalid check identifier''
    (need (set required_checks \<subseteq> set (cp_checks p)) ''missing baseline validation''
     (Inr ())))))))))"

definition load_policy :: "(string \<Rightarrow> string) \<Rightarrow> string \<Rightarrow> string \<Rightarrow> control_policy res" where
  "load_policy h raw expected_digest =
     need (hex_digest 64 expected_digest) ''invalid digest''
    (need (h raw = expected_digest) ''policy digest mismatch''
    (bindE (json_in raw 65536) (\<lambda>d.
     bindE (keys_exactly policy_keys (PDict d)) (\<lambda>_.
     need (dget d ''schema_version'' = PInt 1) ''unsupported policy version''
    (need (list_all (\<lambda>flag. dget d flag = PBool False) policy_flags)
       ''Batch 1 capabilities must be disabled''
    (bindE (sha_in (dget d ''base_sha'') 40) (\<lambda>base.
     need (dget d ''branch_prefix'' = PStr ''codex/task-'') ''unsafe branch prefix''
    (bindE (strings_in (dget d ''allowed_submitters'') 64) (\<lambda>submitters.
     bindE (strings_in (dget d ''allowed_roles'') 64) (\<lambda>roles.
     bindE (strings_in (dget d ''permitted_paths'') 64) (\<lambda>permitted.
     bindE (strings_in (dget d ''protected_paths'') 64) (\<lambda>protected.
     bindE (strings_in (dget d ''permitted_operations'') 64) (\<lambda>operations.
     bindE (strings_in (dget d ''allowed_modes'') 64) (\<lambda>modes.
     bindE (strings_in (dget d ''required_checks'') 64) (\<lambda>checks.
     bindE (skip_ids (dget d ''allowed_skip_ids'')) (\<lambda>skips.
     let p = \<lparr>cp_digest = expected_digest, cp_base_sha = base, cp_branch_prefix = ''codex/task-'',
              cp_submitters = submitters, cp_roles = roles, cp_permitted = permitted,
              cp_protected = protected, cp_operations = operations, cp_modes = modes,
              cp_max_task_bytes = 0, cp_max_files = 0, cp_max_bytes = 0, cp_max_repairs = 0,
              cp_max_minutes = 0, cp_checks = checks, cp_skips = skips\<rparr>
     in bindE (policy_rules p) (\<lambda>_.
     bindE (integer (dget d ''max_task_bytes'') 1 16384) (\<lambda>task_bytes.
     bindE (integer (dget d ''max_changed_files'') 1 100) (\<lambda>files.
     bindE (integer (dget d ''max_changed_bytes'') 1 1048576) (\<lambda>bytes.
     bindE (integer (dget d ''max_runtime_minutes'') 1 120) (\<lambda>minutes.
     bindE (integer (dget d ''max_repair_attempts'') 0 2) (\<lambda>repairs.
     Inr (p\<lparr>cp_max_task_bytes := task_bytes, cp_max_files := files, cp_max_bytes := bytes,
            cp_max_minutes := minutes, cp_max_repairs := repairs\<rparr>)))))))))))))))))))))))"

text \<open>What every loaded policy satisfies, whatever bytes the caller pinned.\<close>

definition policy_sound :: "control_policy \<Rightarrow> bool" where
  "policy_sound p =
     (hex_digest 64 (cp_digest p) \<and> hex_digest 40 (cp_base_sha p)
      \<and> cp_branch_prefix p = ''codex/task-''
      \<and> set (cp_roles p) \<subseteq> {''admin'', ''maintain''}
      \<and> list_all (path_ok True) (cp_permitted p) \<and> list_all (path_ok True) (cp_protected p)
      \<and> set mandatory_protection \<subseteq> set (cp_protected p)
      \<and> set (cp_operations p) \<subseteq> {''add'', ''modify'', ''delete''}
      \<and> cp_modes p = [''100644''] \<and> set required_checks \<subseteq> set (cp_checks p)
      \<and> 1 \<le> cp_max_task_bytes p \<and> cp_max_task_bytes p \<le> 16384
      \<and> 1 \<le> cp_max_files p \<and> cp_max_files p \<le> 100
      \<and> 1 \<le> cp_max_bytes p \<and> cp_max_bytes p \<le> 1048576
      \<and> 1 \<le> cp_max_minutes p \<and> cp_max_minutes p \<le> 120
      \<and> 0 \<le> cp_max_repairs p \<and> cp_max_repairs p \<le> 2)"

lemma each_path_Inr [res_simps]: "each_path ps = Inr u \<longleftrightarrow> list_all (path_ok True) ps"
  by (auto simp: each_path_def checkE_Inr_iff list_all_iff bindE_Inr path_name_Inr)

lemma policy_rules_Inr:
  "policy_rules p = Inr u \<longleftrightarrow>
     set (cp_roles p) \<subseteq> {''admin'', ''maintain''} \<and> list_all submitter_pattern (cp_submitters p)
     \<and> list_all (path_ok True) (cp_permitted p) \<and> list_all (path_ok True) (cp_protected p)
     \<and> set mandatory_protection \<subseteq> set (cp_protected p)
     \<and> set (cp_operations p) \<subseteq> {''add'', ''modify'', ''delete''} \<and> cp_modes p = [''100644'']
     \<and> list_all check_pattern (cp_checks p) \<and> set required_checks \<subseteq> set (cp_checks p)"
  by (simp add: policy_rules_def need_Inr bindE_Inr each_path_Inr)

lemma load_policy_sound: "load_policy h raw e = Inr p \<Longrightarrow> policy_sound p"
  unfolding load_policy_def Let_def
  by (auto simp: policy_sound_def need_Inr bindE_Inr sha_in_Inr integer_Inr policy_rules_Inr)

section \<open>Tasks\<close>

record task =
  tk_issue :: int
  tk_revision :: int
  tk_base_sha :: string
  tk_objective :: string
  tk_criteria :: "string list"
  tk_permitted :: "string list"
  tk_operations :: "string list"
  tk_digest :: string
  tk_policy_digest :: string

definition task_id :: "task \<Rightarrow> string" where
  "task_id t = ''issue-'' @ str_int (tk_issue t) @ '':r'' @ str_int (tk_revision t) @ '':'' @ tk_digest t"

definition task_branch :: "task \<Rightarrow> string" where
  "task_branch t =
     ''codex/task-'' @ str_int (tk_issue t) @ ''-r'' @ str_int (tk_revision t) @ ''-''
       @ take 12 (tk_digest t)"

definition task_keys :: "string list" where
  "task_keys =
     [''schema_version'', ''issue_number'', ''revision'', ''base_sha'', ''objective'',
      ''acceptance_criteria'', ''permitted_paths'', ''permitted_operations'']"

definition task_path :: "control_policy \<Rightarrow> string \<Rightarrow> unit res" where
  "task_path p path =
     bindE (path_name True (PStr path)) (\<lambda>_.
     need (\<exists>scope\<in>set (cp_permitted p). covers scope path) ''task path outside policy''
    (need (\<not> (\<exists>scope\<in>set (cp_protected p). overlaps scope path)) ''task path overlaps protected control''
     (Inr ())))"

definition parse_task :: "(string \<Rightarrow> string) \<Rightarrow> string \<Rightarrow> control_policy \<Rightarrow> task res" where
  "parse_task h raw p =
     bindE (json_in raw (nat (cp_max_task_bytes p))) (\<lambda>d.
     bindE (keys_exactly task_keys (PDict d)) (\<lambda>_.
     need (dget d ''schema_version'' = PInt 1) ''unsupported task version''
    (bindE (integer (dget d ''issue_number'') 1 (2 ^ 31 - 1)) (\<lambda>issue.
     bindE (integer (dget d ''revision'') 1 999999) (\<lambda>revision.
     bindE (sha_in (dget d ''base_sha'') 40) (\<lambda>base.
     need (base = cp_base_sha p) ''unapproved base commit''
    (bindE (text_in (dget d ''objective'') 4096) (\<lambda>objective.
     bindE (strings_in (dget d ''acceptance_criteria'') 20) (\<lambda>criteria.
     bindE (strings_in (dget d ''permitted_paths'') 20) (\<lambda>permitted.
     bindE (strings_in (dget d ''permitted_operations'') 20) (\<lambda>operations.
     need (set operations \<subseteq> set (cp_operations p)) ''unapproved task operation''
    (bindE (checkE (task_path p) permitted) (\<lambda>_.
     Inr \<lparr>tk_issue = issue, tk_revision = revision, tk_base_sha = base, tk_objective = objective,
          tk_criteria = criteria, tk_permitted = permitted, tk_operations = operations,
          tk_digest = digest_of h (PDict d), tk_policy_digest = cp_digest p\<rparr>)))))))))))))"

definition task_sound :: "control_policy \<Rightarrow> task \<Rightarrow> bool" where
  "task_sound p t =
     (1 \<le> tk_issue t \<and> tk_issue t \<le> 2 ^ 31 - 1 \<and> 1 \<le> tk_revision t \<and> tk_revision t \<le> 999999
      \<and> hex_digest 40 (tk_base_sha t) \<and> tk_base_sha t = cp_base_sha p \<and> tk_policy_digest t = cp_digest p
      \<and> set (tk_operations t) \<subseteq> set (cp_operations p)
      \<and> (\<forall>path\<in>set (tk_permitted t).
            path_ok True path \<and> (\<exists>scope\<in>set (cp_permitted p). covers scope path)
            \<and> (\<forall>scope\<in>set (cp_protected p). \<not> overlaps scope path)))"

lemma task_path_Inr [res_simps]:
  "task_path p path = Inr u \<longleftrightarrow>
     path_ok True path \<and> (\<exists>scope\<in>set (cp_permitted p). covers scope path)
     \<and> (\<forall>scope\<in>set (cp_protected p). \<not> overlaps scope path)"
  by (auto simp: task_path_def need_Inr bindE_Inr path_name_Inr)

lemma parse_task_sound: "parse_task h raw p = Inr t \<Longrightarrow> task_sound p t"
  unfolding parse_task_def
  by (auto simp: task_sound_def need_Inr bindE_Inr sha_in_Inr integer_Inr checkE_Inr_iff task_path_Inr)

end
