(* ===== verification/TaskRun.thy ===== *)
theory TaskRun
  imports TaskPolicy
begin

text \<open>
  Candidates and runs of the task controller (\<^verbatim>\<open>tools/task_automation/controller.py\<close>): the
  comparison of two complete file inventories (\<^verbatim>\<open>_snapshot\<close>, \<^verbatim>\<open>inspect_candidate\<close>), the
  observations of checks, and the life cycle of a run (\<^verbatim>\<open>admit\<close>, \<^verbatim>\<open>transition\<close>).
\<close>

section \<open>Inventories\<close>

record file_entry =
  fe_mode :: string
  fe_content :: string

type_synonym inventory = "(string \<times> file_entry) list"

record change =
  ch_path :: string
  ch_operation :: string
  ch_old_mode :: "string option"
  ch_new_mode :: "string option"

record candidate =
  cd_task_id :: string
  cd_branch :: string
  cd_base_sha :: string
  cd_policy_digest :: string
  cd_digest :: string
  cd_changes :: "change list"
  cd_violations :: "string list"

definition scope_valid :: "candidate \<Rightarrow> bool" where
  "scope_valid c = (cd_violations c = [])"

definition git_modes :: "string list" where
  "git_modes = [''100644'', ''100755'', ''120000'', ''160000'']"

text \<open>The loop over the sorted entries: \<open>seen\<close> the folded paths, \<open>used\<close> the bytes so far.\<close>

fun snapshot_loop ::
  "(string \<Rightarrow> string) \<Rightarrow> string list \<Rightarrow> nat \<Rightarrow> inventory
   \<Rightarrow> (string list \<times> (string \<times> string \<times> string) list) res" where
  "snapshot_loop h seen used [] = Inr (seen, [])"
| "snapshot_loop h seen used ((path, entry) # items) =
     need (casefold path \<notin> set seen) ''case-colliding snapshot paths''
    (need (fe_mode entry \<in> set git_modes) ''unsupported Git file mode''
    (need (used + length (fe_content entry) \<le> 67108864) ''snapshot byte limit''
    (bindE (snapshot_loop h (casefold path # seen) (used + length (fe_content entry)) items) (\<lambda>(s, rs).
     Inr (s, (path, fe_mode entry, h (fe_content entry)) # rs)))))"

definition ancestors :: "string \<Rightarrow> string list" where
  "ancestors path =
     (let parts = split_on CHR ''/'' path
      in map (\<lambda>i. join_slash (take i parts)) [1..<length parts])"

definition snapshot :: "(string \<Rightarrow> string) \<Rightarrow> inventory \<Rightarrow> (string \<times> string \<times> string) list res" where
  "snapshot h entries =
     need (length entries \<le> 20000) ''snapshot entry limit''
    (bindE (checkE (\<lambda>(path, _). bindE (path_name False (PStr path)) (\<lambda>_. Inr ())) entries) (\<lambda>_.
     bindE (snapshot_loop h [] 0 (sort_key fst entries)) (\<lambda>(seen, records).
     need (list_all (\<lambda>path. list_all (\<lambda>a. a \<notin> set seen) (ancestors path)) seen)
       ''file/symlink ancestor in snapshot''
     (Inr records))))"

definition record_json :: "string \<times> string \<times> string \<Rightarrow> pyval" where
  "record_json = (\<lambda>(path, mode, digest). PList [PStr path, PStr mode, PStr digest])"

section \<open>Candidates\<close>

definition operation_of :: "file_entry option \<Rightarrow> file_entry option \<Rightarrow> string" where
  "operation_of old new = (if old = None then ''add'' else if new = None then ''delete'' else ''modify'')"

definition entries_of :: "file_entry option \<Rightarrow> file_entry option \<Rightarrow> file_entry list" where
  "entries_of old new = (case old of None \<Rightarrow> [] | Some e \<Rightarrow> [e]) @ (case new of None \<Rightarrow> [] | Some e \<Rightarrow> [e])"

definition violation :: "bool \<Rightarrow> string \<Rightarrow> string list" where
  "violation c msg = (if c then [msg] else [])"

definition path_violations ::
  "task \<Rightarrow> control_policy \<Rightarrow> string \<Rightarrow> file_entry option \<Rightarrow> file_entry option \<Rightarrow> string list" where
  "path_violations t p path old new =
     violation (operation_of old new \<notin> set (tk_operations t)) (''operation_not_permitted:'' @ path)
     @ violation (\<not> (\<exists>scope\<in>set (cp_permitted p). covers scope path)) (''outside_policy:'' @ path)
     @ violation (\<not> (\<exists>scope\<in>set (tk_permitted t). covers scope path)) (''outside_task:'' @ path)
     @ violation (\<exists>scope\<in>set (cp_protected p). covers scope path) (''protected_path:'' @ path)
     @ violation (\<exists>e\<in>set (entries_of old new). fe_mode e \<notin> set (cp_modes p)) (''unsafe_mode:'' @ path)
     @ violation (old \<noteq> None \<and> new \<noteq> None \<and> map_option fe_mode old \<noteq> map_option fe_mode new)
         (''mode_change:'' @ path)"

definition changed_paths :: "inventory \<Rightarrow> inventory \<Rightarrow> string list" where
  "changed_paths base cand =
     filter (\<lambda>path. map_of base path \<noteq> map_of cand path)
       (sort (remdups (map fst base @ map fst cand)))"

definition change_of :: "inventory \<Rightarrow> inventory \<Rightarrow> string \<Rightarrow> change" where
  "change_of base cand path =
     (let old = map_of base path; new = map_of cand path
      in \<lparr>ch_path = path, ch_operation = operation_of old new,
          ch_old_mode = map_option fe_mode old, ch_new_mode = map_option fe_mode new\<rparr>)"

definition changed_bytes :: "inventory \<Rightarrow> inventory \<Rightarrow> string list \<Rightarrow> nat" where
  "changed_bytes base cand paths =
     sum_list (map (\<lambda>path. sum_list (map (\<lambda>e. length (fe_content e))
       (entries_of (map_of base path) (map_of cand path)))) paths)"

definition inspect_candidate ::
  "(string \<Rightarrow> string) \<Rightarrow> task \<Rightarrow> control_policy \<Rightarrow> inventory \<Rightarrow> inventory \<Rightarrow> candidate res" where
  "inspect_candidate h t p base cand =
     need (tk_policy_digest t = cp_digest p) ''candidate policy mismatch''
    (bindE (snapshot h base) (\<lambda>before.
     bindE (snapshot h cand) (\<lambda>after.
     let paths = changed_paths base cand;
         changes = map (change_of base cand) paths;
         violations =
           concat (map (\<lambda>path. path_violations t p path (map_of base path) (map_of cand path)) paths)
           @ violation (changes = []) ''empty_candidate''
           @ violation (int (length changes) > cp_max_files p) ''changed_file_limit''
           @ violation (int (changed_bytes base cand paths) > cp_max_bytes p) ''changed_byte_limit'';
         binding = PDict
           [(''task_id'', PStr (task_id t)), (''base_sha'', PStr (tk_base_sha t)),
            (''policy'', PStr (cp_digest p)), (''before'', PList (map record_json before)),
            (''after'', PList (map record_json after))]
     in Inr \<lparr>cd_task_id = task_id t, cd_branch = task_branch t, cd_base_sha = tk_base_sha t,
             cd_policy_digest = cp_digest p, cd_digest = digest_of h binding,
             cd_changes = changes, cd_violations = violations\<rparr>)))"

section \<open>States and checks\<close>

datatype run_state =
  Pending | Admitted | Running | Validating | Repairing | Blocked | Failed | Completed

definition state_table :: "(run_state \<times> string) list" where
  "state_table =
     [(Pending, ''pending''), (Admitted, ''admitted''), (Running, ''running''),
      (Validating, ''validating''), (Repairing, ''repairing''), (Blocked, ''blocked''),
      (Failed, ''failed''), (Completed, ''completed'')]"

definition state_value :: "run_state \<Rightarrow> string" where
  "state_value s = the (map_of state_table s)"

text \<open>\<^verbatim>\<open>State(target)\<close>\<close>

definition state_of :: "string \<Rightarrow> run_state option" where
  "state_of v = map_of (map (\<lambda>(s, w). (w, s)) state_table) v"

fun edges :: "run_state \<Rightarrow> run_state list" where
  "edges Pending = [Admitted, Blocked, Failed]"
| "edges Admitted = [Running, Blocked, Failed]"
| "edges Running = [Validating, Blocked, Failed]"
| "edges Validating = [Repairing, Completed, Blocked, Failed]"
| "edges Repairing = [Validating, Blocked, Failed]"
| "edges Blocked = []"
| "edges Failed = []"
| "edges Completed = []"

text \<open>A check observation is built from untrusted JSON, so its fields are raw values.\<close>

record check =
  ck_name :: pyval
  ck_status :: pyval
  ck_exit_code :: pyval
  ck_candidate :: pyval
  ck_tests_run :: pyval
  ck_passed :: pyval
  ck_failed :: pyval
  ck_errors :: pyval
  ck_skipped :: pyval
  ck_skip_ids :: pyval

definition check_to_dict :: "check \<Rightarrow> pyval" where
  "check_to_dict c = PDict
     [(''name'', ck_name c), (''status'', ck_status c), (''exit_code'', ck_exit_code c),
      (''candidate_digest'', ck_candidate c), (''tests_run'', ck_tests_run c),
      (''passed'', ck_passed c), (''failed'', ck_failed c), (''errors'', ck_errors c),
      (''skipped'', ck_skipped c), (''skip_ids'', ck_skip_ids c)]"

definition has_status :: "string list \<Rightarrow> check \<Rightarrow> bool" where
  "has_status vs c = (ck_status c \<in> PStr ` set vs)"

definition check_counts :: "check \<Rightarrow> pyval list" where
  "check_counts c = [ck_tests_run c, ck_passed c, ck_failed c, ck_errors c, ck_skipped c]"

definition count_value :: "pyval \<Rightarrow> int res" where
  "count_value v = integer v 0 1000000"

definition check_skip_ids :: "check \<Rightarrow> string list res" where
  "check_skip_ids c =
     (case ck_skip_ids c of
        PList vs \<Rightarrow>
          need (length vs \<le> 64 \<and> list_all is_str vs) ''invalid skipped test IDs''
         (need (distinct (map str_of vs)) ''duplicate skipped test ID'' (Inr (map str_of vs)))
      | _ \<Rightarrow> Inl (Rejected ''invalid skipped test IDs''))"

definition check_exit :: "check \<Rightarrow> unit res" where
  "check_exit c =
     (if has_status [''passed'', ''failed''] c then
        bindE (integer (ck_exit_code c) 0 255) (\<lambda>code.
        need ((code = 0) = has_status [''passed''] c) ''check exit/status mismatch'' (Inr ()))
      else need (ck_exit_code c = PNone) ''non-executed check has exit code'' (Inr ()))"

definition check_totals :: "check \<Rightarrow> string list \<Rightarrow> unit res" where
  "check_totals c skips =
     (if list_ex (\<lambda>v. v \<noteq> PNone) (check_counts c) then
        bindE (count_value (ck_tests_run c)) (\<lambda>run.
        bindE (count_value (ck_passed c)) (\<lambda>passed.
        bindE (count_value (ck_failed c)) (\<lambda>failed.
        bindE (count_value (ck_errors c)) (\<lambda>errors.
        bindE (count_value (ck_skipped c)) (\<lambda>skipped.
        need (run = passed + failed + errors + skipped) ''inconsistent test counts''
       (need (has_status [''passed''] c \<longrightarrow>
               0 < passed \<and> failed = 0 \<and> errors = 0 \<and> skipped = int (length skips))
          ''passing check has failed/skipped/empty tests''
       (need (has_status [''passed'', ''failed''] c) ''unexecuted test counts'' (Inr ()))))))))
      else need (skips = []) ''skipped IDs without test counts'' (Inr ()))"

definition check_name_of :: "check \<Rightarrow> string res" where
  "check_name_of c =
     (case ck_name c of
        PStr s \<Rightarrow> need (check_pattern s) ''invalid check name'' (Inr s)
      | _ \<Rightarrow> Inl (Rejected ''invalid check name''))"

definition check_validate :: "check \<Rightarrow> unit res" where
  "check_validate c =
     bindE (check_name_of c) (\<lambda>_.
     bindE (sha_in (ck_candidate c) 64) (\<lambda>_.
     need (has_status [''passed'', ''failed'', ''blocked'', ''not_run''] c) ''invalid check status''
    (bindE (check_exit c) (\<lambda>_.
     bindE (check_skip_ids c) (\<lambda>skips. check_totals c skips)))))"

definition counted_checks :: "string list" where
  "counted_checks = [''python-suite'', ''controller-tests'', ''red-package-boundary'']"

definition skips_within :: "control_policy \<Rightarrow> check \<Rightarrow> bool" where
  "skips_within p c = (case ck_skip_ids c of PList vs \<Rightarrow> set vs \<subseteq> PStr ` set (cp_skips p) | _ \<Rightarrow> False)"

definition passed_with_counts :: "check \<Rightarrow> bool" where
  "passed_with_counts c = (ck_name c \<in> PStr ` set counted_checks \<longrightarrow> ck_tests_run c \<noteq> PNone)"

section \<open>Runs\<close>

record run =
  rn_task_id :: string
  rn_branch :: string
  rn_base_sha :: string
  rn_policy_digest :: string
  rn_state :: run_state
  rn_repairs :: int
  rn_candidate :: "candidate option"
  rn_checks :: "check list"
  rn_reason :: "string option"

definition run_pending :: "task \<Rightarrow> run" where
  "run_pending t =
     \<lparr>rn_task_id = task_id t, rn_branch = task_branch t, rn_base_sha = tk_base_sha t,
      rn_policy_digest = tk_policy_digest t, rn_state = Pending, rn_repairs = 0,
      rn_candidate = None, rn_checks = [], rn_reason = None\<rparr>"

record identity =
  id_login :: string
  id_role :: string
  id_repository :: string

definition remove_prefix :: "string \<Rightarrow> string \<Rightarrow> string" where
  "remove_prefix pre s = (if prefix pre s then drop (length pre) s else s)"

definition the_repository :: string where
  "the_repository = ''kostekdolata/NightRecon''"

definition admit ::
  "task \<Rightarrow> control_policy \<Rightarrow> identity \<Rightarrow> string \<Rightarrow> string \<Rightarrow> pyval \<Rightarrow> string list \<Rightarrow> run res" where
  "admit t p who repository observed_base observed_issue branches =
     need (tk_policy_digest t = cp_digest p) ''task policy changed''
    (need (id_repository who = repository \<and> repository = the_repository) ''repository identity mismatch''
    (need (casefold (id_login who) \<in> casefold ` set (cp_submitters p) \<and> id_role who \<in> set (cp_roles p))
       ''unauthorized submitter''
    (need (observed_base = tk_base_sha t \<and> tk_base_sha t = cp_base_sha p) ''base verification failed''
    (need (observed_issue = PInt (tk_issue t)) ''issue identity mismatch''
    (need (\<not> (\<exists>b\<in>set branches. casefold (remove_prefix ''refs/heads/'' b) = casefold (task_branch t)))
       ''task branch already exists''
     (Inr ((run_pending t)\<lparr>rn_state := Admitted\<rparr>)))))))"

text \<open>The loop over the observations: \<open>names\<close> are those seen so far.\<close>

fun check_loop :: "control_policy \<Rightarrow> string \<Rightarrow> pyval list \<Rightarrow> check list \<Rightarrow> pyval list res" where
  "check_loop p digest names [] = Inr names"
| "check_loop p digest names (c # cs) =
     bindE (check_validate c) (\<lambda>_.
     need (ck_name c \<notin> set names) ''duplicate check observation''
    (need (ck_candidate c = PStr digest) ''stale check observation''
    (need (skips_within p c) ''unexpected skipped tests''
     (check_loop p digest (ck_name c # names) cs))))"

definition evaluate ::
  "run \<Rightarrow> run_state \<Rightarrow> control_policy \<Rightarrow> candidate \<Rightarrow> check list \<Rightarrow> run res" where
  "evaluate r state p frozen checks =
     bindE (check_loop p (cd_digest frozen) [] checks) (\<lambda>names.
     bindE
       (if state = Completed then
          need (scope_valid frozen) ''candidate scope failed''
         (need (set (map PStr (cp_checks p)) \<subseteq> set names) ''missing required checks''
         (need (list_all (has_status [''passed'']) checks) ''unresolved validation''
         (need (list_all passed_with_counts checks) ''test count evidence required'' (Inr ()))))
        else
          need (\<not> scope_valid frozen \<or> list_ex (has_status [''failed'']) checks)
            ''repair requires a failed check or scope failure''
         (need (rn_repairs r < cp_max_repairs p) ''repair limit reached'' (Inr ()))) (\<lambda>_.
     Inr (r\<lparr>rn_state := state, rn_checks := checks,
            rn_repairs := rn_repairs r + (if state = Repairing then 1 else 0)\<rparr>)))"

definition text_option :: "string option \<Rightarrow> pyval" where
  "text_option x = (case x of None \<Rightarrow> PNone | Some s \<Rightarrow> PStr s)"

definition transition ::
  "run \<Rightarrow> string \<Rightarrow> control_policy \<Rightarrow> candidate option \<Rightarrow> check list \<Rightarrow> string option \<Rightarrow> run res" where
  "transition r target p cand checks reason =
     need (rn_policy_digest r = cp_digest p \<and> rn_base_sha r = cp_base_sha p) ''run policy/base mismatch''
    (case state_of target of
       None \<Rightarrow> Inl (Rejected ''unknown state'')
     | Some state \<Rightarrow>
         need (state \<in> set (edges (rn_state r))) ''illegal state transition''
        (need (state \<noteq> Admitted) ''admission requires verified identity via admit''
        (need (0 \<le> rn_repairs r \<and> rn_repairs r \<le> cp_max_repairs p) ''invalid integer''
        (if state \<in> {Blocked, Failed} then
           bindE (text_in (text_option reason) 1024) (\<lambda>_.
           need (cand = None \<and> checks = []) ''terminal transition cannot replace evidence''
           (Inr (r\<lparr>rn_state := state, rn_reason := reason\<rparr>)))
         else
           need (reason = None) ''reason only permitted on blocked/failed states''
          (if state = Validating then
             (case cand of
                None \<Rightarrow> Inl (Rejected ''new candidate required without stale checks'')
              | Some c \<Rightarrow>
                  need (checks = []) ''new candidate required without stale checks''
                 (need ((cd_task_id c, cd_branch c, cd_base_sha c, cd_policy_digest c)
                        = (rn_task_id r, rn_branch r, rn_base_sha r, rn_policy_digest r))
                    ''candidate binding mismatch''
                  (Inr (r\<lparr>rn_state := state, rn_candidate := Some c, rn_checks := []\<rparr>))))
           else if state \<in> {Completed, Repairing} then
             (case rn_candidate r of
                None \<Rightarrow> Inl (Rejected ''use the frozen candidate'')
              | Some frozen \<Rightarrow>
                  need (cand = None) ''use the frozen candidate'' (evaluate r state p frozen checks))
           else
             need (cand = None \<and> checks = []) ''unexpected evidence''
             (Inr (r\<lparr>rn_state := state\<rparr>)))))))"

text \<open>\<^verbatim>\<open>Run.to_dict\<close>\<close>

definition change_to_dict :: "change \<Rightarrow> pyval" where
  "change_to_dict c = PDict
     [(''path'', PStr (ch_path c)), (''operation'', PStr (ch_operation c)),
      (''old_mode'', text_option (ch_old_mode c)), (''new_mode'', text_option (ch_new_mode c))]"

definition run_limitations :: "string list" where
  "run_limitations =
     [''Batch 1 is offline only; no CI collector, executor or publisher.'',
      ''Completed means evaluation completed, not committed or published.'',
      ''Input provenance must be established independently by a trusted adapter.'']"

definition run_to_dict :: "run \<Rightarrow> pyval" where
  "run_to_dict r = PDict
     [(''schema_version'', PInt 1), (''task_id'', PStr (rn_task_id r)), (''branch'', PStr (rn_branch r)),
      (''base_sha'', PStr (rn_base_sha r)), (''policy_digest'', PStr (rn_policy_digest r)),
      (''state'', PStr (state_value (rn_state r))), (''repair_attempts'', PInt (rn_repairs r)),
      (''candidate_digest'', text_option (map_option cd_digest (rn_candidate r))),
      (''changed_files'', PList (case rn_candidate r of None \<Rightarrow> [] | Some c \<Rightarrow> map change_to_dict (cd_changes c))),
      (''scope_violations'', PList (case rn_candidate r of None \<Rightarrow> [] | Some c \<Rightarrow> map PStr (cd_violations c))),
      (''tests'', PList (map check_to_dict (rn_checks r))), (''ci_results'', PList []),
      (''reason'', text_option (rn_reason r)), (''commit_sha'', PNone), (''publishable'', PBool False),
      (''limitations'', PList (map PStr run_limitations))]"

end
