(* ===== verification/TaskResult.thy ===== *)
theory TaskResult
  imports TaskRun
begin

text \<open>
  \<^verbatim>\<open>validate_result\<close> of \<^verbatim>\<open>tools/task_automation/controller.py\<close>: the check of a serialized run
  record, in the order of the source.
\<close>

definition result_keys :: "string list" where
  "result_keys =
     [''schema_version'', ''task_id'', ''branch'', ''base_sha'', ''policy_digest'', ''state'',
      ''repair_attempts'', ''candidate_digest'', ''changed_files'', ''scope_violations'', ''tests'',
      ''ci_results'', ''reason'', ''commit_sha'', ''publishable'', ''limitations'']"

definition change_keys :: "string list" where
  "change_keys = [''path'', ''operation'', ''old_mode'', ''new_mode'']"

definition check_keys :: "string list" where
  "check_keys =
     [''name'', ''status'', ''exit_code'', ''candidate_digest'', ''tests_run'', ''passed'', ''failed'',
      ''errors'', ''skipped'', ''skip_ids'']"

text \<open>\<^verbatim>\<open>issue-([1-9][0-9]*):r([1-9][0-9]*):([0-9a-f]{64})\<close> and its groups\<close>

definition positive_digits :: "string \<Rightarrow> bool" where
  "positive_digits s = (all_digits s \<and> hd s \<noteq> CHR ''0'')"

definition task_id_groups :: "string \<Rightarrow> (string \<times> string \<times> string) option" where
  "task_id_groups s =
     (case split_on CHR '':'' s of
        [a, b, c] \<Rightarrow>
          (if take 6 a = ''issue-'' \<and> positive_digits (drop 6 a) \<and> take 1 b = ''r''
              \<and> positive_digits (drop 1 b) \<and> hex_digest 64 c
           then Some (drop 6 a, drop 1 b, c) else None)
      | _ \<Rightarrow> None)"

definition result_branch :: "(string \<times> pyval) list \<Rightarrow> unit res" where
  "result_branch d =
     bindE (text_in (dget d ''task_id'') 4096) (\<lambda>s.
     (case task_id_groups s of
        None \<Rightarrow> Inl (Rejected ''invalid task ID'')
      | Some (issue, revision, digest) \<Rightarrow>
          bindE (integer (PInt (int (digits_val issue))) 1 (2 ^ 31 - 1)) (\<lambda>_.
          bindE (integer (PInt (int (digits_val revision))) 1 999999) (\<lambda>_.
          need (dget d ''branch'' =
                  PStr (''codex/task-'' @ issue @ ''-r'' @ revision @ ''-'' @ take 12 digest))
            ''result branch mismatch'' (Inr ())))))"

definition result_mode :: "pyval \<Rightarrow> bool" where
  "result_mode v = (v = PNone \<or> v \<in> PStr ` set git_modes)"

definition operation_fits :: "pyval \<Rightarrow> pyval \<Rightarrow> pyval \<Rightarrow> bool" where
  "operation_fits op old new =
     (op = PStr ''add'' \<and> old = PNone \<and> new \<noteq> PNone
      \<or> op = PStr ''delete'' \<and> old \<noteq> PNone \<and> new = PNone
      \<or> op = PStr ''modify'' \<and> old \<noteq> PNone \<and> new \<noteq> PNone)"

text \<open>The loop over the changes: \<open>seen\<close> are the folded paths so far.\<close>

fun result_changes :: "string list \<Rightarrow> pyval list \<Rightarrow> string list res" where
  "result_changes seen [] = Inr seen"
| "result_changes seen (v # vs) =
     bindE (keys_exactly change_keys v) (\<lambda>c.
     bindE (path_name False (dget c ''path'')) (\<lambda>path.
     need (casefold path \<notin> set seen) ''duplicate result change''
    (need (result_mode (dget c ''old_mode'') \<and> result_mode (dget c ''new_mode'')) ''invalid result mode''
    (need (operation_fits (dget c ''operation'') (dget c ''old_mode'') (dget c ''new_mode''))
       ''result operation/mode mismatch''
     (result_changes (casefold path # seen) vs)))))"

definition list_at_most :: "nat \<Rightarrow> string \<Rightarrow> pyval \<Rightarrow> pyval list res" where
  "list_at_most n msg v =
     (case v of PList vs \<Rightarrow> need (length vs \<le> n) msg (Inr vs) | _ \<Rightarrow> Inl (Rejected msg))"

definition check_of :: "(string \<times> pyval) list \<Rightarrow> check" where
  "check_of d =
     \<lparr>ck_name = dget d ''name'', ck_status = dget d ''status'', ck_exit_code = dget d ''exit_code'',
      ck_candidate = dget d ''candidate_digest'', ck_tests_run = dget d ''tests_run'',
      ck_passed = dget d ''passed'', ck_failed = dget d ''failed'', ck_errors = dget d ''errors'',
      ck_skipped = dget d ''skipped'', ck_skip_ids = dget d ''skip_ids''\<rparr>"

definition result_check :: "control_policy \<Rightarrow> pyval \<Rightarrow> pyval \<Rightarrow> check res" where
  "result_check p digest v =
     bindE (keys_exactly check_keys v) (\<lambda>d.
     let c = check_of d
     in bindE (check_validate c) (\<lambda>_.
        need (skips_within p c) ''unexpected result skips''
       (need (ck_candidate c = digest) ''stale result check'' (Inr c))))"

definition change_safe :: "control_policy \<Rightarrow> pyval \<Rightarrow> unit res" where
  "change_safe p v =
     (let c = dict_items v; path = str_of (dget c ''path'')
      in need (\<forall>m\<in>{dget c ''old_mode'', dget c ''new_mode''}. m = PNone \<or> m \<in> PStr ` set (cp_modes p))
           ''unsafe completed mode''
        (need ((\<exists>scope\<in>set (cp_permitted p). covers scope path)
               \<and> \<not> (\<exists>scope\<in>set (cp_protected p). covers scope path))
           ''unsafe completed path'' (Inr ())))"

definition result_completed ::
  "control_policy \<Rightarrow> pyval list \<Rightarrow> pyval list \<Rightarrow> check list \<Rightarrow> unit res" where
  "result_completed p changes violations checks =
     need (changes \<noteq> [] \<and> violations = [] \<and> int (length changes) \<le> cp_max_files p)
       ''non-passing completed candidate''
    (need (set (map PStr (cp_checks p)) \<subseteq> ck_name ` set checks
           \<and> list_all (has_status [''passed'']) checks) ''incomplete result checks''
    (need (list_all passed_with_counts checks) ''missing result test counts''
     (checkE (change_safe p) changes)))"

text \<open>The rules that depend on the state.\<close>

definition result_state_rules ::
  "control_policy \<Rightarrow> (string \<times> pyval) list \<Rightarrow> string \<Rightarrow> pyval list \<Rightarrow> pyval list \<Rightarrow> check list \<Rightarrow> unit res" where
  "result_state_rules p d state changes violations checks =
     bindE
       (if state \<in> {''blocked'', ''failed''}
        then bindE (text_in (dget d ''reason'') 1024) (\<lambda>_. Inr ())
        else need (dget d ''reason'' = PNone) ''unexpected result reason'' (Inr ())) (\<lambda>_.
     need (state \<in> {''pending'', ''admitted'', ''running''} \<longrightarrow> dget d ''candidate_digest'' = PNone)
       ''premature candidate evidence''
    (need (state \<in> {''validating'', ''repairing'', ''completed''} \<longrightarrow> dget d ''candidate_digest'' \<noteq> PNone)
       ''missing candidate evidence''
    (need (state = ''validating'' \<longrightarrow> checks = []) ''validation observations belong to the next transition''
    (need (state = ''repairing'' \<longrightarrow>
             (\<exists>n. dget d ''repair_attempts'' = PInt n \<and> 0 < n)
             \<and> (violations \<noteq> [] \<or> list_ex (has_status [''failed'']) checks))
       ''repair without failed evidence''
    (if state = ''completed'' then result_completed p changes violations checks else Inr ())))))"

definition validate_result :: "string \<Rightarrow> control_policy \<Rightarrow> pyval res" where
  "validate_result raw p =
     bindE (json_in raw 1048576) (\<lambda>d.
     bindE (keys_exactly result_keys (PDict d)) (\<lambda>_.
     need (dget d ''schema_version'' = PInt 1) ''unsupported result version''
    (need (dget d ''policy_digest'' = PStr (cp_digest p) \<and> dget d ''base_sha'' = PStr (cp_base_sha p))
       ''result policy/base mismatch''
    (bindE (result_branch d) (\<lambda>_.
     need (dget d ''state'' \<in> PStr ` set (map snd state_table)) ''unknown result state''
    (bindE (integer (dget d ''repair_attempts'') 0 (cp_max_repairs p)) (\<lambda>_.
     need (dget d ''publishable'' = PBool False \<and> dget d ''commit_sha'' = PNone
           \<and> dget d ''ci_results'' = PList []) ''Batch 1 cannot publish or assert CI results''
    (bindE (strings_in (dget d ''limitations'') 64) (\<lambda>_.
     bindE (list_at_most 20000 ''invalid result changes'' (dget d ''changed_files'')) (\<lambda>changes.
     bindE (result_changes [] changes) (\<lambda>_.
     bindE (list_at_most 100000 ''invalid violations'' (dget d ''scope_violations'')) (\<lambda>violations.
     bindE (checkE (\<lambda>v. bindE (text_in v 4096) (\<lambda>_. Inr ())) violations) (\<lambda>_.
     bindE
       (if dget d ''candidate_digest'' \<noteq> PNone
        then bindE (sha_in (dget d ''candidate_digest'') 64) (\<lambda>_. Inr ())
        else need (changes = [] \<and> violations = [] \<and> \<not> py_true (dget d ''tests''))
               ''unbound result evidence'' (Inr ())) (\<lambda>_.
     bindE (list_at_most 128 ''invalid checks'' (dget d ''tests'')) (\<lambda>tests.
     bindE (mapE (result_check p (dget d ''candidate_digest'')) tests) (\<lambda>checks.
     need (distinct (map ck_name checks)) ''duplicate result check''
    (bindE (result_state_rules p d (str_of (dget d ''state'')) changes violations checks) (\<lambda>_.
     Inr (PDict d)))))))))))))))))))"

end
