(* ===== verification/Objectives.thy ===== *)
theory Objectives
  imports TaskResult
begin

text \<open>
  \<^verbatim>\<open>tools/task_automation/objectives.py\<close>: signed envelopes, and what the controller reads out of
  them: the owner's approval of an objective, the validator's receipt, the release manifest.

  SHA-256 is the argument \<open>h\<close>; \<open>sig public signature message\<close> stands for Ed25519
  (\<^verbatim>\<open>from_public_bytes\<close> accepts the key and \<^verbatim>\<open>verify\<close> the signature), which the
  \<^verbatim>\<open>cryptography\<close> package provides.
\<close>

section \<open>Signed envelopes\<close>

record trust_key =
  ky_owner :: string
  ky_role :: string
  ky_public :: string

type_synonym signature_check = "string \<Rightarrow> string \<Rightarrow> string \<Rightarrow> bool"

definition approval_domain :: string where
  "approval_domain = ''nightrecon-objective-approval-v1'' @ [CHR 0x00]"

definition validation_domain :: string where
  "validation_domain = ''nightrecon-independent-validation-v1'' @ [CHR 0x00]"

definition release_domain :: string where
  "release_domain = ''nightrecon-release-manifest-v1'' @ [CHR 0x00]"

definition platforms :: "string list" where
  "platforms = [''ubuntu-py311'', ''ubuntu-py314'', ''windows-py311'', ''windows-py314'']"

text \<open>\<^verbatim>\<open>base64.b64decode(s, validate=True)\<close>: whole groups of four, the last one padded.\<close>

definition b64_value :: "char \<Rightarrow> nat option" where
  "b64_value c =
     (let n = of_char c :: nat in
      if is_upper c then Some (n - 65)
      else if is_lower c then Some (n - 71)
      else if is_digit c then Some (n + 4)
      else if c = CHR ''+'' then Some 62
      else if c = CHR ''/'' then Some 63 else None)"

definition b64_group :: "char \<Rightarrow> char \<Rightarrow> char \<Rightarrow> char \<Rightarrow> string option" where
  "b64_group a b c d =
     (case (b64_value a, b64_value b, b64_value c, b64_value d) of
        (Some w, Some x, Some y, Some z) \<Rightarrow>
          Some [char_of (w * 4 + x div 16), char_of ((x mod 16) * 16 + y div 4), char_of ((y mod 4) * 64 + z)]
      | _ \<Rightarrow> None)"

definition b64_last :: "char \<Rightarrow> char \<Rightarrow> char \<Rightarrow> char \<Rightarrow> string option" where
  "b64_last a b c d =
     (if d \<noteq> CHR ''='' then b64_group a b c d
      else if c \<noteq> CHR ''='' then map_option (take 2) (b64_group a b c CHR ''A'')
      else map_option (take 1) (b64_group a b CHR ''A'' CHR ''A''))"

fun b64_decode :: "string \<Rightarrow> string option" where
  "b64_decode [] = Some []"
| "b64_decode [a, b, c, d] = b64_last a b c d"
| "b64_decode (a # b # c # d # e # s) =
     (case b64_group a b c d of
        None \<Rightarrow> None
      | Some w \<Rightarrow> map_option ((@) w) (b64_decode (e # s)))"
| "b64_decode _ = None"

definition found :: "'a option \<Rightarrow> string \<Rightarrow> 'a res" where
  "found x msg = (case x of None \<Rightarrow> Inl (Rejected msg) | Some y \<Rightarrow> Inr y)"

lemma found_Inr [res_simps]: "found x msg = Inr y \<longleftrightarrow> x = Some y"
  by (simp add: found_def split: option.split)

fun as_dict :: "pyval \<Rightarrow> (string \<times> pyval) list option" where
  "as_dict (PDict d) = Some d"
| "as_dict _ = None"

fun as_str :: "pyval \<Rightarrow> string option" where
  "as_str (PStr s) = Some s"
| "as_str _ = None"

definition verify_envelope ::
  "signature_check \<Rightarrow> string \<Rightarrow> string \<Rightarrow> (string \<rightharpoonup> trust_key) \<Rightarrow> string
   \<Rightarrow> ((string \<times> pyval) list \<times> trust_key \<times> string) res" where
  "verify_envelope sig raw domain keys role =
     bindE (json_in raw 1048576) (\<lambda>env.
     bindE (keys_exactly [''key_id'', ''payload'', ''signature''] (PDict env)) (\<lambda>_.
     bindE (text_in (dget env ''key_id'') 128) (\<lambda>key_id.
     bindE (found (keys key_id) ''untrusted signing key'') (\<lambda>key.
     need (ky_role key = role) ''incorrect signing role''
    (bindE (found (as_dict (dget env ''payload'')) ''signed object required'') (\<lambda>payload.
     bindE (found (as_str (dget env ''signature'')) ''invalid signature type'') (\<lambda>text.
     bindE (found (b64_decode text) ''signature verification failed'') (\<lambda>signature.
     need (sig (ky_public key) signature (domain @ canonical (PDict payload)))
       ''signature verification failed'' (Inr (payload, key, key_id))))))))))"

lemma verify_envelope_Inr:
  "verify_envelope sig raw domain keys role = Inr (payload, key, key_id) \<Longrightarrow>
     keys key_id = Some key \<and> ky_role key = role
     \<and> (\<exists>signature. sig (ky_public key) signature (domain @ canonical (PDict payload)))"
  by (auto simp: verify_envelope_def bindE_Inr need_Inr found_Inr)

section \<open>Approvals\<close>

record resource_limits =
  lm_batches :: int
  lm_repairs :: int
  lm_attempts :: int
  lm_seconds :: int
  lm_tokens :: int
  lm_cost :: int

record objective_approval =
  oa_id :: string
  oa_owner :: string
  oa_digest :: string
  oa_task :: task
  oa_approved :: int
  oa_expires :: int
  oa_limits :: resource_limits
  oa_release :: bool
  oa_tag :: "string option"
  oa_artifacts :: "string list"
  oa_signers :: "string list"

definition approval_keys :: "string list" where
  "approval_keys =
     [''schema_version'', ''objective_id'', ''owner'', ''repository'', ''task'', ''policy_digest'',
      ''approved_at'', ''expires_at'', ''limits'', ''release'', ''allow_safety_control_changes'']"

definition limit_keys :: "string list" where
  "limit_keys =
     [''max_batches'', ''max_repairs_per_batch'', ''max_attempts'', ''max_wall_seconds'', ''max_tokens'',
      ''max_cost_microusd'']"

definition time_limit :: int where
  "time_limit = 2 ^ 53 - 1"

definition approval_limits :: "control_policy \<Rightarrow> pyval \<Rightarrow> resource_limits res" where
  "approval_limits p v =
     bindE (keys_exactly limit_keys v) (\<lambda>d.
     bindE (integer (dget d ''max_batches'') 1 20) (\<lambda>batches.
     bindE (integer (dget d ''max_repairs_per_batch'') 0 (cp_max_repairs p)) (\<lambda>repairs.
     bindE (integer (dget d ''max_attempts'') 1 60) (\<lambda>attempts.
     bindE (integer (dget d ''max_wall_seconds'') 1 (cp_max_minutes p * 60)) (\<lambda>seconds.
     bindE (integer (dget d ''max_tokens'') 1 2000000) (\<lambda>tokens.
     bindE (integer (dget d ''max_cost_microusd'') 1 100000000) (\<lambda>cost.
     Inr \<lparr>lm_batches = batches, lm_repairs = repairs, lm_attempts = attempts, lm_seconds = seconds,
          lm_tokens = tokens, lm_cost = cost\<rparr>)))))))"

text \<open>\<^verbatim>\<open>v[0-9]+\.[0-9]+\.[0-9]+\<close>\<close>

definition tag_pattern :: "string \<Rightarrow> bool" where
  "tag_pattern s =
     (case split_on CHR ''.'' s of
        [a, b, c] \<Rightarrow> take 1 a = ''v'' \<and> all_digits (drop 1 a) \<and> all_digits b \<and> all_digits c
      | _ \<Rightarrow> False)"

definition approval_release :: "pyval \<Rightarrow> (bool \<times> string option \<times> string list \<times> string list) res" where
  "approval_release v =
     bindE (keys_exactly [''authorized'', ''tag'', ''artifact_names'', ''signing_key_ids''] v) (\<lambda>d.
     (case dget d ''authorized'' of
        PBool True \<Rightarrow>
          (case dget d ''tag'' of
             PStr tag \<Rightarrow>
               need (tag_pattern tag) ''invalid release tag''
              (bindE (strings_in (dget d ''artifact_names'') 20) (\<lambda>names.
               bindE (checkE (\<lambda>name. bindE (path_name False (PStr name)) (\<lambda>_.
                 need (CHR ''/'' \<notin> set name) ''release artifact must be a basename'' (Inr ()))) names) (\<lambda>_.
               bindE (strings_in (dget d ''signing_key_ids'') 20) (\<lambda>signing.
               Inr (True, Some tag, names, signing)))))
           | _ \<Rightarrow> Inl (Rejected ''invalid release tag''))
      | PBool False \<Rightarrow>
          need (dget d ''tag'' = PNone \<and> dget d ''artifact_names'' = PList []
                \<and> dget d ''signing_key_ids'' = PList []) ''unauthorized release fields''
          (Inr (False, None, [], []))
      | _ \<Rightarrow> Inl (Rejected ''invalid release authorization'')))"

definition verify_approval ::
  "(string \<Rightarrow> string) \<Rightarrow> signature_check \<Rightarrow> string \<Rightarrow> control_policy \<Rightarrow> (string \<rightharpoonup> trust_key) \<Rightarrow> int
   \<Rightarrow> objective_approval res" where
  "verify_approval h sig raw p owners now =
     bindE (verify_envelope sig raw approval_domain owners ''owner'') (\<lambda>(data, key, _).
     bindE (keys_exactly approval_keys (PDict data)) (\<lambda>_.
     need (dget data ''schema_version'' = PInt 1) ''unsupported approval version''
    (need (dget data ''owner'' = PStr (ky_owner key) \<and> ky_owner key \<in> set (cp_submitters p))
       ''approval owner mismatch''
    (need (dget data ''repository'' = PStr the_repository) ''approval repository mismatch''
    (need (dget data ''policy_digest'' = PStr (cp_digest p)) ''approval policy mismatch''
    (need (dget data ''allow_safety_control_changes'' = PBool False)
       ''safety/control-plane changes require a separate reviewed infrastructure path''
    (bindE (parse_task h (canonical (dget data ''task'')) p) (\<lambda>t.
     let expected = ''issue-'' @ str_int (tk_issue t) @ ''-r'' @ str_int (tk_revision t)
     in need (dget data ''objective_id'' = PStr expected) ''objective identity mismatch''
    (bindE (integer (dget data ''approved_at'') 0 time_limit) (\<lambda>approved.
     bindE (integer (dget data ''expires_at'') 1 time_limit) (\<lambda>expires.
     bindE (integer (PInt now) 0 time_limit) (\<lambda>_.
     need (approved \<le> now \<and> now < expires \<and> expires - approved \<le> 604800)
       ''approval not active or exceeds seven-day lifetime''
    (bindE (approval_limits p (dget data ''limits'')) (\<lambda>limits.
     bindE (approval_release (dget data ''release'')) (\<lambda>(release, tag, names, signing).
     Inr \<lparr>oa_id = expected, oa_owner = ky_owner key, oa_digest = digest_of h (PDict data), oa_task = t,
          oa_approved = approved, oa_expires = expires, oa_limits = limits, oa_release = release,
          oa_tag = tag, oa_artifacts = names, oa_signers = signing\<rparr>)))))))))))))))"

section \<open>Receipts\<close>

record receipt =
  rc_digest :: string
  rc_candidate :: string
  rc_parent :: string
  rc_batch :: int
  rc_validator :: string
  rc_checks :: "check list"
  rc_urls :: "string list"
  rc_envelope :: string

definition receipt_keys :: "string list" where
  "receipt_keys =
     [''schema_version'', ''approval_digest'', ''policy_digest'', ''candidate_digest'', ''parent_sha'',
      ''batch'', ''validator'', ''worker'', ''issued_at'', ''expires_at'', ''platforms'', ''checks'', ''run_urls'']"

text \<open>\<^verbatim>\<open>https://github\.com/kostekdolata/NightRecon/actions/runs/[1-9][0-9]*\<close>\<close>

definition run_url :: "string \<Rightarrow> bool" where
  "run_url s =
     (let pre = ''https://github.com/kostekdolata/NightRecon/actions/runs/''
      in prefix pre s \<and> positive_digits (drop (length pre) s))"

definition receipt_check :: "control_policy \<Rightarrow> string \<Rightarrow> pyval \<Rightarrow> check res" where
  "receipt_check p digest v =
     bindE (keys_exactly check_keys v) (\<lambda>d.
     let c = check_of d
     in bindE (check_validate c) (\<lambda>_.
        need (skips_within p c) ''unexpected validation skips''
       (need (ck_candidate c = PStr digest) ''stale check''
       (req (\<not> has_status [''failed''] c)
          (ValidationFailed (''executed validation failed: '' @ str_of (ck_name c)))
       (need (has_status [''passed''] c) (''required validation unavailable: '' @ str_of (ck_name c))
       (need (passed_with_counts c) ''missing test counts'' (Inr c)))))))"

definition verify_receipt ::
  "(string \<Rightarrow> string) \<Rightarrow> signature_check \<Rightarrow> string \<Rightarrow> objective_approval \<Rightarrow> candidate \<Rightarrow> control_policy
   \<Rightarrow> (string \<rightharpoonup> trust_key) \<Rightarrow> string \<Rightarrow> int \<Rightarrow> int \<Rightarrow> receipt res" where
  "verify_receipt h sig raw approval c p validators parent batch now =
     bindE (verify_envelope sig raw validation_domain validators ''validator'') (\<lambda>(data, key, _).
     bindE (keys_exactly receipt_keys (PDict data)) (\<lambda>_.
     need (dget data ''schema_version'' = PInt 1) ''invalid receipt version''
    (need (dget data ''approval_digest'' = PStr (oa_digest approval)
           \<and> dget data ''policy_digest'' = PStr (cp_digest p)) ''receipt approval/policy mismatch''
    (need (cd_task_id c = task_id (oa_task approval) \<and> scope_valid c) ''non-passing candidate''
    (need (dget data ''candidate_digest'' = PStr (cd_digest c)) ''receipt candidate mismatch''
    (bindE (sha_in (dget data ''parent_sha'') 40) (\<lambda>sha.
     need (sha = parent) ''receipt parent mismatch''
    (need (dget data ''batch'' = PInt batch) ''receipt batch mismatch''
    (need (dget data ''validator'' = PStr (ky_owner key) \<and> dget data ''worker'' \<noteq> PStr (ky_owner key))
       ''validation is not independently signed''
    (bindE (integer (dget data ''issued_at'') 0 time_limit) (\<lambda>issued.
     bindE (integer (dget data ''expires_at'') 1 time_limit) (\<lambda>expires.
     need (oa_approved approval \<le> issued \<and> issued \<le> now \<and> now < expires \<and> expires \<le> oa_expires approval)
       ''receipt expired or outside approval''
    (bindE (strings_in (dget data ''platforms'') 4) (\<lambda>ps.
     need (set ps = set platforms) ''required cross-platform validation missing''
    (bindE (list_at_most 128 ''invalid validation checks'' (dget data ''checks'')) (\<lambda>items.
     bindE (mapE (receipt_check p (cd_digest c)) items) (\<lambda>checks.
     need (distinct (map ck_name checks)) ''duplicate receipt checks''
    (need (set (map PStr (cp_checks p)) \<subseteq> ck_name ` set checks) ''missing required checks''
    (bindE (strings_in (dget data ''run_urls'') 128) (\<lambda>urls.
     need (list_all run_url urls) ''untrusted validation run URL''
     (Inr \<lparr>rc_digest = digest_of h (PDict data), rc_candidate = cd_digest c, rc_parent = parent,
           rc_batch = batch, rc_validator = ky_owner key, rc_checks = checks, rc_urls = urls,
           rc_envelope = raw\<rparr>)))))))))))))))))))))"

section \<open>Releases\<close>

definition release_keys :: "string list" where
  "release_keys =
     [''schema_version'', ''approval_digest'', ''tag'', ''source_sha'', ''artifacts'', ''sbom_sha256'',
      ''integrity_checks_passed'']"

definition verify_release ::
  "(string \<Rightarrow> string) \<Rightarrow> signature_check \<Rightarrow> string \<Rightarrow> objective_approval \<Rightarrow> (string \<rightharpoonup> trust_key)
   \<Rightarrow> (string \<times> string) list \<Rightarrow> string \<Rightarrow> string \<Rightarrow> string \<Rightarrow> int \<Rightarrow> pyval res" where
  "verify_release h sig raw approval signers artifacts merge_sha allowlisted existing_tag now =
     need (oa_release approval \<and> now < oa_expires approval) ''release not authorized''
    (bindE (verify_envelope sig raw release_domain signers ''release-signer'') (\<lambda>(data, _, key_id).
     bindE (keys_exactly release_keys (PDict data)) (\<lambda>_.
     need (dget data ''schema_version'' = PInt 1) ''invalid release version''
    (need (key_id \<in> set (oa_signers approval) \<and> dget data ''approval_digest'' = PStr (oa_digest approval))
       ''release signing authority mismatch''
    (need (dget data ''tag'' = text_option (oa_tag approval)) ''release tag/allowlist/source gate''
    (bindE (sha_in (PStr merge_sha) 40) (\<lambda>merge.
     need (dget data ''source_sha'' = PStr merge \<and> allowlisted = existing_tag \<and> existing_tag = merge_sha)
       ''release tag/allowlist/source gate''
    (need (dget data ''integrity_checks_passed'' = PBool True) ''release integrity checks failed''
    (bindE (sha_in (dget data ''sbom_sha256'') 64) (\<lambda>sbom.
     (case dget data ''artifacts'' of
        PDict named \<Rightarrow>
          need (fst ` set named = fst ` set artifacts \<and> fst ` set artifacts = set (oa_artifacts approval))
            ''release artifact set mismatch''
         (need (list_all (\<lambda>(name, content). dget named name = PStr (h content)) artifacts)
            ''release artifact digest mismatch''
         (need (PStr sbom \<in> snd ` set named) ''SBOM not among verified artifacts''
          (Inr (PDict data))))
      | _ \<Rightarrow> Inl (Rejected ''release artifact set mismatch''))))))))))))"

end
