(* ===== verification/ObjectiveQueue.thy ===== *)
theory ObjectiveQueue
  imports Objectives ActionLedger
begin

text \<open>
  \<^verbatim>\<open>tools/task_automation/queue.py\<close>: the durable queue.  Its SQLite tables are an association
  list from objectives to their approval, one from objectives to the current record and its
  code, the list of event rows, and the stored artifacts.  Opening and closing the file is not
  modelled.

  \<open>hm message\<close> is HMAC-SHA-256 under the service's key in hexadecimal, \<open>h\<close> and \<open>sig\<close> as before.
  A record is a dictionary, as in the source; a comparison of a field with a number raises
  \<open>TypeError\<close> when the field holds anything but an integer.
\<close>

section \<open>Tables\<close>

type_synonym rec = "(string \<times> pyval) list"

record event_row =
  er_objective :: string
  er_version :: int
  er_event :: string
  er_record :: string
  er_previous :: string
  er_mac :: string

record queue =
  q_approvals :: "(string \<times> string \<times> string) list"
  q_objectives :: "(string \<times> string \<times> string) list"
  q_events :: "event_row list"
  q_artifacts :: "(string \<times> string) list"

definition new_queue :: queue where
  "new_queue = \<lparr>q_approvals = [], q_objectives = [], q_events = [], q_artifacts = []\<rparr>"

definition zero_mac :: string where
  "zero_mac = replicate 64 (CHR ''0'')"

definition event_mac ::
  "(string \<Rightarrow> string) \<Rightarrow> (string \<Rightarrow> string) \<Rightarrow> string \<Rightarrow> int \<Rightarrow> string \<Rightarrow> string \<Rightarrow> string \<Rightarrow> string" where
  "event_mac h hm oid version event body previous =
     hm ((''nightrecon-queue-v1'' @ [CHR 0x00]) @ canonical (PDict
       [(''id'', PStr oid), (''version'', PInt version), (''event'', PStr event),
        (''record_sha256'', PStr (h body)), (''previous'', PStr previous)]))"

section \<open>Reading\<close>

definition rows_of :: "string \<Rightarrow> queue \<Rightarrow> event_row list" where
  "rows_of oid s = take 2001 (sort_key er_version (filter (\<lambda>e. er_objective e = oid) (q_events s)))"

text \<open>The loop over the events: \<open>i\<close> the position, \<open>previous\<close> the code of the event before.\<close>

fun check_events ::
  "(string \<Rightarrow> string) \<Rightarrow> (string \<Rightarrow> string) \<Rightarrow> string \<Rightarrow> int \<Rightarrow> string \<Rightarrow> event_row list \<Rightarrow> unit res" where
  "check_events h hm oid i previous [] = Inr ()"
| "check_events h hm oid i previous (e # es) =
     need (er_version e = i \<and> er_previous e = previous
           \<and> er_mac e = event_mac h hm oid (er_version e) (er_event e) (er_record e) previous)
       ''queue event authentication failed''
     (check_events h hm oid (i + 1) (er_mac e) es)"

text \<open>\<^verbatim>\<open>d[k]\<close> and its use as a number.\<close>

definition field :: "rec \<Rightarrow> string \<Rightarrow> pyval res" where
  "field d k = (case map_of d k of None \<Rightarrow> Inl (KeyError k) | Some v \<Rightarrow> Inr v)"

definition int_field :: "rec \<Rightarrow> string \<Rightarrow> int res" where
  "int_field d k = bindE (field d k) (\<lambda>v. case v of PInt i \<Rightarrow> Inr i | _ \<Rightarrow> Inl TypeError)"

definition json_record :: "string \<Rightarrow> rec res" where
  "json_record body =
     (case Option.bind (json_text body) loads of
        None \<Rightarrow> Inl (ValueError ''invalid JSON'')
      | Some (PDict d) \<Rightarrow> Inr d
      | Some _ \<Rightarrow> Inl TypeError)"

definition queue_read :: "(string \<Rightarrow> string) \<Rightarrow> (string \<Rightarrow> string) \<Rightarrow> string \<Rightarrow> queue \<Rightarrow> rec res" where
  "queue_read h hm oid s =
     bindE (found (map_of (q_objectives s) oid) ''unknown objective'') (\<lambda>(body, mac).
     let events = rows_of oid s
     in need (events \<noteq> [] \<and> length events \<le> 2000) ''missing or oversized queue history''
       (bindE (check_events h hm oid 0 zero_mac events) (\<lambda>_.
        need ((body, mac) = (er_record (last events), er_mac (last events))) ''queue state/history mismatch''
       (bindE (json_record body) (\<lambda>d.
        bindE (field d ''version'') (\<lambda>v.
        need (py_eq_int v (int (length events) - 1)) ''queue version mismatch'' (Inr d)))))))"

section \<open>Writing\<close>

text \<open>The primary key of \<^verbatim>\<open>events\<close> refuses a second row of the same version.\<close>

definition queue_write ::
  "(string \<Rightarrow> string) \<Rightarrow> (string \<Rightarrow> string) \<Rightarrow> rec \<Rightarrow> string \<Rightarrow> queue \<Rightarrow> (unit \<times> queue) res" where
  "queue_write h hm d event s =
     bindE (field d ''objective_id'') (\<lambda>v.
     bindE (found (as_str v) ''objective'') (\<lambda>oid.
     let previous = (case map_of (q_objectives s) oid of None \<Rightarrow> zero_mac | Some (_, mac) \<Rightarrow> mac);
         body = canonical (PDict d)
     in bindE (int_field d ''version'') (\<lambda>version.
        let mac = event_mac h hm oid version event body previous
        in req (\<not> list_ex (\<lambda>e. er_objective e = oid \<and> er_version e = version) (q_events s))
             (SqliteError ''UNIQUE constraint failed'')
           (Inr ((), s\<lparr>q_events := q_events s @
                       [\<lparr>er_objective = oid, er_version = version, er_event = event, er_record = body,
                         er_previous = previous, er_mac = mac\<rparr>],
                     q_objectives := AList.update oid (body, mac) (q_objectives s)\<rparr>)))))"

definition put :: "string \<Rightarrow> pyval \<Rightarrow> rec \<Rightarrow> rec" where
  "put k v d = AList.update k v d"

definition bump :: "rec \<Rightarrow> rec res" where
  "bump d = bindE (int_field d ''version'') (\<lambda>n. Inr (put ''version'' (PInt (n + 1)) d))"

section \<open>Operations\<close>

definition limits_json :: "resource_limits \<Rightarrow> pyval" where
  "limits_json l = PDict
     [(''max_batches'', PInt (lm_batches l)), (''max_repairs_per_batch'', PInt (lm_repairs l)),
      (''max_attempts'', PInt (lm_attempts l)), (''max_wall_seconds'', PInt (lm_seconds l)),
      (''max_tokens'', PInt (lm_tokens l)), (''max_cost_microusd'', PInt (lm_cost l))]"

definition first_record :: "objective_approval \<Rightarrow> int \<Rightarrow> rec" where
  "first_record a now =
     [(''objective_id'', PStr (oa_id a)), (''approval_digest'', PStr (oa_digest a)),
      (''owner'', PStr (oa_owner a)), (''permitted_paths'', PList (map PStr (tk_permitted (oa_task a)))),
      (''acceptance_criteria'', PList (map PStr (tk_criteria (oa_task a)))),
      (''resource_limits'', limits_json (oa_limits a)),
      (''release_permissions'', PDict
         [(''authorized'', PBool (oa_release a)), (''tag'', text_option (oa_tag a)),
          (''artifact_names'', PList (map PStr (oa_artifacts a))),
          (''signing_key_ids'', PList (map PStr (oa_signers a)))]),
      (''branch'', PStr (task_branch (oa_task a))), (''base_sha'', PStr (tk_base_sha (oa_task a))),
      (''parent_sha'', PStr (tk_base_sha (oa_task a))), (''state'', PStr ''pending''), (''version'', PInt 0),
      (''batch'', PInt 0), (''repairs'', PInt 0), (''attempts'', PInt 0), (''reserved_tokens'', PInt 0),
      (''reserved_cost_microusd'', PInt 0), (''started_at'', PInt now),
      (''deadline'', PInt (min (oa_expires a) (now + lm_seconds (oa_limits a)))),
      (''lease_owner'', PNone), (''lease_generation'', PInt 0), (''lease_until'', PInt 0),
      (''intent'', PNone), (''commits'', PList []), (''reason'', PNone),
      (''plan'', PNone), (''merge_sha'', PNone), (''release_result'', PNone)]"

definition enqueue_body ::
  "(string \<Rightarrow> string) \<Rightarrow> (string \<Rightarrow> string) \<Rightarrow> signature_check \<Rightarrow> string \<Rightarrow> control_policy
   \<Rightarrow> (string \<rightharpoonup> trust_key) \<Rightarrow> int \<Rightarrow> objective_approval \<Rightarrow> queue \<Rightarrow> (rec \<times> queue) res" where
  "enqueue_body h hm sig raw p owners now a s =
     (case map_of (q_approvals s) (oa_id a) of
        Some (digest, envelope) \<Rightarrow>
          need (digest = oa_digest a) ''objective approval conflict''
         (bindE (verify_approval h sig envelope p owners now) (\<lambda>b.
          need (oa_digest b = oa_digest a) ''stored approval changed''
         (bindE (queue_read h hm (oa_id a) s) (\<lambda>d. Inr (d, s)))))
      | None \<Rightarrow>
          let s' = s\<lparr>q_approvals := q_approvals s @ [(oa_id a, oa_digest a, raw)]\<rparr>; d = first_record a now
          in bindE (queue_write h hm d ''approved'' s') (\<lambda>(_, s''). Inr (d, s'')))"

definition enqueue ::
  "(string \<Rightarrow> string) \<Rightarrow> (string \<Rightarrow> string) \<Rightarrow> signature_check \<Rightarrow> string \<Rightarrow> control_policy
   \<Rightarrow> (string \<rightharpoonup> trust_key) \<Rightarrow> int \<Rightarrow> queue \<Rightarrow> rec res \<times> queue" where
  "enqueue h hm sig raw p owners now s =
     (case verify_approval h sig raw p owners now of
        Inl e \<Rightarrow> (Inl e, s)
      | Inr a \<Rightarrow> transaction (enqueue_body h hm sig raw p owners now a) s)"

definition queue_approval ::
  "(string \<Rightarrow> string) \<Rightarrow> (string \<Rightarrow> string) \<Rightarrow> signature_check \<Rightarrow> string \<Rightarrow> control_policy
   \<Rightarrow> (string \<rightharpoonup> trust_key) \<Rightarrow> int \<Rightarrow> queue \<Rightarrow> objective_approval res" where
  "queue_approval h hm sig oid p owners now s =
     bindE (queue_read h hm oid s) (\<lambda>d.
     (case map_of (q_approvals s) oid of
        None \<Rightarrow> Inl TypeError
      | Some (_, envelope) \<Rightarrow>
          bindE (verify_approval h sig envelope p owners now) (\<lambda>a.
          bindE (field d ''approval_digest'') (\<lambda>v.
          need (v = PStr (oa_digest a)) ''approval/history mismatch'' (Inr a)))))"

definition terminal_states :: "string list" where
  "terminal_states = [''completed'', ''failed'', ''blocked'']"

definition live :: "rec \<Rightarrow> unit res" where
  "live d = bindE (field d ''state'') (\<lambda>v.
     need (v \<notin> PStr ` set terminal_states) ''terminal objective'' (Inr ()))"

definition claimed :: "string \<Rightarrow> int \<Rightarrow> int \<Rightarrow> rec \<Rightarrow> rec res" where
  "claimed worker now lease_seconds d =
     bindE (field d ''intent'') (\<lambda>intent.
     if intent \<noteq> PNone then
       Inr (put ''reason'' (PStr ''unresolved publication intent; reconcile remote state'')
             (put ''state'' (PStr ''blocked'') d))
     else
       bindE (int_field d ''lease_generation'') (\<lambda>gen.
       bindE (int_field d ''deadline'') (\<lambda>deadline.
       bindE (field d ''state'') (\<lambda>state.
       let d' = put ''lease_until'' (PInt (min (now + lease_seconds) deadline))
                 (put ''lease_generation'' (PInt (gen + 1)) (put ''lease_owner'' (PStr worker) d))
       in Inr (if state = PStr ''pending'' then put ''state'' (PStr ''admitted'') d' else d')))))"

definition claim_body ::
  "(string \<Rightarrow> string) \<Rightarrow> (string \<Rightarrow> string) \<Rightarrow> string \<Rightarrow> string \<Rightarrow> int \<Rightarrow> int \<Rightarrow> queue \<Rightarrow> (rec \<times> queue) res" where
  "claim_body h hm oid worker now lease_seconds s =
     bindE (queue_read h hm oid s) (\<lambda>d.
     bindE (live d) (\<lambda>_.
     bindE (int_field d ''deadline'') (\<lambda>deadline.
     need (now < deadline) ''objective deadline exceeded''
    (bindE (int_field d ''lease_until'') (\<lambda>until.
     need (until \<le> now) ''objective lease already held''
    (bindE (claimed worker now lease_seconds d) (\<lambda>d'.
     bindE (bump d') (\<lambda>d''.
     bindE (field d'' ''state'') (\<lambda>state.
     bindE (queue_write h hm d''
              (if state \<noteq> PStr ''blocked'' then ''claimed'' else ''reconciliation_required'') s) (\<lambda>(_, s').
     Inr (d'', s')))))))))))"

definition claim ::
  "(string \<Rightarrow> string) \<Rightarrow> (string \<Rightarrow> string) \<Rightarrow> string \<Rightarrow> string \<Rightarrow> int \<Rightarrow> int \<Rightarrow> queue \<Rightarrow> rec res \<times> queue" where
  "claim h hm oid worker now lease_seconds s =
     (case bindE (text_in (PStr worker) 128) (\<lambda>_.
           bindE (integer (PInt now) 0 time_limit) (\<lambda>_. integer (PInt lease_seconds) 1 300)) of
        Inl e \<Rightarrow> (Inl e, s)
      | Inr _ \<Rightarrow> transaction (claim_body h hm oid worker now lease_seconds) s)"

definition update_fields :: "string list" where
  "update_fields =
     [''state'', ''parent_sha'', ''batch'', ''repairs'', ''attempts'', ''reserved_tokens'',
      ''reserved_cost_microusd'', ''intent'', ''commits'', ''reason'', ''lease_until'', ''plan'',
      ''merge_sha'', ''release_result'']"

definition counters :: "string list" where
  "counters = [''attempts'', ''reserved_tokens'', ''reserved_cost_microusd'']"

fun objective_edges :: "string \<Rightarrow> string list res" where
  "objective_edges s =
     (if s = ''admitted'' then Inr [''running'', ''blocked'', ''failed'']
      else if s = ''running'' then Inr [''running'', ''validating'', ''blocked'', ''failed'']
      else if s = ''validating''
        then Inr [''validating'', ''running'', ''repairing'', ''blocked'', ''failed'', ''completed'']
      else if s = ''repairing'' then Inr [''repairing'', ''validating'', ''blocked'', ''failed'']
      else Inl (KeyError s))"

text \<open>\<^verbatim>\<open>type(new[k]) is int and low <= new[k] <= high\<close>\<close>

definition int_between :: "rec \<Rightarrow> string \<Rightarrow> int \<Rightarrow> int \<Rightarrow> bool res" where
  "int_between d k low high =
     bindE (field d k) (\<lambda>v. Inr (case v of PInt i \<Rightarrow> low \<le> i \<and> i \<le> high | _ \<Rightarrow> False))"

definition counter_kept :: "rec \<Rightarrow> rec \<Rightarrow> string \<Rightarrow> unit res" where
  "counter_kept d new k =
     bindE (int_field d k) (\<lambda>before.
     bindE (field new k) (\<lambda>v.
     need (case v of PInt i \<Rightarrow> before \<le> i | _ \<Rightarrow> False) ''resource counters cannot decrease'' (Inr ())))"

definition within_limits :: "rec \<Rightarrow> rec \<Rightarrow> unit res" where
  "within_limits d new =
     bindE (field d ''resource_limits'') (\<lambda>v.
     bindE (found (as_dict v) ''limits'') (\<lambda>limits.
     bindE (int_field new ''attempts'') (\<lambda>attempts.
     bindE (int_field new ''reserved_tokens'') (\<lambda>tokens.
     bindE (int_field new ''reserved_cost_microusd'') (\<lambda>cost.
     bindE (int_field limits ''max_attempts'') (\<lambda>max_attempts.
     bindE (int_field limits ''max_tokens'') (\<lambda>max_tokens.
     bindE (int_field limits ''max_cost_microusd'') (\<lambda>max_cost.
     need (attempts \<le> max_attempts \<and> tokens \<le> max_tokens \<and> cost \<le> max_cost)
       ''resource reservation exceeds signed limits''
    (bindE (int_field d ''batch'') (\<lambda>batch.
     bindE (int_field limits ''max_batches'') (\<lambda>max_batches.
     bindE (int_field limits ''max_repairs_per_batch'') (\<lambda>max_repairs.
     bindE (int_between new ''batch'' batch max_batches) (\<lambda>b.
     bindE (int_between new ''repairs'' 0 max_repairs) (\<lambda>r.
     need (b \<and> r) ''batch or repair limit exceeded'' (Inr ())))))))))))))))"

definition update_record :: "rec \<Rightarrow> rec \<Rightarrow> rec res" where
  "update_record d new =
     bindE (checkE (counter_kept d new) counters) (\<lambda>_.
     bindE (within_limits d new) (\<lambda>_.
     bindE (field new ''state'') (\<lambda>v.
     bindE (member_value [''admitted'', ''running'', ''validating'', ''repairing'', ''blocked'', ''failed'',
                          ''completed''] (Rejected ''invalid objective state'') v) (\<lambda>target.
     bindE (field d ''state'') (\<lambda>w.
     bindE (objective_edges (str_of w)) (\<lambda>targets.
     need (target \<in> set targets) ''illegal objective transition''
    (bindE (if target \<in> {''blocked'', ''failed''}
            then bindE (field new ''reason'') (\<lambda>x. bindE (text_in x 1024) (\<lambda>_. Inr ())) else Inr ()) (\<lambda>_.
     bindE (int_field new ''lease_until'') (\<lambda>until.
     bindE (int_field d ''deadline'') (\<lambda>deadline.
     need (until \<le> deadline) ''lease exceeds deadline'' (bump new)))))))))))"

definition lease_holds :: "rec \<Rightarrow> string \<Rightarrow> int \<Rightarrow> int \<Rightarrow> int \<Rightarrow> bool res" where
  "lease_holds d worker generation version now =
     bindE (field d ''lease_owner'') (\<lambda>owner.
     bindE (field d ''lease_generation'') (\<lambda>gen.
     bindE (field d ''version'') (\<lambda>v.
     bindE (int_field d ''lease_until'') (\<lambda>until.
     bindE (int_field d ''deadline'') (\<lambda>deadline.
     Inr (owner = PStr worker \<and> gen = PInt generation \<and> v = PInt version
          \<and> now < until \<and> now < deadline))))))"

definition update_body ::
  "(string \<Rightarrow> string) \<Rightarrow> (string \<Rightarrow> string) \<Rightarrow> string \<Rightarrow> string \<Rightarrow> int \<Rightarrow> int \<Rightarrow> int \<Rightarrow> string \<Rightarrow> rec
   \<Rightarrow> queue \<Rightarrow> (rec \<times> queue) res" where
  "update_body h hm oid worker generation version now event changes s =
     bindE (queue_read h hm oid s) (\<lambda>d.
     bindE (live d) (\<lambda>_.
     bindE (lease_holds d worker generation version now) (\<lambda>holds.
     need holds ''stale lease/version or deadline''
    (bindE (update_record d (AList.merge d changes)) (\<lambda>new.
     bindE (queue_write h hm new event s) (\<lambda>(_, s'). Inr (new, s')))))))"

definition queue_update ::
  "(string \<Rightarrow> string) \<Rightarrow> (string \<Rightarrow> string) \<Rightarrow> string \<Rightarrow> string \<Rightarrow> int \<Rightarrow> int \<Rightarrow> int \<Rightarrow> string \<Rightarrow> rec
   \<Rightarrow> queue \<Rightarrow> rec res \<times> queue" where
  "queue_update h hm oid worker generation version now event changes s =
     (case bindE (text_in (PStr event) 128) (\<lambda>_.
           need (fst ` set changes \<subseteq> set update_fields) ''immutable/unknown queue field'' (Inr ())) of
        Inl e \<Rightarrow> (Inl e, s)
      | Inr _ \<Rightarrow> transaction (update_body h hm oid worker generation version now event changes) s)"

definition reserve_attempt ::
  "(string \<Rightarrow> string) \<Rightarrow> (string \<Rightarrow> string) \<Rightarrow> objective_approval \<Rightarrow> string \<Rightarrow> int \<Rightarrow> int \<Rightarrow> int \<Rightarrow> int \<Rightarrow> int
   \<Rightarrow> queue \<Rightarrow> rec res \<times> queue" where
  "reserve_attempt h hm a worker generation version now tokens cost s =
     (case bindE (integer (PInt tokens) 1 (lm_tokens (oa_limits a))) (\<lambda>_.
           bindE (integer (PInt cost) 1 (lm_cost (oa_limits a))) (\<lambda>_.
           bindE (queue_read h hm (oa_id a) s) (\<lambda>d.
           bindE (int_field d ''attempts'') (\<lambda>attempts.
           bindE (int_field d ''reserved_tokens'') (\<lambda>spent.
           bindE (int_field d ''reserved_cost_microusd'') (\<lambda>paid.
           bindE (field d ''approval_digest'') (\<lambda>digest.
           need (digest = PStr (oa_digest a) \<and> attempts + 1 \<le> lm_attempts (oa_limits a)
                 \<and> spent + tokens \<le> lm_tokens (oa_limits a) \<and> paid + cost \<le> lm_cost (oa_limits a))
             ''objective resource budget exhausted''
           (Inr [(''attempts'', PInt (attempts + 1)), (''reserved_tokens'', PInt (spent + tokens)),
                 (''reserved_cost_microusd'', PInt (paid + cost))])))))))) of
        Inl e \<Rightarrow> (Inl e, s)
      | Inr changes \<Rightarrow>
          queue_update h hm (oa_id a) worker generation version now ''attempt_budget_reserved'' changes s)"

definition queue_events ::
  "(string \<Rightarrow> string) \<Rightarrow> (string \<Rightarrow> string) \<Rightarrow> string \<Rightarrow> queue \<Rightarrow> (int \<times> string \<times> rec) list res" where
  "queue_events h hm oid s =
     bindE (queue_read h hm oid s) (\<lambda>_.
     mapE (\<lambda>e. bindE (json_record (er_record e)) (\<lambda>d. Inr (er_version e, er_event e, d))) (rows_of oid s))"

definition expire_body ::
  "(string \<Rightarrow> string) \<Rightarrow> (string \<Rightarrow> string) \<Rightarrow> string \<Rightarrow> int \<Rightarrow> queue \<Rightarrow> (rec \<times> queue) res" where
  "expire_body h hm oid now s =
     bindE (queue_read h hm oid s) (\<lambda>d.
     bindE (int_field d ''deadline'') (\<lambda>deadline.
     bindE (field d ''intent'') (\<lambda>intent.
     bindE (if intent = PNone then Inr False
            else bindE (int_field d ''lease_until'') (\<lambda>until. Inr (0 < until \<and> until \<le> now))) (\<lambda>uncertain.
     bindE (field d ''state'') (\<lambda>state.
     if state \<notin> PStr ` set terminal_states \<and> (deadline \<le> now \<or> uncertain)
     then
       bindE (bump (put ''reason'' (PStr ''objective deadline/lease exceeded; reconcile any pending intent'')
                     (put ''state'' (PStr ''blocked'') d))) (\<lambda>d'.
       bindE (queue_write h hm d' ''objective_timed_out'' s) (\<lambda>(_, s'). Inr (d', s')))
     else Inr (d, s))))))"

definition queue_expire ::
  "(string \<Rightarrow> string) \<Rightarrow> (string \<Rightarrow> string) \<Rightarrow> string \<Rightarrow> int \<Rightarrow> queue \<Rightarrow> rec res \<times> queue" where
  "queue_expire h hm oid now s = transaction (expire_body h hm oid now) s"

definition store_artifact :: "(string \<Rightarrow> string) \<Rightarrow> string \<Rightarrow> queue \<Rightarrow> string res \<times> queue" where
  "store_artifact h payload s =
     (if 67108864 < length payload then (Inl (Rejected ''artifact byte limit''), s)
      else transaction (\<lambda>s.
        let s' = (case map_of (q_artifacts s) (h payload) of
                    None \<Rightarrow> s\<lparr>q_artifacts := q_artifacts s @ [(h payload, payload)]\<rparr>
                  | Some _ \<Rightarrow> s)
        in need (map_of (q_artifacts s') (h payload) = Some payload) ''artifact store collision/tampering''
           (Inr (h payload, s'))) s)"

definition artifact :: "(string \<Rightarrow> string) \<Rightarrow> string \<Rightarrow> queue \<Rightarrow> string res" where
  "artifact h digest s =
     bindE (sha_in (PStr digest) 64) (\<lambda>_.
     bindE (found (map_of (q_artifacts s) digest) ''missing or tampered artifact'') (\<lambda>payload.
     need (h payload = digest) ''missing or tampered artifact'' (Inr payload)))"

end
