(* ===== verification/TaskFacts.thy ===== *)
theory TaskFacts
  imports TaskResult
begin

text \<open>
  What the operations on runs give on success, the runs that can arise (\<open>run_reach\<close>, from an
  admission by any number of transitions), and the invariant that all of them satisfy.
\<close>

section \<open>Scopes\<close>

lemma covers_trans: "covers p q \<Longrightarrow> covers q f \<Longrightarrow> covers p f"
  unfolding covers_def Let_def by (metis prefix_order.trans)

section \<open>Checks\<close>

definition check_fits :: "control_policy \<Rightarrow> string \<Rightarrow> check \<Rightarrow> bool" where
  "check_fits p digest c =
     (check_validate c = Inr () \<and> ck_candidate c = PStr digest \<and> skips_within p c)"

lemma check_loop_Inr:
  "check_loop p digest names cs = Inr ns \<longleftrightarrow>
     ns = rev (map ck_name cs) @ names \<and> list_all (check_fits p digest) cs
     \<and> distinct (map ck_name cs) \<and> ck_name ` set cs \<inter> set names = {}"
proof (induction cs arbitrary: names)
  case (Cons c cs)
  show ?case by (simp add: bindE_Inr need_Inr Cons.IH check_fits_def) blast
qed auto

lemma check_exit_passed:
  "check_validate c = Inr () \<Longrightarrow> has_status [''passed''] c \<Longrightarrow> ck_exit_code c = PInt 0"
  by (auto simp: check_validate_def check_exit_def bindE_Inr need_Inr integer_Inr has_status_def)

lemma check_name_Inr [res_simps]: "check_name_of c = Inr s \<longleftrightarrow> ck_name c = PStr s \<and> check_pattern s"
  by (auto simp: check_name_of_def need_Inr split: pyval.splits)

lemma check_counts_passed:
  assumes "check_validate c = Inr ()" "has_status [''passed''] c" "ck_tests_run c \<noteq> PNone"
  shows "\<exists>run passed skipped. ck_tests_run c = PInt run \<and> ck_passed c = PInt passed \<and> 0 < passed
     \<and> ck_failed c = PInt 0 \<and> ck_errors c = PInt 0 \<and> ck_skipped c = PInt skipped \<and> run = passed + skipped"
  using assms
  by (auto simp: check_validate_def check_totals_def check_counts_def count_value_def bindE_Inr need_Inr
      integer_Inr)

section \<open>Transitions\<close>

text \<open>
  What a transition may do, as a step relation: \<open>run_step p r state cand checks reason r'\<close> says
  that the run \<open>r\<close> goes to \<open>state\<close> with the evidence given and becomes \<open>r'\<close>.
\<close>

definition evidence_ok :: "control_policy \<Rightarrow> candidate \<Rightarrow> check list \<Rightarrow> bool" where
  "evidence_ok p c checks =
     (list_all (check_fits p (cd_digest c)) checks \<and> distinct (map ck_name checks))"

definition all_passed :: "control_policy \<Rightarrow> candidate \<Rightarrow> check list \<Rightarrow> bool" where
  "all_passed p c checks =
     (scope_valid c \<and> PStr ` set (cp_checks p) \<subseteq> ck_name ` set checks
      \<and> list_all (has_status [''passed'']) checks \<and> list_all passed_with_counts checks)"

inductive run_step ::
  "control_policy \<Rightarrow> run \<Rightarrow> run_state \<Rightarrow> candidate option \<Rightarrow> check list \<Rightarrow> string option \<Rightarrow> run \<Rightarrow> bool"
  for p where
  start: "rn_state r = Admitted \<Longrightarrow> run_step p r Running None [] None (r\<lparr>rn_state := Running\<rparr>)"
| submit: "rn_state r \<in> {Running, Repairing} \<Longrightarrow>
     (cd_task_id c, cd_branch c, cd_base_sha c, cd_policy_digest c)
       = (rn_task_id r, rn_branch r, rn_base_sha r, rn_policy_digest r) \<Longrightarrow>
     run_step p r Validating (Some c) [] None
       (r\<lparr>rn_state := Validating, rn_candidate := Some c, rn_checks := []\<rparr>)"
| complete: "rn_state r = Validating \<Longrightarrow> rn_candidate r = Some c \<Longrightarrow> evidence_ok p c checks \<Longrightarrow>
     all_passed p c checks \<Longrightarrow>
     run_step p r Completed None checks None (r\<lparr>rn_state := Completed, rn_checks := checks\<rparr>)"
| repair: "rn_state r = Validating \<Longrightarrow> rn_candidate r = Some c \<Longrightarrow> evidence_ok p c checks \<Longrightarrow>
     \<not> scope_valid c \<or> list_ex (has_status [''failed'']) checks \<Longrightarrow> rn_repairs r < cp_max_repairs p \<Longrightarrow>
     run_step p r Repairing None checks None
       (r\<lparr>rn_state := Repairing, rn_checks := checks, rn_repairs := rn_repairs r + 1\<rparr>)"
| close: "rn_state r \<in> {Pending, Admitted, Running, Validating, Repairing} \<Longrightarrow>
     state \<in> {Blocked, Failed} \<Longrightarrow> text_ok 1024 s \<Longrightarrow>
     run_step p r state None [] (Some s) (r\<lparr>rn_state := state, rn_reason := Some s\<rparr>)"

inductive_simps run_step_simps:
  "run_step p r Pending cand checks reason r'" "run_step p r Admitted cand checks reason r'"
  "run_step p r Running cand checks reason r'" "run_step p r Validating cand checks reason r'"
  "run_step p r Repairing cand checks reason r'" "run_step p r Blocked cand checks reason r'"
  "run_step p r Failed cand checks reason r'" "run_step p r Completed cand checks reason r'"

lemma edges_iff:
  "Running \<in> set (edges s) \<longleftrightarrow> s = Admitted" "Validating \<in> set (edges s) \<longleftrightarrow> s \<in> {Running, Repairing}"
  "Completed \<in> set (edges s) \<longleftrightarrow> s = Validating" "Repairing \<in> set (edges s) \<longleftrightarrow> s = Validating"
  "Blocked \<in> set (edges s) \<longleftrightarrow> s \<in> {Pending, Admitted, Running, Validating, Repairing}"
  "Failed \<in> set (edges s) \<longleftrightarrow> s \<in> {Pending, Admitted, Running, Validating, Repairing}"
  "Pending \<notin> set (edges s)"
  by (cases s; simp)+

lemma evaluate_completed:
  "evaluate r Completed p c checks = Inr r' \<longleftrightarrow>
     evidence_ok p c checks \<and> all_passed p c checks \<and> r' = r\<lparr>rn_state := Completed, rn_checks := checks\<rparr>"
  by (auto simp: evaluate_def bindE_Inr need_Inr check_loop_Inr evidence_ok_def all_passed_def)

lemma evaluate_repairing:
  "evaluate r Repairing p c checks = Inr r' \<longleftrightarrow>
     evidence_ok p c checks \<and> (\<not> scope_valid c \<or> list_ex (has_status [''failed'']) checks)
     \<and> rn_repairs r < cp_max_repairs p
     \<and> r' = r\<lparr>rn_state := Repairing, rn_checks := checks, rn_repairs := rn_repairs r + 1\<rparr>"
  by (auto simp: evaluate_def bindE_Inr need_Inr check_loop_Inr evidence_ok_def)

definition run_fence :: "control_policy \<Rightarrow> run \<Rightarrow> bool" where
  "run_fence p r =
     (rn_policy_digest r = cp_digest p \<and> rn_base_sha r = cp_base_sha p
      \<and> 0 \<le> rn_repairs r \<and> rn_repairs r \<le> cp_max_repairs p)"

text \<open>The code takes exactly these steps.\<close>

lemma transition_steps:
  "transition r target p cand checks reason = Inr r' \<longleftrightarrow>
     run_fence p r \<and> (\<exists>state. state_of target = Some state \<and> run_step p r state cand checks reason r')"
proof (cases "state_of target")
  case (Some state)
  have "transition r target p cand checks reason = Inr r' \<longleftrightarrow> run_fence p r \<and> run_step p r state cand checks reason r'"
    by (cases state; cases reason; cases cand; cases "rn_candidate r";
        simp add: transition_def Some run_fence_def need_Inr bindE_Inr text_in_Inr text_option_def
          run_step_simps edges_iff evaluate_completed evaluate_repairing; blast)
  with Some show ?thesis by auto
qed (simp add: transition_def need_Inr)

section \<open>The runs that arise\<close>

text \<open>
  \<open>run_reach good p t n r\<close>: the run \<open>r\<close> of the task \<open>t\<close> is reached from its admission by \<open>n\<close>
  transitions, each candidate handed to a transition satisfying \<open>good\<close>.
\<close>

inductive run_reach ::
  "(candidate \<Rightarrow> bool) \<Rightarrow> control_policy \<Rightarrow> task \<Rightarrow> nat \<Rightarrow> run \<Rightarrow> bool"
  for good p t where
  admitted: "admit t p who repository base issue branches = Inr r \<Longrightarrow> run_reach good p t 0 r"
| moved: "run_reach good p t n r \<Longrightarrow> (\<And>c. cand = Some c \<Longrightarrow> good c) \<Longrightarrow>
     transition r target p cand checks reason = Inr r' \<Longrightarrow> run_reach good p t (Suc n) r'"

definition run_of :: "control_policy \<Rightarrow> task \<Rightarrow> run \<Rightarrow> bool" where
  "run_of p t r =
     ((rn_task_id r, rn_branch r, rn_base_sha r, rn_policy_digest r)
        = (task_id t, task_branch t, tk_base_sha t, tk_policy_digest t)
      \<and> tk_policy_digest t = cp_digest p \<and> tk_base_sha t = cp_base_sha p
      \<and> 0 \<le> rn_repairs r \<and> rn_repairs r \<le> cp_max_repairs p)"

definition candidate_of :: "task \<Rightarrow> candidate \<Rightarrow> bool" where
  "candidate_of t c =
     ((cd_task_id c, cd_branch c, cd_base_sha c, cd_policy_digest c)
        = (task_id t, task_branch t, tk_base_sha t, tk_policy_digest t))"

definition evidence_fits :: "(candidate \<Rightarrow> bool) \<Rightarrow> control_policy \<Rightarrow> task \<Rightarrow> run \<Rightarrow> bool" where
  "evidence_fits good p t r =
     (case rn_candidate r of
        None \<Rightarrow> rn_state r \<in> {Admitted, Running, Blocked, Failed} \<and> rn_checks r = []
      | Some c \<Rightarrow> rn_state r \<in> {Validating, Repairing, Blocked, Failed, Completed}
          \<and> candidate_of t c \<and> good c \<and> evidence_ok p c (rn_checks r))"

definition state_fits :: "control_policy \<Rightarrow> run \<Rightarrow> bool" where
  "state_fits p r =
     ((if rn_state r \<in> {Blocked, Failed} then \<exists>s. rn_reason r = Some s \<and> text_ok 1024 s
       else rn_reason r = None)
      \<and> (rn_state r = Validating \<longrightarrow> rn_checks r = [])
      \<and> (rn_state r = Repairing \<longrightarrow> 0 < rn_repairs r
          \<and> (\<exists>c. rn_candidate r = Some c
               \<and> (\<not> scope_valid c \<or> list_ex (has_status [''failed'']) (rn_checks r))))
      \<and> (rn_state r = Completed \<longrightarrow> (\<exists>c. rn_candidate r = Some c \<and> all_passed p c (rn_checks r))))"

definition run_inv :: "(candidate \<Rightarrow> bool) \<Rightarrow> control_policy \<Rightarrow> task \<Rightarrow> run \<Rightarrow> bool" where
  "run_inv good p t r = (run_of p t r \<and> evidence_fits good p t r \<and> state_fits p r)"

lemmas run_inv_defs = run_inv_def run_of_def evidence_fits_def state_fits_def

lemma admit_Inr:
  "admit t p who repository base issue branches = Inr r \<Longrightarrow>
     r = (run_pending t)\<lparr>rn_state := Admitted\<rparr> \<and> tk_policy_digest t = cp_digest p
     \<and> tk_base_sha t = cp_base_sha p"
  by (auto simp: admit_def need_Inr)

lemma admit_inv:
  "0 \<le> cp_max_repairs p \<Longrightarrow> admit t p who repository base issue branches = Inr r \<Longrightarrow> run_inv good p t r"
  by (drule admit_Inr) (auto simp: run_inv_defs run_pending_def)

lemma run_step_inv:
  assumes "run_step p r state cand checks reason r'" "run_inv good p t r" "\<And>c. cand = Some c \<Longrightarrow> good c"
  shows "run_inv good p t r'"
  using assms
proof (induction rule: run_step.induct)
  case (start r)
  then show ?case by (auto simp: run_inv_defs split: option.splits)
next
  case (submit r c)
  then show ?case by (auto simp: run_inv_defs candidate_of_def evidence_ok_def)
next
  case (complete r c checks)
  then show ?case by (auto simp: run_inv_defs)
next
  case (repair r c checks)
  then show ?case by (auto simp: run_inv_defs)
next
  case (close r state s)
  then show ?case by (auto simp: run_inv_defs split: option.splits)
qed

lemma run_reach_inv:
  "run_reach good p t n r \<Longrightarrow> 0 \<le> cp_max_repairs p \<Longrightarrow> run_inv good p t r"
  by (induction rule: run_reach.induct) (auto intro: admit_inv run_step_inv simp: transition_steps)

section \<open>Every run is finite\<close>

text \<open>How many transitions a run can still make.\<close>

definition run_rank :: "control_policy \<Rightarrow> run \<Rightarrow> int" where
  "run_rank p r =
     (let left = 2 * (cp_max_repairs p - rn_repairs r) in
      case rn_state r of
        Pending \<Rightarrow> 4 + left | Admitted \<Rightarrow> 3 + left | Running \<Rightarrow> 2 + left | Validating \<Rightarrow> 1 + left
      | Repairing \<Rightarrow> 2 + left | Blocked \<Rightarrow> 0 | Failed \<Rightarrow> 0 | Completed \<Rightarrow> 0)"

lemma run_rank_step:
  "run_step p r state cand checks reason r' \<Longrightarrow> run_fence p r \<Longrightarrow> run_rank p r' < run_rank p r"
  by (induction rule: run_step.induct) (auto simp: run_rank_def run_fence_def)

lemma run_rank_nonneg: "run_inv good p t r \<Longrightarrow> 0 \<le> run_rank p r"
  by (cases "rn_state r") (auto simp: run_rank_def run_inv_def run_of_def)

lemma run_reach_rank:
  "run_reach good p t n r \<Longrightarrow> int n + run_rank p r \<le> 3 + 2 * cp_max_repairs p"
proof (induction rule: run_reach.induct)
  case (admitted who repository base issue branches r)
  then show ?case by (auto dest!: admit_Inr simp: run_pending_def run_rank_def)
next
  case (moved n r cand target checks reason r')
  from moved.hyps(3) have "run_rank p r' < run_rank p r"
    by (auto simp: transition_steps run_rank_step)
  with moved.IH show ?case by linarith
qed

end
