(* ===== verification/TaskCodec.thy ===== *)
theory TaskCodec
  imports TaskFacts
begin

text \<open>
  Canonical JSON is read back by the strict reader; task identifiers are taken apart again, and
  the changes and violations of an inspected candidate pass the checks that
  \<^verbatim>\<open>validate_result\<close> makes of them.
\<close>

section \<open>Canonical texts are ASCII and strict\<close>

definition ascii :: "string \<Rightarrow> bool" where
  "ascii s = list_all (\<lambda>c. (of_char c :: nat) < 128) s"

lemma ascii_simps [simp]:
  "ascii []" "ascii (c # s) \<longleftrightarrow> (of_char c :: nat) < 128 \<and> ascii s" "ascii (s @ t) \<longleftrightarrow> ascii s \<and> ascii t"
  by (simp_all add: ascii_def)

lemma ascii_digits: "list_all is_digit s \<Longrightarrow> ascii s"
  by (auto simp: ascii_def list_all_iff is_digit_def)

lemma ascii_esc: "ascii (esc_char True c)"
proof -
  have "(of_char c :: nat) div 16 < 16" by (simp add: less_mult_imp_div_less)
  moreover have "(of_char (hexdig n) :: nat) < 128" if "n < 16" for n
    using that by (auto simp: hexdig_def)
  ultimately show ?thesis by (auto simp: esc_char_def Let_def)
qed

lemma ascii_concat: "list_all ascii ss \<Longrightarrow> ascii (concat ss)"
  by (induction ss) auto

lemma ascii_render_str: "ascii (render_str True s)"
  by (simp add: render_str_def ascii_concat list_all_iff ascii_esc)

lemma ascii_render:
  shows "json_ok v \<Longrightarrow> ascii (render True v)"
    and "list_all json_ok xs \<Longrightarrow> ascii (render_items True xs)"
    and "list_all (\<lambda>(k, v). json_ok v) d \<Longrightarrow> ascii (render_pairs True d)"
proof (induction "True" v and "True" xs and "True" d rule: render_render_items_render_pairs.induct)
  case (3 i)
  then show ?case by (simp add: str_int_def ascii_digits str_nat_digits)
qed (auto simp: ascii_render_str)

lemma ascii_decode: "ascii s \<Longrightarrow> utf8_decode s = Some s"
  by (induction s rule: utf8_decode.induct) auto

lemma json_ok_strict: "json_ok v \<Longrightarrow> strict_value v"
  by (induction v rule: json_ok.induct) (auto simp: list_all_iff)

lemma json_text_canonical: "json_ok v \<Longrightarrow> json_text (canonical v) = Some (canonical v)"
proof -
  assume "json_ok v"
  then have a: "ascii (canonical v)" by (simp add: canonical_def dumps_def ascii_render json_ok_norm)
  have "take 3 (canonical v) \<noteq> [CHR 0xEF, CHR 0xBB, CHR 0xBF]"
  proof
    assume "take 3 (canonical v) = [CHR 0xEF, CHR 0xBB, CHR 0xBF]"
    then have "ascii ([CHR 0xEF, CHR 0xBB, CHR 0xBF] @ drop 3 (canonical v))"
      using a append_take_drop_id [of 3 "canonical v"] by simp
    then show False by simp
  qed
  with a show ?thesis by (simp add: json_text_def ascii_decode)
qed

lemma json_in_canonical:
  assumes "json_ok (PDict d)" "length (canonical (PDict d)) \<le> n"
  shows "json_in (canonical (PDict d)) n = Inr (dict_items (norm (PDict d)))"
proof -
  have "loads_pairs (canonical (PDict d)) = Some (norm (PDict d))"
    unfolding canonical_def dumps_def by (rule loads_pairs_render [OF json_ok_norm [OF assms(1)]])
  moreover have "strict_value (norm (PDict d))" by (rule json_ok_strict [OF json_ok_norm [OF assms(1)]])
  ultimately show ?thesis
    using assms(2) by (simp add: json_in_def json_text_canonical [OF assms(1)])
qed

lemma keys_exactly_norm:
  "is_dict_with ks (PDict d) \<Longrightarrow> keys_exactly ks (norm (PDict d)) = Inr (dict_items (norm (PDict d)))"
  by (simp add: keys_exactly_def del: norm.simps)

section \<open>Task identifiers\<close>

lemma colon_digits: "list_all is_digit s \<Longrightarrow> CHR '':'' \<notin> set s"
  by (auto simp: list_all_iff is_digit_def)

lemma colon_hex: "list_all is_hex_lower s \<Longrightarrow> CHR '':'' \<notin> set s"
  by (auto simp: list_all_iff is_hex_lower_def is_digit_def)

lemma str_int_pos: "1 \<le> i \<Longrightarrow> str_int i = str_nat (nat i)"
  by (simp add: str_int_def)

lemma positive_digits_str: "1 \<le> i \<Longrightarrow> positive_digits (str_int i)"
  using str_nat_head [of "nat i"] str_nat_digits [of "nat i"]
  by (auto simp: positive_digits_def all_digits_def str_int_pos)

lemma task_id_groups_task:
  assumes "1 \<le> tk_issue t" "1 \<le> tk_revision t" "hex_digest 64 (tk_digest t)"
  shows "task_id_groups (task_id t) = Some (str_int (tk_issue t), str_int (tk_revision t), tk_digest t)"
proof -
  have "CHR '':'' \<notin> set (''issue-'' @ str_int (tk_issue t))" "CHR '':'' \<notin> set (''r'' @ str_int (tk_revision t))"
    "CHR '':'' \<notin> set (tk_digest t)"
    using assms colon_digits [OF str_nat_digits] colon_hex
    by (auto simp: str_int_pos hex_digest_def)
  then have "split_on CHR '':'' (task_id t) =
      [''issue-'' @ str_int (tk_issue t), ''r'' @ str_int (tk_revision t), tk_digest t]"
    using split_on_append [of "CHR '':''" "''issue-'' @ str_int (tk_issue t)"]
      split_on_append [of "CHR '':''" "''r'' @ str_int (tk_revision t)"]
    by (simp add: task_id_def split_on_absent)
  with assms show ?thesis by (simp add: task_id_groups_def positive_digits_str)
qed

section \<open>Changes\<close>

definition change_ok :: "change \<Rightarrow> bool" where
  "change_ok c =
     (path_ok False (ch_path c)
      \<and> result_mode (text_option (ch_old_mode c)) \<and> result_mode (text_option (ch_new_mode c))
      \<and> operation_fits (PStr (ch_operation c)) (text_option (ch_old_mode c)) (text_option (ch_new_mode c)))"

lemma norm_text_option [simp]: "norm (text_option x) = text_option x"
  by (simp add: text_option_def split: option.splits)

lemma json_ok_text_option [simp]: "json_ok (text_option x)"
  by (simp add: text_option_def split: option.splits)

text \<open>Reading a field of a printed record.\<close>

lemma dget_printed:
  "v = PDict d \<Longrightarrow> distinct (map fst d) \<Longrightarrow> k \<in> set (map fst d) \<Longrightarrow>
     dget (dict_items (norm v)) k = norm (dget d k)"
  by (simp only: dget_norm)

lemma change_fields:
  "keys_exactly change_keys (norm (change_to_dict c)) = Inr (dict_items (norm (change_to_dict c)))"
  "dget (dict_items (norm (change_to_dict c))) ''path'' = PStr (ch_path c)"
  "dget (dict_items (norm (change_to_dict c))) ''operation'' = PStr (ch_operation c)"
  "dget (dict_items (norm (change_to_dict c))) ''old_mode'' = text_option (ch_old_mode c)"
  "dget (dict_items (norm (change_to_dict c))) ''new_mode'' = text_option (ch_new_mode c)"
proof -
  show "keys_exactly change_keys (norm (change_to_dict c)) = Inr (dict_items (norm (change_to_dict c)))"
    unfolding change_to_dict_def by (rule keys_exactly_norm) (simp add: is_dict_with_def change_keys_def)
qed (subst dget_printed [OF change_to_dict_def]; simp add: dget_def)+

lemma result_changes_printed:
  "list_all change_ok cs \<Longrightarrow>
     result_changes seen (map (\<lambda>c. norm (change_to_dict c)) cs) = Inr out \<longleftrightarrow>
       out = rev (map (\<lambda>c. casefold (ch_path c)) cs) @ seen
       \<and> distinct (map (\<lambda>c. casefold (ch_path c)) cs)
       \<and> (\<lambda>c. casefold (ch_path c)) ` set cs \<inter> set seen = {}"
proof (induction cs arbitrary: seen)
  case (Cons c cs)
  then have "change_ok c" and cs: "list_all change_ok cs" by simp_all
  then have c: "path_ok False (ch_path c)"
    "result_mode (text_option (ch_old_mode c)) \<and> result_mode (text_option (ch_new_mode c))"
    "operation_fits (PStr (ch_operation c)) (text_option (ch_old_mode c)) (text_option (ch_new_mode c))"
    by (simp_all add: change_ok_def)
  show ?case
    by (simp add: change_fields bindE_Inr need_Inr path_name_Inr c Cons.IH [OF cs]) blast
qed auto

section \<open>What an inspected candidate holds\<close>

lemma snapshot_loop_modes:
  "snapshot_loop h seen n items = Inr out \<Longrightarrow> \<forall>(path, e)\<in>set items. fe_mode e \<in> set git_modes"
proof (induction items arbitrary: seen n out)
  case (Cons item items)
  obtain path e where "item = (path, e)" by (cases item)
  with Cons.prems obtain out' where "fe_mode e \<in> set git_modes"
    "snapshot_loop h (casefold path # seen) (n + length (fe_content e)) items = Inr out'"
    by (auto simp: need_Inr bindE_Inr)
  with Cons.IH \<open>item = _\<close> show ?case by auto
qed auto

lemma snapshot_entries:
  assumes "snapshot h entries = Inr rs" "map_of entries path = Some e"
  shows "path_ok False path" "fe_mode e \<in> set git_modes"
proof -
  have e: "(path, e) \<in> set entries" by (rule map_of_SomeD [OF assms(2)])
  from assms(1) obtain seen where "snapshot_loop h [] 0 (sort_key fst entries) = Inr (seen, rs)"
    "\<forall>x\<in>set entries. (case x of (path, _) \<Rightarrow> bindE (path_name False (PStr path)) (\<lambda>_. Inr ())) = Inr ()"
    by (auto simp: snapshot_def need_Inr bindE_Inr checkE_Inr_iff)
  with e snapshot_loop_modes show "path_ok False path" "fe_mode e \<in> set git_modes"
    by (fastforce simp: bindE_Inr path_name_Inr)+
qed

lemma changed_entry:
  "path \<in> set (changed_paths base cand) \<Longrightarrow> (\<exists>e. map_of base path = Some e) \<or> (\<exists>e. map_of cand path = Some e)"
  by (auto simp: changed_paths_def dest: weak_map_of_SomeI)

lemma change_of_ok:
  assumes "snapshot h base = Inr b" "snapshot h cand = Inr a" "path \<in> set (changed_paths base cand)"
  shows "change_ok (change_of base cand path)"
proof -
  have "path_ok False path"
    using changed_entry [OF assms(3)] snapshot_entries(1) [OF assms(1)] snapshot_entries(1) [OF assms(2)] by blast
  moreover have "result_mode (text_option (map_option fe_mode (map_of m path)))"
    if "snapshot h m = Inr r" for m r
    using snapshot_entries(2) [OF that] by (auto simp: result_mode_def text_option_def split: option.splits)
  moreover have "map_of base path \<noteq> None \<or> map_of cand path \<noteq> None"
    using changed_entry [OF assms(3)] by auto
  ultimately show ?thesis
    using assms(1,2)
    by (auto simp: change_ok_def change_of_def Let_def operation_fits_def operation_of_def text_option_def
        split: option.splits)
qed

lemma inspect_candidate_Inr:
  assumes "inspect_candidate h t p base cand = Inr c"
  obtains before after where "snapshot h base = Inr before" "snapshot h cand = Inr after"
    "tk_policy_digest t = cp_digest p"
    "cd_changes c = map (change_of base cand) (changed_paths base cand)"
    "cd_violations c =
       concat (map (\<lambda>path. path_violations t p path (map_of base path) (map_of cand path)) (changed_paths base cand))
       @ violation (changed_paths base cand = []) ''empty_candidate''
       @ violation (int (length (changed_paths base cand)) > cp_max_files p) ''changed_file_limit''
       @ violation (int (changed_bytes base cand (changed_paths base cand)) > cp_max_bytes p) ''changed_byte_limit''"
    "cd_digest c \<in> range h" "candidate_of t c"
  using assms
  by (auto simp: inspect_candidate_def need_Inr bindE_Inr Let_def digest_of_def candidate_of_def)

section \<open>Violations\<close>

lemma strip_nonempty: "\<not> py_space c \<Longrightarrow> strip (c # s) \<noteq> []"
  by (auto simp: strip_def lstrip_def dropWhile_eq_Nil_conv)

lemma length_strip_le: "length (strip s) \<le> length s"
  unfolding strip_def lstrip_def length_rev
  by (metis length_dropWhile_le length_rev order_trans)

lemma split_on_chars: "c \<in> set s \<Longrightarrow> c = d \<or> (\<exists>w\<in>set (split_on d s). c \<in> set w)"
  by (induction s) (auto split: list.splits)

lemma path_char_printable: "path_char c \<Longrightarrow> 32 \<le> (of_char c :: nat)"
  unfolding path_char_def is_alnum_def is_digit_def is_lower_def is_upper_def
  by (elim disjE conjE) auto

lemma path_control_free: "path_ok False s \<Longrightarrow> control_free s"
proof -
  assume "path_ok False s"
  then have "\<forall>w\<in>set (split_on CHR ''/'' s). \<forall>c\<in>set w. path_char c"
    by (simp add: path_ok_def list_all_iff path_part_def)
  then have "\<forall>c\<in>set s. c = CHR ''/'' \<or> path_char c" using split_on_chars by blast
  then have "32 \<le> (of_char c :: nat)" if "c \<in> set s" for c
    using that path_char_printable [of c] by (cases "c = CHR ''/''") auto
  then show ?thesis by (simp add: control_free_def list_all_iff)
qed

lemma control_free_append: "control_free (s @ t) \<longleftrightarrow> control_free s \<and> control_free t"
  by (auto simp: control_free_def)

lemma violation_text:
  assumes "path_ok False path" "\<not> py_space c" "control_free (c # m)" "length (c # m) \<le> 512"
  shows "text_ok 4096 ((c # m) @ path)"
proof -
  have "length ((c # m) @ path) \<le> 1024" using assms(1,4) by (simp add: path_ok_def)
  with length_strip_le [of "(c # m) @ path"] have "length (strip ((c # m) @ path)) \<le> 4096" by linarith
  with assms show ?thesis
    using strip_nonempty [OF assms(2), of "m @ path"] path_control_free [OF assms(1)]
    by (simp add: text_ok_def) (metis append_Cons control_free_append)
qed

lemma list_all_violation [simp]: "list_all P (violation c m) \<longleftrightarrow> (c \<longrightarrow> P m)"
  by (simp add: violation_def)

lemma path_violations_text:
  assumes "path_ok False path"
  shows "list_all (text_ok 4096) (path_violations t p path old new)"
  unfolding path_violations_def list_all_append list_all_violation
  by (intro conjI impI violation_text [OF assms]; code_simp)

lemma inspected_violations_text:
  assumes "inspect_candidate h t p base cand = Inr c"
  shows "list_all (text_ok 4096) (cd_violations c)" "list_all change_ok (cd_changes c)"
  using assms
proof (atomize (full), elim inspect_candidate_Inr)
  fix before after
  assume s: "snapshot h base = Inr before" "snapshot h cand = Inr after"
    and c: "cd_changes c = map (change_of base cand) (changed_paths base cand)"
    "cd_violations c =
       concat (map (\<lambda>path. path_violations t p path (map_of base path) (map_of cand path)) (changed_paths base cand))
       @ violation (changed_paths base cand = []) ''empty_candidate''
       @ violation (int (length (changed_paths base cand)) > cp_max_files p) ''changed_file_limit''
       @ violation (int (changed_bytes base cand (changed_paths base cand)) > cp_max_bytes p) ''changed_byte_limit''"
  have "change_ok (change_of base cand path)" if "path \<in> set (changed_paths base cand)" for path
    by (rule change_of_ok [OF s that])
  moreover from this have "path_ok False path" if "path \<in> set (changed_paths base cand)" for path
    using that by (auto simp: change_ok_def change_of_def Let_def)
  moreover from this have "list_all (text_ok 4096)
      (concat (map (\<lambda>path. path_violations t p path (map_of base path) (map_of cand path)) (changed_paths base cand)))"
    using path_violations_text [of _ t p] by (fastforce simp: list_all_iff)
  moreover have "text_ok 4096 ''empty_candidate''" "text_ok 4096 ''changed_file_limit''"
    "text_ok 4096 ''changed_byte_limit''" by code_simp+
  ultimately show "list_all (text_ok 4096) (cd_violations c) \<and> list_all change_ok (cd_changes c)"
    unfolding c list_all_append list_all_violation by (simp add: list_all_iff)
qed

section \<open>The verdict on a candidate\<close>

lemma violation_Nil [simp]: "violation c m = [] \<longleftrightarrow> \<not> c"
  by (simp add: violation_def)

lemma changed_paths_set: "set (changed_paths base cand) = {path. map_of base path \<noteq> map_of cand path}"
proof (rule set_eqI)
  fix path
  have "path \<in> fst ` set base \<union> fst ` set cand" if ne: "map_of base path \<noteq> map_of cand path"
  proof (rule ccontr)
    assume "path \<notin> fst ` set base \<union> fst ` set cand"
    then have "map_of base path = None" "map_of cand path = None" by (simp_all add: map_of_eq_None_iff)
    with ne show False by simp
  qed
  then show "path \<in> set (changed_paths base cand) \<longleftrightarrow> path \<in> {path. map_of base path \<noteq> map_of cand path}"
    by (auto simp: changed_paths_def)
qed

lemma path_violations_Nil:
  "path_violations t p path old new = [] \<longleftrightarrow>
     operation_of old new \<in> set (tk_operations t)
     \<and> list_ex (\<lambda>s. covers s path) (cp_permitted p) \<and> list_ex (\<lambda>s. covers s path) (tk_permitted t)
     \<and> \<not> list_ex (\<lambda>s. covers s path) (cp_protected p)
     \<and> (\<forall>e\<in>set (entries_of old new). fe_mode e \<in> set (cp_modes p))
     \<and> (old = None \<or> new = None \<or> map_option fe_mode old = map_option fe_mode new)"
  unfolding path_violations_def append_is_Nil_conv violation_Nil list_ex_iff
  by (simp only: not_not de_Morgan_conj bex_simps ball_simps)

lemma inspected_scope_valid:
  assumes "inspect_candidate h t p base cand = Inr c"
  shows "scope_valid c \<longleftrightarrow>
     changed_paths base cand \<noteq> [] \<and> int (length (changed_paths base cand)) \<le> cp_max_files p
     \<and> int (changed_bytes base cand (changed_paths base cand)) \<le> cp_max_bytes p
     \<and> (\<forall>path\<in>set (changed_paths base cand).
          path_violations t p path (map_of base path) (map_of cand path) = [])"
  using assms by (elim inspect_candidate_Inr) (auto simp: scope_valid_def)

definition inspected :: "(string \<Rightarrow> string) \<Rightarrow> control_policy \<Rightarrow> task \<Rightarrow> candidate \<Rightarrow> bool" where
  "inspected h p t c = (\<exists>base cand. inspect_candidate h t p base cand = Inr c)"

end
