(* ===== verification/QueueFacts.thy ===== *)
theory QueueFacts
  imports ObjectiveQueue TaskCodec
begin

text \<open>
  The invariant of the queue: the events of an objective are a gapless authenticated chain, the
  current record is the last of them, and every record keeps the fields and the bounds that its
  approval signed.  Writing a proper successor of the record that was read keeps it.
\<close>

section \<open>Records as JSON\<close>

lemma norm_idem: "json_ok v \<Longrightarrow> norm (norm v) = norm v"
proof (induction v rule: json_ok.induct)
  case (2 xs)
  then show ?case by (simp add: list_all_iff)
next
  case (3 d)
  let ?n = "\<lambda>(k, v). (k, norm v)"
  let ?s = "sort_key fst (map ?n d)"
  have "map ?n ?s = ?s"
    using 3 by (intro map_idI) (auto simp: list_all_iff)
  then have "norm (PDict ?s) = PDict (sort_key fst ?s)" by simp
  also have "sort_key fst ?s = ?s" by (rule sort_key_id_if_sorted) (rule sorted_sort_key)
  finally show ?case by simp
qed auto

text \<open>The record that is read back after \<open>d\<close> was written.\<close>

definition saved :: "rec \<Rightarrow> rec" where
  "saved d = dict_items (norm (PDict d))"

lemma json_dict: "json_ok (PDict d) \<longleftrightarrow> distinct (map fst d) \<and> (\<forall>k v. map_of d k = Some v \<longrightarrow> json_ok v)"
proof (cases "distinct (map fst d)")
  case True
  then show ?thesis by (auto simp: list_all_iff)
qed simp

declare json_ok.simps(3) [simp del]

lemma saved_ok: "json_ok (PDict d) \<Longrightarrow> json_ok (PDict (saved d))"
  using json_ok_norm [of "PDict d"] by (simp add: saved_def)

lemma map_of_saved: "json_ok (PDict d) \<Longrightarrow> map_of (saved d) k = map_option norm (map_of d k)"
  using map_of_norm [of d k] by (simp add: saved_def json_dict del: norm.simps json_ok.simps)

lemma saved_values: "json_ok (PDict d) \<Longrightarrow> map_of (saved d) k = Some v \<Longrightarrow> norm v = v"
  using json_dict [of d] by (auto simp: map_of_saved norm_idem simp del: json_ok.simps)

lemma json_record_canonical: "json_ok (PDict d) \<Longrightarrow> json_record (canonical (PDict d)) = Inr (saved d)"
proof -
  assume d: "json_ok (PDict d)"
  have "loads (canonical (PDict d)) = Some (norm (PDict d))"
    unfolding canonical_def by (rule loads_dumps [OF d])
  then show ?thesis
    by (simp add: json_record_def json_text_canonical [OF d] saved_def)
qed

lemma map_of_put [simp]: "map_of (put k v d) = (map_of d)(k \<mapsto> v)"
  by (simp add: put_def update_conv')

lemma put_ok: "json_ok (PDict d) \<Longrightarrow> json_ok v \<Longrightarrow> json_ok (PDict (put k v d))"
  by (simp add: json_dict del: json_ok.simps) (simp add: put_def distinct_update)

lemma merge_ok: "json_ok (PDict d) \<Longrightarrow> json_ok (PDict c) \<Longrightarrow> json_ok (PDict (AList.merge d c))"
  by (auto simp: json_dict distinct_merge merge_conv' map_add_def split: option.splits simp del: json_ok.simps)

lemma field_Inr [res_simps]: "field d k = Inr v \<longleftrightarrow> map_of d k = Some v"
  by (simp add: field_def split: option.split)

lemma int_field_Inr [res_simps]: "int_field d k = Inr i \<longleftrightarrow> map_of d k = Some (PInt i)"
  unfolding int_field_def by (cases "map_of d k") (auto simp: field_def split: pyval.split)

lemma bump_Inr: "bump d = Inr d' \<longleftrightarrow> (\<exists>n. map_of d ''version'' = Some (PInt n) \<and> d' = put ''version'' (PInt (n + 1)) d)"
  by (auto simp: bump_def bindE_Inr int_field_Inr)

section \<open>What a record promises\<close>

definition number :: "rec \<Rightarrow> string \<Rightarrow> int" where
  "number d k = (case map_of d k of Some (PInt i) \<Rightarrow> i | _ \<Rightarrow> 0)"

definition number_keys :: "string list" where
  "number_keys =
     [''version'', ''batch'', ''repairs'', ''attempts'', ''reserved_tokens'', ''reserved_cost_microusd'',
      ''lease_generation'', ''lease_until'', ''deadline'']"

text \<open>\<open>record_ok oid a n d\<close>: the record \<open>d\<close>, version \<open>n\<close> of the objective \<open>oid\<close> approved by \<open>a\<close>.\<close>

definition record_ok :: "string \<Rightarrow> objective_approval \<Rightarrow> int \<Rightarrow> rec \<Rightarrow> bool" where
  "record_ok oid a n d =
     (json_ok (PDict d)
      \<and> map_of d ''objective_id'' = Some (PStr oid)
      \<and> map_of d ''approval_digest'' = Some (PStr (oa_digest a))
      \<and> map_of d ''resource_limits'' = Some (norm (limits_json (oa_limits a)))
      \<and> (\<forall>k\<in>set number_keys. \<exists>i. map_of d k = Some (PInt i)) \<and> map_of d ''version'' = Some (PInt n)
      \<and> (\<exists>st. map_of d ''state'' = Some (PStr st))
      \<and> (\<exists>w. map_of d ''lease_owner'' = Some w \<and> norm w = w)
      \<and> number d ''attempts'' \<le> lm_attempts (oa_limits a)
      \<and> number d ''reserved_tokens'' \<le> lm_tokens (oa_limits a)
      \<and> number d ''reserved_cost_microusd'' \<le> lm_cost (oa_limits a)
      \<and> number d ''batch'' \<le> lm_batches (oa_limits a)
      \<and> 0 \<le> number d ''repairs'' \<and> number d ''repairs'' \<le> lm_repairs (oa_limits a)
      \<and> number d ''lease_until'' \<le> max 0 (number d ''deadline''))"

text \<open>\<open>record_le d d'\<close>: \<open>d'\<close> may come after \<open>d\<close>.\<close>

definition growing :: "string list" where
  "growing = [''version'', ''batch'', ''attempts'', ''reserved_tokens'', ''reserved_cost_microusd'', ''lease_generation'']"

definition fixed :: "string list" where
  "fixed = [''objective_id'', ''approval_digest'', ''resource_limits'', ''deadline'']"

definition terminal :: "rec \<Rightarrow> bool" where
  "terminal d = (\<exists>st\<in>set terminal_states. map_of d ''state'' = Some (PStr st))"

text \<open>
  Within one lease generation the owner of the lease stays, and a terminal record is the last one.
\<close>

definition record_le :: "rec \<Rightarrow> rec \<Rightarrow> bool" where
  "record_le d d' =
     ((\<forall>k\<in>set growing. number d k \<le> number d' k) \<and> (\<forall>k\<in>set fixed. map_of d' k = map_of d k)
      \<and> (number d' ''lease_generation'' = number d ''lease_generation'' \<longrightarrow>
           map_of d' ''lease_owner'' = map_of d ''lease_owner'')
      \<and> (terminal d \<longrightarrow> d' = d))"

lemma record_le_refl: "record_le d d"
  by (simp add: record_le_def)

lemma record_le_trans: "record_le d e \<Longrightarrow> record_le e f \<Longrightarrow> record_le d f"
proof -
  assume le: "record_le d e" "record_le e f"
  let ?g = "\<lambda>d. number d ''lease_generation''"
  have "?g d \<le> ?g e" "?g e \<le> ?g f" using le by (simp_all add: record_le_def growing_def)
  then have g: "?g e = ?g d" "?g f = ?g e" if "?g f = ?g d" using that by linarith+
  have "map_of f ''lease_owner'' = map_of d ''lease_owner''" if "?g f = ?g d"
    using le g [OF that] by (simp add: record_le_def)
  moreover have "\<forall>k\<in>set growing. number d k \<le> number f k"
    using le unfolding record_le_def by (meson order_trans)
  moreover have "\<forall>k\<in>set fixed. map_of f k = map_of d k" using le unfolding record_le_def by metis
  moreover have "terminal d \<Longrightarrow> f = d" using le unfolding record_le_def by metis
  ultimately show "record_le d f" unfolding record_le_def by blast
qed

lemma number_put [simp]: "number (put k v d) j = (if j = k then (case v of PInt i \<Rightarrow> i | _ \<Rightarrow> 0) else number d j)"
  by (simp add: number_def)

lemma numberI: "map_of d k = Some (PInt i) \<Longrightarrow> number d k = i"
  by (simp add: number_def)

section \<open>The invariant\<close>

definition events_for :: "string \<Rightarrow> queue \<Rightarrow> event_row list" where
  "events_for oid s = filter (\<lambda>e. er_objective e = oid) (q_events s)"

definition tip :: "event_row list \<Rightarrow> (string \<times> string) option" where
  "tip es = (if es = [] then None else Some (er_record (last es), er_mac (last es)))"

definition signed :: "(string \<Rightarrow> string) \<Rightarrow> signature_check \<Rightarrow> queue \<Rightarrow> string \<Rightarrow> objective_approval \<Rightarrow> bool" where
  "signed h sig s oid a =
     (\<exists>raw p owners now. map_of (q_approvals s) oid = Some (oa_digest a, raw)
        \<and> verify_approval h sig raw p owners now = Inr a \<and> oa_id a = oid)"

definition row_ok :: "string \<Rightarrow> objective_approval \<Rightarrow> event_row \<Rightarrow> bool" where
  "row_ok oid a e =
     (\<exists>d. json_ok (PDict d) \<and> er_record e = canonical (PDict d) \<and> record_ok oid a (er_version e) (saved d))"

definition queue_ok :: "(string \<Rightarrow> string) \<Rightarrow> (string \<Rightarrow> string) \<Rightarrow> signature_check \<Rightarrow> queue \<Rightarrow> bool" where
  "queue_ok h hm sig s =
     (\<forall>oid. let es = events_for oid s in
        map_of (q_objectives s) oid = tip es \<and> map er_version es = map int [0..<length es]
        \<and> check_events h hm oid 0 zero_mac es = Inr ()
        \<and> (es \<noteq> [] \<longrightarrow> (\<exists>a. signed h sig s oid a \<and> list_all (row_ok oid a) es)))"

definition current :: "queue \<Rightarrow> string \<Rightarrow> rec option" where
  "current s oid =
     (case map_of (q_objectives s) oid of
        None \<Rightarrow> None
      | Some (body, _) \<Rightarrow> (case json_record body of Inl _ \<Rightarrow> None | Inr d \<Rightarrow> Some d))"

definition queue_le :: "queue \<Rightarrow> queue \<Rightarrow> bool" where
  "queue_le s s' =
     (prefix (q_events s) (q_events s')
      \<and> (\<forall>oid x. map_of (q_approvals s) oid = Some x \<longrightarrow> map_of (q_approvals s') oid = Some x)
      \<and> (\<forall>oid d. current s oid = Some d \<longrightarrow> (\<exists>d'. current s' oid = Some d' \<and> record_le d d')))"

lemma queue_le_refl: "queue_le s s"
  unfolding queue_le_def by (blast intro: record_le_refl)

lemma queue_le_trans: "queue_le s t \<Longrightarrow> queue_le t u \<Longrightarrow> queue_le s u"
  unfolding queue_le_def by (meson prefix_order.trans record_le_trans)

lemma queue_ok_facts:
  assumes "queue_ok h hm sig s"
  shows "map_of (q_objectives s) oid = tip (events_for oid s)"
    "map er_version (events_for oid s) = map int [0..<length (events_for oid s)]"
    "check_events h hm oid 0 zero_mac (events_for oid s) = Inr ()"
    "events_for oid s \<noteq> [] \<Longrightarrow> \<exists>a. signed h sig s oid a \<and> list_all (row_ok oid a) (events_for oid s)"
  using assms unfolding queue_ok_def Let_def by blast+

lemma new_queue_ok: "queue_ok h hm sig new_queue"
  by (simp add: queue_ok_def new_queue_def events_for_def tip_def)

lemma check_events_snoc:
  "check_events h hm oid i previous (es @ [e]) = Inr u \<longleftrightarrow>
     check_events h hm oid i previous es = Inr ()
     \<and> er_version e = i + int (length es)
     \<and> er_previous e = (if es = [] then previous else er_mac (last es))
     \<and> er_mac e = event_mac h hm oid (er_version e) (er_event e) (er_record e) (er_previous e)"
  by (induction es arbitrary: i previous) (auto simp: need_Inr)

lemma rows_of_ok:
  assumes "queue_ok h hm sig s"
  shows "rows_of oid s = take 2001 (events_for oid s)"
proof -
  have "sorted (map er_version (events_for oid s))"
    unfolding queue_ok_facts(2) [OF assms] by (simp add: sorted_map sorted_wrt_upt mono_def)
  then show ?thesis
    unfolding rows_of_def events_for_def [symmetric] by (simp add: sort_key_id_if_sorted)
qed

lemma row_record:
  "row_ok oid a e \<Longrightarrow> \<exists>d. json_record (er_record e) = Inr (saved d) \<and> record_ok oid a (er_version e) (saved d)"
  by (auto simp: row_ok_def json_record_canonical)

text \<open>What a read gives.\<close>

lemma queue_read_ok:
  assumes ok: "queue_ok h hm sig s" and r: "queue_read h hm oid s = Inr d"
  obtains a where "signed h sig s oid a" "list_all (row_ok oid a) (events_for oid s)" "events_for oid s \<noteq> []"
    "current s oid = Some d" "record_ok oid a (int (length (events_for oid s)) - 1) d"
    "length (events_for oid s) \<le> 2000"
proof -
  let ?es = "events_for oid s"
  note f = queue_ok_facts [OF ok, of oid]
  from r have rows: "rows_of oid s \<noteq> []" "length (rows_of oid s) \<le> 2000"
    by (auto simp: queue_read_def bindE_Inr need_Inr Let_def)
  then have len: "length ?es \<le> 2000" and ne: "?es \<noteq> []" and all: "rows_of oid s = ?es"
    by (auto simp: rows_of_ok [OF ok])
  from r ne have body: "json_record (er_record (last ?es)) = Inr d"
    by (auto simp: queue_read_def bindE_Inr need_Inr found_Inr Let_def f(1) tip_def all)
  obtain a where a: "signed h sig s oid a" "list_all (row_ok oid a) ?es" using f(4) ne by blast
  then have "row_ok oid a (last ?es)" using ne by (simp add: list_all_iff)
  with body have "record_ok oid a (er_version (last ?es)) d" using row_record by fastforce
  moreover have "er_version (last ?es) = int (length ?es) - 1"
  proof -
    have "er_version (last ?es) = last (map er_version ?es)" using ne by (simp add: last_map)
    also have "\<dots> = int (length ?es) - 1" unfolding f(2) using ne by (simp add: last_map of_nat_diff Suc_leI)
    finally show ?thesis .
  qed
  moreover have "current s oid = Some d" using body ne by (simp add: current_def f(1) tip_def)
  ultimately show ?thesis using that a ne len by metis
qed

section \<open>Writing\<close>

lemma queue_write_Inr:
  assumes "map_of d ''objective_id'' = Some (PStr oid)" "map_of d ''version'' = Some (PInt version)"
    "map_of (q_objectives s) oid = tip es"
  shows "queue_write h hm d event s = Inr (u, s') \<longleftrightarrow>
     \<not> list_ex (\<lambda>e. er_objective e = oid \<and> er_version e = version) (q_events s)
     \<and> (let previous = (if es = [] then zero_mac else er_mac (last es));
            mac = event_mac h hm oid version event (canonical (PDict d)) previous
        in s' = s\<lparr>q_events := q_events s @
               [\<lparr>er_objective = oid, er_version = version, er_event = event, er_record = canonical (PDict d),
                 er_previous = previous, er_mac = mac\<rparr>],
             q_objectives := AList.update oid (canonical (PDict d), mac) (q_objectives s)\<rparr>)"
  using assms by (auto simp: queue_write_def field_def int_field_def found_def Let_def req_Inr tip_def)

lemma write_step:
  assumes ok: "queue_ok h hm sig s" and a: "signed h sig s oid a" "list_all (row_ok oid a) (events_for oid s)"
    and n: "json_ok (PDict n)" "record_ok oid a (int (length (events_for oid s))) (saved n)"
    and w: "queue_write h hm n event s = Inr (u, s')"
  shows "queue_ok h hm sig s' \<and> current s' oid = Some (saved n) \<and> prefix (q_events s) (q_events s')
    \<and> q_approvals s' = q_approvals s \<and> (\<forall>j. j \<noteq> oid \<longrightarrow> current s' j = current s j)"
proof -
  let ?es = "events_for oid s"
  have plain: "map_of n k = Some v" if v: "map_of (saved n) k = Some v" "(\<exists>i. v = PInt i) \<or> (\<exists>t. v = PStr t)" for k v
  proof -
    obtain x where "map_of n k = Some x" "norm x = v"
      using v(1) map_of_saved [OF n(1), of k] by (cases "map_of n k") auto
    with v(2) show ?thesis by (cases x) auto
  qed
  have k: "map_of n ''objective_id'' = Some (PStr oid)" "map_of n ''version'' = Some (PInt (int (length ?es)))"
    using n(2) plain by (auto simp: record_ok_def)
  define e where "e = \<lparr>er_objective = oid, er_version = int (length ?es), er_event = event,
     er_record = canonical (PDict n), er_previous = (if ?es = [] then zero_mac else er_mac (last ?es)),
     er_mac = event_mac h hm oid (int (length ?es)) event (canonical (PDict n))
       (if ?es = [] then zero_mac else er_mac (last ?es))\<rparr>"
  have s': "s' = s\<lparr>q_events := q_events s @ [e], q_objectives := AList.update oid (er_record e, er_mac e) (q_objectives s)\<rparr>"
    using w unfolding queue_write_Inr [OF k queue_ok_facts(1) [OF ok]] by (simp add: Let_def e_def)
  have es': "events_for j s' = (if j = oid then ?es @ [e] else events_for j s)" for j
    by (simp add: s' events_for_def e_def)
  have "row_ok oid a e" using n by (auto simp: row_ok_def e_def)
  with a have rows: "list_all (row_ok oid a) (?es @ [e])" by simp
  have "signed h sig s' j b = signed h sig s j b" for j b by (simp add: signed_def s')
  moreover have "check_events h hm oid 0 zero_mac (?es @ [e]) = Inr ()"
    using queue_ok_facts(3) [OF ok, of oid] by (simp add: check_events_snoc e_def)
  moreover have "map er_version (?es @ [e]) = map int [0..<length (?es @ [e])]"
    using queue_ok_facts(2) [OF ok, of oid] by (simp add: e_def)
  moreover have "map_of (q_objectives s') j = tip (events_for j s')" for j
  proof -
    have "map_of (q_objectives s') j = ((map_of (q_objectives s))(oid \<mapsto> (er_record e, er_mac e))) j"
      by (simp add: s' update_conv')
    then show ?thesis using queue_ok_facts(1) [OF ok, of j] by (simp add: es' tip_def)
  qed
  ultimately have "queue_ok h hm sig s'"
    unfolding queue_ok_def Let_def using queue_ok_facts(2-4) [OF ok] a(1) rows by (auto simp: es')
  moreover have "current s' oid = Some (saved n)"
    using n(1) by (simp add: current_def s' update_conv' e_def json_record_canonical)
  moreover have "current s' j = current s j" if "j \<noteq> oid" for j
    using that by (simp add: current_def s' update_conv')
  ultimately show ?thesis by (simp add: s')
qed

text \<open>What has to be shown of a record \<open>n\<close> that is written after \<open>d\<close> was read.\<close>

definition next_record :: "objective_approval \<Rightarrow> rec \<Rightarrow> rec \<Rightarrow> bool" where
  "next_record a d n =
     (json_ok (PDict n) \<and> \<not> terminal d \<and> (\<forall>k\<in>set fixed. map_of n k = map_of d k)
      \<and> (\<exists>w. map_of n ''lease_owner'' = Some w \<and> norm w = w)
      \<and> (number n ''lease_generation'' = number d ''lease_generation'' \<longrightarrow>
           map_of n ''lease_owner'' = map_of d ''lease_owner'')
      \<and> number n ''version'' = number d ''version'' + 1
      \<and> (\<forall>k\<in>set number_keys. \<exists>i. map_of n k = Some (PInt i)) \<and> (\<exists>st. map_of n ''state'' = Some (PStr st))
      \<and> (\<forall>k\<in>set growing. number d k \<le> number n k)
      \<and> number n ''attempts'' \<le> lm_attempts (oa_limits a)
      \<and> number n ''reserved_tokens'' \<le> lm_tokens (oa_limits a)
      \<and> number n ''reserved_cost_microusd'' \<le> lm_cost (oa_limits a)
      \<and> number n ''batch'' \<le> lm_batches (oa_limits a)
      \<and> 0 \<le> number n ''repairs'' \<and> number n ''repairs'' \<le> lm_repairs (oa_limits a)
      \<and> number n ''lease_until'' \<le> max 0 (number n ''deadline''))"

lemma number_saved:
  assumes "json_ok (PDict n)" "map_of n k = Some (PInt i)"
  shows "map_of (saved n) k = Some (PInt i)" "number (saved n) k = number n k"
  using assms by (simp_all add: number_def map_of_saved)

lemma next_record_saved:
  assumes "record_ok oid a v d" "next_record a d n"
  shows "record_ok oid a (v + 1) (saved n)" "record_le d (saved n)"
proof -
  have ok: "json_ok (PDict n)" using assms(2) by (simp add: next_record_def)
  have num: "\<exists>i. map_of (saved n) k = Some (PInt i)" "number (saved n) k = number n k" if "k \<in> set number_keys" for k
  proof -
    obtain i where "map_of n k = Some (PInt i)" using assms(2) \<open>k \<in> _\<close> by (auto simp: next_record_def)
    with number_saved [OF ok] show "\<exists>i. map_of (saved n) k = Some (PInt i)" "number (saved n) k = number n k"
      by blast+
  qed
  have same: "map_of (saved n) k = map_of d k" if "k \<in> set fixed" for k
  proof -
    have d: "map_of n k = map_of d k" using assms(2) that by (simp add: next_record_def)
    have "\<exists>v. map_of d k = Some v \<and> norm v = v"
      using that assms(1) by (auto simp: fixed_def record_ok_def number_keys_def norm_idem limits_json_def)
    with d show ?thesis by (auto simp: map_of_saved [OF ok])
  qed
  have nk: "set growing \<subseteq> set number_keys" by (simp add: growing_def number_keys_def)
  have "number (saved n) ''version'' = v + 1"
    using num(2) [of "''version''"] assms by (simp add: next_record_def record_ok_def number_keys_def numberI)
  moreover obtain i where "map_of (saved n) ''version'' = Some (PInt i)"
    using num(1) [of "''version''"] by (auto simp: number_keys_def)
  ultimately have "map_of (saved n) ''version'' = Some (PInt (v + 1))" by (simp add: numberI)
  moreover have "\<exists>st. map_of (saved n) ''state'' = Some (PStr st)"
    using assms(2) by (auto simp: next_record_def map_of_saved [OF ok])
  moreover have owner: "map_of (saved n) ''lease_owner'' = map_of n ''lease_owner''"
    using assms(2) by (auto simp: next_record_def map_of_saved [OF ok])
  ultimately show "record_ok oid a (v + 1) (saved n)"
    using saved_ok [OF ok] num same assms
    unfolding record_ok_def next_record_def
    by (simp add: fixed_def number_keys_def)
  have "number (saved n) ''lease_generation'' = number n ''lease_generation''"
    by (rule num(2)) (simp add: number_keys_def)
  moreover have "\<forall>k\<in>set growing. number d k \<le> number (saved n) k"
    using num(2) nk assms(2) by (auto simp: next_record_def)
  ultimately show "record_le d (saved n)"
    using same assms(2) by (simp add: record_le_def next_record_def owner)
qed

lemma successor:
  assumes ok: "queue_ok h hm sig s" and r: "queue_read h hm oid s = Inr d"
    and n: "\<forall>a v. record_ok oid a v d \<longrightarrow> next_record a d n" and w: "queue_write h hm n event s = Inr (u, s')"
  shows "queue_ok h hm sig s'" "queue_le s s'" "current s' oid = Some (saved n)"
proof -
  obtain a where a: "signed h sig s oid a" "list_all (row_ok oid a) (events_for oid s)"
    "current s oid = Some d" "record_ok oid a (int (length (events_for oid s)) - 1) d"
    by (rule queue_read_ok [OF ok r])
  have "record_ok oid a (int (length (events_for oid s)) - 1 + 1) (saved n)" and le: "record_le d (saved n)"
    by (rule next_record_saved [OF a(4) n [rule_format, OF a(4)]])+
  then have "record_ok oid a (int (length (events_for oid s))) (saved n)" by simp
  moreover have "json_ok (PDict n)" using n [rule_format, OF a(4)] by (simp add: next_record_def)
  ultimately have s': "queue_ok h hm sig s' \<and> current s' oid = Some (saved n) \<and> prefix (q_events s) (q_events s')
    \<and> q_approvals s' = q_approvals s \<and> (\<forall>j. j \<noteq> oid \<longrightarrow> current s' j = current s j)"
    using write_step [OF ok a(1,2) _ _ w] by blast
  then show "queue_ok h hm sig s'" "current s' oid = Some (saved n)" by blast+
  have "\<exists>d'. current s' j = Some d' \<and> record_le x d'" if "current s j = Some x" for j x
    using that s' le a(3) record_le_refl by (cases "j = oid") auto
  with s' show "queue_le s s'" unfolding queue_le_def by auto
qed

end
