(* ===== verification/QueueSteps.thy ===== *)
theory QueueSteps
  imports QueueFacts
begin

text \<open>
  Every operation of the queue keeps its invariant, moves every objective forward and changes
  nothing when it raises: the queue is an \<open>atomic_machine\<close>.
\<close>

section \<open>The operations\<close>

text \<open>The fields of a record, by name.\<close>

lemma record_fields:
  assumes "record_ok oid a v d"
  obtains b r n tk c g u dl st w where
    "map_of d ''batch'' = Some (PInt b)" "map_of d ''repairs'' = Some (PInt r)" "map_of d ''attempts'' = Some (PInt n)"
    "map_of d ''reserved_tokens'' = Some (PInt tk)" "map_of d ''reserved_cost_microusd'' = Some (PInt c)"
    "map_of d ''lease_generation'' = Some (PInt g)" "map_of d ''lease_until'' = Some (PInt u)"
    "map_of d ''deadline'' = Some (PInt dl)" "map_of d ''version'' = Some (PInt v)" "map_of d ''state'' = Some (PStr st)"
    "json_ok (PDict d)" "map_of d ''lease_owner'' = Some w" "norm w = w"
    "n \<le> lm_attempts (oa_limits a)" "tk \<le> lm_tokens (oa_limits a)" "c \<le> lm_cost (oa_limits a)"
    "b \<le> lm_batches (oa_limits a)" "0 \<le> r" "r \<le> lm_repairs (oa_limits a)" "u \<le> max 0 dl"
proof -
  have "\<exists>i. map_of d k = Some (PInt i)" if "k \<in> set number_keys" for k
    using assms that by (simp add: record_ok_def)
  then obtain b r n tk c g u dl where
    m: "map_of d ''batch'' = Some (PInt b)" "map_of d ''repairs'' = Some (PInt r)" "map_of d ''attempts'' = Some (PInt n)"
    "map_of d ''reserved_tokens'' = Some (PInt tk)" "map_of d ''reserved_cost_microusd'' = Some (PInt c)"
    "map_of d ''lease_generation'' = Some (PInt g)" "map_of d ''lease_until'' = Some (PInt u)"
    "map_of d ''deadline'' = Some (PInt dl)"
    unfolding number_keys_def by (metis list.set_intros)
  with that assms show ?thesis unfolding record_ok_def by (auto simp: numberI)
qed

lemma live_open: "live d = Inr u \<Longrightarrow> \<not> terminal d"
  by (auto simp: live_def terminal_def bindE_Inr need_Inr field_Inr)

lemma claimed_next:
  assumes ok: "record_ok oid a v d" and t: "\<not> terminal d"
    and c: "claimed worker now secs d = Inr d'" and b: "bump d' = Inr n"
  shows "next_record a d n"
  using ok
proof (rule record_fields)
  fix bt r k tk cs g u dl st ow
  assume f: "map_of d ''batch'' = Some (PInt bt)" "map_of d ''repairs'' = Some (PInt r)" "map_of d ''attempts'' = Some (PInt k)"
    "map_of d ''reserved_tokens'' = Some (PInt tk)" "map_of d ''reserved_cost_microusd'' = Some (PInt cs)"
    "map_of d ''lease_generation'' = Some (PInt g)" "map_of d ''lease_until'' = Some (PInt u)"
    "map_of d ''deadline'' = Some (PInt dl)" "map_of d ''version'' = Some (PInt v)" "map_of d ''state'' = Some (PStr st)"
    "json_ok (PDict d)" "map_of d ''lease_owner'' = Some ow" "norm ow = ow"
    "k \<le> lm_attempts (oa_limits a)" "tk \<le> lm_tokens (oa_limits a)" "cs \<le> lm_cost (oa_limits a)"
    "bt \<le> lm_batches (oa_limits a)" "0 \<le> r" "r \<le> lm_repairs (oa_limits a)" "u \<le> max 0 dl"
  from c obtain intent where i: "map_of d ''intent'' = Some intent" by (auto simp: claimed_def bindE_Inr field_Inr)
  have "next_record a d (put ''version'' (PInt (v + 1)) d')
      \<and> map_of d' ''version'' = Some (PInt v)"
  proof (cases "intent = PNone")
    case True
    with c i f have "d' = (let e = put ''lease_until'' (PInt (min (now + secs) dl))
                 (put ''lease_generation'' (PInt (g + 1)) (put ''lease_owner'' (PStr worker) d))
         in if st = ''pending'' then put ''state'' (PStr ''admitted'') e else e)"
      by (simp add: claimed_def field_def int_field_def Let_def)
    with f t show ?thesis
      by (simp add: next_record_def put_ok fixed_def growing_def number_keys_def numberI Let_def)
  next
    case False
    with c i have "d' = put ''reason'' (PStr ''unresolved publication intent; reconcile remote state'')
             (put ''state'' (PStr ''blocked'') d)"
      by (simp add: claimed_def field_def)
    with f t show ?thesis
      by (simp add: next_record_def put_ok fixed_def growing_def number_keys_def numberI)
  qed
  with b show ?thesis by (auto simp: bump_Inr)
qed

lemma limit_fields:
  assumes "as_dict (norm (limits_json l)) = Some lim"
  shows "map_of lim ''max_batches'' = Some (PInt (lm_batches l))"
    "map_of lim ''max_repairs_per_batch'' = Some (PInt (lm_repairs l))"
    "map_of lim ''max_attempts'' = Some (PInt (lm_attempts l))"
    "map_of lim ''max_tokens'' = Some (PInt (lm_tokens l))"
    "map_of lim ''max_cost_microusd'' = Some (PInt (lm_cost l))"
proof -
  obtain d where d: "limits_json l = PDict d" "distinct (map fst d)" by (simp add: limits_json_def)
  with assms have "lim = dict_items (norm (PDict d))" by simp
  with map_of_norm [OF d(2)] have "map_of lim k = map_option norm (map_of d k)" for k by simp
  moreover have "d = dict_items (limits_json l)" using d by simp
  ultimately show "map_of lim ''max_batches'' = Some (PInt (lm_batches l))"
    "map_of lim ''max_repairs_per_batch'' = Some (PInt (lm_repairs l))"
    "map_of lim ''max_attempts'' = Some (PInt (lm_attempts l))"
    "map_of lim ''max_tokens'' = Some (PInt (lm_tokens l))"
    "map_of lim ''max_cost_microusd'' = Some (PInt (lm_cost l))"
    by (simp_all add: limits_json_def)
qed

lemma counter_kept_Inr:
  "counter_kept d new k = Inr u \<longleftrightarrow>
     (\<exists>i j. map_of d k = Some (PInt i) \<and> map_of new k = Some (PInt j) \<and> i \<le> j)"
proof -
  have "(case v of PInt i \<Rightarrow> x \<le> i | _ \<Rightarrow> False) \<longleftrightarrow> (\<exists>j. v = PInt j \<and> x \<le> j)" for v and x :: int
    by (cases v) auto
  then show ?thesis by (auto simp: counter_kept_def bindE_Inr need_Inr int_field_Inr field_Inr)
qed

lemma int_between_Inr:
  "int_between d k lo hi = Inr True \<longleftrightarrow> (\<exists>i. map_of d k = Some (PInt i) \<and> lo \<le> i \<and> i \<le> hi)"
proof -
  have "(case v of PInt i \<Rightarrow> lo \<le> i \<and> i \<le> hi | _ \<Rightarrow> False) \<longleftrightarrow> (\<exists>j. v = PInt j \<and> lo \<le> j \<and> j \<le> hi)" for v
    by (cases v) auto
  then show ?thesis by (auto simp: int_between_def bindE_Inr field_Inr)
qed

text \<open>What an accepted update has checked.\<close>

lemma update_record_Inr:
  assumes "update_record d new = Inr n" "record_ok oid a v d"
  obtains b r k tk c u st dl where
    "map_of new ''attempts'' = Some (PInt k)" "number d ''attempts'' \<le> k" "k \<le> lm_attempts (oa_limits a)"
    "map_of new ''reserved_tokens'' = Some (PInt tk)" "number d ''reserved_tokens'' \<le> tk" "tk \<le> lm_tokens (oa_limits a)"
    "map_of new ''reserved_cost_microusd'' = Some (PInt c)" "number d ''reserved_cost_microusd'' \<le> c"
    "c \<le> lm_cost (oa_limits a)"
    "map_of new ''batch'' = Some (PInt b)" "number d ''batch'' \<le> b" "b \<le> lm_batches (oa_limits a)"
    "map_of new ''repairs'' = Some (PInt r)" "0 \<le> r" "r \<le> lm_repairs (oa_limits a)"
    "map_of new ''lease_until'' = Some (PInt u)" "map_of d ''deadline'' = Some (PInt dl)" "u \<le> dl"
    "map_of new ''state'' = Some (PStr st)"
    "bump new = Inr n"
proof -
  have lim: "map_of d ''resource_limits'' = Some (norm (limits_json (oa_limits a)))"
    using assms(2) by (simp add: record_ok_def)
  from assms(1) have cs: "\<forall>k\<in>set counters. counter_kept d new k = Inr ()" and wl: "within_limits d new = Inr ()"
    and rest: "\<exists>u dl st. map_of new ''lease_until'' = Some (PInt u) \<and> map_of d ''deadline'' = Some (PInt dl) \<and> u \<le> dl
      \<and> map_of new ''state'' = Some (PStr st)" "bump new = Inr n"
    unfolding update_record_def
    by (auto simp: bindE_Inr need_Inr checkE_Inr_iff int_field_Inr field_Inr member_value_Inr)
  from cs obtain i1 k i2 tk i3 c where q: "map_of d ''attempts'' = Some (PInt i1)" "map_of new ''attempts'' = Some (PInt k)" "i1 \<le> k"
    "map_of d ''reserved_tokens'' = Some (PInt i2)" "map_of new ''reserved_tokens'' = Some (PInt tk)" "i2 \<le> tk"
    "map_of d ''reserved_cost_microusd'' = Some (PInt i3)" "map_of new ''reserved_cost_microusd'' = Some (PInt c)" "i3 \<le> c"
    by (auto simp: counters_def counter_kept_Inr)
  obtain l where l: "as_dict (norm (limits_json (oa_limits a))) = Some l"
    by (simp add: limits_json_def)
  from wl obtain b r where "k \<le> lm_attempts (oa_limits a)" "tk \<le> lm_tokens (oa_limits a)" "c \<le> lm_cost (oa_limits a)"
    "map_of new ''batch'' = Some (PInt b)" "number d ''batch'' \<le> b" "b \<le> lm_batches (oa_limits a)"
    "map_of new ''repairs'' = Some (PInt r)" "0 \<le> r" "r \<le> lm_repairs (oa_limits a)"
    unfolding within_limits_def
    by (auto simp: bindE_Inr need_Inr int_field_Inr field_Inr found_Inr lim l limit_fields [OF l] q int_between_Inr numberI)
  with that q rest show ?thesis by (auto simp: numberI)
qed

lemma update_next:
  assumes ok: "record_ok oid a v d" and t: "\<not> terminal d" and u: "update_record d (AList.merge d changes) = Inr n"
    and c: "json_ok (PDict changes)" "fst ` set changes \<subseteq> set update_fields"
  shows "next_record a d n"
proof -
  let ?m = "AList.merge d changes"
  have m: "map_of ?m k = map_of d k" if "k \<notin> set update_fields" for k
    using c(2) that by (metis (no_types, lifting) map_of_eq_None_iff merge_conv' map_add_None map_add_def option.case(1) subsetD)
  have kept: "map_of ?m ''version'' = map_of d ''version''" "map_of ?m ''lease_generation'' = map_of d ''lease_generation''"
    "map_of ?m ''deadline'' = map_of d ''deadline''" "map_of ?m ''lease_owner'' = map_of d ''lease_owner''" "\<forall>k\<in>set fixed. map_of ?m k = map_of d k"
    by (simp_all add: m update_fields_def fixed_def)
  from ok have "json_ok (PDict d)" by (simp add: record_ok_def)
  from merge_ok [OF this c(1)] have j: "json_ok (PDict ?m)" .
  obtain g w where g: "map_of d ''lease_generation'' = Some (PInt g)" "map_of d ''version'' = Some (PInt v)"
    "map_of d ''lease_owner'' = Some w" "norm w = w"
    using ok by (rule record_fields)
  show ?thesis
    using u ok
  proof (rule update_record_Inr)
    fix b r k tk cs until st dl
    assume f: "map_of ?m ''attempts'' = Some (PInt k)" "number d ''attempts'' \<le> k" "k \<le> lm_attempts (oa_limits a)"
      "map_of ?m ''reserved_tokens'' = Some (PInt tk)" "number d ''reserved_tokens'' \<le> tk" "tk \<le> lm_tokens (oa_limits a)"
      "map_of ?m ''reserved_cost_microusd'' = Some (PInt cs)" "number d ''reserved_cost_microusd'' \<le> cs"
      "cs \<le> lm_cost (oa_limits a)"
      "map_of ?m ''batch'' = Some (PInt b)" "number d ''batch'' \<le> b" "b \<le> lm_batches (oa_limits a)"
      "map_of ?m ''repairs'' = Some (PInt r)" "0 \<le> r" "r \<le> lm_repairs (oa_limits a)"
      "map_of ?m ''lease_until'' = Some (PInt until)" "map_of d ''deadline'' = Some (PInt dl)" "until \<le> dl"
      "map_of ?m ''state'' = Some (PStr st)" "bump ?m = Inr n"
    then have "n = put ''version'' (PInt (v + 1)) ?m" using kept g by (simp add: bump_Inr)
    with f g t kept show ?thesis
      by (simp add: next_record_def put_ok j growing_def number_keys_def numberI fixed_def)
  qed
qed

lemma expired_next:
  assumes ok: "record_ok oid a v d" and t: "\<not> terminal d"
    and b: "bump (put ''reason'' (PStr x) (put ''state'' (PStr y) d)) = Inr n"
  shows "next_record a d n"
  using ok
  by (rule record_fields)
     (use b t in \<open>simp add: bump_Inr next_record_def put_ok fixed_def growing_def number_keys_def numberI\<close>)

lemma verify_approval_limits:
  assumes "verify_approval h sig raw p owners now = Inr a"
  shows "0 \<le> lm_attempts (oa_limits a)" "0 \<le> lm_tokens (oa_limits a)" "0 \<le> lm_cost (oa_limits a)"
    "0 \<le> lm_batches (oa_limits a)" "0 \<le> lm_repairs (oa_limits a)"
proof -
  obtain v L where "approval_limits p v = Inr L" and [simp]: "oa_limits a = L"
    using assms by (auto simp: verify_approval_def bindE_Inr need_Inr Let_def)
  then show "0 \<le> lm_attempts (oa_limits a)" "0 \<le> lm_tokens (oa_limits a)" "0 \<le> lm_cost (oa_limits a)"
    "0 \<le> lm_batches (oa_limits a)" "0 \<le> lm_repairs (oa_limits a)"
    by (auto simp: approval_limits_def bindE_Inr integer_Inr)
qed

lemma first_record_ok:
  assumes "verify_approval h sig raw p owners now = Inr a"
  shows "json_ok (PDict (first_record a t))" "record_ok (oa_id a) a 0 (saved (first_record a t))"
proof -
  have "json_ok (limits_json l)" for l by (simp add: limits_json_def json_ok.simps)
  moreover have "json_ok (text_option x)" for x by (simp add: text_option_def split: option.split)
  ultimately show j: "json_ok (PDict (first_record a t))"
    by (simp add: first_record_def json_ok.simps list_all_iff)
  have m: "map_of (saved (first_record a t)) k = map_option norm (map_of (first_record a t) k)" for k
    by (rule map_of_saved [OF j])
  have "map_of (first_record a t) ''resource_limits'' = Some (limits_json (oa_limits a))"
    by (simp add: first_record_def)
  then show "record_ok (oa_id a) a 0 (saved (first_record a t))"
    using verify_approval_limits [OF assms] saved_ok [OF j] unfolding record_ok_def
    by (simp add: m number_def number_keys_def) (simp add: first_record_def)
qed

lemma approve_ok:
  fixes raw digest :: string
  assumes "queue_ok h hm sig s" "map_of (q_approvals s) oid = None"
  defines "s1 \<equiv> s\<lparr>q_approvals := q_approvals s @ [(oid, digest, raw)]\<rparr>"
  shows "queue_ok h hm sig s1" "queue_le s s1" "events_for oid s1 = []"
proof -
  have more: "map_of (q_approvals s1) j = Some x" if "map_of (q_approvals s) j = Some x" for j x
    using that by (simp add: s1_def map_add_Some_iff)
  then have sg: "signed h sig s j a \<Longrightarrow> signed h sig s1 j a" for j a by (auto simp: signed_def)
  have same: "events_for j s1 = events_for j s" "q_objectives s1 = q_objectives s" for j
    by (simp_all add: s1_def events_for_def)
  show "queue_ok h hm sig s1"
    unfolding queue_ok_def Let_def same using queue_ok_facts [OF assms(1)] sg by blast
  have "current s1 j = current s j" for j by (simp add: current_def s1_def)
  with more record_le_refl show "queue_le s s1"
    unfolding queue_le_def by (auto simp: s1_def)
  show "events_for oid s1 = []"
    using queue_ok_facts(4) [OF assms(1), of oid] assms(2) by (auto simp: signed_def s1_def events_for_def)
qed

lemma enqueue_step:
  assumes ok: "queue_ok h hm sig s" and e: "enqueue h hm sig raw p owners now s = (Inr d, s')"
  shows "queue_ok h hm sig s' \<and> queue_le s s'"
proof -
  obtain a where a: "verify_approval h sig raw p owners now = Inr a"
    "enqueue_body h hm sig raw p owners now a s = Inr (d, s')"
    using e by (auto simp: enqueue_def transaction_returns split: sum.splits)
  show ?thesis
  proof (cases "map_of (q_approvals s) (oa_id a)")
    case (Some x)
    with a(2) have "s' = s" by (cases x) (auto simp: enqueue_body_def bindE_Inr need_Inr)
    with ok queue_le_refl show ?thesis by simp
  next
    case None
    let ?s1 = "s\<lparr>q_approvals := q_approvals s @ [(oa_id a, oa_digest a, raw)]\<rparr>"
    note s1 = approve_ok [OF ok None, of "oa_digest a" raw]
    have "map_of (q_approvals ?s1) (oa_id a) = Some (oa_digest a, raw)"
      using None by (simp add: map_add_def)
    then have sg: "signed h sig ?s1 (oa_id a) a" using a(1) by (auto simp: signed_def)
    obtain u where w: "queue_write h hm (first_record a now) ''approved'' ?s1 = Inr (u, s')"
      using a(2) None by (auto simp: enqueue_body_def bindE_Inr Let_def)
    have st: "queue_ok h hm sig s' \<and> current s' (oa_id a) = Some (saved (first_record a now))
      \<and> prefix (q_events ?s1) (q_events s') \<and> q_approvals s' = q_approvals ?s1
      \<and> (\<forall>j. j \<noteq> oa_id a \<longrightarrow> current s' j = current ?s1 j)"
      using write_step [OF s1(1) sg _ first_record_ok(1) [OF a(1)] _ w] first_record_ok(2) [OF a(1)] s1(3) by simp
    have "current ?s1 (oa_id a) = None"
      using queue_ok_facts(1) [OF s1(1), of "oa_id a"] s1(3) by (simp add: current_def tip_def)
    with st record_le_refl have "queue_le ?s1 s'" unfolding queue_le_def by (metis option.distinct(1))
    with s1(2) st show ?thesis using queue_le_trans by blast
  qed
qed

lemma claim_step:
  assumes ok: "queue_ok h hm sig s" and c: "claim h hm oid worker now secs s = (Inr n, s')"
  shows "queue_ok h hm sig s' \<and> queue_le s s' \<and> current s' oid = Some (saved n)"
proof -
  have "claim_body h hm oid worker now secs s = Inr (n, s')"
    using c by (auto simp: claim_def transaction_returns split: sum.splits)
  then obtain d d' ev u where r: "queue_read h hm oid s = Inr d" "claimed worker now secs d = Inr d'" "bump d' = Inr n"
    "queue_write h hm n ev s = Inr (u, s')"
    "live d = Inr ()"
    by (auto simp: claim_body_def bindE_Inr need_Inr)
  have "\<forall>a v. record_ok oid a v d \<longrightarrow> next_record a d n"
    by (blast intro: claimed_next [OF _ live_open [OF r(5)] r(2,3)])
  from successor [OF ok r(1) this r(4)] show ?thesis by blast
qed

lemma update_step:
  assumes ok: "queue_ok h hm sig s" and j: "json_ok (PDict changes)"
    and u: "queue_update h hm oid worker gen ver now ev changes s = (Inr n, s')"
  shows "queue_ok h hm sig s' \<and> queue_le s s' \<and> current s' oid = Some (saved n)"
proof -
  have k: "fst ` set changes \<subseteq> set update_fields" and "update_body h hm oid worker gen ver now ev changes s = Inr (n, s')"
    using u by (auto simp: queue_update_def transaction_returns bindE_Inr need_Inr split: sum.splits)
  from this(2) obtain d u where r: "queue_read h hm oid s = Inr d" "update_record d (AList.merge d changes) = Inr n"
    "queue_write h hm n ev s = Inr (u, s')" "live d = Inr ()"
    by (auto simp: update_body_def bindE_Inr need_Inr)
  have "\<forall>a v. record_ok oid a v d \<longrightarrow> next_record a d n"
    by (blast intro: update_next [OF _ live_open [OF r(4)] r(2) j k])
  from successor [OF ok r(1) this r(3)] show ?thesis by blast
qed

lemma reserve_attempt_update:
  assumes "reserve_attempt h hm a worker gen ver now tokens cost s = (Inr n, s')"
  obtains x y z where
    "queue_update h hm (oa_id a) worker gen ver now ''attempt_budget_reserved''
       [(''attempts'', PInt x), (''reserved_tokens'', PInt y), (''reserved_cost_microusd'', PInt z)] s = (Inr n, s')"
  using assms by (auto simp: reserve_attempt_def bindE_Inr need_Inr split: sum.splits)

lemma expire_step:
  assumes ok: "queue_ok h hm sig s" and e: "queue_expire h hm oid now s = (Inr n, s')"
  shows "queue_ok h hm sig s' \<and> queue_le s s'"
proof -
  have b: "expire_body h hm oid now s = Inr (n, s')"
    using e by (simp add: queue_expire_def transaction_returns)
  then obtain d where d: "queue_read h hm oid s = Inr d" by (auto simp: expire_body_def bindE_Inr)
  show ?thesis
  proof (cases "s' = s")
    case False
    with b d obtain x y u where w: "bump (put ''reason'' (PStr x) (put ''state'' (PStr y) d)) = Inr n"
      "queue_write h hm n ''objective_timed_out'' s = Inr (u, s')" "\<not> terminal d"
      by (auto simp: expire_body_def bindE_Inr field_Inr terminal_def image_iff split: if_splits)
    have "\<forall>a v. record_ok oid a v d \<longrightarrow> next_record a d n" by (blast intro: expired_next [OF _ w(3,1)])
    from successor [OF ok d this w(2)] show ?thesis by blast
  qed (use ok queue_le_refl in simp)
qed

lemma artifact_step:
  assumes "queue_ok h hm sig s" "store_artifact h payload s = (Inr x, s')"
  shows "queue_ok h hm sig s' \<and> queue_le s s'"
proof -
  have q: "q_approvals s' = q_approvals s" "q_objectives s' = q_objectives s" "q_events s' = q_events s"
    using assms(2) by (auto simp: store_artifact_def transaction_returns need_Inr Let_def split: if_splits option.splits)
  then have "events_for oid s' = events_for oid s" "signed h sig s' oid a = signed h sig s oid a"
    "current s' oid = current s oid" for oid a
    by (simp_all add: events_for_def signed_def current_def)
  with assms(1) q record_le_refl show ?thesis unfolding queue_ok_def queue_le_def by auto
qed

section \<open>The machine\<close>

datatype queue_call =
    Enqueue string control_policy "string \<Rightarrow> trust_key option" int
  | ClaimLease string string int int
  | Update string string int int int string rec
  | ReserveAttempt objective_approval string int int int int int
  | Expire string int
  | StoreArtifact string

definition as_record :: "rec res \<times> queue \<Rightarrow> pyval res \<times> queue" where
  "as_record = map_prod (map_sum id PDict) id"

text \<open>
  One call.  An update whose values JSON cannot hold, or that holds a number other than an
  integer, is left out of the sequences considered.
\<close>

fun queue_op ::
  "(string \<Rightarrow> string) \<Rightarrow> (string \<Rightarrow> string) \<Rightarrow> signature_check \<Rightarrow> queue_call \<Rightarrow> queue \<Rightarrow> pyval res \<times> queue" where
  "queue_op h hm sig (Enqueue raw p owners now) s = as_record (enqueue h hm sig raw p owners now s)"
| "queue_op h hm sig (ClaimLease oid worker now secs) s = as_record (claim h hm oid worker now secs s)"
| "queue_op h hm sig (Update oid worker gen ver now ev changes) s =
     (if json_ok (PDict changes) then as_record (queue_update h hm oid worker gen ver now ev changes s)
      else (Inl TypeError, s))"
| "queue_op h hm sig (ReserveAttempt a worker gen ver now tokens cost) s =
     as_record (reserve_attempt h hm a worker gen ver now tokens cost s)"
| "queue_op h hm sig (Expire oid now) s = as_record (queue_expire h hm oid now s)"
| "queue_op h hm sig (StoreArtifact payload) s = map_prod (map_sum id PStr) id (store_artifact h payload s)"

lemma as_record_cases:
  "as_record x = (Inl e, s') \<longleftrightarrow> x = (Inl e, s')" "as_record x = (Inr v, s') \<longleftrightarrow> (\<exists>d. x = (Inr d, s') \<and> v = PDict d)"
  by (cases x; cases "fst x"; auto simp: as_record_def)+

lemma queue_op_raises: "queue_op h hm sig c s = (Inl e, s') \<Longrightarrow> s' = s"
  by (cases c)
     (auto simp: as_record_cases enqueue_def claim_def queue_update_def reserve_attempt_def queue_expire_def
       store_artifact_def map_prod_def dest: transaction_raises split: sum.splits if_splits prod.splits)

lemma queue_op_returns:
  "queue_ok h hm sig s \<Longrightarrow> queue_op h hm sig c s = (Inr v, s') \<Longrightarrow> queue_ok h hm sig s' \<and> queue_le s s'"
proof (cases c)
  case (ReserveAttempt a worker gen ver now tokens cost)
  assume ok: "queue_ok h hm sig s" and "queue_op h hm sig c s = (Inr v, s')"
  with ReserveAttempt obtain n where "reserve_attempt h hm a worker gen ver now tokens cost s = (Inr n, s')"
    by (auto simp: as_record_cases)
  then show ?thesis
  proof (rule reserve_attempt_update)
    fix x y z
    assume u: "queue_update h hm (oa_id a) worker gen ver now ''attempt_budget_reserved''
       [(''attempts'', PInt x), (''reserved_tokens'', PInt y), (''reserved_cost_microusd'', PInt z)] s = (Inr n, s')"
    have "json_ok (PDict [(''attempts'', PInt x), (''reserved_tokens'', PInt y), (''reserved_cost_microusd'', PInt z)])"
      by (simp add: json_ok.simps)
    from update_step [OF ok this u] show ?thesis by blast
  qed
next
  case (StoreArtifact x)
  assume ok: "queue_ok h hm sig s" and c: "queue_op h hm sig c s = (Inr v, s')"
  obtain r t where rt: "store_artifact h x s = (r, t)" by (cases "store_artifact h x s")
  with c StoreArtifact obtain y where "store_artifact h x s = (Inr y, s')" by (cases r) auto
  with artifact_step [OF ok] show ?thesis by blast
qed (auto simp: as_record_cases dest: enqueue_step claim_step update_step expire_step split: if_splits)

interpretation queue_machine: atomic_machine "queue_op h hm sig" "queue_ok h hm sig" queue_le for h hm sig
  by unfold_locales (blast intro: queue_op_raises queue_le_refl queue_le_trans dest: queue_op_returns)+

end
