(* ===== verification/TaskRecord.thy ===== *)
theory TaskRecord
  imports TaskCodec
begin

text \<open>
  The JSON record of a run: what its fields are once printed and read back, and that
  \<^verbatim>\<open>validate_result\<close> accepts it (\<open>run_record_validated\<close>).
\<close>

section \<open>Checks\<close>

text \<open>The fields of a validated check are plain: printing and reading gives them back.\<close>

definition plain :: "pyval \<Rightarrow> bool" where
  "plain v = (norm v = v \<and> json_ok v)"

lemma plain_simps [simp]: "plain PNone" "plain (PInt i)" "plain (PStr s)" "plain (PList (map PStr ss))"
  by (simp_all add: plain_def)

lemma check_skip_ids_Inr: "check_skip_ids c = Inr ss \<Longrightarrow> ck_skip_ids c = PList (map PStr ss)"
  unfolding check_skip_ids_def
  by (auto simp: need_Inr list_all_iff split: pyval.splits elim!: is_str.elims intro!: nth_equalityI)
     (metis is_str.elims(2) nth_mem str_of.simps(1))

lemma check_totals_plain:
  "check_totals c ss = Inr () \<Longrightarrow> list_all plain (check_counts c)"
  by (auto simp: check_totals_def check_counts_def count_value_def bindE_Inr need_Inr integer_Inr
      split: if_splits)

lemma check_plain:
  assumes "check_validate c = Inr ()"
  shows "plain (ck_name c)" "plain (ck_status c)" "plain (ck_exit_code c)" "plain (ck_candidate c)"
    "list_all plain (check_counts c)" "plain (ck_skip_ids c)"
proof -
  from assms obtain ss n dg where v: "ck_name c = PStr n" "ck_candidate c = PStr dg"
    "has_status [''passed'', ''failed'', ''blocked'', ''not_run''] c"
    "check_exit c = Inr ()" "check_skip_ids c = Inr ss" "check_totals c ss = Inr ()"
    by (auto simp: check_validate_def bindE_Inr need_Inr check_name_Inr sha_in_Inr)
  show "plain (ck_name c)" "plain (ck_candidate c)" using v by simp_all
  show "plain (ck_status c)" using v(3) by (auto simp: has_status_def)
  show "plain (ck_exit_code c)"
    using v(4) by (auto simp: check_exit_def bindE_Inr need_Inr integer_Inr split: if_splits)
  show "list_all plain (check_counts c)" by (rule check_totals_plain [OF v(6)])
  show "plain (ck_skip_ids c)" using check_skip_ids_Inr [OF v(5)] by simp
qed

lemma check_printed:
  assumes "check_fits p digest c"
  shows "result_check p (PStr digest) (norm (check_to_dict c)) = Inr c" "json_ok (check_to_dict c)"
proof -
  have v: "check_validate c = Inr ()" "ck_candidate c = PStr digest" "skips_within p c"
    using assms by (simp_all add: check_fits_def)
  note pl = check_plain [OF v(1)]
  have keys: "keys_exactly check_keys (norm (check_to_dict c)) = Inr (dict_items (norm (check_to_dict c)))"
    unfolding check_to_dict_def by (rule keys_exactly_norm) (simp add: is_dict_with_def check_keys_def)
  have fields: "dget (dict_items (norm (check_to_dict c))) k = norm (dget (dict_items (check_to_dict c)) k)"
    if "k \<in> set check_keys" for k
    using that by (subst dget_printed [OF check_to_dict_def]) (auto simp: check_keys_def check_to_dict_def)
  have "check_of (dict_items (norm (check_to_dict c))) = c"
    unfolding check_of_def using pl
    by (simp add: fields check_keys_def) (simp add: check_to_dict_def dget_def plain_def check_counts_def)
  then show "result_check p (PStr digest) (norm (check_to_dict c)) = Inr c"
    using v by (simp add: result_check_def keys)
  show "json_ok (check_to_dict c)" using pl by (simp add: check_to_dict_def plain_def check_counts_def)
qed

lemma checks_printed:
  "list_all (check_fits p digest) cs \<Longrightarrow>
     mapE (result_check p (PStr digest)) (map (\<lambda>c. norm (check_to_dict c)) cs) = Inr cs"
  by (rule mapE_id) (simp add: list_all_iff check_printed)

section \<open>Run records\<close>

definition run_changes :: "run \<Rightarrow> change list" where
  "run_changes r = (case rn_candidate r of None \<Rightarrow> [] | Some c \<Rightarrow> cd_changes c)"

definition run_violations :: "run \<Rightarrow> string list" where
  "run_violations r = (case rn_candidate r of None \<Rightarrow> [] | Some c \<Rightarrow> cd_violations c)"

lemma run_record_fields:
  fixes r defines "d \<equiv> dict_items (norm (run_to_dict r))"
  shows "dget d ''schema_version'' = PInt 1" "dget d ''task_id'' = PStr (rn_task_id r)"
    "dget d ''branch'' = PStr (rn_branch r)" "dget d ''base_sha'' = PStr (rn_base_sha r)"
    "dget d ''policy_digest'' = PStr (rn_policy_digest r)" "dget d ''state'' = PStr (state_value (rn_state r))"
    "dget d ''repair_attempts'' = PInt (rn_repairs r)"
    "dget d ''candidate_digest'' = text_option (map_option cd_digest (rn_candidate r))"
    "dget d ''changed_files'' = PList (map (\<lambda>c. norm (change_to_dict c)) (run_changes r))"
    "dget d ''scope_violations'' = PList (map PStr (run_violations r))"
    "dget d ''tests'' = PList (map (\<lambda>c. norm (check_to_dict c)) (rn_checks r))"
    "dget d ''ci_results'' = PList []" "dget d ''reason'' = text_option (rn_reason r)"
    "dget d ''commit_sha'' = PNone" "dget d ''publishable'' = PBool False"
    "dget d ''limitations'' = PList (map PStr run_limitations)"
proof -
  have fields: "dget d k = norm (dget (dict_items (run_to_dict r)) k)" if "k \<in> set result_keys" for k
    unfolding d_def using that
    by (subst dget_printed [OF run_to_dict_def]) (auto simp: result_keys_def run_to_dict_def)
  show "dget d ''schema_version'' = PInt 1" "dget d ''task_id'' = PStr (rn_task_id r)"
    "dget d ''branch'' = PStr (rn_branch r)" "dget d ''base_sha'' = PStr (rn_base_sha r)"
    "dget d ''policy_digest'' = PStr (rn_policy_digest r)" "dget d ''state'' = PStr (state_value (rn_state r))"
    "dget d ''repair_attempts'' = PInt (rn_repairs r)"
    "dget d ''candidate_digest'' = text_option (map_option cd_digest (rn_candidate r))"
    "dget d ''ci_results'' = PList []" "dget d ''reason'' = text_option (rn_reason r)"
    "dget d ''commit_sha'' = PNone" "dget d ''publishable'' = PBool False"
    "dget d ''limitations'' = PList (map PStr run_limitations)"
    "dget d ''changed_files'' = PList (map (\<lambda>c. norm (change_to_dict c)) (run_changes r))"
    "dget d ''scope_violations'' = PList (map PStr (run_violations r))"
    "dget d ''tests'' = PList (map (\<lambda>c. norm (check_to_dict c)) (rn_checks r))"
    by (simp_all add: fields result_keys_def)
       (simp_all add: run_to_dict_def dget_def run_changes_def run_violations_def split: option.split)
qed

lemma entry_modes:
  "map_of m path = Some e \<Longrightarrow> \<forall>x\<in>set (entries_of old new). fe_mode x \<in> M \<Longrightarrow>
     map_of m path = old \<or> map_of m path = new \<Longrightarrow> fe_mode e \<in> M"
  by (auto simp: entries_of_def split: option.splits)

lemma change_safe_valid:
  assumes "path_violations t p path (map_of base path) (map_of cand path) = []"
  shows "change_safe p (norm (change_to_dict (change_of base cand path))) = Inr ()"
proof -
  have "\<forall>x\<in>set (entries_of (map_of base path) (map_of cand path)). fe_mode x \<in> set (cp_modes p)"
    using assms by (simp add: path_violations_def)
  then have "text_option (map_option fe_mode (map_of m path)) = PNone
      \<or> text_option (map_option fe_mode (map_of m path)) \<in> PStr ` set (cp_modes p)"
    if "m = base \<or> m = cand" for m
    using that entry_modes [of m path] by (cases "map_of m path") (auto simp: text_option_def)
  then show ?thesis
    using assms
    by (simp add: change_safe_def change_fields) (simp add: change_of_def Let_def path_violations_def)
qed

lemma state_value_simps [simp]:
  "state_value Pending = ''pending''" "state_value Admitted = ''admitted''"
  "state_value Running = ''running''" "state_value Validating = ''validating''"
  "state_value Repairing = ''repairing''" "state_value Blocked = ''blocked''"
  "state_value Failed = ''failed''" "state_value Completed = ''completed''"
  by (simp_all add: state_value_def state_table_def)

lemma completed_printed:
  assumes c: "inspected h p t c" "all_passed p c checks"
  shows "result_completed p (map (\<lambda>x. norm (change_to_dict x)) (cd_changes c)) (map PStr (cd_violations c)) checks
     = Inr ()"
proof -
  obtain base cand where i: "inspect_candidate h t p base cand = Inr c"
    using c(1) by (auto simp: inspected_def)
  have v: "scope_valid c" using c(2) by (simp add: all_passed_def)
  have ch: "cd_changes c = map (change_of base cand) (changed_paths base cand)"
    by (rule inspect_candidate_Inr [OF i])
  from v have "changed_paths base cand \<noteq> []" "int (length (changed_paths base cand)) \<le> cp_max_files p"
    "\<forall>path\<in>set (changed_paths base cand). path_violations t p path (map_of base path) (map_of cand path) = []"
    by (simp_all add: inspected_scope_valid [OF i])
  moreover from this change_safe_valid [of t p _ base cand]
  have "checkE (change_safe p) (map (\<lambda>x. norm (change_to_dict x)) (cd_changes c)) = Inr ()"
    by (simp add: checkE_Inr_iff ch)
  ultimately show ?thesis
    using c(2) v by (simp add: result_completed_def ch all_passed_def scope_valid_def image_image)
qed

lemma state_rules_printed:
  assumes inv: "run_inv (inspected h p t) p t r" and
    d: "d = dict_items (norm (run_to_dict r))" and
    ch: "changes = map (\<lambda>c. norm (change_to_dict c)) (run_changes r)"
  shows "rn_state r \<noteq> Pending \<Longrightarrow>
    result_state_rules p d (state_value (rn_state r)) changes (map PStr (run_violations r)) (rn_checks r) = Inr ()"
proof (cases "rn_state r")
  case Completed
  then obtain c where c: "rn_candidate r = Some c" "inspected h p t c" "all_passed p c (rn_checks r)" "rn_reason r = None"
    using inv by (auto simp: run_inv_defs)
  from completed_printed [OF c(2,3)] c Completed show ?thesis
    by (simp add: result_state_rules_def run_record_fields d ch run_changes_def run_violations_def text_option_def)
qed (use inv in \<open>auto simp: result_state_rules_def run_record_fields d ch run_inv_defs run_changes_def
        run_violations_def text_option_def scope_valid_def bindE_Inr text_in_def text_ok_def split: option.splits\<close>)

lemma run_to_dict_json:
  assumes "run_inv good p t r"
  shows "json_ok (run_to_dict r)"
proof -
  have "list_all json_ok (map check_to_dict (rn_checks r))"
    using assms check_printed(2)
    by (auto simp: run_inv_defs list_all_iff evidence_ok_def split: option.splits)
  moreover have "json_ok (change_to_dict x)" for x by (simp add: change_to_dict_def)
  ultimately show ?thesis
    by (auto simp: run_to_dict_def list_all_iff split: option.splits)
qed

text \<open>
  The record of a run that arose from inspected candidates is accepted, and read back as
  written, exactly when no two of its changed paths differ in letter case only.
\<close>

definition record_bounded :: "run \<Rightarrow> bool" where
  "record_bounded r =
     (length (canonical (run_to_dict r)) \<le> 1048576 \<and> length (rn_checks r) \<le> 128
      \<and> length (run_changes r) \<le> 20000 \<and> length (run_violations r) \<le> 100000)"

lemma length_str_nat: "n < 10 ^ Suc k \<Longrightarrow> length (str_nat n) \<le> Suc k"
proof (induction k arbitrary: n)
  case 0
  then show ?case by (subst str_nat.simps) simp
next
  case (Suc k)
  show ?case
  proof (cases "n < 10")
    case True
    then show ?thesis by (subst str_nat.simps) simp
  next
    case False
    from Suc.prems have "n div 10 < 10 ^ Suc k" by (simp add: less_mult_imp_div_less)
    from Suc.IH [OF this] False show ?thesis by (subst str_nat.simps) simp
  qed
qed

lemma run_record_branch:
  assumes "run_inv good p t r" "1 \<le> tk_issue t" "tk_issue t \<le> 2 ^ 31 - 1" "1 \<le> tk_revision t"
    "tk_revision t \<le> 999999" "hex_digest 64 (tk_digest t)"
  shows "result_branch (dict_items (norm (run_to_dict r))) = Inr ()"
proof -
  have id: "rn_task_id r = task_id t" "rn_branch r = task_branch t" using assms(1) by (simp_all add: run_inv_defs)
  have free: "control_free (task_id t)"
    using assms by (auto simp: task_id_def control_free_append control_free_def list_all_iff hex_digest_def
        is_hex_lower_def is_digit_def str_int_pos dest!: str_nat_digits [THEN list_all_iff [THEN iffD1], THEN bspec])
  have "length (str_int (tk_issue t)) \<le> 10" "length (str_int (tk_revision t)) \<le> 10"
    using assms length_str_nat [of "nat (tk_issue t)" 9] length_str_nat [of "nat (tk_revision t)" 9]
    by (simp_all add: str_int_pos)
  with assms(6) have "length (task_id t) \<le> 4096" by (simp add: task_id_def hex_digest_def)
  with length_strip_le [of "task_id t"] have "length (strip (task_id t)) \<le> 4096" by linarith
  moreover have "strip (task_id t) \<noteq> []"
    using strip_nonempty [of "CHR ''i''" "''ssue-'' @ str_int (tk_issue t) @ '':r'' @ str_int (tk_revision t) @ '':'' @ tk_digest t"]
    by (simp add: task_id_def py_space_def)
  ultimately have body: "text_in (PStr (task_id t)) 4096 = Inr (task_id t)"
    using free by (simp add: text_in_Inr text_ok_def)
  have "int (digits_val (str_int i)) = i" if "1 \<le> i" for i
    using that by (simp add: str_int_pos digits_val_str_nat)
  then have "integer (PInt (int (digits_val (str_int (tk_issue t))))) 1 (2 ^ 31 - 1) = Inr (tk_issue t)"
    "integer (PInt (int (digits_val (str_int (tk_revision t))))) 1 999999 = Inr (tk_revision t)"
    using assms by (simp_all add: integer_Inr)
  with body show ?thesis
    using task_id_groups_task [of t] assms
    by (simp add: result_branch_def run_record_fields id task_branch_def)
qed

lemma run_record_small:
  assumes inv: "run_inv (inspected h p t) p t r" and live: "rn_state r \<noteq> Pending"
    and task: "1 \<le> tk_issue t" "tk_issue t \<le> 2 ^ 31 - 1" "1 \<le> tk_revision t" "tk_revision t \<le> 999999"
    and hash: "hex_digest 64 (tk_digest t)" "\<And>s. hex_digest 64 (h s)"
    and small: "record_bounded r"
  shows "validate_result (canonical (run_to_dict r)) p = Inr v \<longleftrightarrow>
     distinct (map (\<lambda>c. casefold (ch_path c)) (run_changes r)) \<and> v = norm (run_to_dict r)"
proof -
  define d where "d = dict_items (norm (run_to_dict r))"
  obtain d0 where d0: "run_to_dict r = PDict d0" by (simp add: run_to_dict_def)
  have printed: "PDict d = norm (run_to_dict r)" by (simp add: d_def d0)
  have read: "json_in (canonical (run_to_dict r)) 1048576 = Inr d"
    using json_in_canonical [of d0 1048576] run_to_dict_json [OF inv] small
    by (simp add: d_def d0 record_bounded_def)
  have "keys_exactly result_keys (norm (run_to_dict r)) = Inr d"
    unfolding d_def run_to_dict_def
    by (rule keys_exactly_norm) (simp add: is_dict_with_def result_keys_def)
  then have keys: "keys_exactly result_keys (PDict d) = Inr d" by (simp only: printed)
  have branch: "result_branch d = Inr ()" unfolding d_def by (rule run_record_branch [OF inv task hash(1)])
  have state: "state_value (rn_state r) \<in> set (map snd state_table)"
    by (cases "rn_state r") (simp_all add: state_table_def)
  have reps: "integer (PInt (rn_repairs r)) 0 (cp_max_repairs p) = Inr (rn_repairs r)"
    using inv by (simp add: integer_Inr run_inv_defs)
  have lims: "strings_in (PList (map PStr run_limitations)) 64 = Inr run_limitations"
    unfolding strings_in_Inr by code_simp
  have evidence: "list_all change_ok (run_changes r)" "list_all (text_ok 4096) (run_violations r)"
    "rn_candidate r = Some c \<Longrightarrow> hex_digest 64 (cd_digest c)"
    "mapE (result_check p (text_option (map_option cd_digest (rn_candidate r))))
       (map (\<lambda>c. norm (check_to_dict c)) (rn_checks r)) = Inr (rn_checks r)"
    "distinct (map ck_name (rn_checks r))" for c
  proof -
    have "list_all change_ok (run_changes r) \<and> list_all (text_ok 4096) (run_violations r)
      \<and> (\<forall>c. rn_candidate r = Some c \<longrightarrow> hex_digest 64 (cd_digest c))
      \<and> mapE (result_check p (text_option (map_option cd_digest (rn_candidate r))))
          (map (\<lambda>c. norm (check_to_dict c)) (rn_checks r)) = Inr (rn_checks r)
      \<and> distinct (map ck_name (rn_checks r))"
    proof (cases "rn_candidate r")
      case None
      with inv show ?thesis by (simp add: run_inv_defs run_changes_def run_violations_def)
    next
      case (Some c)
      with inv obtain base cand where i: "inspect_candidate h t p base cand = Inr c"
        and ev: "evidence_ok p c (rn_checks r)"
        by (auto simp: run_inv_defs inspected_def)
      have "cd_digest c \<in> range h" by (rule inspect_candidate_Inr [OF i])
      then have "hex_digest 64 (cd_digest c)" using hash(2) by auto
      with Some ev inspected_violations_text [OF i] show ?thesis
        by (simp add: run_changes_def run_violations_def evidence_ok_def text_option_def checks_printed)
    qed
    then show "list_all change_ok (run_changes r)" "list_all (text_ok 4096) (run_violations r)"
      "rn_candidate r = Some c \<Longrightarrow> hex_digest 64 (cd_digest c)"
      "mapE (result_check p (text_option (map_option cd_digest (rn_candidate r))))
         (map (\<lambda>c. norm (check_to_dict c)) (rn_checks r)) = Inr (rn_checks r)"
      "distinct (map ck_name (rn_checks r))" by blast+
  qed
  have viols: "checkE (\<lambda>v. bindE (text_in v 4096) (\<lambda>_. Inr ())) (map PStr (run_violations r)) = Inr ()"
    using evidence(2) by (auto simp: checkE_Inr_iff list_all_iff text_in_Inr bindE_Inr)
  have bound: "text_option (map_option cd_digest (rn_candidate r)) \<noteq> PNone \<Longrightarrow>
      sha_in (text_option (map_option cd_digest (rn_candidate r))) 64 = Inr (cd_digest (the (rn_candidate r)))"
    "text_option (map_option cd_digest (rn_candidate r)) = PNone \<Longrightarrow> run_changes r = []"
    "text_option (map_option cd_digest (rn_candidate r)) = PNone \<Longrightarrow> run_violations r = []"
    "text_option (map_option cd_digest (rn_candidate r)) = PNone \<Longrightarrow> rn_checks r = []"
    using evidence(3) inv
    by (auto simp: text_option_def sha_in_Inr run_changes_def run_violations_def run_inv_defs split: option.splits)
  have rules: "result_state_rules p d (state_value (rn_state r)) (map (\<lambda>c. norm (change_to_dict c)) (run_changes r))
      (map PStr (run_violations r)) (rn_checks r) = Inr ()"
    by (rule state_rules_printed [OF inv d_def refl live])
  have id: "rn_policy_digest r = cp_digest p" "rn_base_sha r = cp_base_sha p"
    using inv by (simp_all add: run_inv_defs)
  have "validate_result (canonical (run_to_dict r)) p =
      bindE (result_changes [] (map (\<lambda>c. norm (change_to_dict c)) (run_changes r))) (\<lambda>_. Inr (PDict d))"
    using small
    by (simp add: validate_result_def read keys branch run_record_fields [of r, folded d_def] id state reps lims
        list_at_most_def record_bounded_def viols bound evidence(4,5) rules del: set_map)
  then show ?thesis
    by (auto simp: bindE_Inr result_changes_printed [OF evidence(1)] printed)
qed

text \<open>A record that is accepted is within the limits.\<close>

lemma validate_result_lists:
  assumes "validate_result raw p = Inr v"
  obtains d where "json_in raw 1048576 = Inr d" "length raw \<le> 1048576"
    "is_ok (list_at_most 20000 ''invalid result changes'' (dget d ''changed_files''))"
    "is_ok (list_at_most 100000 ''invalid violations'' (dget d ''scope_violations''))"
    "is_ok (list_at_most 128 ''invalid checks'' (dget d ''tests''))"
proof -
  from assms obtain d where d: "json_in raw 1048576 = Inr d"
    by (auto simp: validate_result_def bindE_Inr)
  moreover from d have "length raw \<le> 1048576" by (simp add: json_in_def need_Inr)
  moreover from assms d have "is_ok (list_at_most 20000 ''invalid result changes'' (dget d ''changed_files''))"
    "is_ok (list_at_most 100000 ''invalid violations'' (dget d ''scope_violations''))"
    "is_ok (list_at_most 128 ''invalid checks'' (dget d ''tests''))"
    unfolding validate_result_def by (clarsimp simp: bindE_Inr need_Inr is_ok_iff)+
  ultimately show ?thesis by (rule that)
qed

lemma run_record_validated:
  assumes inv: "run_inv (inspected h p t) p t r" and live: "rn_state r \<noteq> Pending"
    and task: "1 \<le> tk_issue t" "tk_issue t \<le> 2 ^ 31 - 1" "1 \<le> tk_revision t" "tk_revision t \<le> 999999"
    and hash: "hex_digest 64 (tk_digest t)" "\<And>s. hex_digest 64 (h s)"
  shows "validate_result (canonical (run_to_dict r)) p = Inr v \<longleftrightarrow>
     record_bounded r \<and> distinct (map (\<lambda>c. casefold (ch_path c)) (run_changes r)) \<and> v = norm (run_to_dict r)"
proof (cases "record_bounded r")
  case False
  have "record_bounded r" if acc: "validate_result (canonical (run_to_dict r)) p = Inr v"
  proof (rule validate_result_lists [OF acc])
    fix d
    assume d: "json_in (canonical (run_to_dict r)) 1048576 = Inr d" "length (canonical (run_to_dict r)) \<le> 1048576"
      "is_ok (list_at_most 20000 ''invalid result changes'' (dget d ''changed_files''))"
      "is_ok (list_at_most 100000 ''invalid violations'' (dget d ''scope_violations''))"
      "is_ok (list_at_most 128 ''invalid checks'' (dget d ''tests''))"
    obtain d0 where d0: "run_to_dict r = PDict d0" by (simp add: run_to_dict_def)
    have "d = dict_items (norm (run_to_dict r))"
      using json_in_canonical [of d0 1048576] run_to_dict_json [OF inv] d(1,2) by (simp add: d0)
    with d show "record_bounded r"
      by (simp add: run_record_fields record_bounded_def list_at_most_def is_ok_iff need_Inr)
  qed
  with False show ?thesis by blast
qed (use run_record_small [OF assms] in blast)

end
