(* ===== verification/TaskProps.thy ===== *)
theory TaskProps
  imports TaskRecord
begin

text \<open>
  The properties of the task controller, each with a witness on a sample policy, task and run.
\<close>

section \<open>Samples\<close>

definition flat_hash :: "string \<Rightarrow> string" where
  "flat_hash s = replicate 64 (CHR ''a'')"

definition sample_control :: control_policy where
  "sample_control =
     \<lparr>cp_digest = flat_hash [], cp_base_sha = replicate 40 (CHR ''b''), cp_branch_prefix = ''codex/task-'',
      cp_submitters = [''alice''], cp_roles = [''admin''], cp_permitted = [''src/'', ''docs/''],
      cp_protected = mandatory_protection, cp_operations = [''add'', ''modify'', ''delete''],
      cp_modes = [''100644''], cp_max_task_bytes = 16384, cp_max_files = 10, cp_max_bytes = 1000,
      cp_max_repairs = 2, cp_max_minutes = 60, cp_checks = required_checks, cp_skips = []\<rparr>"

definition sample_task_json :: pyval where
  "sample_task_json = PDict
     [(''schema_version'', PInt 1), (''issue_number'', PInt 7), (''revision'', PInt 1),
      (''base_sha'', PStr (replicate 40 (CHR ''b''))), (''objective'', PStr ''fix the parser''),
      (''acceptance_criteria'', PList [PStr ''tests pass'']),
      (''permitted_paths'', PList [PStr ''src/'']), (''permitted_operations'', PList [PStr ''modify''])]"

definition sample_task :: task where
  "sample_task =
     \<lparr>tk_issue = 7, tk_revision = 1, tk_base_sha = replicate 40 (CHR ''b''), tk_objective = ''fix the parser'',
      tk_criteria = [''tests pass''], tk_permitted = [''src/''], tk_operations = [''modify''],
      tk_digest = flat_hash [], tk_policy_digest = flat_hash []\<rparr>"

lemma flat_hash_hex: "hex_digest 64 (flat_hash s)"
  by (simp add: flat_hash_def hex_digest_def list_all_iff is_hex_lower_def)

lemma sample_control_sound: "policy_sound sample_control" by code_simp

lemma sample_task_read:
  "json_in (canonical sample_task_json) (nat (cp_max_task_bytes sample_control)) =
     Inr (dict_items (norm sample_task_json))"
proof -
  obtain d where d: "sample_task_json = PDict d" by (simp add: sample_task_json_def)
  have "json_ok sample_task_json" "length (canonical sample_task_json) \<le> nat (cp_max_task_bytes sample_control)"
    by code_simp+
  then show ?thesis unfolding d by (rule json_in_canonical)
qed

lemma sample_task_parsed: "parse_task flat_hash (canonical sample_task_json) sample_control = Inr sample_task"
  unfolding parse_task_def sample_task_read by code_simp

definition sample_policy_json :: pyval where
  "sample_policy_json = PDict
     [(''schema_version'', PInt 1), (''execution_enabled'', PBool False), (''publishing_enabled'', PBool False),
      (''external_assessments_enabled'', PBool False), (''base_sha'', PStr (replicate 40 (CHR ''b''))),
      (''branch_prefix'', PStr ''codex/task-''), (''allowed_submitters'', PList [PStr ''alice'']),
      (''allowed_roles'', PList [PStr ''admin'']), (''permitted_paths'', PList [PStr ''src/'', PStr ''docs/'']),
      (''protected_paths'', PList (map PStr mandatory_protection)),
      (''permitted_operations'', PList [PStr ''add'', PStr ''modify'', PStr ''delete'']),
      (''allowed_modes'', PList [PStr ''100644'']), (''required_checks'', PList (map PStr required_checks)),
      (''allowed_skip_ids'', PList []), (''max_task_bytes'', PInt 16384), (''max_changed_files'', PInt 10),
      (''max_changed_bytes'', PInt 1000), (''max_repair_attempts'', PInt 2), (''max_runtime_minutes'', PInt 60)]"

lemma sample_policy_read: "json_in (canonical sample_policy_json) 65536 = Inr (dict_items (norm sample_policy_json))"
proof -
  obtain d where d: "sample_policy_json = PDict d" by (simp add: sample_policy_json_def)
  have "json_ok sample_policy_json" "length (canonical sample_policy_json) \<le> 65536" by code_simp+
  then show ?thesis unfolding d by (rule json_in_canonical)
qed

lemma sample_policy_loaded:
  "load_policy flat_hash (canonical sample_policy_json) (flat_hash []) = Inr sample_control"
  unfolding load_policy_def sample_policy_read by code_simp

definition old_files :: inventory where
  "old_files = [(''src/a.py'', \<lparr>fe_mode = ''100644'', fe_content = ''one''\<rparr>)]"

definition new_files :: inventory where
  "new_files = [(''src/a.py'', \<lparr>fe_mode = ''100644'', fe_content = ''two''\<rparr>)]"

definition sample_candidate :: candidate where
  "sample_candidate = projr (inspect_candidate flat_hash sample_task sample_control old_files new_files)"

definition passed_check :: "string \<Rightarrow> check" where
  "passed_check name =
     \<lparr>ck_name = PStr name, ck_status = PStr ''passed'', ck_exit_code = PInt 0,
      ck_candidate = PStr (flat_hash []), ck_tests_run = PInt 3, ck_passed = PInt 3, ck_failed = PInt 0,
      ck_errors = PInt 0, ck_skipped = PInt 0, ck_skip_ids = PList []\<rparr>"

definition alice :: identity where
  "alice = \<lparr>id_login = ''Alice'', id_role = ''admin'', id_repository = the_repository\<rparr>"

definition running_run :: run where
  "running_run = (run_pending sample_task)\<lparr>rn_state := Running\<rparr>"

definition validating_run :: run where
  "validating_run = running_run\<lparr>rn_state := Validating, rn_candidate := Some sample_candidate\<rparr>"

definition completed_run :: run where
  "completed_run = validating_run\<lparr>rn_state := Completed, rn_checks := map passed_check required_checks\<rparr>"

lemma sample_inspected: "inspected flat_hash sample_control sample_task sample_candidate"
proof -
  have "is_ok (inspect_candidate flat_hash sample_task sample_control old_files new_files)" by code_simp
  then show ?thesis unfolding inspected_def sample_candidate_def using is_ok_projr by blast
qed

text \<open>The sample run: admitted, started, submitted, completed.\<close>

lemma sample_reach: "run_reach (inspected flat_hash sample_control sample_task) sample_control sample_task 3 completed_run"
proof -
  let ?R = "run_reach (inspected flat_hash sample_control sample_task) sample_control sample_task"
  let ?r0 = "(run_pending sample_task)\<lparr>rn_state := Admitted\<rparr>"
  have "admit sample_task sample_control alice the_repository (replicate 40 (CHR ''b'')) (PInt 7) [] = Inr ?r0"
    by code_simp
  note r0 = run_reach.admitted [OF this, of "inspected flat_hash sample_control sample_task"]
  have "transition ?r0 ''running'' sample_control None [] None = Inr running_run" by code_simp
  note r1 = run_reach.moved [OF r0 _ this, simplified]
  have "transition running_run ''validating'' sample_control (Some sample_candidate) [] None = Inr validating_run"
    by code_simp
  note r2 = run_reach.moved [OF r1 _ this]
  have "transition validating_run ''completed'' sample_control None (map passed_check required_checks) None
    = Inr completed_run" by code_simp
  note r3 = run_reach.moved [OF r2 _ this]
  show ?thesis unfolding numeral_3_eq_3 by (rule r3) (use sample_inspected in auto)
qed

section \<open>Tasks and candidates\<close>

text \<open>C18: whatever file a scope of an accepted task covers is covered by a scope of the pinned policy
  and by no protected scope, and every loaded policy protects the controller, its tests, the
  workflows and the agent instructions.\<close>
lemma task_scope_stays_clear:
  assumes "load_policy h praw expected = Inr p" "parse_task h raw p = Inr t"
    "scope \<in> set (tk_permitted t)" "covers scope file"
  shows "list_ex (\<lambda>s. covers s file) (cp_permitted p) \<and> \<not> list_ex (\<lambda>s. covers s file) (cp_protected p)
    \<and> \<not> list_ex (\<lambda>s. covers s file) mandatory_protection"
proof -
  obtain s where s: "s \<in> set (cp_permitted p)" "covers s scope"
    and clear: "\<forall>s\<in>set (cp_protected p). \<not> overlaps s scope"
    using parse_task_sound [OF assms(2)] assms(3) by (auto simp: task_sound_def)
  have "covers s file" by (rule covers_trans [OF s(2) assms(4)])
  moreover have "\<not> covers q file" if "q \<in> set (cp_protected p)" for q
    using clear that covers_disjoint [OF _ assms(4), of q] by (auto simp: overlaps_def)
  moreover have "set mandatory_protection \<subseteq> set (cp_protected p)"
    using load_policy_sound [OF assms(1)] by (simp add: policy_sound_def)
  ultimately show ?thesis using s(1) unfolding list_ex_iff by blast
qed

lemma task_scope_stays_clear_witness:
  "covers ''src/'' ''src/a.py'' \<and> \<not> list_ex (\<lambda>s. covers s ''src/a.py'') mandatory_protection"
proof -
  have "''src/'' \<in> set (tk_permitted sample_task)" "covers ''src/'' ''src/a.py''" by code_simp+
  with task_scope_stays_clear [OF sample_policy_loaded sample_task_parsed this] show ?thesis by blast
qed

text \<open>C19: the verdict on a candidate is exact: an inspection reports precisely the paths at which the two
  inventories differ, and the candidate is within scope precisely when there are such paths, not more
  than the policy allows in number and in bytes, and every one of them is an operation and a scope of the
  task, in the policy's scopes, outside the protected ones, of an allowed mode and without a change
  of mode.\<close>
lemma inspect_candidate_exact:
  assumes "inspect_candidate h t p base cand = Inr c"
  defines "C \<equiv> {path. map_of base path \<noteq> map_of cand path}"
  shows "set (map ch_path (cd_changes c)) = C \<and> distinct (map ch_path (cd_changes c))
    \<and> (scope_valid c \<longleftrightarrow>
        C \<noteq> {} \<and> int (card C) \<le> cp_max_files p
        \<and> int (\<Sum>path\<in>C. \<Sum>e\<leftarrow>entries_of (map_of base path) (map_of cand path). length (fe_content e)) \<le> cp_max_bytes p
        \<and> (\<forall>path\<in>C.
             operation_of (map_of base path) (map_of cand path) \<in> set (tk_operations t)
             \<and> list_ex (\<lambda>s. covers s path) (cp_permitted p) \<and> list_ex (\<lambda>s. covers s path) (tk_permitted t)
             \<and> \<not> list_ex (\<lambda>s. covers s path) (cp_protected p)
             \<and> (\<forall>e\<in>set (entries_of (map_of base path) (map_of cand path)). fe_mode e \<in> set (cp_modes p))
             \<and> (map_of base path = None \<or> map_of cand path = None
                \<or> map_option fe_mode (map_of base path) = map_option fe_mode (map_of cand path))))"
proof -
  let ?P = "changed_paths base cand"
  have C: "C = set ?P" by (simp add: C_def changed_paths_set)
  have d: "distinct ?P" by (simp add: changed_paths_def)
  have "map ch_path (cd_changes c) = ?P"
    using assms(1) by (elim inspect_candidate_Inr) (simp add: change_of_def Let_def comp_def)
  moreover have "int (changed_bytes base cand ?P) = int (\<Sum>path\<in>C. \<Sum>e\<leftarrow>entries_of (map_of base path) (map_of cand path). length (fe_content e))"
    unfolding C changed_bytes_def by (simp add: sum_list_distinct_conv_sum_set [OF d])
  moreover have "card C = length ?P" unfolding C by (rule distinct_card [OF d])
  moreover have "C \<noteq> {} \<longleftrightarrow> ?P \<noteq> []" by (simp add: C)
  ultimately show ?thesis
    unfolding inspected_scope_valid [OF assms(1)] path_violations_Nil using d C by simp
qed

lemma inspect_candidate_exact_witness:
  "set (map ch_path (cd_changes sample_candidate)) = {path. map_of old_files path \<noteq> map_of new_files path}"
proof -
  have "is_ok (inspect_candidate flat_hash sample_task sample_control old_files new_files)" by code_simp
  from inspect_candidate_exact [OF is_ok_projr [OF this]] show ?thesis by (simp add: sample_candidate_def)
qed

section \<open>Runs\<close>

text \<open>C20: a run that reached completion carries a candidate of its own task, branch, base and policy that is
  within scope, and all its checks are bound to that candidate's digest and passed with exit code zero;
  every required check is among them, and those that count tests report at least one passed and none
  failed or in error.\<close>
lemma completed_run_is_verified:
  assumes "policy_sound p" "run_reach good p t n r" "rn_state r = Completed"
  shows "\<exists>c. rn_candidate r = Some c \<and> good c \<and> candidate_of t c \<and> scope_valid c
    \<and> set (cp_checks p) \<subseteq> {name. PStr name \<in> ck_name ` set (rn_checks r)}
    \<and> (\<forall>k\<in>set (rn_checks r). ck_candidate k = PStr (cd_digest c) \<and> ck_status k = PStr ''passed''
         \<and> ck_exit_code k = PInt 0
         \<and> (ck_name k \<in> PStr ` set counted_checks \<longrightarrow>
              (\<exists>n. ck_passed k = PInt n \<and> 0 < n) \<and> ck_failed k = PInt 0 \<and> ck_errors k = PInt 0))"
proof -
  have "run_inv good p t r" using run_reach_inv [OF assms(2)] assms(1) by (simp add: policy_sound_def)
  with assms(3) obtain c where c: "rn_candidate r = Some c" "good c" "candidate_of t c"
      "evidence_ok p c (rn_checks r)" "all_passed p c (rn_checks r)"
    by (auto simp: run_inv_defs)
  have "ck_candidate k = PStr (cd_digest c) \<and> ck_status k = PStr ''passed'' \<and> ck_exit_code k = PInt 0
      \<and> (ck_name k \<in> PStr ` set counted_checks \<longrightarrow>
           (\<exists>n. ck_passed k = PInt n \<and> 0 < n) \<and> ck_failed k = PInt 0 \<and> ck_errors k = PInt 0)"
    if "k \<in> set (rn_checks r)" for k
  proof -
    have "check_fits p (cd_digest c) k" "has_status [''passed''] k" "passed_with_counts k"
      using that c by (auto simp: evidence_ok_def all_passed_def list_all_iff)
    then show ?thesis
      using check_exit_passed [of k] check_counts_passed [of k]
      by (auto simp: check_fits_def has_status_def passed_with_counts_def)
  qed
  with c show ?thesis by (auto simp: all_passed_def)
qed

lemma completed_run_is_verified_witness:
  "\<exists>c. rn_candidate completed_run = Some c \<and> scope_valid c"
proof -
  have "rn_state completed_run = Completed" by (simp add: completed_run_def)
  from completed_run_is_verified [OF sample_control_sound sample_reach this] show ?thesis by blast
qed

text \<open>C21: every run ends: under a loaded policy a run makes at most seven transitions, whatever it is
  given, and until it has ended it can always be stopped with a reason.\<close>
lemma runs_end:
  assumes "load_policy h raw expected = Inr p" "run_reach good p t n r"
  shows "n \<le> 7 \<and> (rn_state r \<in> {Blocked, Failed, Completed}
    \<or> transition r ''blocked'' p None [] (Some ''stop'') = Inr (r\<lparr>rn_state := Blocked, rn_reason := Some ''stop''\<rparr>))"
proof -
  have p: "policy_sound p" by (rule load_policy_sound [OF assms(1)])
  then have inv: "run_inv good p t r" using run_reach_inv [OF assms(2)] by (simp add: policy_sound_def)
  have "n \<le> 7"
    using run_reach_rank [OF assms(2)] run_rank_nonneg [OF inv] p by (simp add: policy_sound_def)
  moreover have "state_of ''blocked'' = Some Blocked" "text_ok 1024 ''stop''" by code_simp+
  then have "transition r ''blocked'' p None [] (Some ''stop'') = Inr (r\<lparr>rn_state := Blocked, rn_reason := Some ''stop''\<rparr>)"
    if "rn_state r \<notin> {Blocked, Failed, Completed}"
    using that inv by (cases "rn_state r") (auto simp: transition_steps run_step_simps run_fence_def run_inv_defs)
  ultimately show ?thesis by blast
qed

lemma runs_end_witness: "(3::nat) \<le> 7 \<and> rn_state completed_run \<in> {Blocked, Failed, Completed}"
  using runs_end [OF sample_policy_loaded sample_reach] by (simp add: completed_run_def)

text \<open>C22: the record of a run of a parsed task, all of whose candidates were inspected, is accepted by
  \<open>validate_result\<close> exactly when it is within the limits of a record (a text of at most 1 MiB, at most 128
  checks, 20000 changes and 100000 violations) and no two changed paths differ in letter case only, and it
  is then read back as it was written.\<close>
lemma run_record_roundtrip:
  assumes "policy_sound p" "parse_task h raw p = Inr t" "run_reach (inspected h p t) p t n r"
    "\<And>s. hex_digest 64 (h s)"
  shows "validate_result (canonical (run_to_dict r)) p = Inr v \<longleftrightarrow>
    record_bounded r \<and> distinct (map (\<lambda>c. casefold (ch_path c)) (run_changes r)) \<and> v = norm (run_to_dict r)"
proof -
  have inv: "run_inv (inspected h p t) p t r"
    using run_reach_inv [OF assms(3)] assms(1) by (simp add: policy_sound_def)
  then have "rn_state r \<noteq> Pending" by (auto simp: run_inv_defs split: option.splits)
  moreover have "1 \<le> tk_issue t" "tk_issue t \<le> 2 ^ 31 - 1" "1 \<le> tk_revision t" "tk_revision t \<le> 999999"
    using parse_task_sound [OF assms(2)] by (simp_all add: task_sound_def)
  moreover have "hex_digest 64 (tk_digest t)"
    using assms(2,4) by (auto simp: parse_task_def bindE_Inr need_Inr digest_of_def)
  ultimately show ?thesis using run_record_validated [OF inv] assms(4) by blast
qed

lemma run_record_roundtrip_witness:
  "validate_result (canonical (run_to_dict completed_run)) sample_control = Inr (norm (run_to_dict completed_run))"
proof -
  have "record_bounded completed_run" "distinct (map (\<lambda>c. casefold (ch_path c)) (run_changes completed_run))"
    by code_simp+
  with run_record_roundtrip [OF sample_control_sound sample_task_parsed sample_reach flat_hash_hex]
  show ?thesis by blast
qed

end
