(* ===== verification/QueueProps.thy ===== *)
theory QueueProps
  imports QueueSteps TaskProps
begin

text \<open>
  The properties of the objective queue, each with a witness on a sample approval.
\<close>

section \<open>Reading what is stored\<close>

lemma queue_read_current:
  assumes ok: "queue_ok h hm sig s" and c: "current s oid = Some d" and len: "length (events_for oid s) \<le> 2000"
  shows "queue_read h hm oid s = Inr d"
proof -
  let ?es = "events_for oid s"
  note f = queue_ok_facts [OF ok, of oid]
  from c f(1) have ne: "?es \<noteq> []" by (auto simp: current_def tip_def split: if_splits)
  then obtain a where a: "list_all (row_ok oid a) ?es" using f(4) by blast
  from c f(1) ne have body: "json_record (er_record (last ?es)) = Inr d"
    by (auto simp: current_def tip_def split: sum.splits)
  obtain v where v: "record_ok oid a (er_version (last ?es)) d"
    using row_record [of oid a "last ?es"] a ne body by (auto simp: list_all_iff)
  have "er_version (last ?es) = last (map er_version ?es)" using ne by (simp add: last_map)
  also have "\<dots> = int (length ?es) - 1" unfolding f(2) using ne by (simp add: last_map of_nat_diff Suc_leI)
  finally have "map_of d ''version'' = Some (PInt (int (length ?es) - 1))" using v by (simp add: record_ok_def)
  moreover have "rows_of oid s = ?es" using len by (simp add: rows_of_ok [OF ok])
  ultimately show ?thesis
    using ne len body f(1,3) by (simp add: queue_read_def found_def field_def tip_def Let_def)
qed

abbreviation run_queue ::
  "(string \<Rightarrow> string) \<Rightarrow> (string \<Rightarrow> string) \<Rightarrow> signature_check \<Rightarrow> queue_call list \<Rightarrow> queue \<Rightarrow> queue" where
  "run_queue h hm sig cs s \<equiv> fold (\<lambda>c s. snd (queue_op h hm sig c s)) cs s"

lemma run_ok: "queue_ok h hm sig s \<Longrightarrow> queue_ok h hm sig (run_queue h hm sig cs s)"
  by (rule queue_machine.inv_run)

lemma run_le: "queue_ok h hm sig s \<Longrightarrow> queue_le s (run_queue h hm sig cs s)"
  by (rule queue_machine.le_run)

section \<open>A sample approval\<close>

definition sample_approval_json :: pyval where
  "sample_approval_json = PDict
     [(''schema_version'', PInt 1), (''objective_id'', PStr ''issue-7-r1''), (''owner'', PStr ''alice''),
      (''repository'', PStr the_repository), (''task'', sample_task_json), (''policy_digest'', PStr (flat_hash [])),
      (''approved_at'', PInt 100), (''expires_at'', PInt 5000),
      (''limits'', PDict [(''max_batches'', PInt 2), (''max_repairs_per_batch'', PInt 1), (''max_attempts'', PInt 5),
         (''max_wall_seconds'', PInt 3000), (''max_tokens'', PInt 1000), (''max_cost_microusd'', PInt 1000)]),
      (''release'', PDict [(''authorized'', PBool False), (''tag'', PNone), (''artifact_names'', PList []),
         (''signing_key_ids'', PList [])]),
      (''allow_safety_control_changes'', PBool False)]"

definition sample_envelope_json :: pyval where
  "sample_envelope_json = PDict
     [(''key_id'', PStr ''k1''), (''payload'', sample_approval_json), (''signature'', PStr ''AAAA'')]"

definition owner_keys :: "string \<rightharpoonup> trust_key" where
  "owner_keys = [''k1'' \<mapsto> \<lparr>ky_owner = ''alice'', ky_role = ''owner'', ky_public = []\<rparr>]"

definition any_signature :: signature_check where
  "any_signature public signature message = True"

lemma sample_envelope_read:
  "json_in (canonical sample_envelope_json) 1048576 = Inr (dict_items (norm sample_envelope_json))"
proof -
  obtain d where d: "sample_envelope_json = PDict d" by (simp add: sample_envelope_json_def)
  have "json_ok sample_envelope_json" "length (canonical sample_envelope_json) \<le> 1048576" by code_simp+
  then show ?thesis unfolding d by (rule json_in_canonical)
qed

lemma sample_envelope_verified:
  "verify_envelope any_signature (canonical sample_envelope_json) approval_domain owner_keys ''owner''
   = Inr (dict_items (norm sample_approval_json), \<lparr>ky_owner = ''alice'', ky_role = ''owner'', ky_public = []\<rparr>, ''k1'')"
  unfolding verify_envelope_def sample_envelope_read by code_simp

definition sample_approval :: objective_approval where
  "sample_approval =
     \<lparr>oa_id = ''issue-7-r1'', oa_owner = ''alice'', oa_digest = flat_hash [], oa_task = sample_task,
      oa_approved = 100, oa_expires = 5000,
      oa_limits = \<lparr>lm_batches = 2, lm_repairs = 1, lm_attempts = 5, lm_seconds = 3000, lm_tokens = 1000,
                   lm_cost = 1000\<rparr>,
      oa_release = False, oa_tag = None, oa_artifacts = [], oa_signers = []\<rparr>"

lemma sample_approval_verified:
  "verify_approval flat_hash any_signature (canonical sample_envelope_json) sample_control owner_keys 200
   = Inr sample_approval"
proof -
  have "json_ok sample_task_json" by code_simp
  then have "canonical (norm sample_task_json) = canonical sample_task_json"
    by (simp add: canonical_def dumps_def norm_idem)
  then have task: "parse_task flat_hash (canonical (norm sample_task_json)) sample_control = Inr sample_task"
    by (simp only: sample_task_parsed)
  have field: "dget (dict_items (norm sample_approval_json)) ''task'' = norm sample_task_json" by code_simp
  show ?thesis
    unfolding verify_approval_def sample_envelope_verified bindE_simps prod.case field task by code_simp
qed

text \<open>The sample queue: the approval enqueued at time 200, then claimed.\<close>

definition sample_call :: queue_call where
  "sample_call = Enqueue (canonical sample_envelope_json) sample_control owner_keys 200"

abbreviation enqueued_queue :: queue where
  "enqueued_queue \<equiv> run_queue flat_hash id any_signature [sample_call] new_queue"

lemma sample_enqueued:
  "\<exists>d. enqueue flat_hash id any_signature (canonical sample_envelope_json) sample_control owner_keys 200 new_queue
     = (Inr d, enqueued_queue) \<and> current enqueued_queue ''issue-7-r1'' = Some (saved (first_record sample_approval 200))
     \<and> length (q_events enqueued_queue) = 1"
proof -
  let ?n = "first_record sample_approval 200"
  let ?s1 = "\<lparr>q_approvals = [(''issue-7-r1'', flat_hash [], canonical sample_envelope_json)], q_objectives = [],
     q_events = [], q_artifacts = []\<rparr>"
  have k: "map_of ?n ''objective_id'' = Some (PStr ''issue-7-r1'')" "map_of ?n ''version'' = Some (PInt 0)"
    by (simp_all add: first_record_def sample_approval_def)
  have "\<exists>s'. queue_write flat_hash id ?n ''approved'' ?s1 = Inr ((), s') \<and> length (q_events s') = 1
      \<and> (\<exists>mac. q_objectives s' = [(''issue-7-r1'', canonical (PDict ?n), mac)])"
    unfolding queue_write_Inr [OF k, of ?s1 "[]", unfolded tip_def, simplified] by (simp add: Let_def)
  then obtain s' mac where w: "queue_write flat_hash id ?n ''approved'' ?s1 = Inr ((), s')" "length (q_events s') = 1"
    "q_objectives s' = [(''issue-7-r1'', canonical (PDict ?n), mac)]" by blast
  have e: "enqueue flat_hash id any_signature (canonical sample_envelope_json) sample_control owner_keys 200 new_queue
      = (Inr ?n, s')"
    using w(1) by (simp add: enqueue_def sample_approval_verified transaction_def enqueue_body_def new_queue_def
        Let_def) (simp add: sample_approval_def)
  then have "enqueued_queue = s'" by (simp add: sample_call_def as_record_def)
  moreover have "current s' ''issue-7-r1'' = Some (saved ?n)"
    using json_record_canonical [OF first_record_ok(1) [OF sample_approval_verified]] by (simp add: current_def w(3))
  ultimately show ?thesis using e w(2) by blast
qed

section \<open>The limits of the approval\<close>

lemma run_forward:
  assumes "queue_ok h hm sig s" "current s oid = Some d" "current (run_queue h hm sig cs s) oid = Some d'"
  shows "record_le d d'"
proof -
  have "queue_le s (run_queue h hm sig cs s)" by (rule run_le [OF assms(1)])
  then obtain x where "current (run_queue h hm sig cs s) oid = Some x" "record_le d x"
    using assms(2) unfolding queue_le_def by blast
  with assms(3) show ?thesis by simp
qed

lemma run_new_ok: "queue_ok h hm sig (run_queue h hm sig cs new_queue)"
  by (rule run_ok [OF new_queue_ok])

text \<open>C23: Whatever calls are made, in any order and by any worker, an objective that can be read was
  enqueued with an approval that its owner signed, and its record carries that approval's digest and stays
  within the signed numbers of attempts, tokens, cost, batches and repairs; of two reads the later one never
  shows a lower counter, and a terminal record never changes.\<close>

lemma queue_within_signed_limits:
  assumes "queue_read h hm oid (run_queue h hm sig cs new_queue) = Inr d"
    and "queue_read h hm oid (run_queue h hm sig (cs @ cs') new_queue) = Inr d'"
  shows "(\<exists>a. signed h sig (run_queue h hm sig cs new_queue) oid a
      \<and> map_of d ''approval_digest'' = Some (PStr (oa_digest a))
      \<and> number d ''attempts'' \<le> lm_attempts (oa_limits a)
      \<and> number d ''reserved_tokens'' \<le> lm_tokens (oa_limits a)
      \<and> number d ''reserved_cost_microusd'' \<le> lm_cost (oa_limits a)
      \<and> number d ''batch'' \<le> lm_batches (oa_limits a) \<and> number d ''repairs'' \<le> lm_repairs (oa_limits a))
    \<and> record_le d d'"
proof (rule conjI)
  have ok: "queue_ok h hm sig (run_queue h hm sig cs new_queue)" for cs by (rule run_new_ok)
  obtain a v where "signed h sig (run_queue h hm sig cs new_queue) oid a" "record_ok oid a v d"
    and d: "current (run_queue h hm sig cs new_queue) oid = Some d"
    using queue_read_ok [OF ok assms(1)] by metis
  then show "\<exists>a. signed h sig (run_queue h hm sig cs new_queue) oid a
      \<and> map_of d ''approval_digest'' = Some (PStr (oa_digest a))
      \<and> number d ''attempts'' \<le> lm_attempts (oa_limits a)
      \<and> number d ''reserved_tokens'' \<le> lm_tokens (oa_limits a)
      \<and> number d ''reserved_cost_microusd'' \<le> lm_cost (oa_limits a)
      \<and> number d ''batch'' \<le> lm_batches (oa_limits a) \<and> number d ''repairs'' \<le> lm_repairs (oa_limits a)"
    by (auto simp: record_ok_def)
  have "current (run_queue h hm sig (cs @ cs') new_queue) oid = Some d'"
    by (rule queue_read_ok [OF ok assms(2)])
  then have "current (run_queue h hm sig cs' (run_queue h hm sig cs new_queue)) oid = Some d'" by simp
  with ok d show "record_le d d'" by (rule run_forward)
qed

section \<open>Leases\<close>

lemma claim_result:
  assumes "queue_ok h hm sig s" "claim h hm oid w now secs s = (Inr d, s1)"
  shows "map_of (saved d) ''lease_owner'' = Some (PStr w) \<or> terminal (saved d)"
    "number (saved d) ''lease_generation'' = number d ''lease_generation''"
    "map_of (saved d) ''lease_until'' = Some (PInt (number d ''lease_until''))"
proof -
  obtain d0 d' where r: "queue_read h hm oid s = Inr d0" "claimed w now secs d0 = Inr d'" "bump d' = Inr d" "live d0 = Inr ()"
    using assms(2)
    by (auto simp: claim_def claim_body_def transaction_returns bindE_Inr need_Inr split: sum.splits)
  obtain a v where "record_ok oid a v d0" using queue_read_ok [OF assms(1) r(1)] by metis
  from claimed_next [OF this live_open [OF r(4)] r(2,3)] have n: "next_record a d0 d" .
  then have j: "json_ok (PDict d)" by (simp add: next_record_def)
  have "map_of d ''lease_owner'' = Some (PStr w) \<or> map_of d ''state'' = Some (PStr ''blocked'')"
    using r(2,3) by (auto simp: claimed_def bump_Inr bindE_Inr field_Inr int_field_Inr Let_def split: if_splits)
  then show "map_of (saved d) ''lease_owner'' = Some (PStr w) \<or> terminal (saved d)"
    by (auto simp: map_of_saved [OF j] terminal_def terminal_states_def)
  obtain g u where g: "map_of d ''lease_generation'' = Some (PInt g)" "map_of d ''lease_until'' = Some (PInt u)"
    using n by (auto simp: next_record_def number_keys_def)
  then show "number (saved d) ''lease_generation'' = number d ''lease_generation''"
    "map_of (saved d) ''lease_until'' = Some (PInt (number d ''lease_until''))"
    by (simp_all add: number_saved(2) [OF j] map_of_saved [OF j] numberI)
qed

lemma update_holds:
  assumes "queue_update h hm oid w gen ver now ev changes s = (Inr n, s')"
  obtains d where "queue_read h hm oid s = Inr d" "\<not> terminal d" "map_of d ''lease_owner'' = Some (PStr w)"
    "number d ''lease_generation'' = gen"
proof -
  obtain d where "queue_read h hm oid s = Inr d" "live d = Inr ()" "lease_holds d w gen ver now = Inr True"
    using assms by (auto simp: queue_update_def update_body_def transaction_returns bindE_Inr need_Inr split: sum.splits)
  then show ?thesis using that live_open by (auto simp: lease_holds_def bindE_Inr field_Inr numberI)
qed

text \<open>C24: Leases fence workers off.  Once a claim of an objective has returned the record \<open>d\<close>, a second
  claim fails as long as its time is before \<open>d\<close>'s \<open>lease_until\<close> and nothing else was written; and after any
  further calls an update is accepted only under \<open>d\<close>'s lease generation or a later one, under \<open>d\<close>'s own only
  from the worker who claimed it.\<close>

lemma lease_fences_workers:
  assumes c: "claim h hm oid w now secs (run_queue h hm sig cs new_queue) = (Inr d, s1)"
  shows "(now' < number d ''lease_until'' \<longrightarrow> (\<exists>e. claim h hm oid w' now' secs' s1 = (Inl e, s1)))
    \<and> (queue_update h hm oid w' gen ver now' ev changes (run_queue h hm sig cs' s1) = (Inr n, s2) \<longrightarrow>
         number d ''lease_generation'' < gen \<or> (number d ''lease_generation'' = gen \<and> w' = w))"
proof (intro conjI impI)
  note ok = run_new_ok [of h hm sig cs]
  note res = claim_result [OF ok c]
  from claim_step [OF ok c] have ok1: "queue_ok h hm sig s1" and cur: "current s1 oid = Some (saved d)" by blast+
  show "\<exists>e. claim h hm oid w' now' secs' s1 = (Inl e, s1)" if "now' < number d ''lease_until''"
  proof (cases "claim h hm oid w' now' secs' s1")
    case (Pair r t)
    show ?thesis
    proof (cases r)
      case (Inl e)
      with Pair show ?thesis
        by (auto simp: claim_def dest: transaction_raises split: sum.splits)
    next
      case (Inr x)
      with Pair obtain y u where r: "queue_read h hm oid s1 = Inr y" "map_of y ''lease_until'' = Some (PInt u)" "u \<le> now'"
        by (auto simp: claim_def claim_body_def transaction_returns bindE_Inr need_Inr int_field_Inr split: sum.splits)
      have "current s1 oid = Some y" by (rule queue_read_ok [OF ok1 r(1)])
      with cur res(3) r that show ?thesis by simp
    qed
  qed
  show "number d ''lease_generation'' < gen \<or> (number d ''lease_generation'' = gen \<and> w' = w)"
    if u: "queue_update h hm oid w' gen ver now' ev changes (run_queue h hm sig cs' s1) = (Inr n, s2)"
  proof -
    obtain x where x: "queue_read h hm oid (run_queue h hm sig cs' s1) = Inr x" "\<not> terminal x"
      "map_of x ''lease_owner'' = Some (PStr w')" "number x ''lease_generation'' = gen"
      by (rule update_holds [OF u])
    have "current (run_queue h hm sig cs' s1) oid = Some x"
      by (rule queue_read_ok [OF run_ok [OF ok1] x(1)])
    with ok1 cur have le: "record_le (saved d) x" by (rule run_forward)
    with x(2) have "\<not> terminal (saved d)" by (auto simp: record_le_def)
    with le res x show ?thesis by (auto simp: record_le_def growing_def)
  qed
qed

section \<open>Tampering\<close>

definition event_message :: "(string \<Rightarrow> string) \<Rightarrow> event_row \<Rightarrow> string" where
  "event_message h e =
     (''nightrecon-queue-v1'' @ [CHR 0x00]) @ canonical (PDict
       [(''id'', PStr (er_objective e)), (''version'', PInt (er_version e)), (''event'', PStr (er_event e)),
        (''record_sha256'', PStr (h (er_record e))), (''previous'', PStr (er_previous e))])"

lemma event_message_inject:
  "event_message h x = event_message h y \<Longrightarrow>
     er_objective x = er_objective y \<and> er_version x = er_version y \<and> er_event x = er_event y
     \<and> h (er_record x) = h (er_record y) \<and> er_previous x = er_previous y"
  unfolding event_message_def canonical_def
  by (simp add: dumps_inject json_ok.simps) (simp add: sort_key_def)?

interpretation queue_chain: hash_chain er_mac
  "\<lambda>e. if er_version e = 0 then None else Some (er_previous e)"
  "\<lambda>e. inj_on h B \<and> inj_on hm M \<and> er_record e \<in> B \<and> event_message h e \<in> M \<and> er_mac e = hm (event_message h e)"
  for h B hm M
  by unfold_locales (metis (mono_tags, lifting) event_message_inject event_row.equality inj_onD old.unit.exhaust)

lemma event_mac_message:
  "er_objective e = oid \<Longrightarrow> er_previous e = p \<Longrightarrow>
     event_mac h hm oid (er_version e) (er_event e) (er_record e) p = hm (event_message h e)"
  by (auto simp: event_mac_def event_message_def)

lemma check_events_chain:
  "check_events h hm oid i p es = Inr () \<Longrightarrow> \<forall>e\<in>set es. er_objective e = oid \<Longrightarrow> 0 \<le> i \<Longrightarrow>
     chained er_mac (\<lambda>e. if er_version e = 0 then None else Some (er_previous e)) (if i = 0 then None else Some p) es
     \<and> (\<forall>e\<in>set es. er_mac e = hm (event_message h e))"
proof (induction es arbitrary: i p)
  case (Cons e es)
  from Cons.prems have e: "er_version e = i" "er_previous e = p" "er_mac e = hm (event_message h e)"
    and es: "check_events h hm oid (i + 1) (er_mac e) es = Inr ()"
    using event_mac_message [of e oid p h hm] by (auto simp: need_Inr)
  from Cons.IH [OF es] Cons.prems e show ?case by simp
qed simp

text \<open>Tampering shows.  Take any two queue files, whoever wrote them: if both are accepted for an
  objective and end in the same authentication code, all the events that were read are the same and so is the
  record, provided the hash and the authentication code do not collide on the data read.\<close>

lemma queue_tip_fixes_history:
  assumes r: "queue_read h hm oid s = Inr d" "queue_read h hm oid t = Inr d'"
    and tip: "map_option snd (map_of (q_objectives s) oid) = map_option snd (map_of (q_objectives t) oid)"
    and h: "inj_on h (er_record ` set (rows_of oid s @ rows_of oid t))"
    and hm: "inj_on hm (event_message h ` set (rows_of oid s @ rows_of oid t))"
  shows "rows_of oid s = rows_of oid t \<and> d = d'"
proof (rule conjI)
  let ?prev = "\<lambda>e. if er_version e = 0 then None else Some (er_previous e)"
  have read: "\<exists>body. map_of (q_objectives q) oid = Some (body, er_mac (last (rows_of oid q)))
      \<and> body = er_record (last (rows_of oid q)) \<and> json_record body = Inr x \<and> rows_of oid q \<noteq> []
      \<and> check_events h hm oid 0 zero_mac (rows_of oid q) = Inr ()" if "queue_read h hm oid q = Inr x" for q x
    using that by (auto simp: queue_read_def bindE_Inr need_Inr found_Inr Let_def)
  have own: "\<forall>e\<in>set (rows_of oid q). er_objective e = oid" for q
    by (auto simp: rows_of_def dest: in_set_takeD)
  have chain: "chained er_mac ?prev None (rows_of oid q) \<and> (\<forall>e\<in>set (rows_of oid q). er_mac e = hm (event_message h e))"
    if "queue_read h hm oid q = Inr x" for q x
    using read [OF that] check_events_chain [OF _ own [of q], of h hm 0 zero_mac] by auto
  have "chain_tip er_mac (rows_of oid s) = chain_tip er_mac (rows_of oid t)"
    using read [OF r(1)] read [OF r(2)] tip by (auto simp: chain_tip_def)
  then show same: "rows_of oid s = rows_of oid t"
    using chain [OF r(1)] chain [OF r(2)] h hm
    by (intro queue_chain.tip_determines
          [where h = h and hm = hm and B = "er_record ` set (rows_of oid s @ rows_of oid t)"
             and M = "event_message h ` set (rows_of oid s @ rows_of oid t)"])
       (auto simp: list_all_iff)
  with read [OF r(1)] read [OF r(2)] show "d = d'" by auto
qed

section \<open>Witnesses\<close>

lemma sample_read:
  "queue_read flat_hash id ''issue-7-r1'' enqueued_queue = Inr (saved (first_record sample_approval 200))"
proof -
  have "length (events_for ''issue-7-r1'' enqueued_queue) \<le> length (q_events enqueued_queue)"
    unfolding events_for_def by (rule length_filter_le)
  with sample_enqueued show ?thesis
    by (intro queue_read_current [OF run_new_ok]) auto
qed

lemma queue_within_signed_limits_witness:
  "\<exists>a. signed flat_hash any_signature enqueued_queue ''issue-7-r1'' a
     \<and> number (saved (first_record sample_approval 200)) ''attempts'' \<le> lm_attempts (oa_limits a)"
  using queue_within_signed_limits [of flat_hash id "''issue-7-r1''" any_signature "[sample_call]"
      "saved (first_record sample_approval 200)" "[]"] sample_read by fastforce

lemma queue_tip_fixes_history_witness:
  "rows_of ''issue-7-r1'' enqueued_queue
   = rows_of ''issue-7-r1'' (enqueued_queue\<lparr>q_artifacts := [(''x'', ''y'')]\<rparr>)"
proof -
  let ?t = "enqueued_queue\<lparr>q_artifacts := [(''x'', ''y'')]\<rparr>"
  have rows: "rows_of ''issue-7-r1'' ?t = rows_of ''issue-7-r1'' enqueued_queue" by (simp add: rows_of_def)
  then have read: "queue_read flat_hash id ''issue-7-r1'' ?t = Inr (saved (first_record sample_approval 200))"
    using sample_read by (simp add: queue_read_def)
  have "length (rows_of ''issue-7-r1'' enqueued_queue) \<le> 1"
    using sample_enqueued length_filter_le [of "\<lambda>e. er_objective e = ''issue-7-r1''" "q_events enqueued_queue"]
    by (simp add: rows_of_def)
  then obtain e where "set (rows_of ''issue-7-r1'' enqueued_queue) \<subseteq> {e}"
    by (cases "rows_of ''issue-7-r1'' enqueued_queue") auto
  then have "inj_on f (g ` set (rows_of ''issue-7-r1'' enqueued_queue))" for f g :: "_ \<Rightarrow> string"
    by (auto simp: inj_on_def)
  then show ?thesis
    by (intro queue_tip_fixes_history [OF sample_read read, THEN conjunct1])
       (simp_all only: rows set_append Un_absorb, simp)
qed

text \<open>The sample objective claimed at time 300 for 100 seconds.\<close>

abbreviation sample_oid :: string where
  "sample_oid \<equiv> ''issue-7-r1''"

lemma sample_claimed:
  "\<exists>d s1. claim flat_hash id sample_oid ''w1'' 300 100 enqueued_queue = (Inr d, s1) \<and> number d ''lease_until'' = 400"
proof -
  let ?d = "saved (first_record sample_approval 200)"
  obtain d' d'' where c: "claimed ''w1'' 300 100 ?d = Inr d'" "bump d' = Inr d''" "number d'' ''lease_until'' = 400"
    "map_of d'' ''objective_id'' = Some (PStr sample_oid)" "map_of d'' ''version'' = Some (PInt 1)"
    "map_of d'' ''state'' = Some (PStr ''admitted'')"
  proof -
    have "case claimed ''w1'' 300 100 ?d of Inl _ \<Rightarrow> False | Inr d' \<Rightarrow> (case bump d' of Inl _ \<Rightarrow> False | Inr d'' \<Rightarrow>
        number d'' ''lease_until'' = 400 \<and> map_of d'' ''objective_id'' = Some (PStr sample_oid)
        \<and> map_of d'' ''version'' = Some (PInt 1) \<and> map_of d'' ''state'' = Some (PStr ''admitted''))"
      by code_simp
    with that show ?thesis by (auto split: sum.splits)
  qed
  have f: "live ?d = Inr ()" "int_field ?d ''deadline'' = Inr 3200" "int_field ?d ''lease_until'' = Inr 0"
    "text_in (PStr ''w1'') 128 = Inr ''w1''" "integer (PInt 300) 0 time_limit = Inr 300"
    "integer (PInt 100) 1 300 = Inr 100"
    by code_simp+
  obtain e where es: "events_for sample_oid enqueued_queue = [e]"
    "er_version e = 0"
  proof -
    have "length (events_for sample_oid enqueued_queue) \<le> 1"
      using sample_enqueued length_filter_le [of "\<lambda>e. er_objective e = sample_oid" "q_events enqueued_queue"]
      by (simp add: events_for_def)
    moreover have "events_for sample_oid enqueued_queue \<noteq> []"
      by (rule queue_read_ok [OF run_new_ok sample_read])
    ultimately obtain e where e: "events_for sample_oid enqueued_queue = [e]"
      by (cases "events_for sample_oid enqueued_queue") auto
    with queue_ok_facts(2) [OF run_new_ok, of sample_oid flat_hash id any_signature "[sample_call]"] that show ?thesis
      by simp
  qed
  have "\<not> list_ex (\<lambda>x. er_objective x = sample_oid \<and> er_version x = 1) (q_events enqueued_queue)"
  proof
    assume "list_ex (\<lambda>x. er_objective x = sample_oid \<and> er_version x = 1) (q_events enqueued_queue)"
    then obtain x where "x \<in> set (events_for sample_oid enqueued_queue)" "er_version x = 1"
      by (auto simp: list_ex_iff events_for_def)
    with es show False by simp
  qed
  then obtain s1 where w: "queue_write flat_hash id d'' ''claimed'' enqueued_queue = Inr ((), s1)"
    unfolding queue_write_Inr [OF c(4,5) queue_ok_facts(1) [OF run_new_ok]] Let_def by blast
  have "claim flat_hash id sample_oid ''w1'' 300 100 enqueued_queue = (Inr d'', s1)"
    using c w by (simp add: claim_def claim_body_def f sample_read [simplified] transaction_def field_def)
  with c(3) show ?thesis by blast
qed

lemma lease_fences_workers_witness:
  "\<exists>d s1. claim flat_hash id sample_oid ''w1'' 300 100 enqueued_queue = (Inr d, s1) \<and> 350 < number d ''lease_until''
     \<and> (\<exists>e. claim flat_hash id sample_oid ''w2'' 350 100 s1 = (Inl e, s1))"
proof -
  obtain d s1 where c: "claim flat_hash id sample_oid ''w1'' 300 100 enqueued_queue = (Inr d, s1)"
    and u: "number d ''lease_until'' = 400" using sample_claimed by blast
  moreover have "\<exists>e. claim flat_hash id sample_oid ''w2'' 350 100 s1 = (Inl e, s1)"
    using lease_fences_workers [OF c, of 350 "''w2''" 100] by (simp add: u)
  ultimately show ?thesis by auto
qed

end
