(* ===== verification/EngagementDomain.thy ===== *)
theory EngagementDomain
  imports ApprovalCodec
begin

text \<open>
  \<^verbatim>\<open>nightrecon_white_engine/engagement_domain.py\<close>: contacts, scope definitions, data-handling
  policies, rules of engagement and engagement definitions, each with its validating
  constructor and its dictionary form.
\<close>

section \<open>Validators\<close>

text \<open>\<^verbatim>\<open>^[A-Za-z0-9][A-Za-z0-9._:/ -]{0,127}$\<close>\<close>

definition technique_pattern :: "string \<Rightarrow> bool" where
  "technique_pattern s = (case s of [] \<Rightarrow> False
     | c # r \<Rightarrow> is_alnum c \<and> length r \<le> 127 \<and> list_all (\<lambda>x. is_alnum x \<or> x \<in> set ''._:/ -'') r)"

definition optional_field :: "pyval \<Rightarrow> string \<Rightarrow> string option res" where
  "optional_field v field = optional (\<lambda>v. required_text ValueError v field) v"

text \<open>\<^verbatim>\<open>_unique_sorted_text\<close>, with the pattern as a predicate.\<close>

definition listed_text :: "(string \<Rightarrow> bool) \<Rightarrow> string \<Rightarrow> pyval \<Rightarrow> string res" where
  "listed_text pat field v =
     bindE (required_text ValueError v field) (\<lambda>s.
       req (pat s) (ValueError (field @ '' contains an invalid value'')) (Inr s))"

definition unique_sorted_text :: "string \<Rightarrow> nat \<Rightarrow> (string \<Rightarrow> bool) \<Rightarrow> pyval list \<Rightarrow> string list res" where
  "unique_sorted_text field minimum pat vs =
     req (minimum \<le> length vs) (ValueError (field @ '' must contain at least '' @ str_nat minimum @ '' item(s)''))
    (bindE (py_unique vs) (\<lambda>u.
     req u (ValueError (field @ '' must not contain duplicates''))
    (bindE (mapE (listed_text pat field) vs) (\<lambda>ss. Inr (sort ss)))))"

text \<open>A positive integer that is not a boolean.\<close>

definition positive_int :: "string \<Rightarrow> pyval \<Rightarrow> int res" where
  "positive_int msg v = bindE (int_of (ValueError msg) v) (\<lambda>n. req (1 \<le> n) (ValueError msg) (Inr n))"

text \<open>\<^verbatim>\<open>v not in TUPLE\<close>, which hashes nothing.\<close>

definition tuple_member :: "string list \<Rightarrow> pyexc \<Rightarrow> pyval \<Rightarrow> string res" where
  "tuple_member allowed e v = (case v of PStr s \<Rightarrow> req (s \<in> set allowed) e (Inr s) | _ \<Rightarrow> Inl e)"

section \<open>Contacts\<close>

record contact =
  ct_id :: string
  ct_name :: string
  ct_role :: string
  ct_email :: "string option"
  ct_phone :: "string option"

definition contact_init :: "pyval \<Rightarrow> pyval \<Rightarrow> pyval \<Rightarrow> pyval \<Rightarrow> pyval \<Rightarrow> contact res" where
  "contact_init cid name role email phone =
     bindE (ident_text ValueError cid ''contact_id'') (\<lambda>i.
     bindE (required_text ValueError name ''display_name'') (\<lambda>n.
     bindE (required_text ValueError role ''role'') (\<lambda>r.
     bindE (optional_field email ''email'') (\<lambda>e.
     bindE (optional_field phone ''phone'') (\<lambda>p.
     Inr \<lparr>ct_id = i, ct_name = n, ct_role = r, ct_email = e, ct_phone = p\<rparr>)))))"

definition contact_make :: "contact \<Rightarrow> contact res" where
  "contact_make c =
     contact_init (PStr (ct_id c)) (PStr (ct_name c)) (PStr (ct_role c)) (opt_pstr (ct_email c)) (opt_pstr (ct_phone c))"

definition contact_to_dict :: "contact \<Rightarrow> pyval" where
  "contact_to_dict c = PDict
     [(''contact_id'', PStr (ct_id c)), (''display_name'', PStr (ct_name c)), (''role'', PStr (ct_role c)),
      (''email'', opt_pstr (ct_email c)), (''phone'', opt_pstr (ct_phone c))]"

definition contact_from_dict :: "pyval \<Rightarrow> contact res" where
  "contact_from_dict v =
     req (is_dict_with [''contact_id'', ''display_name'', ''role'', ''email'', ''phone''] v)
       (ValueError ''engagement contact schema is not supported'')
       (let d = dict_items v
        in contact_init (dget d ''contact_id'') (dget d ''display_name'') (dget d ''role'') (dget d ''email'')
             (dget d ''phone''))"

section \<open>Scope definitions\<close>

record scope_definition =
  sd_allowed :: "string list"
  sd_excluded :: "string list"

definition scope_definition_init :: "pyval list \<Rightarrow> pyval list \<Rightarrow> scope_definition res" where
  "scope_definition_init allowed excluded =
     bindE (unique_sorted_text ''allowed'' 1 (\<lambda>_. True) allowed) (\<lambda>a.
     bindE (unique_sorted_text ''excluded'' 0 (\<lambda>_. True) excluded) (\<lambda>x.
     bindE (scope_from_values a) (\<lambda>_.
     bindE (if x = [] then Inr [] else scope_from_values x) (\<lambda>_.
     Inr \<lparr>sd_allowed = a, sd_excluded = x\<rparr>))))"

definition scope_definition_make :: "scope_definition \<Rightarrow> scope_definition res" where
  "scope_definition_make s = scope_definition_init (map PStr (sd_allowed s)) (map PStr (sd_excluded s))"

definition scope_definition_to_dict :: "scope_definition \<Rightarrow> pyval" where
  "scope_definition_to_dict s = PDict
     [(''allowed'', PList (map PStr (sd_allowed s))), (''excluded'', PList (map PStr (sd_excluded s)))]"

definition scope_definition_from_dict :: "pyval \<Rightarrow> scope_definition res" where
  "scope_definition_from_dict v =
     req (is_dict_with [''allowed'', ''excluded''] v) (ValueError ''scope definition schema is not supported'')
       (let d = dict_items v in
        case (dget d ''allowed'', dget d ''excluded'') of
          (PList a, PList x) \<Rightarrow> scope_definition_init a x
        | _ \<Rightarrow> Inl (ValueError ''scope targets must be lists''))"

section \<open>Data handling\<close>

definition classifications :: "string list" where
  "classifications = [''public'', ''internal'', ''confidential'', ''restricted'']"

record data_handling =
  dh_class :: string
  dh_days :: int
  dh_export :: bool
  dh_notes :: "string option"

definition data_handling_init :: "pyval \<Rightarrow> pyval \<Rightarrow> pyval \<Rightarrow> pyval \<Rightarrow> data_handling res" where
  "data_handling_init cls days export notes =
     bindE (member_value classifications (ValueError ''unsupported data classification'') cls) (\<lambda>c.
     bindE (int_of (ValueError ''retention_days must be between 1 and 3650'') days) (\<lambda>n.
     req (1 \<le> n \<and> n \<le> 3650) (ValueError ''retention_days must be between 1 and 3650'')
    (bindE (bool_value (ValueError ''export_allowed must be boolean'') export) (\<lambda>x.
     bindE (optional_field notes ''notes'') (\<lambda>t.
     Inr \<lparr>dh_class = c, dh_days = n, dh_export = x, dh_notes = t\<rparr>)))))"

definition data_handling_make :: "data_handling \<Rightarrow> data_handling res" where
  "data_handling_make p =
     data_handling_init (PStr (dh_class p)) (PInt (dh_days p)) (PBool (dh_export p)) (opt_pstr (dh_notes p))"

definition data_handling_to_dict :: "data_handling \<Rightarrow> pyval" where
  "data_handling_to_dict p = PDict
     [(''classification'', PStr (dh_class p)), (''retention_days'', PInt (dh_days p)),
      (''export_allowed'', PBool (dh_export p)), (''notes'', opt_pstr (dh_notes p))]"

definition data_handling_from_dict :: "pyval \<Rightarrow> data_handling res" where
  "data_handling_from_dict v =
     req (is_dict_with [''classification'', ''retention_days'', ''export_allowed'', ''notes''] v)
       (ValueError ''data handling policy schema is not supported'')
       (let d = dict_items v
        in data_handling_init (dget d ''classification'') (dget d ''retention_days'') (dget d ''export_allowed'')
             (dget d ''notes''))"

section \<open>Rules of engagement\<close>

definition intrusiveness :: "string list" where
  "intrusiveness = [''passive'', ''safe-active'', ''intrusive'', ''destructive'']"

record roe =
  ro_engagement :: string
  ro_version :: int
  ro_title :: string
  ro_created :: string
  ro_from :: string
  ro_until :: string
  ro_scope :: scope_definition
  ro_allowed :: "string list"
  ro_prohibited :: "string list"
  ro_intrusiveness :: string
  ro_max_actions :: int
  ro_handling :: data_handling
  ro_deviation :: bool
  ro_notes :: "string option"

definition roe_init ::
  "pyval \<Rightarrow> pyval \<Rightarrow> pyval \<Rightarrow> pyval \<Rightarrow> pyval \<Rightarrow> pyval \<Rightarrow> pyval \<Rightarrow> scope_definition \<Rightarrow> pyval list
   \<Rightarrow> pyval list \<Rightarrow> pyval \<Rightarrow> pyval \<Rightarrow> data_handling \<Rightarrow> pyval \<Rightarrow> pyval \<Rightarrow> roe res" where
  "roe_init schema gid version title created from until sc allowed prohibited intr actions dh deviation notes =
     req (py_eq_int schema 1) (ValueError ''unsupported ROE schema version'')
    (bindE (ident_text ValueError gid ''engagement_id'') (\<lambda>g.
     bindE (positive_int ''version must be a positive integer'' version) (\<lambda>n.
     bindE (required_text ValueError title ''title'') (\<lambda>t.
     bindE (iso8601 ValueError created ''created_at'') (\<lambda>c.
     bindE (iso8601 ValueError from ''valid_from'') (\<lambda>f.
     bindE (iso8601 ValueError until ''valid_until'') (\<lambda>u.
     req (time_of f < time_of u) (ValueError ''valid_until must be later than valid_from'')
    (bindE (unique_sorted_text ''allowed_techniques'' 1 technique_pattern allowed) (\<lambda>a.
     bindE (unique_sorted_text ''prohibited_techniques'' 0 technique_pattern prohibited) (\<lambda>p.
     req (set a \<inter> set p = {}) (ValueError ''a technique cannot be both allowed and prohibited'')
    (bindE (tuple_member intrusiveness (ValueError ''unsupported max_intrusiveness'') intr) (\<lambda>i.
     bindE (positive_int ''max_actions must be a positive integer'' actions) (\<lambda>m.
     bindE (bool_value (ValueError ''deviation_requires_approval must be boolean'') deviation) (\<lambda>dv.
     bindE (optional_field notes ''notes'') (\<lambda>nt.
     Inr \<lparr>ro_engagement = g, ro_version = n, ro_title = t, ro_created = c, ro_from = f, ro_until = u,
          ro_scope = sc, ro_allowed = a, ro_prohibited = p, ro_intrusiveness = i, ro_max_actions = m,
          ro_handling = dh, ro_deviation = dv, ro_notes = nt\<rparr>)))))))))))))))"

definition roe_make :: "roe \<Rightarrow> roe res" where
  "roe_make r =
     roe_init (PInt 1) (PStr (ro_engagement r)) (PInt (ro_version r)) (PStr (ro_title r)) (PStr (ro_created r))
       (PStr (ro_from r)) (PStr (ro_until r)) (ro_scope r) (map PStr (ro_allowed r)) (map PStr (ro_prohibited r))
       (PStr (ro_intrusiveness r)) (PInt (ro_max_actions r)) (ro_handling r) (PBool (ro_deviation r))
       (opt_pstr (ro_notes r))"

definition roe_to_dict :: "roe \<Rightarrow> pyval" where
  "roe_to_dict r = PDict
     [(''schema_version'', PInt 1), (''engagement_id'', PStr (ro_engagement r)), (''version'', PInt (ro_version r)),
      (''title'', PStr (ro_title r)), (''created_at'', PStr (ro_created r)), (''valid_from'', PStr (ro_from r)),
      (''valid_until'', PStr (ro_until r)), (''scope'', scope_definition_to_dict (ro_scope r)),
      (''allowed_techniques'', PList (map PStr (ro_allowed r))),
      (''prohibited_techniques'', PList (map PStr (ro_prohibited r))),
      (''max_intrusiveness'', PStr (ro_intrusiveness r)), (''max_actions'', PInt (ro_max_actions r)),
      (''data_handling'', data_handling_to_dict (ro_handling r)),
      (''deviation_requires_approval'', PBool (ro_deviation r)), (''notes'', opt_pstr (ro_notes r))]"

definition roe_fingerprint :: "(string \<Rightarrow> string) \<Rightarrow> roe \<Rightarrow> string" where
  "roe_fingerprint h r = fingerprint h (roe_to_dict r)"

definition roe_keys :: "string list" where
  "roe_keys =
     [''schema_version'', ''engagement_id'', ''version'', ''title'', ''created_at'', ''valid_from'', ''valid_until'',
      ''scope'', ''allowed_techniques'', ''prohibited_techniques'', ''max_intrusiveness'', ''max_actions'',
      ''data_handling'', ''deviation_requires_approval'', ''notes'']"

definition roe_from_dict :: "pyval \<Rightarrow> roe res" where
  "roe_from_dict v =
     req (is_dict_with roe_keys v) (ValueError ''ROE schema is not supported'')
       (let d = dict_items v in
        case dget d ''allowed_techniques'' of
          PList a \<Rightarrow>
            (case dget d ''prohibited_techniques'' of
               PList p \<Rightarrow>
                 bindE (scope_definition_from_dict (dget d ''scope'')) (\<lambda>sc.
                 bindE (data_handling_from_dict (dget d ''data_handling'')) (\<lambda>dh.
                 roe_init (dget d ''schema_version'') (dget d ''engagement_id'') (dget d ''version'') (dget d ''title'')
                   (dget d ''created_at'') (dget d ''valid_from'') (dget d ''valid_until'') sc a p
                   (dget d ''max_intrusiveness'') (dget d ''max_actions'') dh
                   (dget d ''deviation_requires_approval'') (dget d ''notes'')))
             | _ \<Rightarrow> Inl (ValueError ''prohibited_techniques must be a list''))
        | _ \<Rightarrow> Inl (ValueError ''allowed_techniques must be a list''))"

section \<open>Engagement definitions\<close>

record engagement_definition =
  ed_id :: string
  ed_version :: int
  ed_name :: string
  ed_created :: string
  ed_status :: string
  ed_owner :: string
  ed_contacts :: "contact list"
  ed_roe :: roe
  ed_description :: "string option"

definition definition_init ::
  "pyval \<Rightarrow> pyval \<Rightarrow> pyval \<Rightarrow> pyval \<Rightarrow> pyval \<Rightarrow> pyval \<Rightarrow> pyval \<Rightarrow> contact list \<Rightarrow> roe \<Rightarrow> pyval
   \<Rightarrow> engagement_definition res" where
  "definition_init schema gid version name created status owner contacts r description =
     req (py_eq_int schema 1) (ValueError ''unsupported engagement definition schema version'')
    (bindE (ident_text ValueError gid ''engagement_id'') (\<lambda>g.
     bindE (positive_int ''version must be a positive integer'' version) (\<lambda>n.
     bindE (required_text ValueError name ''name'') (\<lambda>nm.
     bindE (iso8601 ValueError created ''created_at'') (\<lambda>c.
     bindE (member_value [''planned'', ''active'', ''paused'', ''completed'', ''archived'']
              (ValueError ''unsupported engagement status'') status) (\<lambda>st.
     bindE (ident_text ValueError owner ''owner_contact_id'') (\<lambda>ow.
     req (contacts \<noteq> []) (ValueError ''contacts must be a nonempty tuple'')
    (let cs = sort_key ct_id contacts; ids = map ct_id cs
     in req (distinct ids) (ValueError ''contact_id values must be unique'')
    (req (ow \<in> set ids) (ValueError ''owner_contact_id must identify an engagement contact'')
    (req (ro_engagement r = g) (ValueError ''ROE must belong to the engagement'')
    (bindE (optional_field description ''description'') (\<lambda>ds.
     Inr \<lparr>ed_id = g, ed_version = n, ed_name = nm, ed_created = c, ed_status = st, ed_owner = ow,
          ed_contacts = cs, ed_roe = r, ed_description = ds\<rparr>))))))))))))"

definition definition_make :: "engagement_definition \<Rightarrow> engagement_definition res" where
  "definition_make e =
     definition_init (PInt 1) (PStr (ed_id e)) (PInt (ed_version e)) (PStr (ed_name e)) (PStr (ed_created e))
       (PStr (ed_status e)) (PStr (ed_owner e)) (ed_contacts e) (ed_roe e) (opt_pstr (ed_description e))"

definition definition_to_dict :: "engagement_definition \<Rightarrow> pyval" where
  "definition_to_dict e = PDict
     [(''schema_version'', PInt 1), (''engagement_id'', PStr (ed_id e)), (''version'', PInt (ed_version e)),
      (''name'', PStr (ed_name e)), (''created_at'', PStr (ed_created e)), (''status'', PStr (ed_status e)),
      (''owner_contact_id'', PStr (ed_owner e)), (''contacts'', PList (map contact_to_dict (ed_contacts e))),
      (''roe'', roe_to_dict (ed_roe e)), (''description'', opt_pstr (ed_description e))]"

definition definition_fingerprint :: "(string \<Rightarrow> string) \<Rightarrow> engagement_definition \<Rightarrow> string" where
  "definition_fingerprint h e = fingerprint h (definition_to_dict e)"

definition definition_keys :: "string list" where
  "definition_keys =
     [''schema_version'', ''engagement_id'', ''version'', ''name'', ''created_at'', ''status'',
      ''owner_contact_id'', ''contacts'', ''roe'', ''description'']"

definition definition_from_dict :: "pyval \<Rightarrow> engagement_definition res" where
  "definition_from_dict v =
     req (is_dict_with definition_keys v) (ValueError ''engagement definition schema is not supported'')
       (let d = dict_items v in
        case dget d ''contacts'' of
          PList cs \<Rightarrow>
            bindE (mapE contact_from_dict cs) (\<lambda>contacts.
            bindE (roe_from_dict (dget d ''roe'')) (\<lambda>r.
            definition_init (dget d ''schema_version'') (dget d ''engagement_id'') (dget d ''version'')
              (dget d ''name'') (dget d ''created_at'') (dget d ''status'') (dget d ''owner_contact_id'')
              contacts r (dget d ''description'')))
        | _ \<Rightarrow> Inl (ValueError ''contacts must be a list''))"

section \<open>Facts\<close>

lemma optional_field_Inr [res_simps]:
  "optional_field v f = Inr x \<longleftrightarrow> v = opt_pstr x \<and> (\<forall>s. x = Some s \<longrightarrow> trimmed s)"
  by (cases x) (auto simp: optional_field_def optional_def opt_pstr_def bindE_Inr required_text_Inr)

lemma listed_text_Inr [res_simps]: "listed_text pat f v = Inr s \<longleftrightarrow> v = PStr s \<and> trimmed s \<and> pat s"
  by (auto simp: listed_text_def bindE_Inr req_Inr required_text_Inr)

lemma positive_int_Inr [res_simps]: "positive_int msg v = Inr n \<longleftrightarrow> v = PInt n \<and> 1 \<le> n"
  by (auto simp: positive_int_def bindE_Inr req_Inr int_of_Inr)

lemma tuple_member_Inr [res_simps]: "tuple_member xs e v = Inr s \<longleftrightarrow> v = PStr s \<and> s \<in> set xs"
  by (auto simp: tuple_member_def req_Inr split: pyval.splits)

lemma unique_sorted_text_Inr [res_simps]:
  "unique_sorted_text f n pat vs = Inr ss \<longleftrightarrow>
     n \<le> length vs \<and> (\<exists>ts. vs = map PStr ts \<and> ss = sort ts \<and> distinct ts \<and> list_all (\<lambda>s. trimmed s \<and> pat s) ts)"
proof -
  have m: "mapE (listed_text pat f) vs = Inr ts \<longleftrightarrow> vs = map PStr ts \<and> list_all (\<lambda>s. trimmed s \<and> pat s) ts" for ts
    by (rule mapE_PStr_iff) (simp add: listed_text_Inr)
  show ?thesis by (auto simp: unique_sorted_text_def req_Inr bindE_Inr m)
qed

lemma data_handling_init_Inr:
  "data_handling_init cls days export notes = Inr p \<longleftrightarrow>
     cls = PStr (dh_class p) \<and> days = PInt (dh_days p) \<and> export = PBool (dh_export p) \<and> notes = opt_pstr (dh_notes p)
     \<and> dh_class p \<in> set classifications \<and> 1 \<le> dh_days p \<and> dh_days p \<le> 3650
     \<and> (\<forall>s. dh_notes p = Some s \<longrightarrow> trimmed s)"
  by (cases p) (auto simp: data_handling_init_def bindE_Inr req_Inr member_value_Inr int_of_Inr bool_value_Inr
      optional_field_Inr)

definition data_handling_ok :: "data_handling \<Rightarrow> bool" where
  "data_handling_ok p \<longleftrightarrow> data_handling_make p = Inr p"

lemma data_handling_from_dict_ok: "data_handling_from_dict v = Inr p \<Longrightarrow> data_handling_ok p"
  by (auto simp: data_handling_from_dict_def req_Inr Let_def data_handling_ok_def data_handling_make_def
      data_handling_init_Inr)

lemma data_handling_to_dict_json: "json_ok (data_handling_to_dict p)"
  by (simp add: data_handling_to_dict_def)

interpretation data_handling_codec: record_codec data_handling_to_dict data_handling_from_dict data_handling_ok
proof
  show "data_handling_from_dict (norm (data_handling_to_dict p)) = Inr p" if "data_handling_ok p" for p
    using that
    by (simp add: data_handling_to_dict_def data_handling_from_dict_def is_dict_with_def dget_def data_handling_ok_def
        data_handling_make_def)
qed (rule data_handling_to_dict_json)

interpretation contact_codec: record_codec contact_to_dict contact_from_dict "\<lambda>c. contact_make c = Inr c"
  by unfold_locales
     (simp_all add: contact_to_dict_def contact_from_dict_def is_dict_with_def dget_def contact_make_def)

interpretation scope_definition_codec:
  record_codec scope_definition_to_dict scope_definition_from_dict "\<lambda>s. scope_definition_make s = Inr s"
  by unfold_locales
     (simp_all add: scope_definition_to_dict_def scope_definition_from_dict_def is_dict_with_def dget_def
       scope_definition_make_def)

definition roe_ok :: "roe \<Rightarrow> bool" where
  "roe_ok r \<longleftrightarrow> roe_make r = Inr r \<and> scope_definition_make (ro_scope r) = Inr (ro_scope r)
     \<and> data_handling_ok (ro_handling r)"

lemma roe_from_to_dict:
  assumes "roe_ok r"
  shows "roe_from_dict (norm (roe_to_dict r)) = Inr r"
proof -
  obtain sd dd where d: "norm (scope_definition_to_dict (ro_scope r)) = PDict sd"
    "norm (data_handling_to_dict (ro_handling r)) = PDict dd"
    by (simp add: scope_definition_to_dict_def data_handling_to_dict_def)
  have "scope_definition_from_dict (PDict sd) = Inr (ro_scope r)" "data_handling_from_dict (PDict dd) = Inr (ro_handling r)"
    using scope_definition_codec.dec_enc [of "ro_scope r"] data_handling_codec.dec_enc [of "ro_handling r"] assms d
    by (simp_all add: roe_ok_def)
  then show ?thesis
    using assms
    by (simp add: roe_to_dict_def roe_from_dict_def is_dict_with_def roe_keys_def dget_def Let_def d roe_ok_def roe_make_def)
qed

lemma roe_to_dict_json: "json_ok (roe_to_dict r)"
  by (simp add: roe_to_dict_def scope_definition_to_dict_def data_handling_to_dict_def)

interpretation roe_codec: record_codec roe_to_dict roe_from_dict roe_ok
  by unfold_locales (simp_all add: roe_from_to_dict roe_to_dict_json)

definition definition_ok :: "engagement_definition \<Rightarrow> bool" where
  "definition_ok e \<longleftrightarrow> definition_make e = Inr e \<and> list_all (\<lambda>c. contact_make c = Inr c) (ed_contacts e)
     \<and> roe_ok (ed_roe e)"

lemma definition_from_to_dict:
  assumes "definition_ok e"
  shows "definition_from_dict (norm (definition_to_dict e)) = Inr e"
proof -
  obtain rd where rd: "norm (roe_to_dict (ed_roe e)) = PDict rd" by (simp add: roe_to_dict_def)
  have "roe_from_dict (PDict rd) = Inr (ed_roe e)"
    using roe_from_to_dict [of "ed_roe e"] assms rd by (simp add: definition_ok_def)
  moreover have "mapE contact_from_dict (map (norm \<circ> contact_to_dict) (ed_contacts e)) = Inr (ed_contacts e)"
    using contact_codec.dec_list [of "ed_contacts e"] assms by (simp add: definition_ok_def comp_def)
  ultimately show ?thesis
    using assms
    by (simp add: definition_to_dict_def definition_from_dict_def is_dict_with_def definition_keys_def dget_def
        Let_def rd definition_ok_def definition_make_def)
qed

lemma definition_to_dict_json: "definition_ok e \<Longrightarrow> json_ok (definition_to_dict e)"
  using contact_codec.printable_list [of "ed_contacts e"] roe_to_dict_json [of "ed_roe e"]
  by (simp add: definition_to_dict_def definition_ok_def)

interpretation definition_codec: record_codec definition_to_dict definition_from_dict definition_ok
  by unfold_locales (simp_all add: definition_from_to_dict definition_to_dict_json)

end
