(* ===== verification/Custody.thy ===== *)
theory Custody
  imports EngagementDomain Contracts
begin

text \<open>
  \<^verbatim>\<open>nightrecon_white_engine/evidence_custody.py\<close>, the values: evidence records under custody,
  custody events, manifest entries and manifests.  The hash is the parameter \<open>h\<close>, as for
  approvals.
\<close>

section \<open>Validators\<close>

abbreviation ECE :: "string \<Rightarrow> pyexc" where
  "ECE \<equiv> EvidenceCustodyError"

definition class_rank :: "string \<Rightarrow> nat" where
  "class_rank c = length (takeWhile (\<lambda>x. x \<noteq> c) classifications)"

definition custody_events :: "string list" where
  "custody_events = [''ingested'', ''derived'', ''transferred'', ''exported'']"

text \<open>\<^verbatim>\<open>except ValueError as exc: raise EvidenceCustodyError(str(exc))\<close>\<close>

definition as_custody :: "'a res \<Rightarrow> 'a res" where
  "as_custody r = (case r of Inl (ValueError m) \<Rightarrow> Inl (ECE m) | _ \<Rightarrow> r)"

text \<open>\<^verbatim>\<open>_sorted_unique_ids\<close>\<close>

definition sorted_unique_ids :: "string \<Rightarrow> pyval list \<Rightarrow> string list res" where
  "sorted_unique_ids field vs =
     bindE (py_unique vs) (\<lambda>u.
     req u (ECE (field @ '' must not contain duplicates''))
    (bindE (mapE (\<lambda>v. ident_text ECE v field) vs) (\<lambda>ss. Inr (sort ss))))"

definition handling_fingerprint :: "(string \<Rightarrow> string) \<Rightarrow> data_handling \<Rightarrow> string" where
  "handling_fingerprint h p = fingerprint h (data_handling_to_dict p)"

text \<open>\<^verbatim>\<open>sha256(record.to_json())\<close>: the record's own text escapes non-ASCII characters.\<close>

definition record_fingerprint :: "(string \<Rightarrow> string) \<Rightarrow> evidence \<Rightarrow> string" where
  "record_fingerprint h r = h (dumps True (evidence_to_dict r))"

section \<open>Evidence under custody\<close>

record custodied =
  cu_record :: evidence
  cu_class :: string
  cu_from :: string
  cu_until :: string
  cu_export :: bool
  cu_parents :: "string list"
  cu_fp :: string

definition cu_id :: "custodied \<Rightarrow> string" where
  "cu_id c = er_id (cu_record c)"

text \<open>\<^verbatim>\<open>if self.record_fingerprint: ...\<close>: any false value is replaced by the computed one.\<close>

definition given_fingerprint :: "string \<Rightarrow> pyval \<Rightarrow> string res" where
  "given_fingerprint expected v =
     (if py_true v then
        bindE (sha256_text ECE v ''record_fingerprint'') (\<lambda>s.
        req (s = expected) (ECE ''evidence record fingerprint verification failed'') (Inr s))
      else Inr expected)"

definition custodied_init ::
  "(string \<Rightarrow> string) \<Rightarrow> pyval \<Rightarrow> evidence \<Rightarrow> pyval \<Rightarrow> pyval \<Rightarrow> pyval \<Rightarrow> pyval \<Rightarrow> pyval list \<Rightarrow> pyval
   \<Rightarrow> custodied res" where
  "custodied_init h schema r cls from until export parents fp =
     req (py_eq_int schema 1) (ECE ''unsupported custodied evidence schema'')
    (bindE (member_value classifications (ECE ''unsupported evidence classification'') cls) (\<lambda>c.
     bindE (iso8601 ECE from ''retained_from'') (\<lambda>f.
     bindE (iso8601 ECE until ''retain_until'') (\<lambda>u.
     req (time_of f < time_of u) (ECE ''retain_until must be later than retained_from'')
    (bindE (bool_value (ECE ''export_allowed must be boolean'') export) (\<lambda>x.
     bindE (sorted_unique_ids ''parent_evidence_ids'' parents) (\<lambda>ps.
     req (er_id r \<notin> set ps) (ECE ''evidence cannot derive from itself'')
    (bindE (given_fingerprint (record_fingerprint h r) fp) (\<lambda>s.
     Inr \<lparr>cu_record = r, cu_class = c, cu_from = f, cu_until = u, cu_export = x, cu_parents = ps,
          cu_fp = s\<rparr>)))))))))"

definition custodied_make :: "(string \<Rightarrow> string) \<Rightarrow> custodied \<Rightarrow> custodied res" where
  "custodied_make h c =
     custodied_init h (PInt 1) (cu_record c) (PStr (cu_class c)) (PStr (cu_from c)) (PStr (cu_until c))
       (PBool (cu_export c)) (map PStr (cu_parents c)) (PStr (cu_fp c))"

definition custodied_fields :: "custodied \<Rightarrow> (string \<times> pyval) list" where
  "custodied_fields c =
     [(''schema_version'', PInt 1), (''record'', evidence_to_dict (cu_record c)),
      (''classification'', PStr (cu_class c)), (''retained_from'', PStr (cu_from c)),
      (''retain_until'', PStr (cu_until c)), (''export_allowed'', PBool (cu_export c)),
      (''parent_evidence_ids'', PList (map PStr (cu_parents c))), (''record_fingerprint'', PStr (cu_fp c))]"

definition custodied_fingerprint :: "(string \<Rightarrow> string) \<Rightarrow> custodied \<Rightarrow> string" where
  "custodied_fingerprint h c = fingerprint h (PDict (custodied_fields c))"

definition retention_status :: "string \<Rightarrow> custodied \<Rightarrow> string res" where
  "retention_status at c =
     bindE (iso8601 ECE (PStr at) ''at'') (\<lambda>t.
     Inr (if time_of (cu_until c) \<le> time_of t then ''expired'' else ''retained''))"

definition custodied_to_dict :: "(string \<Rightarrow> string) \<Rightarrow> custodied \<Rightarrow> pyval" where
  "custodied_to_dict h c =
     PDict (custodied_fields c @ [(''custodied_evidence_fingerprint'', PStr (custodied_fingerprint h c))])"

definition custodied_keys :: "string list" where
  "custodied_keys =
     [''schema_version'', ''record'', ''classification'', ''retained_from'', ''retain_until'', ''export_allowed'',
      ''parent_evidence_ids'', ''record_fingerprint'', ''custodied_evidence_fingerprint'']"

definition custodied_from_dict :: "(string \<Rightarrow> string) \<Rightarrow> pyval \<Rightarrow> custodied res" where
  "custodied_from_dict h v =
     req (is_dict_with custodied_keys v) (ECE ''custodied evidence schema is not supported'')
       (let d = dict_items v in
        case dget d ''record'' of
          PDict rd \<Rightarrow>
            (case dget d ''parent_evidence_ids'' of
               PList ps \<Rightarrow>
                 bindE (as_custody (evidence_from_dict (PDict rd))) (\<lambda>r.
                 bindE (custodied_init h (dget d ''schema_version'') r (dget d ''classification'')
                          (dget d ''retained_from'') (dget d ''retain_until'') (dget d ''export_allowed'') ps
                          (dget d ''record_fingerprint'')) (\<lambda>c.
                 req (dget d ''custodied_evidence_fingerprint'' = PStr (custodied_fingerprint h c))
                   (ECE ''custodied evidence fingerprint verification failed'') (Inr c)))
             | _ \<Rightarrow> Inl (ECE ''parent_evidence_ids must be a list''))
        | _ \<Rightarrow> Inl (ECE ''record must be an object''))"

section \<open>Custody events\<close>

record custody_event =
  ce_id :: string
  ce_case :: string
  ce_engagement :: string
  ce_seq :: int
  ce_type :: string
  ce_at :: string
  ce_actor :: string
  ce_reason :: string
  ce_evidence :: "string option"
  ce_details :: "(string \<times> string) list"
  ce_prev :: "string option"

definition custody_detail_ok :: "string \<times> string \<Rightarrow> unit res" where
  "custody_detail_ok kv =
     (case kv of (k, v) \<Rightarrow>
        bindE (required_text ECE (PStr k) ''custody detail key'') (\<lambda>_.
        bindE (required_text ECE (PStr v) ''custody detail value'') (\<lambda>_.
        req (\<not> secret_like k) (ECE (''secret-like custody field is not allowed: $.'' @ k)) (Inr ()))))"

definition custody_details :: "(string \<times> string) list \<Rightarrow> (string \<times> string) list res" where
  "custody_details ds =
     req (distinct (map fst (sort ds))) (ECE ''custody detail keys must be unique'')
       (bindE (checkE custody_detail_ok (sort ds)) (\<lambda>_. Inr (sort ds)))"

definition custody_event_init ::
  "pyval \<Rightarrow> pyval \<Rightarrow> pyval \<Rightarrow> pyval \<Rightarrow> pyval \<Rightarrow> pyval \<Rightarrow> pyval \<Rightarrow> pyval \<Rightarrow> pyval \<Rightarrow> pyval
   \<Rightarrow> (string \<times> string) list \<Rightarrow> pyval \<Rightarrow> custody_event res" where
  "custody_event_init schema vid cid gid sq typ at actor reason evid details prev =
     req (py_eq_int schema 1) (ECE ''unsupported custody event schema'')
    (bindE (ident_text ECE vid ''event_id'') (\<lambda>vid'.
     bindE (ident_text ECE cid ''case_id'') (\<lambda>cid'.
     bindE (ident_text ECE gid ''engagement_id'') (\<lambda>gid'.
     bindE (int_of (ECE ''custody event sequence must be nonnegative'') sq) (\<lambda>n.
     req (0 \<le> n) (ECE ''custody event sequence must be nonnegative'')
    (bindE (member_value custody_events (ECE ''unsupported custody event type'') typ) (\<lambda>typ'.
     bindE (iso8601 ECE at ''occurred_at'') (\<lambda>at'.
     bindE (ident_text ECE actor ''actor_id'') (\<lambda>actor'.
     bindE (required_text ECE reason ''reason'') (\<lambda>reason'.
     bindE (optional (\<lambda>v. ident_text ECE v ''evidence_id'') evid) (\<lambda>evid'.
     bindE (optional (\<lambda>v. sha256_text ECE v ''previous_event_fingerprint'') prev) (\<lambda>prev'.
     bindE (custody_details details) (\<lambda>details'.
     Inr \<lparr>ce_id = vid', ce_case = cid', ce_engagement = gid', ce_seq = n, ce_type = typ', ce_at = at',
          ce_actor = actor', ce_reason = reason', ce_evidence = evid', ce_details = details',
          ce_prev = prev'\<rparr>)))))))))))))"

definition custody_event_make :: "custody_event \<Rightarrow> custody_event res" where
  "custody_event_make e =
     custody_event_init (PInt 1) (PStr (ce_id e)) (PStr (ce_case e)) (PStr (ce_engagement e)) (PInt (ce_seq e))
       (PStr (ce_type e)) (PStr (ce_at e)) (PStr (ce_actor e)) (PStr (ce_reason e)) (opt_pstr (ce_evidence e))
       (ce_details e) (opt_pstr (ce_prev e))"

definition ce_detail :: "custody_event \<Rightarrow> string \<Rightarrow> string option" where
  "ce_detail e k = map_of (ce_details e) k"

definition custody_event_fields :: "custody_event \<Rightarrow> (string \<times> pyval) list" where
  "custody_event_fields e =
     [(''schema_version'', PInt 1), (''event_id'', PStr (ce_id e)), (''case_id'', PStr (ce_case e)),
      (''engagement_id'', PStr (ce_engagement e)), (''sequence'', PInt (ce_seq e)),
      (''event_type'', PStr (ce_type e)), (''occurred_at'', PStr (ce_at e)), (''actor_id'', PStr (ce_actor e)),
      (''reason'', PStr (ce_reason e)), (''evidence_id'', opt_pstr (ce_evidence e)),
      (''details'', PList (map (\<lambda>(k, v). PList [PStr k, PStr v]) (ce_details e))),
      (''previous_event_fingerprint'', opt_pstr (ce_prev e))]"

definition custody_event_fp :: "(string \<Rightarrow> string) \<Rightarrow> custody_event \<Rightarrow> string" where
  "custody_event_fp h e = fingerprint h (PDict (custody_event_fields e))"

definition custody_event_to_dict :: "(string \<Rightarrow> string) \<Rightarrow> custody_event \<Rightarrow> pyval" where
  "custody_event_to_dict h e =
     PDict (custody_event_fields e @ [(''fingerprint'', PStr (custody_event_fp h e))])"

definition custody_event_keys :: "string list" where
  "custody_event_keys =
     [''schema_version'', ''event_id'', ''case_id'', ''engagement_id'', ''sequence'', ''event_type'',
      ''occurred_at'', ''actor_id'', ''reason'', ''evidence_id'', ''details'', ''previous_event_fingerprint'',
      ''fingerprint'']"

fun custody_pair :: "pyval \<Rightarrow> (string \<times> string) res" where
  "custody_pair (PList [PStr a, PStr b]) = Inr (a, b)"
| "custody_pair _ = Inl (ECE ''custody detail is invalid'')"

definition custody_event_from_dict :: "(string \<Rightarrow> string) \<Rightarrow> pyval \<Rightarrow> custody_event res" where
  "custody_event_from_dict h v =
     req (is_dict_with custody_event_keys v) (ECE ''custody event schema is not supported'')
       (let d = dict_items v in
        case dget d ''details'' of
          PList items \<Rightarrow>
            bindE (mapE custody_pair items) (\<lambda>details.
            bindE (custody_event_init (dget d ''schema_version'') (dget d ''event_id'') (dget d ''case_id'')
                     (dget d ''engagement_id'') (dget d ''sequence'') (dget d ''event_type'') (dget d ''occurred_at'')
                     (dget d ''actor_id'') (dget d ''reason'') (dget d ''evidence_id'') details
                     (dget d ''previous_event_fingerprint'')) (\<lambda>e.
            req (dget d ''fingerprint'' = PStr (custody_event_fp h e))
                (ECE ''custody event fingerprint verification failed'') (Inr e)))
        | _ \<Rightarrow> Inl (ECE ''custody details must be a list''))"

section \<open>Manifests\<close>

record manifest_entry =
  me_id :: string
  me_night :: string
  me_type :: string
  me_observed :: string
  me_class :: string
  me_until :: string
  me_record :: string
  me_custodied :: string
  me_parents :: "string list"

definition manifest_entry_init ::
  "pyval \<Rightarrow> pyval \<Rightarrow> pyval \<Rightarrow> pyval \<Rightarrow> pyval \<Rightarrow> pyval \<Rightarrow> pyval \<Rightarrow> pyval \<Rightarrow> pyval list \<Rightarrow> manifest_entry res" where
  "manifest_entry_init vid night typ observed cls until rfp cfp parents =
     bindE (ident_text ECE vid ''evidence_id'') (\<lambda>i.
     bindE (required_text ECE night ''source_night'') (\<lambda>n.
     bindE (required_text ECE typ ''evidence_type'') (\<lambda>t.
     bindE (iso8601 ECE observed ''observed_at'') (\<lambda>ob.
     bindE (member_value classifications (ECE ''unsupported manifest classification'') cls) (\<lambda>c.
     bindE (iso8601 ECE until ''retain_until'') (\<lambda>u.
     bindE (sha256_text ECE rfp ''record_fingerprint'') (\<lambda>r.
     bindE (sha256_text ECE cfp ''custodied_evidence_fingerprint'') (\<lambda>f.
     bindE (sorted_unique_ids ''parent_evidence_ids'' parents) (\<lambda>ps.
     Inr \<lparr>me_id = i, me_night = n, me_type = t, me_observed = ob, me_class = c, me_until = u, me_record = r,
          me_custodied = f, me_parents = ps\<rparr>)))))))))"

definition manifest_entry_make :: "manifest_entry \<Rightarrow> manifest_entry res" where
  "manifest_entry_make m =
     manifest_entry_init (PStr (me_id m)) (PStr (me_night m)) (PStr (me_type m)) (PStr (me_observed m))
       (PStr (me_class m)) (PStr (me_until m)) (PStr (me_record m)) (PStr (me_custodied m)) (map PStr (me_parents m))"

definition manifest_entry_to_dict :: "manifest_entry \<Rightarrow> pyval" where
  "manifest_entry_to_dict m = PDict
     [(''evidence_id'', PStr (me_id m)), (''source_night'', PStr (me_night m)), (''evidence_type'', PStr (me_type m)),
      (''observed_at'', PStr (me_observed m)), (''classification'', PStr (me_class m)),
      (''retain_until'', PStr (me_until m)), (''record_fingerprint'', PStr (me_record m)),
      (''custodied_evidence_fingerprint'', PStr (me_custodied m)),
      (''parent_evidence_ids'', PList (map PStr (me_parents m)))]"

definition manifest_entry_keys :: "string list" where
  "manifest_entry_keys =
     [''evidence_id'', ''source_night'', ''evidence_type'', ''observed_at'', ''classification'', ''retain_until'',
      ''record_fingerprint'', ''custodied_evidence_fingerprint'', ''parent_evidence_ids'']"

definition manifest_entry_from_dict :: "pyval \<Rightarrow> manifest_entry res" where
  "manifest_entry_from_dict v =
     req (is_dict_with manifest_entry_keys v) (ECE ''manifest entry schema is not supported'')
       (let d = dict_items v in
        case dget d ''parent_evidence_ids'' of
          PList ps \<Rightarrow>
            manifest_entry_init (dget d ''evidence_id'') (dget d ''source_night'') (dget d ''evidence_type'')
              (dget d ''observed_at'') (dget d ''classification'') (dget d ''retain_until'')
              (dget d ''record_fingerprint'') (dget d ''custodied_evidence_fingerprint'') ps
        | _ \<Rightarrow> Inl (ECE ''manifest parent_evidence_ids must be a list''))"

record manifest =
  mf_case :: string
  mf_engagement :: string
  mf_at :: string
  mf_case_fp :: string
  mf_entries :: "manifest_entry list"

definition manifest_init ::
  "pyval \<Rightarrow> pyval \<Rightarrow> pyval \<Rightarrow> pyval \<Rightarrow> pyval \<Rightarrow> manifest_entry list \<Rightarrow> pyval \<Rightarrow> manifest res" where
  "manifest_init schema cid gid at cfp entries effect =
     req (py_eq_int schema 1) (ECE ''unsupported evidence manifest schema'')
    (bindE (ident_text ECE cid ''case_id'') (\<lambda>c.
     bindE (ident_text ECE gid ''engagement_id'') (\<lambda>g.
     bindE (iso8601 ECE at ''generated_at'') (\<lambda>t.
     bindE (sha256_text ECE cfp ''case_fingerprint'') (\<lambda>f.
     req (effect = PStr ''none'') (ECE ''evidence manifests must never grant authorization'')
    (let es = sort_key me_id entries
     in req (distinct (map me_id es)) (ECE ''manifest evidence IDs must be unique'')
       (Inr \<lparr>mf_case = c, mf_engagement = g, mf_at = t, mf_case_fp = f, mf_entries = es\<rparr>)))))))"

definition manifest_make :: "manifest \<Rightarrow> manifest res" where
  "manifest_make m =
     manifest_init (PInt 1) (PStr (mf_case m)) (PStr (mf_engagement m)) (PStr (mf_at m)) (PStr (mf_case_fp m))
       (mf_entries m) (PStr ''none'')"

definition manifest_fields :: "manifest \<Rightarrow> (string \<times> pyval) list" where
  "manifest_fields m =
     [(''schema_version'', PInt 1), (''case_id'', PStr (mf_case m)), (''engagement_id'', PStr (mf_engagement m)),
      (''generated_at'', PStr (mf_at m)), (''case_fingerprint'', PStr (mf_case_fp m)),
      (''entries'', PList (map manifest_entry_to_dict (mf_entries m))), (''authorization_effect'', PStr ''none'')]"

definition manifest_fp :: "(string \<Rightarrow> string) \<Rightarrow> manifest \<Rightarrow> string" where
  "manifest_fp h m = fingerprint h (PDict (manifest_fields m))"

definition manifest_to_dict :: "(string \<Rightarrow> string) \<Rightarrow> manifest \<Rightarrow> pyval" where
  "manifest_to_dict h m = PDict (manifest_fields m @ [(''manifest_fingerprint'', PStr (manifest_fp h m))])"

definition manifest_keys :: "string list" where
  "manifest_keys =
     [''schema_version'', ''case_id'', ''engagement_id'', ''generated_at'', ''case_fingerprint'', ''entries'',
      ''authorization_effect'', ''manifest_fingerprint'']"

definition manifest_from_dict :: "(string \<Rightarrow> string) \<Rightarrow> pyval \<Rightarrow> manifest res" where
  "manifest_from_dict h v =
     req (is_dict_with manifest_keys v) (ECE ''evidence manifest schema is not supported'')
       (let d = dict_items v in
        case dget d ''entries'' of
          PList items \<Rightarrow>
            bindE (mapE manifest_entry_from_dict items) (\<lambda>entries.
            bindE (manifest_init (dget d ''schema_version'') (dget d ''case_id'') (dget d ''engagement_id'')
                     (dget d ''generated_at'') (dget d ''case_fingerprint'') entries
                     (dget d ''authorization_effect'')) (\<lambda>m.
            req (dget d ''manifest_fingerprint'' = PStr (manifest_fp h m))
                (ECE ''evidence manifest fingerprint verification failed'') (Inr m)))
        | _ \<Rightarrow> Inl (ECE ''manifest entries must be a list''))"

end
