(* ===== verification/CustodyCase.thy ===== *)
theory CustodyCase
  imports Custody
begin

text \<open>
  \<^verbatim>\<open>nightrecon_white_engine/evidence_custody.py\<close>, the case and its export: the validation of
  the custody history, the operations that extend it, the manifest and the export bundle.
\<close>

section \<open>The history of a case\<close>

record custody_case =
  cc_id :: string
  cc_engagement :: string
  cc_handling :: data_handling
  cc_items :: "custodied list"
  cc_events :: "custody_event list"

text \<open>The loop of \<^verbatim>\<open>_validate_events\<close>: the origins seen, the custodian of each, the event before.\<close>

record custody_scan =
  cs_origins :: "string list"
  cs_custodians :: "(string \<times> string) list"
  cs_prev :: "custody_event option"

definition item_of :: "custodied list \<Rightarrow> string \<Rightarrow> custodied option" where
  "item_of items i = find (\<lambda>c. cu_id c = i) items"

text \<open>
  \<^verbatim>\<open>json.loads(encoded)\<close> compared with the sorted parents; \<^verbatim>\<open>sorted\<close> raises on values that do
  not compare.
\<close>

definition derived_parents :: "string list \<Rightarrow> string \<Rightarrow> unit res" where
  "derived_parents expected encoded =
     (case loads encoded of
        None \<Rightarrow> Inl (ECE ''derived parent evidence is invalid'')
      | Some (PList vs) \<Rightarrow>
          if \<not> py_sortable vs then Inl TypeError
          else req (list_all is_str vs \<and> sort (map str_of vs) = expected)
                 (ECE ''derived parent evidence does not match item'') (Inr ())
      | Some _ \<Rightarrow> Inl (ECE ''derived parent evidence does not match item''))"

definition origin_event :: "custodied list \<Rightarrow> custody_event \<Rightarrow> custody_scan \<Rightarrow> custody_scan res" where
  "origin_event items e s =
     (case ce_evidence e of
        None \<Rightarrow> Inl (ECE ''evidence origin event requires evidence_id'')
      | Some i \<Rightarrow>
          req (i \<notin> set (cs_origins s)) (ECE ''evidence has more than one origin event'')
         (case item_of items i of
            None \<Rightarrow> Inl (ECE ''custody event references unknown evidence'')
          | Some c \<Rightarrow>
              req (cu_from c = ce_at e) (ECE ''evidence retention start must match origin event'')
             (case ce_detail e ''custodian_id'' of
                None \<Rightarrow> Inl (ECE ''evidence origin event requires custodian_id'')
              | Some who \<Rightarrow>
                  bindE (ident_text ECE (PStr who) ''custodian_id'') (\<lambda>_.
                  bindE (if ce_type e = ''derived'' then
                           (case (cu_parents c, ce_detail e ''parent_evidence_ids'') of
                              (p # ps, Some enc) \<Rightarrow>
                                bindE (derived_parents (p # ps) enc) (\<lambda>_.
                                req (set (p # ps) \<subseteq> set (cs_origins s))
                                  (ECE ''derived evidence parents must already be in custody'') (Inr ()))
                            | _ \<Rightarrow> Inl (ECE ''derived evidence requires parent evidence''))
                         else req (cu_parents c = [] \<and> ce_detail e ''parent_evidence_ids'' = None)
                                (ECE ''ingested evidence cannot claim derivation parents'') (Inr ())) (\<lambda>_.
                  Inr (s\<lparr>cs_origins := i # cs_origins s,
                         cs_custodians := AList.update i who (cs_custodians s)\<rparr>))))))"

definition transfer_event :: "custody_event \<Rightarrow> custody_scan \<Rightarrow> custody_scan res" where
  "transfer_event e s =
     (case ce_evidence e of
        None \<Rightarrow> Inl (ECE ''transfer event requires evidence_id'')
      | Some i \<Rightarrow>
          (case map_of (cs_custodians s) i of
             None \<Rightarrow> Inl (ECE ''cannot transfer evidence before origin custody'')
           | Some holder \<Rightarrow>
               (case (ce_detail e ''from_custodian'', ce_detail e ''to_custodian'') of
                  (Some from, Some to) \<Rightarrow>
                    bindE (ident_text ECE (PStr from) ''from_custodian'') (\<lambda>_.
                    bindE (ident_text ECE (PStr to) ''to_custodian'') (\<lambda>_.
                    req (from \<noteq> to) (ECE ''custody transfer requires different custodians'')
                   (req (holder = from) (ECE ''custody transfer source does not hold evidence'')
                   (req (ce_actor e = from) (ECE ''custody transfer actor must be current custodian'')
                     (Inr (s\<lparr>cs_custodians := AList.update i to (cs_custodians s)\<rparr>))))))
                | _ \<Rightarrow> Inl (ECE ''transfer event requires from/to custodians''))))"

definition export_event :: "custody_event \<Rightarrow> custody_scan \<Rightarrow> custody_scan res" where
  "export_event e s =
     req (ce_evidence e = None) (ECE ''case export event must not target one evidence item'')
       (case ce_detail e ''destination'' of
          None \<Rightarrow> Inl (ECE ''export event requires destination label'')
        | Some d \<Rightarrow> bindE (required_text ECE (PStr d) ''destination'') (\<lambda>_. Inr s))"

definition custody_step :: "custodied list \<Rightarrow> custody_event \<Rightarrow> custody_scan \<Rightarrow> custody_scan res" where
  "custody_step items e s =
     (if ce_type e = ''ingested'' \<or> ce_type e = ''derived'' then origin_event items e s
      else if ce_type e = ''transferred'' then transfer_event e s
      else if ce_type e = ''exported'' then export_event e s
      else Inr s)"

fun scan_custody ::
  "(string \<Rightarrow> string) \<Rightarrow> string \<Rightarrow> string \<Rightarrow> custodied list \<Rightarrow> nat \<Rightarrow> custody_event list \<Rightarrow> custody_scan
   \<Rightarrow> custody_scan res" where
  "scan_custody h cid gid items i [] s = Inr s"
| "scan_custody h cid gid items i (e # es) s =
     req (ce_case e = cid) (ECE ''custody event belongs to another case'')
    (req (ce_engagement e = gid) (ECE ''custody event belongs to another engagement'')
    (req (ce_seq e = int i) (ECE ''custody event sequence is not contiguous'')
    (req (ce_prev e = map_option (custody_event_fp h) (cs_prev s)) (ECE ''custody event chain verification failed'')
    (req (case cs_prev s of None \<Rightarrow> True | Some p \<Rightarrow> time_of (ce_at p) \<le> time_of (ce_at e))
       (ECE ''custody events are not chronologically ordered'')
    (bindE (custody_step items e s) (\<lambda>s'.
       scan_custody h cid gid items (Suc i) es (s'\<lparr>cs_prev := Some e\<rparr>)))))))"

definition no_scan :: custody_scan where
  "no_scan = \<lparr>cs_origins = [], cs_custodians = [], cs_prev = None\<rparr>"

definition validate_custody ::
  "(string \<Rightarrow> string) \<Rightarrow> string \<Rightarrow> string \<Rightarrow> custodied list \<Rightarrow> custody_event list \<Rightarrow> unit res" where
  "validate_custody h cid gid items es =
     bindE (scan_custody h cid gid items 0 es no_scan) (\<lambda>s.
     req (set (cs_origins s) = set (map cu_id items))
       (ECE ''every custody item requires exactly one origin event'') (Inr ()))"

definition case_init ::
  "(string \<Rightarrow> string) \<Rightarrow> pyval \<Rightarrow> pyval \<Rightarrow> pyval \<Rightarrow> data_handling \<Rightarrow> custodied list \<Rightarrow> custody_event list
   \<Rightarrow> custody_case res" where
  "case_init h schema cid gid dh items events =
     req (py_eq_int schema 1) (ECE ''unsupported evidence custody case schema'')
    (bindE (ident_text ECE cid ''case_id'') (\<lambda>c.
     bindE (ident_text ECE gid ''engagement_id'') (\<lambda>g.
     req (items \<noteq> []) (ECE ''custody case requires at least one evidence item'')
    (let its = sort_key cu_id items; ids = map cu_id its
     in req (distinct ids) (ECE ''custody evidence IDs must be unique'')
    (req (list_all (\<lambda>i. er_engagement (cu_record i) = g) its)
       (ECE ''all custody evidence must belong to the case engagement'')
    (req (list_all (\<lambda>i. class_rank (dh_class dh) \<le> class_rank (cu_class i)) its)
       (ECE ''evidence classification cannot be below engagement policy'')
    (req (list_all (\<lambda>i. set (cu_parents i) \<subseteq> set ids) its)
       (ECE ''derived evidence references unknown parents'')
    (req (events \<noteq> []) (ECE ''custody case requires at least one event'')
    (bindE (validate_custody h c g its events) (\<lambda>_.
     Inr \<lparr>cc_id = c, cc_engagement = g, cc_handling = dh, cc_items = its, cc_events = events\<rparr>))))))))))"

definition case_make :: "(string \<Rightarrow> string) \<Rightarrow> custody_case \<Rightarrow> custody_case res" where
  "case_make h c =
     case_init h (PInt 1) (PStr (cc_id c)) (PStr (cc_engagement c)) (cc_handling c) (cc_items c) (cc_events c)"

definition find_item :: "custody_case \<Rightarrow> string \<Rightarrow> custodied res" where
  "find_item c i =
     (case item_of (cc_items c) i of
        None \<Rightarrow> Inl (ECE (''evidence not found in custody case: '' @ i))
      | Some x \<Rightarrow> Inr x)"

definition case_fp :: "(string \<Rightarrow> string) \<Rightarrow> custody_case \<Rightarrow> string" where
  "case_fp h c = fingerprint h (PDict
     [(''schema_version'', PInt 1), (''case_id'', PStr (cc_id c)), (''engagement_id'', PStr (cc_engagement c)),
      (''data_handling'', data_handling_to_dict (cc_handling c)),
      (''data_handling_fingerprint'', PStr (handling_fingerprint h (cc_handling c))),
      (''item_fingerprints'', PList (map (\<lambda>i. PStr (custodied_fingerprint h i)) (cc_items c))),
      (''event_fingerprints'', PList (map (\<lambda>e. PStr (custody_event_fp h e)) (cc_events c))),
      (''authorization_effect'', PStr ''none'')])"

text \<open>\<^verbatim>\<open>verify_integrity\<close> of a case and of a bundle: the truth of the fingerprint computed from it.\<close>

definition fp_true :: "string \<Rightarrow> bool" where
  "fp_true s = (s \<noteq> [])"

definition case_to_dict :: "(string \<Rightarrow> string) \<Rightarrow> custody_case \<Rightarrow> pyval" where
  "case_to_dict h c = PDict
     [(''schema_version'', PInt 1), (''case_id'', PStr (cc_id c)), (''engagement_id'', PStr (cc_engagement c)),
      (''data_handling'', data_handling_to_dict (cc_handling c)),
      (''data_handling_fingerprint'', PStr (handling_fingerprint h (cc_handling c))),
      (''items'', PList (map (custodied_to_dict h) (cc_items c))),
      (''events'', PList (map (custody_event_to_dict h) (cc_events c))),
      (''authorization_effect'', PStr ''none''), (''case_fingerprint'', PStr (case_fp h c))]"

definition case_to_json :: "(string \<Rightarrow> string) \<Rightarrow> custody_case \<Rightarrow> string" where
  "case_to_json h c = dumps False (case_to_dict h c)"

definition case_keys :: "string list" where
  "case_keys =
     [''schema_version'', ''case_id'', ''engagement_id'', ''data_handling'', ''data_handling_fingerprint'',
      ''items'', ''events'', ''authorization_effect'', ''case_fingerprint'']"

definition case_from_dict :: "(string \<Rightarrow> string) \<Rightarrow> pyval \<Rightarrow> custody_case res" where
  "case_from_dict h v =
     req (is_dict_with case_keys v) (ECE ''evidence custody case schema is not supported'')
       (let d = dict_items v in
        req (dget d ''authorization_effect'' = PStr ''none'') (ECE ''evidence custody state must not grant authorization'')
       (case dget d ''data_handling'' of
          PDict hdl \<Rightarrow>
            (case dget d ''items'' of
               PList its \<Rightarrow>
                 (case dget d ''events'' of
                    PList evs \<Rightarrow>
                      bindE (as_custody (data_handling_from_dict (PDict hdl))) (\<lambda>dh.
                      req (dget d ''data_handling_fingerprint'' = PStr (handling_fingerprint h dh))
                        (ECE ''data handling fingerprint verification failed'')
                     (bindE (mapE (custodied_from_dict h) its) (\<lambda>items.
                      bindE (mapE (custody_event_from_dict h) evs) (\<lambda>events.
                      bindE (case_init h (dget d ''schema_version'') (dget d ''case_id'') (dget d ''engagement_id'')
                               dh items events) (\<lambda>c.
                      req (dget d ''case_fingerprint'' = PStr (case_fp h c))
                        (ECE ''evidence custody case fingerprint verification failed'') (Inr c))))))
                  | _ \<Rightarrow> Inl (ECE ''events must be a list''))
             | _ \<Rightarrow> Inl (ECE ''items must be a list''))
        | _ \<Rightarrow> Inl (ECE ''data_handling must be an object'')))"

definition case_from_json :: "(string \<Rightarrow> string) \<Rightarrow> string \<Rightarrow> custody_case res" where
  "case_from_json h s =
     (case loads s of
        None \<Rightarrow> Inl (ECE ''evidence custody case is not valid JSON'')
      | Some v \<Rightarrow> case_from_dict h v)"

section \<open>Operations\<close>

text \<open>\<^verbatim>\<open>(parse(s) + timedelta(days=n)).isoformat()\<close>\<close>

definition plus_days_text :: "string \<Rightarrow> int \<Rightarrow> string res" where
  "plus_days_text s n =
     (case iso_parse s of
        None \<Rightarrow> Inl (ValueError ''Invalid isoformat string'')
      | Some d \<Rightarrow>
          (if 0 \<le> dt_local d + n * day_us \<and> dt_local d + n * day_us < max_local
           then Inr (isoformat (d\<lparr>dt_local := dt_local d + n * day_us\<rparr>)) else Inl OverflowError))"

definition custodied_item ::
  "(string \<Rightarrow> string) \<Rightarrow> evidence \<Rightarrow> data_handling \<Rightarrow> string \<Rightarrow> string list \<Rightarrow> string option \<Rightarrow> custodied res" where
  "custodied_item h r dh from parents cls =
     bindE (iso8601 ECE (PStr from) ''retained_from'') (\<lambda>_.
     let c = (case cls of None \<Rightarrow> dh_class dh | Some x \<Rightarrow> x)
     in req (c \<in> set classifications) (ECE ''unsupported evidence classification'')
       (req (class_rank (dh_class dh) \<le> class_rank c)
          (ECE ''evidence classification cannot be below engagement policy'')
       (bindE (plus_days_text from (dh_days dh)) (\<lambda>until.
        custodied_init h (PInt 1) r (PStr c) (PStr from) (PStr until) (PBool (dh_export dh)) (map PStr parents)
          (PStr [])))))"

text \<open>What a caller says of a new event.\<close>

record custody_note =
  cn_event :: string
  cn_actor :: string
  cn_at :: string
  cn_reason :: string

definition new_event ::
  "(string \<Rightarrow> string) \<Rightarrow> string \<Rightarrow> string \<Rightarrow> nat \<Rightarrow> string \<Rightarrow> custody_note \<Rightarrow> string option
   \<Rightarrow> (string \<times> string) list \<Rightarrow> custody_event option \<Rightarrow> custody_event res" where
  "new_event h cid gid n typ x evid details prev =
     custody_event_init (PInt 1) (PStr (cn_event x)) (PStr cid) (PStr gid) (PInt (int n)) (PStr typ) (PStr (cn_at x))
       (PStr (cn_actor x)) (PStr (cn_reason x)) (opt_pstr evid) details
       (opt_pstr (map_option (custody_event_fp h) prev))"

definition case_create ::
  "(string \<Rightarrow> string) \<Rightarrow> string \<Rightarrow> string \<Rightarrow> data_handling \<Rightarrow> evidence \<Rightarrow> string \<Rightarrow> string option \<Rightarrow> custody_note
   \<Rightarrow> custody_case res" where
  "case_create h cid gid dh r custodian cls x =
     req (er_engagement r = gid) (ECE ''evidence engagement does not match custody case'')
    (bindE (custodied_item h r dh (cn_at x) [] cls) (\<lambda>item.
     bindE (new_event h cid gid 0 ''ingested'' x (Some (er_id r)) [(''custodian_id'', custodian)] None) (\<lambda>e.
     case_init h (PInt 1) (PStr cid) (PStr gid) dh [item] [e])))"

definition append_custody ::
  "(string \<Rightarrow> string) \<Rightarrow> custody_case \<Rightarrow> string \<Rightarrow> custody_note \<Rightarrow> string option \<Rightarrow> (string \<times> string) list
   \<Rightarrow> custodied list \<Rightarrow> custody_case res" where
  "append_custody h c typ x evid details items =
     bindE (new_event h (cc_id c) (cc_engagement c) (length (cc_events c)) typ x evid details
              (Some (last (cc_events c)))) (\<lambda>e.
     case_init h (PInt 1) (PStr (cc_id c)) (PStr (cc_engagement c)) (cc_handling c) items (cc_events c @ [e]))"

definition add_record ::
  "(string \<Rightarrow> string) \<Rightarrow> custody_case \<Rightarrow> evidence \<Rightarrow> string \<Rightarrow> string list \<Rightarrow> string option \<Rightarrow> custody_note
   \<Rightarrow> custody_case res" where
  "add_record h c r custodian parents cls x =
     req (er_engagement r = cc_engagement c) (ECE ''evidence engagement does not match custody case'')
    (req (er_id r \<notin> set (map cu_id (cc_items c))) (ECE ''evidence_id already exists in custody case'')
    (bindE (sorted_unique_ids ''parent_evidence_ids'' (map PStr parents)) (\<lambda>ps.
     req (set ps \<subseteq> set (map cu_id (cc_items c))) (ECE ''derived evidence references unknown parents'')
    (bindE (custodied_item h r (cc_handling c) (cn_at x) ps cls) (\<lambda>item.
     append_custody h c (if ps = [] then ''ingested'' else ''derived'') x (Some (er_id r))
       (if ps = [] then [(''custodian_id'', custodian)]
        else [(''custodian_id'', custodian), (''parent_evidence_ids'', dumps True (PList (map PStr ps)))])
       (cc_items c @ [item]))))))"

text \<open>The loop of \<^verbatim>\<open>current_custodian\<close>: events after the cutoff and of other evidence are skipped.\<close>

fun last_custodian :: "string \<Rightarrow> int option \<Rightarrow> custody_event list \<Rightarrow> string option \<Rightarrow> string option" where
  "last_custodian i cutoff [] who = who"
| "last_custodian i cutoff (e # es) who =
     last_custodian i cutoff es
       (if (case cutoff of None \<Rightarrow> False | Some t \<Rightarrow> t < time_of (ce_at e)) then who
        else if ce_evidence e \<noteq> Some i then who
        else if ce_type e = ''ingested'' \<or> ce_type e = ''derived'' then ce_detail e ''custodian_id''
        else if ce_type e = ''transferred'' then ce_detail e ''to_custodian''
        else who)"

definition current_custodian :: "custody_case \<Rightarrow> string \<Rightarrow> string option \<Rightarrow> string res" where
  "current_custodian c i at =
     bindE (find_item c i) (\<lambda>_.
     bindE (case at of None \<Rightarrow> Inr None
              | Some t \<Rightarrow> bindE (iso8601 ECE (PStr t) ''at'') (\<lambda>t'. Inr (Some (time_of t')))) (\<lambda>cutoff.
     case last_custodian i cutoff (cc_events c) None of
       None \<Rightarrow> Inl (ECE ''custodian state is unavailable'')
     | Some who \<Rightarrow> Inr who))"

definition transfer_custody :: "(string \<Rightarrow> string) \<Rightarrow> custody_case \<Rightarrow> string \<Rightarrow> string \<Rightarrow> custody_note \<Rightarrow> custody_case res" where
  "transfer_custody h c i to x =
     bindE (current_custodian c i (Some (cn_at x))) (\<lambda>current.
     req (cn_actor x = current) (ECE ''custody transfer actor must be current custodian'')
    (bindE (ident_text ECE (PStr to) ''to_custodian'') (\<lambda>_.
     req (to \<noteq> current) (ECE ''custody transfer requires different custodians'')
       (append_custody h c ''transferred'' x (Some i) [(''from_custodian'', current), (''to_custodian'', to)]
          (cc_items c)))))"

definition entry_of :: "(string \<Rightarrow> string) \<Rightarrow> custodied \<Rightarrow> manifest_entry res" where
  "entry_of h i =
     manifest_entry_init (PStr (cu_id i)) (PStr (er_night (cu_record i))) (PStr (er_type (cu_record i)))
       (PStr (er_observed (cu_record i))) (PStr (cu_class i)) (PStr (cu_until i)) (PStr (cu_fp i))
       (PStr (custodied_fingerprint h i)) (map PStr (cu_parents i))"

definition case_manifest :: "(string \<Rightarrow> string) \<Rightarrow> custody_case \<Rightarrow> string \<Rightarrow> manifest res" where
  "case_manifest h c at =
     bindE (iso8601 ECE (PStr at) ''generated_at'') (\<lambda>t.
     req (time_of (ce_at (last (cc_events c))) \<le> time_of t) (ECE ''manifest cannot predate the latest custody event'')
    (bindE (mapE (entry_of h) (cc_items c)) (\<lambda>es.
     manifest_init (PInt 1) (PStr (cc_id c)) (PStr (cc_engagement c)) (PStr t) (PStr (case_fp h c)) es (PStr ''none''))))"

definition join_commas :: "string list \<Rightarrow> string" where
  "join_commas xs = (case xs of [] \<Rightarrow> [] | y # ys \<Rightarrow> y @ concat (map (\<lambda>z. '','' @ z) ys))"

definition assert_exportable :: "custody_case \<Rightarrow> string \<Rightarrow> unit res" where
  "assert_exportable c at =
     bindE (iso8601 ECE (PStr at) ''at'') (\<lambda>_.
     req (dh_export (cc_handling c)) (ECE ''engagement data-handling policy forbids export'')
    (bindE (mapE (retention_status at) (cc_items c)) (\<lambda>sts.
     let expired = map (cu_id \<circ> fst) (filter (\<lambda>(i, st). st = ''expired'') (zip (cc_items c) sts))
     in req (expired = []) (ECE (''expired evidence cannot be exported: '' @ join_commas expired))
       (req (list_all cu_export (cc_items c)) (ECE ''custody item policy forbids export'') (Inr ())))))"

section \<open>Export bundles\<close>

record export_bundle =
  eb_case :: custody_case
  eb_manifest :: manifest
  eb_records :: "evidence list"

definition bundle_init ::
  "(string \<Rightarrow> string) \<Rightarrow> pyval \<Rightarrow> pyval \<Rightarrow> custody_case \<Rightarrow> manifest \<Rightarrow> evidence list \<Rightarrow> export_bundle res" where
  "bundle_init h schema effect c m records =
     req (py_eq_int schema 1) (ECE ''unsupported evidence export schema'')
    (req (effect = PStr ''none'') (ECE ''exported evidence must never grant authorization'')
    (req (mf_case m = cc_id c \<and> mf_engagement m = cc_engagement c \<and> mf_case_fp m = case_fp h c)
       (ECE ''manifest is not bound to custody case'')
    (let rs = sort_key er_id records
     in req (distinct (map er_id rs)) (ECE ''export record IDs must be unique'')
       (let expected = map (\<lambda>i. (cu_id i, cu_fp i)) (cc_items c);
            actual = map (\<lambda>r. (er_id r, record_fingerprint h r)) rs
        in req (set actual = set expected) (ECE ''export records do not match custody fingerprints'')
          (req (set (map me_id (mf_entries m)) = set (map fst expected))
             (ECE ''manifest records do not match custody case'')
             (Inr \<lparr>eb_case = c, eb_manifest = m, eb_records = rs\<rparr>))))))"

definition bundle_fields :: "(string \<Rightarrow> string) \<Rightarrow> export_bundle \<Rightarrow> (string \<times> pyval) list" where
  "bundle_fields h b =
     [(''schema_version'', PInt 1), (''authorization_effect'', PStr ''none''),
      (''case'', case_to_dict h (eb_case b)), (''manifest'', manifest_to_dict h (eb_manifest b)),
      (''records'', PList (map evidence_to_dict (eb_records b)))]"

definition bundle_fp :: "(string \<Rightarrow> string) \<Rightarrow> export_bundle \<Rightarrow> string" where
  "bundle_fp h b = fingerprint h (PDict (bundle_fields h b))"

definition bundle_to_dict :: "(string \<Rightarrow> string) \<Rightarrow> export_bundle \<Rightarrow> pyval" where
  "bundle_to_dict h b = PDict (bundle_fields h b @ [(''bundle_fingerprint'', PStr (bundle_fp h b))])"

definition bundle_to_json :: "(string \<Rightarrow> string) \<Rightarrow> export_bundle \<Rightarrow> string" where
  "bundle_to_json h b = dumps False (bundle_to_dict h b)"

definition bundle_keys :: "string list" where
  "bundle_keys =
     [''schema_version'', ''authorization_effect'', ''case'', ''manifest'', ''records'', ''bundle_fingerprint'']"

definition bundle_from_dict :: "(string \<Rightarrow> string) \<Rightarrow> pyval \<Rightarrow> export_bundle res" where
  "bundle_from_dict h v =
     req (is_dict_with bundle_keys v) (ECE ''evidence export bundle schema is not supported'')
       (let d = dict_items v in
        case dget d ''case'' of
          PDict cd \<Rightarrow>
            (case dget d ''manifest'' of
               PDict md \<Rightarrow>
                 (case dget d ''records'' of
                    PList rs \<Rightarrow>
                      bindE (as_custody (mapE evidence_from_dict rs)) (\<lambda>records.
                      bindE (case_from_dict h (PDict cd)) (\<lambda>c.
                      bindE (manifest_from_dict h (PDict md)) (\<lambda>m.
                      bindE (bundle_init h (dget d ''schema_version'') (dget d ''authorization_effect'') c m records) (\<lambda>b.
                      req (dget d ''bundle_fingerprint'' = PStr (bundle_fp h b))
                        (ECE ''evidence export bundle fingerprint verification failed'') (Inr b)))))
                  | _ \<Rightarrow> Inl (ECE ''export records must be a list''))
             | _ \<Rightarrow> Inl (ECE ''export manifest must be an object''))
        | _ \<Rightarrow> Inl (ECE ''export case must be an object''))"

definition bundle_from_json :: "(string \<Rightarrow> string) \<Rightarrow> string \<Rightarrow> export_bundle res" where
  "bundle_from_json h s =
     (case loads s of
        None \<Rightarrow> Inl (ECE ''evidence export bundle is not valid JSON'')
      | Some v \<Rightarrow> bundle_from_dict h v)"

definition export_case ::
  "(string \<Rightarrow> string) \<Rightarrow> custody_case \<Rightarrow> string \<Rightarrow> custody_note \<Rightarrow> (custody_case \<times> export_bundle) res" where
  "export_case h c destination x =
     bindE (assert_exportable c (cn_at x)) (\<lambda>_.
     bindE (required_text ECE (PStr destination) ''destination'') (\<lambda>_.
     bindE (append_custody h c ''exported'' x None [(''destination'', destination)] (cc_items c)) (\<lambda>c'.
     bindE (case_manifest h c' (cn_at x)) (\<lambda>m.
     bindE (bundle_init h (PInt 1) (PStr ''none'') c' m (map cu_record (cc_items c'))) (\<lambda>b. Inr (c', b))))))"

section \<open>Summary\<close>

definition custody_line :: "string \<Rightarrow> custodied \<Rightarrow> string res" where
  "custody_line at i =
     bindE (retention_status at i) (\<lambda>st.
     Inr (cu_id i @ '' | '' @ er_night (cu_record i) @ '' | '' @ er_type (cu_record i) @ '' | '' @ cu_class i
          @ '' | '' @ st @ '' | '' @ cu_fp i))"

definition render_custody_summary :: "(string \<Rightarrow> string) \<Rightarrow> custody_case \<Rightarrow> string \<Rightarrow> string res" where
  "render_custody_summary h c at =
     bindE (iso8601 ECE (PStr at) ''at'') (\<lambda>_.
     bindE (mapE (custody_line at) (cc_items c)) (\<lambda>ls.
     let lines = [''Custody case: '' @ cc_id c, ''Engagement: '' @ cc_engagement c,
                  ''Classification floor: '' @ dh_class (cc_handling c),
                  ''Retention days: '' @ str_int (dh_days (cc_handling c)),
                  ''Export allowed: '' @ (if dh_export (cc_handling c) then ''yes'' else ''no''),
                  ''Evidence items: '' @ str_nat (length (cc_items c)),
                  ''Custody events: '' @ str_nat (length (cc_events c)), ''Case fingerprint: '' @ case_fp h c,
                  ''Authorization effect: none''] @ ls
     in Inr (concat (map (\<lambda>l. l @ ''\<newline>'') (butlast lines)) @ last lines)))"

end
