(* ===== verification/CustodyFacts.thy ===== *)
theory CustodyFacts
  imports CustodyCase AuditFacts ApprovalSample
begin

text \<open>
  Facts on evidence custody: what the constructors accept, the JSON forms as interpretations
  of \<open>record_codec\<close>, and the custody history as an interpretation of \<open>hash_chain\<close>.

  \<open>hex_hash h\<close> states what SHA-256 in hexadecimal gives: 64 lower-case hexadecimal digits.
\<close>

section \<open>Hashes and identifiers\<close>

definition hex_hash :: "(string \<Rightarrow> string) \<Rightarrow> bool" where
  "hex_hash h \<longleftrightarrow> (\<forall>s. length (h s) = 64 \<and> list_all is_hex_lower (h s))"

lemma hex_not_space: "is_hex_lower c \<Longrightarrow> \<not> py_space c"
  by (auto simp: is_hex_lower_def is_digit_def py_space_def Let_def)

lemma unspaced_trimmed: "s \<noteq> [] \<Longrightarrow> list_all (\<lambda>c. \<not> py_space c) s \<Longrightarrow> trimmed s"
  by (simp add: trimmed_def strip_def lstrip_def list_all_iff)
     (metis dropWhile_eq_self_iff hd_in_set hd_rev last_in_set rev_is_Nil_conv rev_rev_ident)

lemma hex_text: "length s = 64 \<Longrightarrow> list_all is_hex_lower s \<Longrightarrow> sha256_text exc (PStr s) f = Inr s"
  using unspaced_trimmed [of s] hex_not_space by (fastforce simp: sha256_text_Inr list_all_iff)

lemma hex_hash_text: "hex_hash h \<Longrightarrow> sha256_text exc (PStr (h s)) f = Inr (h s)"
  by (simp add: hex_hash_def hex_text)

lemma hex_hash_nonempty: "hex_hash h \<Longrightarrow> h s \<noteq> []"
  unfolding hex_hash_def by (metis list.size(3) zero_neq_numeral)

lemma toy_hash_hex: "hex_hash toy_hash"
  using toy_hash_ok by (simp add: hex_hash_def)

lemma sorted_unique_ids_Inr [res_simps]:
  "sorted_unique_ids f vs = Inr ss \<longleftrightarrow>
     (\<exists>ts. vs = map PStr ts \<and> ss = sort ts \<and> distinct ts \<and> list_all (\<lambda>s. trimmed s \<and> id_pattern s) ts)"
proof -
  have m: "mapE (\<lambda>v. ident_text ECE v f) vs = Inr ts \<longleftrightarrow> vs = map PStr ts \<and> list_all (\<lambda>s. trimmed s \<and> id_pattern s) ts"
    for ts
    by (rule mapE_PStr_iff) (auto simp: ident_text_Inr)
  show ?thesis by (auto simp: sorted_unique_ids_def req_Inr bindE_Inr m)
qed

lemma as_custody_Inr [res_simps]: "as_custody r = Inr x \<longleftrightarrow> r = Inr x"
  by (auto simp: as_custody_def split: sum.splits pyexc.splits)

lemma evidence_from_dict_made: "evidence_from_dict v = Inr r \<Longrightarrow> evidence_make r = Inr r"
  by (auto simp: evidence_from_dict_def evidence_make_def evidence_init_def bindE_Inr req_Inr required_text_Inr
      member_value_Inr iso8601_text_def mapE_Inr_iff list_all2_conv_all_nth list_all_iff
      split: pyval.splits intro!: nth_equalityI)

section \<open>Evidence under custody\<close>

lemma given_fingerprint_Inr: "given_fingerprint x v = Inr s \<Longrightarrow> s = x"
  by (auto simp: given_fingerprint_def bindE_Inr req_Inr split: if_splits)

lemma custodied_init_Inr:
  "custodied_init h schema r cls from until export ps fp = Inr c \<longleftrightarrow>
     py_eq_int schema 1 \<and> r = cu_record c \<and> cls = PStr (cu_class c) \<and> from = PStr (cu_from c) \<and> until = PStr (cu_until c)
     \<and> export = PBool (cu_export c) \<and> sorted_unique_ids ''parent_evidence_ids'' ps = Inr (cu_parents c)
     \<and> given_fingerprint (record_fingerprint h r) fp = Inr (cu_fp c)
     \<and> cu_class c \<in> set classifications \<and> trimmed (cu_from c) \<and> is_timestamp (cu_from c)
     \<and> trimmed (cu_until c) \<and> is_timestamp (cu_until c) \<and> time_of (cu_from c) < time_of (cu_until c)
     \<and> er_id r \<notin> set (cu_parents c)"
  by (cases c)
     (auto simp: custodied_init_def bindE_Inr req_Inr member_value_Inr iso8601_Inr bool_value_Inr)

definition custodied_ok :: "(string \<Rightarrow> string) \<Rightarrow> custodied \<Rightarrow> bool" where
  "custodied_ok h c \<longleftrightarrow> custodied_make h c = Inr c \<and> evidence_ok (cu_record c)"

lemma custodied_made:
  assumes "hex_hash h" "custodied_init h schema r cls from until export ps fp = Inr c"
  shows "custodied_make h c = Inr c"
proof -
  have fp: "cu_fp c = record_fingerprint h r"
    using assms(2) given_fingerprint_Inr by (auto simp: custodied_init_Inr)
  have "given_fingerprint (record_fingerprint h r) (PStr (record_fingerprint h r)) = Inr (record_fingerprint h r)"
    by (simp add: given_fingerprint_def record_fingerprint_def hex_hash_text [OF assms(1)])
  moreover have "sorted_unique_ids ''parent_evidence_ids'' (map PStr (cu_parents c)) = Inr (cu_parents c)"
    using assms(2) by (auto simp: custodied_init_Inr sorted_unique_ids_Inr sorted_sort_id list_all_iff)
  ultimately show ?thesis
    using assms(2) fp by (auto simp: custodied_make_def custodied_init_Inr)
qed

lemma evidence_dict: "\<exists>d. norm (evidence_to_dict r) = PDict d"
  by (simp add: evidence_to_dict_def)

lemma custodied_to_dict_json: "evidence_ok (cu_record c) \<Longrightarrow> json_ok (custodied_to_dict h c)"
  "evidence_ok (cu_record c) \<Longrightarrow> json_ok (PDict (custodied_fields c))"
  using evidence_codec.printable [of "cu_record c"]
  by (simp_all add: custodied_to_dict_def custodied_fields_def)

lemma custodied_from_to_dict:
  assumes "custodied_ok h c"
  shows "custodied_from_dict h (norm (custodied_to_dict h c)) = Inr c"
proof -
  obtain rd where rd: "norm (evidence_to_dict (cu_record c)) = PDict rd" using evidence_dict by blast
  have "evidence_from_dict (PDict rd) = Inr (cu_record c)"
    using evidence_codec.dec_enc [of "cu_record c"] assms rd by (simp add: custodied_ok_def)
  then show ?thesis
    using assms
    by (simp add: custodied_to_dict_def custodied_fields_def custodied_from_dict_def is_dict_with_def custodied_keys_def
        dget_def Let_def rd as_custody_def custodied_ok_def custodied_make_def)
qed

interpretation custodied_codec: record_codec "custodied_to_dict h" "custodied_from_dict h" "custodied_ok h" for h
  by unfold_locales (simp_all add: custodied_from_to_dict custodied_to_dict_json custodied_ok_def)

section \<open>Custody events\<close>

lemma custody_details_Inr:
  "custody_details ds = Inr ds' \<longleftrightarrow> ds' = sort ds \<and> distinct (map fst (sort ds)) \<and>
     (\<forall>(k, v)\<in>set ds. trimmed k \<and> trimmed v \<and> \<not> secret_like k)"
  by (auto simp: custody_details_def custody_detail_ok_def req_Inr bindE_Inr checkE_Inr_iff required_text_Inr)

lemma custody_event_init_Inr:
  "custody_event_init schema vid cid gid sq typ at actor reason evid ds prev = Inr e \<longleftrightarrow>
     py_eq_int schema 1 \<and> vid = PStr (ce_id e) \<and> cid = PStr (ce_case e) \<and> gid = PStr (ce_engagement e) \<and>
     sq = PInt (ce_seq e) \<and> typ = PStr (ce_type e) \<and> at = PStr (ce_at e) \<and> actor = PStr (ce_actor e) \<and>
     reason = PStr (ce_reason e) \<and> evid = opt_pstr (ce_evidence e) \<and> prev = opt_pstr (ce_prev e) \<and>
     custody_details ds = Inr (ce_details e) \<and>
     trimmed (ce_id e) \<and> id_pattern (ce_id e) \<and> trimmed (ce_case e) \<and> id_pattern (ce_case e) \<and>
     trimmed (ce_engagement e) \<and> id_pattern (ce_engagement e) \<and> 0 \<le> ce_seq e \<and> ce_type e \<in> set custody_events \<and>
     trimmed (ce_at e) \<and> is_timestamp (ce_at e) \<and> trimmed (ce_actor e) \<and> id_pattern (ce_actor e) \<and>
     trimmed (ce_reason e) \<and> (\<forall>s. ce_evidence e = Some s \<longrightarrow> trimmed s \<and> id_pattern s) \<and>
     (\<forall>s. ce_prev e = Some s \<longrightarrow> trimmed s \<and> length s = 64 \<and> list_all is_hex_lower s)"
  (is "?L \<longleftrightarrow> ?R")
proof
  assume ?L
  then show ?R
    unfolding custody_event_init_def bindE_Inr req_Inr ident_text_Inr int_of_Inr member_value_Inr iso8601_Inr
      required_text_Inr optional_sha optional_ident
    by (elim conjE exE) (drule Inr_inject, hypsubst, simp)
next
  assume ?R
  then show ?L
    unfolding custody_event_init_def bindE_Inr req_Inr ident_text_Inr int_of_Inr member_value_Inr iso8601_Inr
      required_text_Inr optional_sha optional_ident
    by simp
qed

definition custody_event_ok :: "custody_event \<Rightarrow> bool" where
  "custody_event_ok e \<longleftrightarrow> custody_event_make e = Inr e"

lemma custody_event_made:
  "custody_event_init schema vid cid gid sq typ at actor reason evid ds prev = Inr e \<Longrightarrow> custody_event_ok e"
  unfolding custody_event_ok_def custody_event_make_def custody_event_init_Inr custody_details_Inr
  by (auto simp: sorted_sort_id)

lemma custody_pairs_back: "mapE custody_pair (map (\<lambda>(k, v). PList [PStr k, PStr v]) ds) = Inr ds"
  by (induction ds) auto

lemma custody_event_from_to_dict:
  "custody_event_ok e \<Longrightarrow> custody_event_from_dict h (norm (custody_event_to_dict h e)) = Inr e"
  by (simp add: custody_event_to_dict_def custody_event_fields_def custody_event_from_dict_def is_dict_with_def
      custody_event_keys_def dget_def custody_pairs_back custody_event_ok_def custody_event_make_def Let_def)

lemma custody_event_to_dict_json: "json_ok (custody_event_to_dict h e)" "json_ok (PDict (custody_event_fields e))"
  by (auto simp: custody_event_to_dict_def custody_event_fields_def list_all_iff)

lemma custody_event_from_dict_ok: "custody_event_from_dict h v = Inr e \<Longrightarrow> custody_event_ok e"
  by (auto simp: custody_event_from_dict_def Let_def req_Inr bindE_Inr split: pyval.splits intro: custody_event_made)

interpretation custody_event_codec:
  record_codec "custody_event_to_dict h" "custody_event_from_dict h" custody_event_ok for h
  by unfold_locales (simp_all add: custody_event_from_to_dict custody_event_to_dict_json)

lemma custody_event_fields_inject:
  "norm (PDict (custody_event_fields e)) = norm (PDict (custody_event_fields f)) \<longleftrightarrow> e = f"
  by (cases e; cases f) (auto simp: custody_event_fields_def pair_lists_inject)

interpretation custody_chain: hash_chain "custody_event_fp h" ce_prev
  "\<lambda>e. inj_on h T \<and> dumps False (PDict (custody_event_fields e)) \<in> T" for h T
  by unfold_locales
    (metis hash_inject custody_event_fp_def custody_event_to_dict_json(2) custody_event_fields_inject)

section \<open>Manifests\<close>

lemma manifest_entry_init_Inr:
  "manifest_entry_init vid night typ observed cls until rfp cfp ps = Inr m \<longleftrightarrow>
     vid = PStr (me_id m) \<and> night = PStr (me_night m) \<and> typ = PStr (me_type m) \<and> observed = PStr (me_observed m)
     \<and> cls = PStr (me_class m) \<and> until = PStr (me_until m) \<and> rfp = PStr (me_record m) \<and> cfp = PStr (me_custodied m)
     \<and> sorted_unique_ids ''parent_evidence_ids'' ps = Inr (me_parents m)
     \<and> trimmed (me_id m) \<and> id_pattern (me_id m) \<and> trimmed (me_night m) \<and> trimmed (me_type m)
     \<and> trimmed (me_observed m) \<and> is_timestamp (me_observed m) \<and> me_class m \<in> set classifications
     \<and> trimmed (me_until m) \<and> is_timestamp (me_until m)
     \<and> trimmed (me_record m) \<and> length (me_record m) = 64 \<and> list_all is_hex_lower (me_record m)
     \<and> trimmed (me_custodied m) \<and> length (me_custodied m) = 64 \<and> list_all is_hex_lower (me_custodied m)"
  by (cases m)
     (auto simp: manifest_entry_init_def bindE_Inr ident_text_Inr required_text_Inr iso8601_Inr member_value_Inr sha256_text_Inr)

lemma manifest_entry_made:
  "manifest_entry_init vid night typ observed cls until rfp cfp ps = Inr m \<Longrightarrow> manifest_entry_make m = Inr m"
  by (auto simp: manifest_entry_make_def manifest_entry_init_Inr sorted_unique_ids_Inr sorted_sort_id list_all_iff)

interpretation manifest_entry_codec:
  record_codec manifest_entry_to_dict manifest_entry_from_dict "\<lambda>m. manifest_entry_make m = Inr m"
  by unfold_locales
     (simp_all add: manifest_entry_to_dict_def manifest_entry_from_dict_def is_dict_with_def manifest_entry_keys_def
       dget_def Let_def manifest_entry_make_def)

lemma manifest_entry_from_dict_made: "manifest_entry_from_dict v = Inr m \<Longrightarrow> manifest_entry_make m = Inr m"
  by (auto simp: manifest_entry_from_dict_def Let_def req_Inr split: pyval.splits intro: manifest_entry_made)

lemma manifest_init_Inr:
  "manifest_init schema cid gid at cfp es effect = Inr m \<longleftrightarrow>
     py_eq_int schema 1 \<and> cid = PStr (mf_case m) \<and> gid = PStr (mf_engagement m) \<and> at = PStr (mf_at m)
     \<and> cfp = PStr (mf_case_fp m) \<and> effect = PStr ''none'' \<and> mf_entries m = sort_key me_id es
     \<and> distinct (map me_id (mf_entries m)) \<and> trimmed (mf_case m) \<and> id_pattern (mf_case m)
     \<and> trimmed (mf_engagement m) \<and> id_pattern (mf_engagement m) \<and> trimmed (mf_at m) \<and> is_timestamp (mf_at m)
     \<and> trimmed (mf_case_fp m) \<and> length (mf_case_fp m) = 64 \<and> list_all is_hex_lower (mf_case_fp m)"
  by (cases m) (auto simp: manifest_init_def bindE_Inr req_Inr ident_text_Inr iso8601_Inr sha256_text_Inr Let_def)

definition manifest_ok :: "manifest \<Rightarrow> bool" where
  "manifest_ok m \<longleftrightarrow> manifest_make m = Inr m \<and> list_all (\<lambda>e. manifest_entry_make e = Inr e) (mf_entries m)"

lemma manifest_made:
  "manifest_init schema cid gid at cfp es effect = Inr m \<Longrightarrow> list_all (\<lambda>e. manifest_entry_make e = Inr e) es \<Longrightarrow>
     manifest_ok m"
  by (auto simp: manifest_ok_def manifest_make_def manifest_init_Inr sort_key_id_if_sorted list_all_iff)

lemma manifest_to_dict_json: "json_ok (PDict (manifest_fields m))" "json_ok (manifest_to_dict h m)"
  by (simp_all add: manifest_to_dict_def manifest_fields_def manifest_entry_to_dict_def list_all_iff)

interpretation manifest_codec: record_codec "manifest_to_dict h" "manifest_from_dict h" manifest_ok for h
proof
  show "manifest_from_dict h (norm (manifest_to_dict h m)) = Inr m" if "manifest_ok m" for m
  proof -
    have "mapE manifest_entry_from_dict (map (norm \<circ> manifest_entry_to_dict) (mf_entries m)) = Inr (mf_entries m)"
      using manifest_entry_codec.dec_list [of "mf_entries m"] that by (simp add: manifest_ok_def comp_def)
    then show ?thesis
      using that
      by (simp add: manifest_to_dict_def manifest_fields_def manifest_from_dict_def is_dict_with_def manifest_keys_def
          dget_def Let_def manifest_ok_def manifest_make_def)
  qed
qed (rule manifest_to_dict_json)

lemma manifest_from_dict_ok:
  assumes "manifest_from_dict h v = Inr m"
  shows "manifest_ok m"
proof -
  obtain items es schema cid gid at cfp effect where "mapE manifest_entry_from_dict items = Inr es"
    "manifest_init schema cid gid at cfp es effect = Inr m"
    using assms by (auto simp: manifest_from_dict_def Let_def req_Inr bindE_Inr split: pyval.splits)
  moreover from this have "list_all (\<lambda>e. manifest_entry_make e = Inr e) es"
    using manifest_entry_from_dict_made by (fastforce simp: mapE_Inr_iff list_all2_conv_all_nth list_all_length)
  ultimately show ?thesis using manifest_made by blast
qed

end
