(* ===== verification/CustodyHistory.thy ===== *)
theory CustodyHistory
  imports CustodyFacts
begin

text \<open>
  The custody history of a case: what the validating loop has established of every event it
  went past, and the JSON forms of cases and export bundles.
\<close>

section \<open>The validating loop\<close>

definition is_origin :: "custody_event \<Rightarrow> bool" where
  "is_origin e = (ce_type e = ''ingested'' \<or> ce_type e = ''derived'')"

definition holder :: "string \<Rightarrow> custody_event list \<Rightarrow> string option" where
  "holder i es = last_custodian i None es None"

lemma last_custodian_snoc:
  "last_custodian i t (es @ [e]) who = last_custodian i t [e] (last_custodian i t es who)"
  by (induction es arbitrary: who) simp_all

lemma holder_snoc:
  "holder i (es @ [e]) =
     (if ce_evidence e \<noteq> Some i then holder i es
      else if is_origin e then ce_detail e ''custodian_id''
      else if ce_type e = ''transferred'' then ce_detail e ''to_custodian'' else holder i es)"
  by (simp add: holder_def last_custodian_snoc is_origin_def)

lemma holder_Nil [simp]: "holder i [] = None"
  by (simp add: holder_def)

text \<open>An event that fits the events before it and the items of the case.\<close>

definition sound_event :: "custodied list \<Rightarrow> custody_event list \<Rightarrow> custody_event \<Rightarrow> bool" where
  "sound_event items es e \<longleftrightarrow>
     (is_origin e \<longrightarrow> (\<exists>c\<in>set items. ce_evidence e = Some (cu_id c) \<and> cu_from c = ce_at e
        \<and> (\<forall>x\<in>set es. is_origin x \<longrightarrow> ce_evidence x \<noteq> ce_evidence e)
        \<and> (\<forall>p\<in>set (cu_parents c). \<exists>x\<in>set es. is_origin x \<and> ce_evidence x = Some p)))
     \<and> (ce_type e = ''transferred'' \<longrightarrow> (\<exists>i to. ce_evidence e = Some i \<and> holder i es = Some (ce_actor e)
        \<and> ce_detail e ''from_custodian'' = Some (ce_actor e) \<and> ce_detail e ''to_custodian'' = Some to \<and> to \<noteq> ce_actor e))
     \<and> (ce_type e = ''exported'' \<longrightarrow> ce_evidence e = None)"

lemma is_str_value: "is_str v \<Longrightarrow> PStr (str_of v) = v"
  by (cases v) simp_all

lemma derived_parents_Inr:
  "derived_parents ps enc = Inr u \<Longrightarrow> \<exists>ts. loads enc = Some (PList (map PStr ts)) \<and> sort ts = ps"
proof -
  assume a: "derived_parents ps enc = Inr u"
  then obtain vs where vs: "loads enc = Some (PList vs)" "list_all is_str vs" "sort (map str_of vs) = ps"
    by (auto simp: derived_parents_def req_Inr split: option.splits pyval.splits if_splits)
  have "map PStr (map str_of vs) = vs"
    using vs(2) unfolding map_map by (intro map_idI) (auto simp: list_all_iff is_str_value)
  with vs show ?thesis by metis
qed

lemma origin_event_Inr:
  assumes "origin_event items e s = Inr s'"
  obtains c who where "c \<in> set items" "ce_evidence e = Some (cu_id c)" "cu_id c \<notin> set (cs_origins s)"
    "cu_from c = ce_at e" "ce_detail e ''custodian_id'' = Some who"
    "set (cu_parents c) \<subseteq> set (cs_origins s)" "ce_type e = ''derived'' \<longleftrightarrow> cu_parents c \<noteq> []"
    "s' = s\<lparr>cs_origins := cu_id c # cs_origins s, cs_custodians := AList.update (cu_id c) who (cs_custodians s)\<rparr>"
proof -
  obtain i c who where o: "ce_evidence e = Some i" "i \<notin> set (cs_origins s)" "item_of items i = Some c" "cu_from c = ce_at e"
    "ce_detail e ''custodian_id'' = Some who" "set (cu_parents c) \<subseteq> set (cs_origins s)"
    "ce_type e = ''derived'' \<longleftrightarrow> cu_parents c \<noteq> []"
    "s' = s\<lparr>cs_origins := i # cs_origins s, cs_custodians := AList.update i who (cs_custodians s)\<rparr>"
    using assms
    by (auto simp: origin_event_def req_Inr bindE_Inr split: option.splits list.splits if_splits)
  from o(3) have "c \<in> set items" "cu_id c = i" by (auto simp: item_of_def find_Some_iff)
  with o that show ?thesis by blast
qed

lemma transfer_event_Inr:
  assumes "transfer_event e s = Inr s'"
  obtains i to where "ce_evidence e = Some i" "map_of (cs_custodians s) i = Some (ce_actor e)"
    "ce_detail e ''from_custodian'' = Some (ce_actor e)" "ce_detail e ''to_custodian'' = Some to" "to \<noteq> ce_actor e"
    "s' = s\<lparr>cs_custodians := AList.update i to (cs_custodians s)\<rparr>"
proof -
  from assms obtain i where i: "ce_evidence e = Some i" by (cases "ce_evidence e") (simp_all add: transfer_event_def)
  with assms obtain who where w: "map_of (cs_custodians s) i = Some who"
    by (cases "map_of (cs_custodians s) i") (simp_all add: transfer_event_def)
  obtain a b where ab: "ce_detail e ''from_custodian'' = Some a" "ce_detail e ''to_custodian'' = Some b"
    using assms i w by (auto simp: transfer_event_def split: option.splits)
  from assms have "a \<noteq> b \<and> who = a \<and> ce_actor e = a \<and> s' = s\<lparr>cs_custodians := AList.update i b (cs_custodians s)\<rparr>"
    by (auto simp: transfer_event_def i w ab req_Inr bindE_Inr)
  with that i w ab show ?thesis by blast
qed

lemma export_event_Inr: "export_event e s = Inr s' \<Longrightarrow> ce_evidence e = None \<and> s' = s"
  by (auto simp: export_event_def req_Inr bindE_Inr split: option.splits)

lemma scan_custody_append:
  "scan_custody h cid gid items i (es @ fs) s =
     bindE (scan_custody h cid gid items i es s) (scan_custody h cid gid items (i + length es) fs)"
proof (induction es arbitrary: i s)
  case (Cons e es)
  show ?case
    by (simp add: Cons.IH req_def) (cases "custody_step items e s"; simp)
qed simp

lemma scan_custody_snoc:
  "scan_custody h cid gid items 0 (es @ [e]) no_scan = Inr s' \<longleftrightarrow>
     (\<exists>s t. scan_custody h cid gid items 0 es no_scan = Inr s \<and> ce_case e = cid \<and> ce_engagement e = gid
        \<and> ce_seq e = int (length es) \<and> ce_prev e = map_option (custody_event_fp h) (cs_prev s)
        \<and> (\<forall>p. cs_prev s = Some p \<longrightarrow> time_of (ce_at p) \<le> time_of (ce_at e))
        \<and> custody_step items e s = Inr t \<and> s' = t\<lparr>cs_prev := Some e\<rparr>)"
  by (auto simp: scan_custody_append bindE_Inr req_Inr split: option.splits)

text \<open>The state of the loop is a function of the events it has gone past.\<close>

definition scanned :: "custody_event list \<Rightarrow> custody_scan \<Rightarrow> bool" where
  "scanned es s \<longleftrightarrow>
     cs_prev s = (if es = [] then None else Some (last es))
     \<and> (\<forall>i. map_of (cs_custodians s) i = holder i es)
     \<and> map Some (cs_origins s) = rev (map ce_evidence (filter is_origin es)) \<and> distinct (cs_origins s)"

lemma scanned_origins:
  "scanned es s \<Longrightarrow> i \<in> set (cs_origins s) \<longleftrightarrow> (\<exists>x\<in>set es. is_origin x \<and> ce_evidence x = Some i)"
proof -
  assume "scanned es s"
  then have "map Some (cs_origins s) = rev (map ce_evidence (filter is_origin es))" by (simp add: scanned_def)
  from arg_cong [OF this, of set] have o: "Some ` set (cs_origins s) = ce_evidence ` {x \<in> set es. is_origin x}" by simp
  have "i \<in> set (cs_origins s) \<longleftrightarrow> Some i \<in> Some ` set (cs_origins s)" by auto
  also have "\<dots> \<longleftrightarrow> (\<exists>x\<in>set es. is_origin x \<and> ce_evidence x = Some i)" unfolding o by (auto simp: image_iff)
  finally show ?thesis .
qed

lemma custody_step_scanned:
  assumes s: "scanned es s" and st: "custody_step items e s = Inr t" and ty: "ce_type e \<in> set custody_events"
  shows "scanned (es @ [e]) (t\<lparr>cs_prev := Some e\<rparr>) \<and> sound_event items es e"
proof -
  note o = scanned_origins [OF s]
  consider "is_origin e" | "ce_type e = ''transferred''" "\<not> is_origin e" | "ce_type e = ''exported''" "\<not> is_origin e"
    using ty by (auto simp: custody_events_def is_origin_def)
  then show ?thesis
  proof cases
    case 1
    then have "origin_event items e s = Inr t" using st by (simp add: custody_step_def is_origin_def)
    then show ?thesis
    proof (rule origin_event_Inr)
      fix c who
      assume c: "c \<in> set items" "ce_evidence e = Some (cu_id c)" "cu_id c \<notin> set (cs_origins s)" "cu_from c = ce_at e"
        "ce_detail e ''custodian_id'' = Some who" "set (cu_parents c) \<subseteq> set (cs_origins s)"
        "t = s\<lparr>cs_origins := cu_id c # cs_origins s, cs_custodians := AList.update (cu_id c) who (cs_custodians s)\<rparr>"
      have "\<forall>x\<in>set es. is_origin x \<longrightarrow> ce_evidence x \<noteq> ce_evidence e"
        using c(2,3) o by auto
      moreover have "\<forall>p\<in>set (cu_parents c). \<exists>x\<in>set es. is_origin x \<and> ce_evidence x = Some p"
        using c(6) o by blast
      ultimately have "sound_event items es e"
        using 1 c(1,2,4) by (auto simp: sound_event_def is_origin_def)
      moreover have "scanned (es @ [e]) (t\<lparr>cs_prev := Some e\<rparr>)"
        using 1 c(2,3,5,7) s by (simp add: scanned_def holder_snoc update_conv')
      ultimately show ?thesis by simp
    qed
  next
    case 2
    then have "transfer_event e s = Inr t" using st by (simp add: custody_step_def is_origin_def)
    then show ?thesis
      by (rule transfer_event_Inr) (use 2 s in \<open>auto simp: scanned_def holder_snoc update_conv' sound_event_def\<close>)
  next
    case 3
    then have "export_event e s = Inr t" using st by (simp add: custody_step_def is_origin_def)
    from export_event_Inr [OF this] 3 s show ?thesis by (auto simp: scanned_def holder_snoc sound_event_def)
  qed
qed

lemma scan_custody_sound:
  assumes "scan_custody h cid gid items 0 es no_scan = Inr s" "list_all custody_event_ok es"
  shows "scanned es s \<and> (\<forall>k<length es. sound_event items (take k es) (es ! k))
    \<and> map ce_seq es = map int [0..<length es] \<and> (\<forall>e\<in>set es. ce_case e = cid \<and> ce_engagement e = gid)
    \<and> sorted (map (\<lambda>e. time_of (ce_at e)) es) \<and> chained (custody_event_fp h) ce_prev None es"
  using assms
proof (induction es arbitrary: s rule: rev_induct)
  case Nil
  then show ?case by (auto simp: scanned_def no_scan_def)
next
  case (snoc e es)
  obtain r t where r: "scan_custody h cid gid items 0 es no_scan = Inr r" "ce_case e = cid" "ce_engagement e = gid"
    "ce_seq e = int (length es)" "ce_prev e = map_option (custody_event_fp h) (cs_prev r)"
    "\<forall>p. cs_prev r = Some p \<longrightarrow> time_of (ce_at p) \<le> time_of (ce_at e)" "custody_step items e r = Inr t"
    "s = t\<lparr>cs_prev := Some e\<rparr>"
    using snoc.prems(1) unfolding scan_custody_snoc by blast
  have IH: "scanned es r" "\<forall>k<length es. sound_event items (take k es) (es ! k)"
    "map ce_seq es = map int [0..<length es]" "\<forall>e\<in>set es. ce_case e = cid \<and> ce_engagement e = gid"
    "sorted (map (\<lambda>e. time_of (ce_at e)) es)" "chained (custody_event_fp h) ce_prev None es"
    using snoc.IH [OF r(1)] snoc.prems(2) by simp_all
  have "ce_type e \<in> set custody_events"
    using snoc.prems(2) by (simp add: custody_event_ok_def custody_event_make_def custody_event_init_Inr)
  from custody_step_scanned [OF IH(1) r(7) this] r(8)
  have st: "scanned (es @ [e]) s" "sound_event items es e" by simp_all
  have p: "cs_prev r = (if es = [] then None else Some (last es))" using IH(1) by (simp add: scanned_def)
  have "sorted (map (\<lambda>e. time_of (ce_at e)) (es @ [e]))"
  proof (cases "es = []")
    case False
    with r(6) p have "time_of (ce_at (last es)) \<le> time_of (ce_at e)" by simp
    moreover have "\<forall>x\<in>set es. time_of (ce_at x) \<le> time_of (ce_at (last es))"
      using IH(5) False by (cases es rule: rev_cases) (auto simp: sorted_append)
    ultimately show ?thesis using IH(5) by (auto simp: sorted_append)
  qed simp
  moreover have "chained (custody_event_fp h) ce_prev None (es @ [e])"
    using IH(6) r(5) p by (simp add: chained_snoc chain_tip_def)
  ultimately show ?case
    using st IH(2,3,4) r(2,3,4) by (auto simp: nth_append less_Suc_eq)
qed

section \<open>Cases\<close>

lemma case_init_Inr:
  "case_init h schema cid gid dh items es = Inr c \<longleftrightarrow>
     py_eq_int schema 1 \<and> cid = PStr (cc_id c) \<and> gid = PStr (cc_engagement c) \<and> dh = cc_handling c
     \<and> cc_items c = sort_key cu_id items \<and> es = cc_events c \<and> items \<noteq> [] \<and> es \<noteq> []
     \<and> trimmed (cc_id c) \<and> id_pattern (cc_id c) \<and> trimmed (cc_engagement c) \<and> id_pattern (cc_engagement c)
     \<and> distinct (map cu_id (cc_items c))
     \<and> (\<forall>i\<in>set items. er_engagement (cu_record i) = cc_engagement c \<and> class_rank (dh_class dh) \<le> class_rank (cu_class i)
          \<and> set (cu_parents i) \<subseteq> cu_id ` set items)
     \<and> validate_custody h (cc_id c) (cc_engagement c) (cc_items c) es = Inr ()"
  by (cases c) (auto simp: case_init_def bindE_Inr req_Inr ident_text_Inr Let_def list_all_iff)

definition case_ok :: "(string \<Rightarrow> string) \<Rightarrow> custody_case \<Rightarrow> bool" where
  "case_ok h c \<longleftrightarrow> case_make h c = Inr c \<and> data_handling_ok (cc_handling c)
     \<and> list_all (custodied_ok h) (cc_items c) \<and> list_all custody_event_ok (cc_events c)"

lemma case_made:
  assumes "case_init h schema cid gid dh items es = Inr c" "data_handling_ok dh" "list_all (custodied_ok h) items"
    "list_all custody_event_ok es"
  shows "case_ok h c"
  using assms
  by (auto simp: case_ok_def case_make_def case_init_Inr sort_key_id_if_sorted list_all_iff)
     (metis length_0_conv length_sort)

lemma case_facts:
  assumes "case_ok h c"
  shows "cc_items c \<noteq> []" "cc_events c \<noteq> []" "distinct (map cu_id (cc_items c))"
    "\<And>i. i \<in> set (cc_items c) \<Longrightarrow> er_engagement (cu_record i) = cc_engagement c"
    "\<And>i. i \<in> set (cc_items c) \<Longrightarrow> class_rank (dh_class (cc_handling c)) \<le> class_rank (cu_class i)"
    "\<And>i. i \<in> set (cc_items c) \<Longrightarrow> custodied_ok h i"
    "list_all custody_event_ok (cc_events c)"
    "sort_key cu_id (cc_items c) = cc_items c"
  using assms by (auto simp: case_ok_def case_make_def case_init_Inr list_all_iff)

text \<open>What every case that was constructed satisfies, whatever the order of the keys in its records.\<close>

definition case_valid :: "(string \<Rightarrow> string) \<Rightarrow> custody_case \<Rightarrow> bool" where
  "case_valid h c \<longleftrightarrow> case_make h c = Inr c \<and> list_all custody_event_ok (cc_events c)"

lemma case_ok_valid: "case_ok h c \<Longrightarrow> case_valid h c"
  by (simp add: case_ok_def case_valid_def)

lemma case_from_dict_valid:
  assumes "case_from_dict h v = Inr c"
  shows "case_valid h c"
proof -
  obtain schema cid gid dh items events evs where i: "case_init h schema cid gid dh items events = Inr c"
    "mapE (custody_event_from_dict h) evs = Inr events"
    using assms by (auto simp: case_from_dict_def Let_def req_Inr bindE_Inr split: pyval.splits)
  then have "list_all custody_event_ok events"
    using custody_event_from_dict_ok by (fastforce simp: mapE_Inr_iff list_all2_conv_all_nth list_all_length)
  moreover have "case_make h c = Inr c"
    using i(1) by (auto simp: case_make_def case_init_Inr sort_key_id_if_sorted) (metis length_0_conv length_sort)
  ultimately show ?thesis using i(1) by (simp add: case_valid_def case_init_Inr)
qed

lemma case_from_json_valid: "case_from_json h s = Inr c \<Longrightarrow> case_valid h c"
  by (auto simp: case_from_json_def split: option.splits intro: case_from_dict_valid)

lemma case_scanned:
  assumes "case_valid h c"
  obtains s where "scanned (cc_events c) s" "set (cs_origins s) = cu_id ` set (cc_items c)"
    "\<forall>k<length (cc_events c). sound_event (cc_items c) (take k (cc_events c)) (cc_events c ! k)"
    "map ce_seq (cc_events c) = map int [0..<length (cc_events c)]"
    "\<forall>e\<in>set (cc_events c). ce_case e = cc_id c \<and> ce_engagement e = cc_engagement c"
    "sorted (map (\<lambda>e. time_of (ce_at e)) (cc_events c))"
    "chained (custody_event_fp h) ce_prev None (cc_events c)"
proof -
  obtain s where s: "scan_custody h (cc_id c) (cc_engagement c) (cc_items c) 0 (cc_events c) no_scan = Inr s"
    "set (cs_origins s) = cu_id ` set (cc_items c)"
    using assms by (auto simp: case_valid_def case_make_def case_init_Inr validate_custody_def bindE_Inr req_Inr)
  have "list_all custody_event_ok (cc_events c)" using assms by (simp add: case_valid_def)
  from scan_custody_sound [OF s(1) this] s(2) that show ?thesis by blast
qed

lemma case_from_to_dict:
  assumes "case_ok h c"
  shows "case_from_dict h (norm (case_to_dict h c)) = Inr c"
proof -
  obtain dd where dd: "norm (data_handling_to_dict (cc_handling c)) = PDict dd" by (simp add: data_handling_to_dict_def)
  have "data_handling_from_dict (PDict dd) = Inr (cc_handling c)"
    using data_handling_codec.dec_enc [of "cc_handling c"] assms dd by (simp add: case_ok_def)
  moreover have "mapE (custodied_from_dict h) (map (norm \<circ> custodied_to_dict h) (cc_items c)) = Inr (cc_items c)"
    using custodied_codec.dec_list [of h "cc_items c"] assms by (simp add: case_ok_def comp_def)
  moreover have "mapE (custody_event_from_dict h) (map (norm \<circ> custody_event_to_dict h) (cc_events c)) = Inr (cc_events c)"
    using custody_event_codec.dec_list [of "cc_events c" h] assms by (simp add: case_ok_def comp_def)
  ultimately show ?thesis
    using assms
    by (simp add: case_to_dict_def case_from_dict_def is_dict_with_def case_keys_def dget_def Let_def dd as_custody_def
        case_ok_def case_make_def)
qed

lemma case_to_dict_json: "case_ok h c \<Longrightarrow> json_ok (case_to_dict h c)"
  using custodied_codec.printable_list [of h "cc_items c"] custody_event_codec.printable_list [of "cc_events c" h]
    data_handling_to_dict_json [of "cc_handling c"]
  by (simp add: case_to_dict_def case_ok_def)

interpretation case_codec: record_codec "case_to_dict h" "case_from_dict h" "case_ok h" for h
  by unfold_locales (simp_all add: case_from_to_dict case_to_dict_json)

section \<open>Bundles\<close>

lemma bundle_init_Inr:
  "bundle_init h schema effect c m rs = Inr b \<longleftrightarrow>
     py_eq_int schema 1 \<and> effect = PStr ''none'' \<and> c = eb_case b \<and> m = eb_manifest b \<and> eb_records b = sort_key er_id rs
     \<and> mf_case m = cc_id c \<and> mf_engagement m = cc_engagement c \<and> mf_case_fp m = case_fp h c
     \<and> distinct (map er_id (eb_records b))
     \<and> (\<lambda>r. (er_id r, record_fingerprint h r)) ` set rs = (\<lambda>i. (cu_id i, cu_fp i)) ` set (cc_items c)
     \<and> me_id ` set (mf_entries m) = cu_id ` set (cc_items c)"
  by (cases b) (auto simp: bundle_init_def req_Inr Let_def comp_def image_image)

definition bundle_ok :: "(string \<Rightarrow> string) \<Rightarrow> export_bundle \<Rightarrow> bool" where
  "bundle_ok h b \<longleftrightarrow> bundle_init h (PInt 1) (PStr ''none'') (eb_case b) (eb_manifest b) (eb_records b) = Inr b
     \<and> case_ok h (eb_case b) \<and> manifest_ok (eb_manifest b) \<and> list_all evidence_ok (eb_records b)"

lemma bundle_made:
  assumes "bundle_init h schema effect c m rs = Inr b" "case_ok h c" "manifest_ok m" "list_all evidence_ok rs"
  shows "bundle_ok h b"
  using assms by (auto simp: bundle_ok_def bundle_init_Inr sort_key_id_if_sorted list_all_iff)

lemma bundle_from_to_dict:
  assumes "bundle_ok h b"
  shows "bundle_from_dict h (norm (bundle_to_dict h b)) = Inr b"
proof -
  obtain cd md where d: "norm (case_to_dict h (eb_case b)) = PDict cd" "norm (manifest_to_dict h (eb_manifest b)) = PDict md"
    by (simp add: case_to_dict_def manifest_to_dict_def manifest_fields_def)
  have "case_from_dict h (PDict cd) = Inr (eb_case b)" "manifest_from_dict h (PDict md) = Inr (eb_manifest b)"
    using case_codec.dec_enc [of h "eb_case b"] manifest_codec.dec_enc [of "eb_manifest b" h] assms d
    by (simp_all add: bundle_ok_def)
  moreover have "mapE evidence_from_dict (map (norm \<circ> evidence_to_dict) (eb_records b)) = Inr (eb_records b)"
    using evidence_codec.dec_list [of "eb_records b"] assms by (simp add: bundle_ok_def comp_def)
  ultimately show ?thesis
    using assms
    by (simp add: bundle_to_dict_def bundle_fields_def bundle_from_dict_def is_dict_with_def bundle_keys_def dget_def
        Let_def d as_custody_def bundle_ok_def)
qed

lemma bundle_to_dict_json: "bundle_ok h b \<Longrightarrow> json_ok (bundle_to_dict h b)"
  using evidence_codec.printable_list [of "eb_records b"] case_to_dict_json [of h "eb_case b"]
    manifest_to_dict_json(2) [of h "eb_manifest b"]
  by (simp add: bundle_to_dict_def bundle_fields_def bundle_ok_def)

interpretation bundle_codec: record_codec "bundle_to_dict h" "bundle_from_dict h" "bundle_ok h" for h
  by unfold_locales (simp_all add: bundle_from_to_dict bundle_to_dict_json)

end
