(* ===== verification/CustodyOps.thy ===== *)
theory CustodyOps
  imports CustodyHistory
begin

text \<open>
  What the operations of a case give: the one event they append, the items they keep, and
  that their results are again cases the constructor accepts.
\<close>

section \<open>Appending an event\<close>

lemma new_event_Inr:
  assumes "new_event h cid gid n ty x evid details prev = Inr e"
  shows "custody_event_ok e" "ce_id e = cn_event x" "ce_case e = cid" "ce_engagement e = gid" "ce_seq e = int n"
    "ce_type e = ty" "ce_at e = cn_at x" "ce_actor e = cn_actor x" "ce_evidence e = evid"
    "ce_details e = sort details" "ce_prev e = map_option (custody_event_fp h) prev" "is_timestamp (cn_at x)"
  using assms custody_event_made [of "PInt 1"]
  by (auto simp: new_event_def custody_event_init_Inr custody_details_Inr)

lemma append_custody_Inr:
  assumes "append_custody h c ty x evid details items = Inr c'"
  obtains e where "new_event h (cc_id c) (cc_engagement c) (length (cc_events c)) ty x evid details
      (Some (last (cc_events c))) = Inr e"
    "case_init h (PInt 1) (PStr (cc_id c)) (PStr (cc_engagement c)) (cc_handling c) items (cc_events c @ [e]) = Inr c'"
    "c' = c\<lparr>cc_items := sort_key cu_id items, cc_events := cc_events c @ [e]\<rparr>"
  using assms by (cases c; cases c') (auto simp: append_custody_def bindE_Inr case_init_Inr)

lemma append_custody_ok:
  assumes "append_custody h c ty x evid details items = Inr c'" "case_ok h c" "list_all (custodied_ok h) items"
  shows "case_ok h c'"
proof -
  obtain e where e: "new_event h (cc_id c) (cc_engagement c) (length (cc_events c)) ty x evid details
      (Some (last (cc_events c))) = Inr e"
    and i: "case_init h (PInt 1) (PStr (cc_id c)) (PStr (cc_engagement c)) (cc_handling c) items (cc_events c @ [e]) = Inr c'"
    by (rule append_custody_Inr [OF assms(1)])
  show ?thesis
    by (rule case_made [OF i]) (use assms(2,3) new_event_Inr(1) [OF e] in \<open>simp_all add: case_ok_def\<close>)
qed

section \<open>The operations\<close>

lemma custodied_item_Inr:
  assumes "custodied_item h r dh from ps cls = Inr i"
  shows "cu_record i = r" "cu_from i = from" "cu_export i = dh_export dh" "cu_parents i = sort ps"
    "class_rank (dh_class dh) \<le> class_rank (cu_class i)" "plus_days_text from (dh_days dh) = Inr (cu_until i)"
    "hex_hash h \<Longrightarrow> evidence_ok r \<Longrightarrow> custodied_ok h i"
proof -
  obtain c until where c: "class_rank (dh_class dh) \<le> class_rank c" "plus_days_text from (dh_days dh) = Inr until"
    and i: "custodied_init h (PInt 1) r (PStr c) (PStr from) (PStr until) (PBool (dh_export dh)) (map PStr ps) (PStr [])
      = Inr i"
    using assms by (auto simp: custodied_item_def Let_def bindE_Inr req_Inr)
  show "cu_record i = r" "cu_from i = from" "cu_export i = dh_export dh" "cu_parents i = sort ps"
    "class_rank (dh_class dh) \<le> class_rank (cu_class i)" "plus_days_text from (dh_days dh) = Inr (cu_until i)"
    using c i by (auto simp: custodied_init_Inr sorted_unique_ids_Inr)
  then show "hex_hash h \<Longrightarrow> evidence_ok r \<Longrightarrow> custodied_ok h i"
    using custodied_made [OF _ i] by (simp add: custodied_ok_def)
qed

lemma case_create_ok:
  assumes "case_create h cid gid dh r who cls x = Inr c" "hex_hash h" "evidence_ok r" "data_handling_ok dh"
  shows "case_ok h c"
proof -
  obtain i e where i: "custodied_item h r dh (cn_at x) [] cls = Inr i"
    and e: "new_event h cid gid 0 ''ingested'' x (Some (er_id r)) [(''custodian_id'', who)] None = Inr e"
    and c: "case_init h (PInt 1) (PStr cid) (PStr gid) dh [i] [e] = Inr c"
    using assms(1) by (auto simp: case_create_def req_Inr bindE_Inr)
  show ?thesis
    by (rule case_made [OF c assms(4)])
      (use custodied_item_Inr(7) [OF i assms(2,3)] new_event_Inr(1) [OF e] in simp_all)
qed

datatype custody_op =
    CoAdd evidence string "string list" "string option" custody_note
  | CoTransfer string string custody_note
  | CoExport string custody_note

fun custody_apply :: "(string \<Rightarrow> string) \<Rightarrow> custody_op \<Rightarrow> custody_case \<Rightarrow> custody_case res" where
  "custody_apply h (CoAdd r who ps cls x) c = add_record h c r who ps cls x"
| "custody_apply h (CoTransfer i to x) c = transfer_custody h c i to x"
| "custody_apply h (CoExport d x) c = bindE (export_case h c d x) (\<lambda>(c', b). Inr c')"

text \<open>A record handed to the case has passed its own constructor.\<close>

fun op_fits :: "custody_op \<Rightarrow> bool" where
  "op_fits (CoAdd r who ps cls x) = evidence_ok r"
| "op_fits _ = True"

definition custody_do :: "(string \<Rightarrow> string) \<Rightarrow> custody_op \<Rightarrow> custody_case \<Rightarrow> custody_case" where
  "custody_do h a c =
     (if op_fits a then (case custody_apply h a c of Inl _ \<Rightarrow> c | Inr c' \<Rightarrow> c') else c)"

definition case_grows :: "custody_case \<Rightarrow> custody_case \<Rightarrow> bool" where
  "case_grows c d \<longleftrightarrow> cc_id d = cc_id c \<and> cc_engagement d = cc_engagement c \<and> cc_handling d = cc_handling c
     \<and> set (cc_items c) \<subseteq> set (cc_items d) \<and> prefix (cc_events c) (cc_events d)"

lemma case_grows_refl: "case_grows c c"
  by (simp add: case_grows_def)

lemma case_grows_trans: "case_grows c d \<Longrightarrow> case_grows d e \<Longrightarrow> case_grows c e"
  by (auto simp: case_grows_def)

lemma export_case_Inr:
  assumes "export_case h c d x = Inr (c', b)"
  shows "assert_exportable c (cn_at x) = Inr ()" "trimmed d"
    "append_custody h c ''exported'' x None [(''destination'', d)] (cc_items c) = Inr c'"
    "\<exists>m. case_manifest h c' (cn_at x) = Inr m
       \<and> bundle_init h (PInt 1) (PStr ''none'') c' m (map cu_record (cc_items c')) = Inr b"
  using assms by (auto simp: export_case_def bindE_Inr required_text_Inr)

text \<open>Every operation appends one event and at most one item.\<close>

lemma custody_apply_appends:
  assumes "custody_apply h a c = Inr c'"
  obtains ty x evid details new where
    "append_custody h c ty x evid details (cc_items c @ new) = Inr c'"
    "hex_hash h \<Longrightarrow> op_fits a \<Longrightarrow> list_all (custodied_ok h) new"
    "new = [] \<or> (\<exists>i. new = [i] \<and> cu_export i = dh_export (cc_handling c))"
proof (cases a)
  case (CoAdd r who ps cls x)
  with assms obtain i ty details qs where i: "custodied_item h r (cc_handling c) (cn_at x) qs cls = Inr i"
    and c: "append_custody h c ty x (Some (er_id r)) details (cc_items c @ [i]) = Inr c'"
    by (auto simp: add_record_def req_Inr bindE_Inr)
  show ?thesis
    by (rule that [OF c]) (use custodied_item_Inr [OF i] CoAdd in auto)
next
  case (CoTransfer i to x)
  with assms obtain details where "append_custody h c ''transferred'' x (Some i) details (cc_items c) = Inr c'"
    by (auto simp: transfer_custody_def req_Inr bindE_Inr)
  then show ?thesis by (intro that [of _ _ _ _ "[]"]) auto
next
  case (CoExport d x)
  with assms obtain b where "export_case h c d x = Inr (c', b)" by (auto simp: bindE_Inr)
  from export_case_Inr(3) [OF this] show ?thesis by (intro that [of _ _ _ _ "[]"]) auto
qed

lemma custody_apply_ok:
  assumes "custody_apply h a c = Inr c'" "case_ok h c" "hex_hash h" "op_fits a"
  shows "case_ok h c' \<and> case_grows c c' \<and> length (cc_events c') = Suc (length (cc_events c))"
proof -
  obtain ty x evid details new where p: "append_custody h c ty x evid details (cc_items c @ new) = Inr c'"
    "list_all (custodied_ok h) new"
    using custody_apply_appends [OF assms(1)] assms(3,4) by metis
  obtain e where "c' = c\<lparr>cc_items := sort_key cu_id (cc_items c @ new), cc_events := cc_events c @ [e]\<rparr>"
    by (rule append_custody_Inr [OF p(1)])
  moreover have "case_ok h c'"
    by (rule append_custody_ok [OF p(1) assms(2)]) (use assms(2) p(2) in \<open>simp add: case_ok_def\<close>)
  ultimately show ?thesis by (auto simp: case_grows_def)
qed

interpretation case_machine: guarded_machine "custody_do h" "\<lambda>c. hex_hash h \<and> case_ok h c" case_grows for h
proof
  fix c a assume ok: "hex_hash h \<and> case_ok h c"
  show "hex_hash h \<and> case_ok h (custody_do h a c)" "case_grows c (custody_do h a c)"
    using custody_apply_ok [of h a c] ok by (auto simp: custody_do_def case_grows_refl split: sum.splits)
qed (auto intro: case_grows_refl case_grows_trans)

end
