(* ===== verification/CustodyStore.thy ===== *)
theory CustodyStore
  imports CustodyHistory EngagementStore StoredRecords
begin

text \<open>
  \<^verbatim>\<open>nightrecon_white_engine/evidence_custody.py\<close>, the stores: \<^verbatim>\<open>InMemoryCustodyStore\<close> as a
  table from case identifiers to cases, and \<^verbatim>\<open>FileCustodyStore\<close>, which changes memory first,
  writes the whole file after it and does not roll back.
\<close>

section \<open>Equality of cases\<close>

text \<open>The generated \<^verbatim>\<open>__eq__\<close>: the data of a record compares as Python values do.\<close>

definition custodied_eq :: "custodied \<Rightarrow> custodied \<Rightarrow> bool" where
  "custodied_eq a b = (evidence_eq (cu_record a) (cu_record b) \<and> a\<lparr>cu_record := cu_record b\<rparr> = b)"

definition case_eq :: "custody_case \<Rightarrow> custody_case \<Rightarrow> bool" where
  "case_eq a b = (list_all2 custodied_eq (cc_items a) (cc_items b) \<and> a\<lparr>cc_items := cc_items b\<rparr> = b)"

section \<open>In memory\<close>

type_synonym custody_memory = "custody_case table"

definition cmem_create :: "custody_case \<Rightarrow> custody_memory \<Rightarrow> custody_memory res" where
  "cmem_create c m =
     (case map_of m (cc_id c) of
        None \<Rightarrow> Inr (AList.update (cc_id c) c m)
      | Some existing \<Rightarrow>
          req (case_eq existing c) (ECE (''conflicting custody case already exists: '' @ cc_id c)) (Inr m))"

definition kept_items :: "custodied list \<Rightarrow> custodied list \<Rightarrow> bool" where
  "kept_items old new =
     list_all (\<lambda>i. case item_of new (cu_id i) of None \<Rightarrow> False | Some j \<Rightarrow> custodied_eq j i) old"

definition cmem_advance :: "(string \<Rightarrow> string) \<Rightarrow> custody_case \<Rightarrow> custody_memory \<Rightarrow> custody_memory res" where
  "cmem_advance h c m =
     (case map_of m (cc_id c) of
        None \<Rightarrow> Inl (ECE (''custody case not found: '' @ cc_id c))
      | Some previous \<Rightarrow>
          req (cc_engagement previous = cc_engagement c) (ECE ''custody case engagement cannot change'')
         (req (cc_handling previous = cc_handling c) (ECE ''custody data-handling policy cannot change in place'')
         (req (kept_items (cc_items previous) (cc_items c))
            (ECE ''existing custody evidence cannot be modified or removed'')
         (let old = map (custody_event_fp h) (cc_events previous); new = map (custody_event_fp h) (cc_events c)
          in req (take (length old) new = old) (ECE ''custody history is not an append-only extension'')
               (Inr (AList.update (cc_id c) c m))))))"

definition cmem_case :: "custody_memory \<Rightarrow> string \<Rightarrow> custody_case option res" where
  "cmem_case m cid = bindE (ident_text ECE (PStr cid) ''case_id'') (\<lambda>i. Inr (map_of m i))"

definition cmem_cases :: "custody_memory \<Rightarrow> string list" where
  "cmem_cases m = sort (map fst m)"

section \<open>In a file\<close>

record custody_store =
  cs_memory :: custody_memory
  cs_file :: "string option"

fun load_cases :: "(string \<Rightarrow> string) \<Rightarrow> pyval list \<Rightarrow> string list \<Rightarrow> custody_memory \<Rightarrow> custody_memory res" where
  "load_cases h [] seen m = Inr m"
| "load_cases h (x # xs) seen m =
     bindE (case_from_dict h x) (\<lambda>c.
     req (cc_id c \<notin> set seen) (ECE ''custody store contains duplicate case'')
    (bindE (cmem_create c m) (\<lambda>m'. load_cases h xs (cc_id c # seen) m')))"

definition cases_of_file :: "(string \<Rightarrow> string) \<Rightarrow> string option \<Rightarrow> custody_memory res" where
  "cases_of_file h file =
     (case file of
        None \<Rightarrow> Inr []
      | Some text \<Rightarrow>
          (case loads text of
             None \<Rightarrow> Inl (ECE ''custody store is not valid UTF-8 JSON'')
           | Some payload \<Rightarrow>
               req (is_dict_with [''schema_version'', ''cases''] payload
                    \<and> py_eq_int (dget (dict_items payload) ''schema_version'') 1)
                   (ECE ''custody store schema is not supported'')
                 (case dget (dict_items payload) ''cases'' of
                    PList items \<Rightarrow> load_cases h items [] []
                  | _ \<Rightarrow> Inl (ECE ''custody store schema is not supported''))))"

definition open_custody_store :: "(string \<Rightarrow> string) \<Rightarrow> string option \<Rightarrow> custody_store res" where
  "open_custody_store h file = bindE (cases_of_file h file) (\<lambda>m. Inr \<lparr>cs_memory = m, cs_file = file\<rparr>)"

definition custody_store_text :: "(string \<Rightarrow> string) \<Rightarrow> custody_memory \<Rightarrow> string res" where
  "custody_store_text h m =
     bindE (mapE (cmem_case m) (cmem_cases m)) (\<lambda>cs.
     Inr (dumps False (PDict
       [(''schema_version'', PInt 1), (''cases'', PList (map (case_to_dict h) (List.map_filter id cs)))])
       @ ''\<newline>''))"

definition cs_persist :: "(string \<Rightarrow> string) \<Rightarrow> io_env \<Rightarrow> custody_store \<Rightarrow> unit res \<times> custody_store" where
  "cs_persist h io s =
     (case custody_store_text h (cs_memory s) of
        Inl e \<Rightarrow> (Inl e, s)
      | Inr text \<Rightarrow>
          (if \<not> io_write_ok io then (Inl OSError, s)
           else (case replace_once io of
                   Inl e \<Rightarrow> (Inl e, s)
                 | Inr _ \<Rightarrow> (Inr (), s\<lparr>cs_file := Some text\<rparr>))))"

definition unchanged :: "custody_case option \<Rightarrow> custody_case \<Rightarrow> bool" where
  "unchanged before c = (case before of None \<Rightarrow> False | Some b \<Rightarrow> case_eq b c)"

definition cs_create :: "(string \<Rightarrow> string) \<Rightarrow> io_env \<Rightarrow> custody_case \<Rightarrow> custody_store \<Rightarrow> unit res \<times> custody_store" where
  "cs_create h io c s =
     (case cmem_case (cs_memory s) (cc_id c) of
        Inl e \<Rightarrow> (Inl e, s)
      | Inr before \<Rightarrow>
          (case cmem_create c (cs_memory s) of
             Inl e \<Rightarrow> (Inl e, s)
           | Inr m \<Rightarrow>
               (if \<not> unchanged before c then cs_persist h io (s\<lparr>cs_memory := m\<rparr>)
                else (Inr (), s\<lparr>cs_memory := m\<rparr>))))"

definition cs_advance :: "(string \<Rightarrow> string) \<Rightarrow> io_env \<Rightarrow> custody_case \<Rightarrow> custody_store \<Rightarrow> unit res \<times> custody_store" where
  "cs_advance h io c s =
     (case cmem_case (cs_memory s) (cc_id c) of
        Inl e \<Rightarrow> (Inl e, s)
      | Inr before \<Rightarrow>
          (case cmem_advance h c (cs_memory s) of
             Inl e \<Rightarrow> (Inl e, s)
           | Inr m \<Rightarrow>
               (if \<not> unchanged before c then cs_persist h io (s\<lparr>cs_memory := m\<rparr>)
                else (Inr (), s\<lparr>cs_memory := m\<rparr>))))"

section \<open>The store as a machine\<close>

text \<open>A case handed to the store has passed its constructor.\<close>

datatype custody_call = CuCreate io_env custody_case | CuAdvance io_env custody_case

fun custody_call_step :: "(string \<Rightarrow> string) \<Rightarrow> custody_call \<Rightarrow> custody_store \<Rightarrow> custody_store" where
  "custody_call_step h (CuCreate io c) s = (if case_ok h c then snd (cs_create h io c s) else s)"
| "custody_call_step h (CuAdvance io c) s = (if case_ok h c then snd (cs_advance h io c s) else s)"

definition custody_extends :: "(string \<Rightarrow> string) \<Rightarrow> custody_case \<Rightarrow> custody_case \<Rightarrow> bool" where
  "custody_extends h c d \<longleftrightarrow> cc_id d = cc_id c \<and> cc_engagement d = cc_engagement c \<and> cc_handling d = cc_handling c
     \<and> (\<forall>i\<in>set (cc_items c). \<exists>j\<in>set (cc_items d). custodied_eq j i)
     \<and> prefix (map (custody_event_fp h) (cc_events c)) (map (custody_event_fp h) (cc_events d))"

lemma record_eq_refl: "evidence_eq r r"
  by (simp add: evidence_eq_def py_eq_def)

lemma custodied_eq_refl: "custodied_eq i i"
  by (simp add: custodied_eq_def record_eq_refl)

lemma record_eq_trans: "evidence_eq r s \<Longrightarrow> evidence_eq s t \<Longrightarrow> evidence_eq r t"
  by (simp add: evidence_eq_def py_eq_def)

lemma custodied_eq_trans: "custodied_eq i j \<Longrightarrow> custodied_eq j k \<Longrightarrow> custodied_eq i k"
  by (cases i; cases j; cases k) (auto simp: custodied_eq_def intro: record_eq_trans)

lemma custodied_eq_id: "custodied_eq i j \<Longrightarrow> cu_id i = cu_id j"
  by (cases "cu_record i"; cases "cu_record j") (auto simp: custodied_eq_def evidence_eq_def cu_id_def)

lemma custody_extends_refl: "custody_extends h c c"
  by (auto simp: custody_extends_def intro: custodied_eq_refl)

lemma custody_extends_trans:
  assumes "custody_extends h c d" "custody_extends h d e"
  shows "custody_extends h c e"
proof -
  have "\<exists>k\<in>set (cc_items e). custodied_eq k i" if i: "i \<in> set (cc_items c)" for i
  proof -
    obtain j where "j \<in> set (cc_items d)" "custodied_eq j i" using assms(1) i by (auto simp: custody_extends_def)
    moreover from this obtain k where "k \<in> set (cc_items e)" "custodied_eq k j"
      using assms(2) unfolding custody_extends_def by blast
    ultimately show ?thesis using custodied_eq_trans by blast
  qed
  moreover have "prefix (map (custody_event_fp h) (cc_events c)) (map (custody_event_fp h) (cc_events e))"
    using assms unfolding custody_extends_def by (meson prefix_order.trans)
  ultimately show ?thesis using assms unfolding custody_extends_def by simp
qed

abbreviation cmem_ok :: "(string \<Rightarrow> string) \<Rightarrow> custody_memory \<Rightarrow> bool" where
  "cmem_ok h \<equiv> table_ok (case_ok h) cc_id"

abbreviation cmem_le :: "(string \<Rightarrow> string) \<Rightarrow> custody_memory \<Rightarrow> custody_memory \<Rightarrow> bool" where
  "cmem_le h \<equiv> table_le (custody_extends h)"

lemma cmem_le_refl: "cmem_le h m m"
  by (rule table_le_refl) (rule custody_extends_refl)

lemma cmem_le_trans: "cmem_le h m n \<Longrightarrow> cmem_le h n l \<Longrightarrow> cmem_le h m l"
  by (rule table_le_trans) (rule custody_extends_trans)

lemma kept_items_kept:
  "kept_items old new \<Longrightarrow> i \<in> set old \<Longrightarrow> \<exists>j\<in>set new. custodied_eq j i"
  by (fastforce simp: kept_items_def list_all_iff item_of_def find_Some_iff split: option.splits)

lemma cmem_create_Inr:
  "cmem_create c m = Inr m' \<Longrightarrow>
     (map_of m (cc_id c) = None \<and> m' = AList.update (cc_id c) c m) \<or> m' = m"
  by (auto simp: cmem_create_def req_Inr split: option.splits)

lemma cmem_advance_Inr:
  assumes "cmem_advance h c m = Inr m'" "cmem_ok h m"
  shows "\<exists>p. map_of m (cc_id c) = Some p \<and> custody_extends h p c \<and> m' = AList.update (cc_id c) c m"
proof -
  obtain p where p: "map_of m (cc_id c) = Some p"
    using assms(1) by (auto simp: cmem_advance_def split: option.splits)
  then have "cc_id c = cc_id p" using assms(2) unfolding table_ok_def by blast
  moreover have a: "cc_engagement p = cc_engagement c" "cc_handling p = cc_handling c" "kept_items (cc_items p) (cc_items c)"
    "take (length (cc_events p)) (map (custody_event_fp h) (cc_events c)) = map (custody_event_fp h) (cc_events p)"
    "m' = AList.update (cc_id c) c m"
    using assms(1) p by (simp_all add: cmem_advance_def req_Inr Let_def)
  moreover have "prefix (map (custody_event_fp h) (cc_events p)) (map (custody_event_fp h) (cc_events c))"
    unfolding a(4) [symmetric] by (rule take_is_prefix)
  ultimately show ?thesis using p kept_items_kept [OF a(3)] by (simp add: custody_extends_def)
qed

lemma cmem_step:
  assumes "cmem_ok h m" "case_ok h c" "cmem_create c m = Inr m' \<or> cmem_advance h c m = Inr m'"
  shows "cmem_ok h m' \<and> cmem_le h m m'"
proof -
  have "m' = m \<or> (m' = AList.update (cc_id c) c m \<and> (\<forall>p. map_of m (cc_id c) = Some p \<longrightarrow> custody_extends h p c))"
    using assms(3) cmem_create_Inr [of c m m'] cmem_advance_Inr [OF _ assms(1), of c m'] by auto
  then show ?thesis
    using table_ok_update [OF assms(1,2)] assms(1) cmem_le_refl
      table_le_update [of "custody_extends h" m "cc_id c" c] custody_extends_refl by blast
qed

lemma cs_persist_memory: "cs_memory (snd (cs_persist h io s)) = cs_memory s"
  by (simp add: cs_persist_def split: sum.splits)

lemma custody_call_memory:
  "cs_memory (custody_call_step h x s) = cs_memory s \<or>
   (\<exists>c. case_ok h c \<and> (cmem_create c (cs_memory s) = Inr (cs_memory (custody_call_step h x s))
      \<or> cmem_advance h c (cs_memory s) = Inr (cs_memory (custody_call_step h x s))))"
  by (cases x) (auto simp: cs_create_def cs_advance_def cs_persist_memory split: sum.splits if_splits)

interpretation custody_machine:
  guarded_machine "custody_call_step h" "\<lambda>s :: custody_store. cmem_ok h (cs_memory s)"
    "\<lambda>s s'. cmem_le h (cs_memory s) (cs_memory s')" for h
proof
  fix s :: custody_store and x assume ok: "cmem_ok h (cs_memory s)"
  show "cmem_ok h (cs_memory (custody_call_step h x s))" "cmem_le h (cs_memory s) (cs_memory (custody_call_step h x s))"
    using custody_call_memory [of h x s] cmem_step [OF ok] ok by (auto simp: cmem_le_refl)
qed (auto intro: cmem_le_refl cmem_le_trans)

section \<open>Reading and writing the file\<close>

interpretation custody_file:
  stored_records "case_to_dict h" "case_from_dict h" "case_ok h" cc_id "load_cases h" for h
  by unfold_locales (simp_all add: cmem_create_def)

lemma custody_text_reopens:
  assumes ok: "cmem_ok h m"
  shows "\<exists>text m'. custody_store_text h m = Inr text \<and> cases_of_file h (Some text) = Inr m' \<and> map_of m' = map_of m"
proof -
  note st = custody_file.stored_ok [OF ok]
  have "trimmed k \<and> id_pattern k" if "k \<in> set (cmem_cases m)" for k
    using custody_file.stored_key [OF ok, of k] that by (auto simp: cmem_cases_def case_ok_def case_make_def case_init_Inr)
  then have "mapE (cmem_case m) (cmem_cases m) = Inr (map (map_of m) (cmem_cases m))"
    by (auto simp: mapE_Inr_iff list_all2_conv_all_nth cmem_case_def bindE_Inr ident_text_Inr)
  moreover have "map (map_of m) (cmem_cases m) = map Some (stored m)"
    using st(3) by (simp add: cmem_cases_def)
  moreover have "List.map_filter id (map Some cs) = cs" for cs :: "custody_case list"
    by (induction cs) (simp_all add: map_filter_simps)
  ultimately have t: "custody_store_text h m = Inr (dumps False (PDict
      [(''schema_version'', PInt 1), (''cases'', PList (map (case_to_dict h) (stored m)))]) @ ''\<newline>'')"
    by (simp add: custody_store_text_def del: map_map)
  obtain m' where "load_cases h (map norm (map (case_to_dict h) (stored m))) [] [] = Inr m'" "map_of m' = map_of m"
    using custody_file.stored_reopens [OF ok] by blast
  moreover have "json_ok (PDict [(''schema_version'', PInt 1), (''cases'', PList (map (case_to_dict h) (stored m)))])"
    using case_codec.printable_list [OF st(1)] by simp
  ultimately show ?thesis
    unfolding t by (simp add: cases_of_file_def loads_dumps_line is_dict_with_def dget_def)
qed

end
