(* ===== verification/CustodyMoves.thy ===== *)
theory CustodyMoves
  imports CustodyOps CustodyStore
begin

text \<open>
  When the operations of a case succeed: transfers, the manifest and the guards of an export,
  and the advance of the store to the case an operation gave.
\<close>

section \<open>The current custodian\<close>

lemma last_custodian_cutoff:
  "\<forall>e\<in>set es. time_of (ce_at e) \<le> t \<Longrightarrow> last_custodian i (Some t) es who = last_custodian i None es who"
  by (induction es arbitrary: who) auto

lemma item_of_mem: "distinct (map cu_id xs) \<Longrightarrow> i \<in> set xs \<Longrightarrow> item_of xs (cu_id i) = Some i"
  by (induction xs) (auto simp: item_of_def)

lemma item_of_None: "item_of xs i = None \<longleftrightarrow> i \<notin> cu_id ` set xs"
  by (auto simp: item_of_def find_None_iff)

definition who_holds :: "custody_case \<Rightarrow> string \<Rightarrow> string option" where
  "who_holds c i = holder i (cc_events c)"

lemma current_custodian_None:
  "current_custodian c i None = Inr a \<longleftrightarrow> i \<in> cu_id ` set (cc_items c) \<and> who_holds c i = Some a"
  using item_of_None [of "cc_items c" i]
  by (cases "item_of (cc_items c) i"; cases "who_holds c i")
    (simp_all add: current_custodian_def find_item_def who_holds_def holder_def)

lemma current_custodian_later:
  assumes "\<forall>e\<in>set (cc_events c). time_of (ce_at e) \<le> time_of t" "trimmed t" "is_timestamp t"
  shows "current_custodian c i (Some t) = current_custodian c i None"
  using last_custodian_cutoff [OF assms(1)] assms(2,3) iso8601_Inr [of ECE "PStr t" "''at''" t]
  by (simp add: current_custodian_def bindE_def split: sum.splits)

lemma case_times:
  assumes "case_valid h c" "e \<in> set (cc_events c)"
  shows "time_of (ce_at e) \<le> time_of (ce_at (last (cc_events c)))"
proof -
  have "sorted (map (\<lambda>e. time_of (ce_at e)) (cc_events c))" by (rule case_scanned [OF assms(1)]) blast
  then show ?thesis using assms(2) by (cases "cc_events c" rule: rev_cases) (auto simp: sorted_append)
qed

section \<open>Appending to a case\<close>

text \<open>An event that does not add an origin extends a case exactly when the loop accepts it.\<close>

lemma case_scan_state:
  assumes "case_valid h c"
  obtains s where "scan_custody h (cc_id c) (cc_engagement c) (cc_items c) 0 (cc_events c) no_scan = Inr s"
    "scanned (cc_events c) s" "set (cs_origins s) = cu_id ` set (cc_items c)" "cs_prev s = Some (last (cc_events c))"
proof -
  obtain s where s: "scan_custody h (cc_id c) (cc_engagement c) (cc_items c) 0 (cc_events c) no_scan = Inr s"
    "set (cs_origins s) = cu_id ` set (cc_items c)" "cc_events c \<noteq> []"
    using assms by (auto simp: case_valid_def case_make_def case_init_Inr validate_custody_def bindE_Inr req_Inr)
  have "list_all custody_event_ok (cc_events c)" using assms by (simp add: case_valid_def)
  from scan_custody_sound [OF s(1) this] have "scanned (cc_events c) s" by simp
  with s that show ?thesis by (simp add: scanned_def)
qed

lemma append_same_items:
  assumes ok: "case_ok h c"
    and s: "scan_custody h (cc_id c) (cc_engagement c) (cc_items c) 0 (cc_events c) no_scan = Inr s"
    and e: "new_event h (cc_id c) (cc_engagement c) (length (cc_events c)) ty x evid details (Some (last (cc_events c))) = Inr e"
    and t: "custody_step (cc_items c) e s = Inr t" "cs_origins t = cs_origins s"
    and at: "time_of (ce_at (last (cc_events c))) \<le> time_of (cn_at x)"
  shows "append_custody h c ty x evid details (cc_items c) = Inr (c\<lparr>cc_events := cc_events c @ [e]\<rparr>)"
proof -
  have "cs_prev s = Some (last (cc_events c))" "set (cs_origins s) = cu_id ` set (cc_items c)"
    using case_scan_state [OF case_ok_valid [OF ok]] s by (metis sum.inject(2))+
  then have "scan_custody h (cc_id c) (cc_engagement c) (cc_items c) 0 (cc_events c @ [e]) no_scan
      = Inr (t\<lparr>cs_prev := Some e\<rparr>)"
    unfolding scan_custody_snoc using s t(1) at new_event_Inr [OF e] by simp
  then have "validate_custody h (cc_id c) (cc_engagement c) (cc_items c) (cc_events c @ [e]) = Inr ()"
    using t(2) \<open>set (cs_origins s) = _\<close> by (simp add: validate_custody_def)
  then have "case_init h (PInt 1) (PStr (cc_id c)) (PStr (cc_engagement c)) (cc_handling c) (cc_items c)
      (cc_events c @ [e]) = Inr (c\<lparr>cc_events := cc_events c @ [e]\<rparr>)"
    using ok by (simp add: case_ok_def case_make_def case_init_Inr)
  then show ?thesis by (simp add: append_custody_def e)
qed

lemma append_needs_order:
  assumes "append_custody h c ty x evid details items = Inr c'" "case_ok h c"
  shows "time_of (ce_at (last (cc_events c))) \<le> time_of (cn_at x)"
proof -
  obtain e where e: "new_event h (cc_id c) (cc_engagement c) (length (cc_events c)) ty x evid details
      (Some (last (cc_events c))) = Inr e"
    and i: "case_init h (PInt 1) (PStr (cc_id c)) (PStr (cc_engagement c)) (cc_handling c) items (cc_events c @ [e]) = Inr c'"
    by (rule append_custody_Inr [OF assms(1)])
  have "list_all custody_event_ok (cc_events c @ [e])"
    using assms(2) new_event_Inr(1) [OF e] by (simp add: case_ok_def)
  moreover have ev: "cc_events c' = cc_events c @ [e]" using i by (simp add: case_init_Inr)
  ultimately have "case_valid h c'"
    using i
    by (auto simp: case_valid_def case_make_def case_init_Inr sort_key_id_if_sorted) (metis length_0_conv length_sort)
  from case_times [OF this, of "last (cc_events c)"] have "time_of (ce_at (last (cc_events c))) \<le> time_of (ce_at e)"
    using case_facts(2) [OF assms(2)] by (simp add: ev)
  then show ?thesis using new_event_Inr(7) [OF e] by simp
qed

section \<open>Transfers\<close>

definition ident_ok :: "string \<Rightarrow> bool" where
  "ident_ok s \<longleftrightarrow> trimmed s \<and> id_pattern s"

text \<open>What a note must look like to become an event of a case.\<close>

definition note_ok :: "custody_case \<Rightarrow> custody_note \<Rightarrow> bool" where
  "note_ok c x \<longleftrightarrow> ident_ok (cn_event x) \<and> ident_ok (cn_actor x) \<and> trimmed (cn_reason x)
     \<and> trimmed (cn_at x) \<and> is_timestamp (cn_at x)
     \<and> time_of (ce_at (last (cc_events c))) \<le> time_of (cn_at x)"

lemma transfer_details:
  "custody_details [(''from_custodian'', a), (''to_custodian'', b)]
     = Inr [(''from_custodian'', a), (''to_custodian'', b)] \<longleftrightarrow> trimmed a \<and> trimmed b"
proof -
  have "trimmed ''from_custodian'' \<and> trimmed ''to_custodian'' \<and> \<not> secret_like ''from_custodian''
      \<and> \<not> secret_like ''to_custodian'' \<and> ''from_custodian'' < ''to_custodian''"
    by code_simp
  moreover from this have "sort [(''from_custodian'', a), (''to_custodian'', b)] = [(''from_custodian'', a), (''to_custodian'', b)]"
    by simp
  ultimately show ?thesis by (simp add: custody_details_Inr)
qed

lemma hex_hash_sha: "hex_hash h \<Longrightarrow> trimmed (h s) \<and> length (h s) = 64 \<and> list_all is_hex_lower (h s)"
  using hex_hash_text [of h ECE s "[]"] by (auto simp: sha256_text_Inr)

lemma item_ident:
  assumes "case_ok h c" "i \<in> cu_id ` set (cc_items c)"
  shows "ident_ok i"
proof -
  obtain s where s: "scanned (cc_events c) s" "set (cs_origins s) = cu_id ` set (cc_items c)"
    using case_scanned [OF case_ok_valid [OF assms(1)]] by metis
  then obtain e where "e \<in> set (cc_events c)" "ce_evidence e = Some i" using scanned_origins [OF s(1)] assms(2) by blast
  with case_facts(7) [OF assms(1)] show ?thesis
    by (auto simp: list_all_iff custody_event_ok_def custody_event_make_def custody_event_init_Inr ident_ok_def)
qed

lemma new_event_accepted:
  assumes "case_ok h c" "hex_hash h" "note_ok c x" "ty \<in> set custody_events" "\<forall>i. evid = Some i \<longrightarrow> ident_ok i"
    "custody_details details = Inr details'"
  shows "\<exists>e. new_event h (cc_id c) (cc_engagement c) (length (cc_events c)) ty x evid details (Some (last (cc_events c))) = Inr e
    \<and> ce_details e = details'"
proof -
  define e where "e = \<lparr>ce_id = cn_event x, ce_case = cc_id c, ce_engagement = cc_engagement c,
    ce_seq = int (length (cc_events c)), ce_type = ty, ce_at = cn_at x, ce_actor = cn_actor x, ce_reason = cn_reason x,
    ce_evidence = evid, ce_details = details', ce_prev = Some (custody_event_fp h (last (cc_events c)))\<rparr>"
  have "ident_ok (cc_id c) \<and> ident_ok (cc_engagement c)"
    using assms(1) by (simp add: case_ok_def case_make_def case_init_Inr ident_ok_def)
  then have "new_event h (cc_id c) (cc_engagement c) (length (cc_events c)) ty x evid details (Some (last (cc_events c))) = Inr e"
    using assms(3-6) hex_hash_sha [OF assms(2)]
    by (simp add: new_event_def custody_event_init_Inr e_def note_ok_def ident_ok_def custody_event_fp_def fingerprint_def)
  then show ?thesis by (auto simp: e_def)
qed

lemma transfer_accepted:
  assumes ok: "case_ok h c" "hex_hash h" and x: "note_ok c x" and i: "current_custodian c i None = Inr (cn_actor x)"
    and to: "ident_ok to" "to \<noteq> cn_actor x"
  obtains e where "transfer_custody h c i to x = Inr (c\<lparr>cc_events := cc_events c @ [e]\<rparr>)"
    "ce_type e = ''transferred''" "ce_evidence e = Some i" "ce_detail e ''to_custodian'' = Some to"
proof -
  have h: "i \<in> cu_id ` set (cc_items c)" "holder i (cc_events c) = Some (cn_actor x)"
    using i by (simp_all add: current_custodian_None who_holds_def)
  obtain s where s: "scan_custody h (cc_id c) (cc_engagement c) (cc_items c) 0 (cc_events c) no_scan = Inr s"
    "scanned (cc_events c) s" using case_scan_state [OF case_ok_valid [OF ok(1)]] by metis
  have "custody_details [(''from_custodian'', cn_actor x), (''to_custodian'', to)]
      = Inr [(''from_custodian'', cn_actor x), (''to_custodian'', to)]"
    using x to by (simp add: transfer_details note_ok_def ident_ok_def)
  then obtain e where e: "new_event h (cc_id c) (cc_engagement c) (length (cc_events c)) ''transferred'' x (Some i)
      [(''from_custodian'', cn_actor x), (''to_custodian'', to)] (Some (last (cc_events c))) = Inr e"
    "ce_details e = [(''from_custodian'', cn_actor x), (''to_custodian'', to)]"
    using new_event_accepted [OF ok x, of "''transferred''" "Some i"] item_ident [OF ok(1) h(1)]
    by (auto simp: custody_events_def)
  note ev = new_event_Inr [OF e(1)]
  have d: "ce_detail e ''from_custodian'' = Some (cn_actor x)" "ce_detail e ''to_custodian'' = Some to"
    by (simp_all add: ce_detail_def e(2))
  have "map_of (cs_custodians s) i = Some (cn_actor x)" using s(2) h(2) by (simp add: scanned_def)
  then have "custody_step (cc_items c) e s = Inr (s\<lparr>cs_custodians := AList.update i to (cs_custodians s)\<rparr>)"
    using ev d x to
    by (simp add: custody_step_def transfer_event_def note_ok_def ident_ok_def ident_text_def required_text_PStr)
  from append_same_items [OF ok(1) s(1) e(1) this] x
  have a: "append_custody h c ''transferred'' x (Some i) [(''from_custodian'', cn_actor x), (''to_custodian'', to)] (cc_items c)
      = Inr (c\<lparr>cc_events := cc_events c @ [e]\<rparr>)" by (simp add: note_ok_def)
  have "current_custodian c i (Some (cn_at x)) = Inr (cn_actor x)"
    using current_custodian_later [of c "cn_at x" i] x i case_times [OF case_ok_valid [OF ok(1)]]
    by (fastforce simp: note_ok_def)
  then have "transfer_custody h c i to x = Inr (c\<lparr>cc_events := cc_events c @ [e]\<rparr>)"
    using a to by (simp add: transfer_custody_def ident_ok_def ident_text_def required_text_PStr)
  with that ev(6,9) d(2) show ?thesis by blast
qed

lemma transfer_needs:
  assumes "transfer_custody h c i to x = Inr c'" "case_ok h c"
  shows "note_ok c x \<and> current_custodian c i None = Inr (cn_actor x) \<and> ident_ok to \<and> to \<noteq> cn_actor x"
proof -
  have t: "current_custodian c i (Some (cn_at x)) = Inr (cn_actor x)" "ident_ok to" "to \<noteq> cn_actor x"
    and a: "append_custody h c ''transferred'' x (Some i) [(''from_custodian'', cn_actor x), (''to_custodian'', to)]
      (cc_items c) = Inr c'"
    using assms(1) by (auto simp: transfer_custody_def bindE_Inr req_Inr ident_text_Inr ident_ok_def)
  obtain e where e: "new_event h (cc_id c) (cc_engagement c) (length (cc_events c)) ''transferred'' x (Some i)
      [(''from_custodian'', cn_actor x), (''to_custodian'', to)] (Some (last (cc_events c))) = Inr e"
    by (rule append_custody_Inr [OF a])
  have n: "note_ok c x"
    using e append_needs_order [OF a assms(2)]
    by (simp add: note_ok_def ident_ok_def new_event_def custody_event_init_Inr)
  have "\<forall>e\<in>set (cc_events c). time_of (ce_at e) \<le> time_of (cn_at x)"
    using case_times [OF case_ok_valid [OF assms(2)]] n by (fastforce simp: note_ok_def)
  from current_custodian_later [OF this] t n show ?thesis by (simp add: note_ok_def)
qed

end
