(* ===== verification/CustodyExport.thy ===== *)
theory CustodyExport
  imports CustodyMoves
begin

text \<open>
  Manifests and exports: exactly when they can be made, what is in them, and the advance of
  the store to the case an operation gave.
\<close>

section \<open>Manifests\<close>

lemma evidence_fields:
  "evidence_ok r \<Longrightarrow> trimmed (er_night r) \<and> trimmed (er_type r) \<and> trimmed (er_observed r)"
  "evidence_ok r \<Longrightarrow> iso_parse (er_observed r) \<noteq> None"
proof -
  have "list_all trimmed valid_nights" by code_simp
  then show "evidence_ok r \<Longrightarrow> trimmed (er_night r) \<and> trimmed (er_type r) \<and> trimmed (er_observed r)"
    "evidence_ok r \<Longrightarrow> iso_parse (er_observed r) \<noteq> None"
    by (auto simp: evidence_ok_def evidence_make_def evidence_init_def bindE_Inr req_Inr required_text_Inr
        member_value_Inr iso8601_text_def list_all_iff)
qed

text \<open>The entry of an item, as a value.\<close>

definition entry_value :: "(string \<Rightarrow> string) \<Rightarrow> custodied \<Rightarrow> manifest_entry" where
  "entry_value h i =
     \<lparr>me_id = cu_id i, me_night = er_night (cu_record i), me_type = er_type (cu_record i),
      me_observed = er_observed (cu_record i), me_class = cu_class i, me_until = cu_until i, me_record = cu_fp i,
      me_custodied = custodied_fingerprint h i, me_parents = cu_parents i\<rparr>"

lemma custodied_facts:
  assumes "custodied_ok h i"
  shows "cu_fp i = record_fingerprint h (cu_record i)" "cu_class i \<in> set classifications"
    "trimmed (cu_until i)" "is_timestamp (cu_until i)"
    "sorted_unique_ids ''parent_evidence_ids'' (map PStr (cu_parents i)) = Inr (cu_parents i)"
  using assms given_fingerprint_Inr by (auto simp: custodied_ok_def custodied_make_def custodied_init_Inr)

lemma entry_of_iff:
  assumes "custodied_ok h i" "ident_ok (cu_id i)" "hex_hash h"
  shows "entry_of h i = Inr m \<longleftrightarrow> m = entry_value h i \<and> is_timestamp (er_observed (cu_record i))"
proof -
  have "evidence_ok (cu_record i)" using assms(1) by (simp add: custodied_ok_def)
  note ev = evidence_fields(1) [OF this] and cu = custodied_facts [OF assms(1)]
  have fp: "trimmed (cu_fp i) \<and> length (cu_fp i) = 64 \<and> list_all is_hex_lower (cu_fp i)"
    using hex_hash_sha [OF assms(3)] by (simp add: cu(1) record_fingerprint_def)
  show ?thesis
    using ev cu(2-5) fp assms(2) hex_hash_sha [OF assms(3)]
    by (cases m) (auto simp: entry_of_def manifest_entry_init_Inr entry_value_def ident_ok_def custodied_fingerprint_def
        fingerprint_def)
qed

definition observed_ok :: "custody_case \<Rightarrow> bool" where
  "observed_ok c \<longleftrightarrow> (\<forall>i\<in>set (cc_items c). is_timestamp (er_observed (cu_record i)))"

lemma entries_of_iff:
  assumes "case_ok h c" "hex_hash h"
  shows "mapE (entry_of h) (cc_items c) = Inr es \<longleftrightarrow> es = map (entry_value h) (cc_items c) \<and> observed_ok c"
proof -
  have e: "entry_of h i = Inr m \<longleftrightarrow> m = entry_value h i \<and> is_timestamp (er_observed (cu_record i))"
    if "i \<in> set (cc_items c)" for i m
    using entry_of_iff [OF case_facts(6) [OF assms(1) that] _ assms(2)] item_ident [OF assms(1)] that by blast
  show ?thesis
    unfolding mapE_Inr_iff list_all2_conv_all_nth observed_ok_def
    by (auto simp: e list_eq_iff_nth_eq all_set_conv_all_nth)
qed

definition manifest_value :: "(string \<Rightarrow> string) \<Rightarrow> custody_case \<Rightarrow> string \<Rightarrow> manifest" where
  "manifest_value h c at =
     \<lparr>mf_case = cc_id c, mf_engagement = cc_engagement c, mf_at = at, mf_case_fp = case_fp h c,
      mf_entries = map (entry_value h) (cc_items c)\<rparr>"

lemma sorted_items: "case_ok h c \<Longrightarrow> sorted (map cu_id (cc_items c))"
  by (metis case_facts(8) sorted_sort_key)

lemma entry_ids: "me_id \<circ> entry_value h = cu_id"
  by (simp add: fun_eq_iff entry_value_def)

lemma case_manifest_iff:
  assumes "case_ok h c" "hex_hash h"
  shows "case_manifest h c at = Inr m \<longleftrightarrow> m = manifest_value h c at \<and> trimmed at \<and> is_timestamp at
    \<and> time_of (ce_at (last (cc_events c))) \<le> time_of at \<and> observed_ok c"
proof -
  have "sort_key me_id (map (entry_value h) (cc_items c)) = map (entry_value h) (cc_items c)"
    using sorted_items [OF assms(1)] by (simp add: sort_key_id_if_sorted entry_ids)
  moreover have "distinct (map me_id (map (entry_value h) (cc_items c)))"
    using case_facts(3) [OF assms(1)] by (simp add: entry_ids)
  moreover have "ident_ok (cc_id c) \<and> ident_ok (cc_engagement c)"
    using assms(1) by (simp add: case_ok_def case_make_def case_init_Inr ident_ok_def)
  ultimately show ?thesis
    using hex_hash_sha [OF assms(2)]
    by (cases m)
      (auto simp: case_manifest_def bindE_Inr req_Inr iso8601_Inr entries_of_iff [OF assms] manifest_init_Inr
        manifest_value_def ident_ok_def case_fp_def fingerprint_def)
qed

section \<open>Exports\<close>

definition exportable :: "custody_case \<Rightarrow> string \<Rightarrow> bool" where
  "exportable c at \<longleftrightarrow> dh_export (cc_handling c)
     \<and> (\<forall>i\<in>set (cc_items c). cu_export i \<and> time_of at < time_of (cu_until i))"

lemma retention_status_map:
  "trimmed at \<Longrightarrow> is_timestamp at \<Longrightarrow> mapE (retention_status at) is
     = Inr (map (\<lambda>i. if time_of (cu_until i) \<le> time_of at then ''expired'' else ''retained'') is)"
  using iso8601_Inr [of ECE "PStr at" "''at''" at]
  by (induction "is") (simp_all add: retention_status_def)

lemma expired_none:
  "filter (\<lambda>(i, st). st = ''expired'') (zip is (map (\<lambda>i. if P i then ''expired'' else ''retained'') is)) = []
     \<longleftrightarrow> (\<forall>i\<in>set is. \<not> P i)"
  by (induction "is") simp_all

lemma assert_exportable_iff:
  "assert_exportable c at = Inr u \<longleftrightarrow> trimmed at \<and> is_timestamp at \<and> exportable c at"
proof (cases "trimmed at \<and> is_timestamp at")
  case True
  then have i: "iso8601 ECE (PStr at) ''at'' = Inr at" by (simp add: iso8601_Inr)
  have r: "mapE (retention_status at) (cc_items c) =
      Inr (map (\<lambda>i. if time_of (cu_until i) \<le> time_of at then ''expired'' else ''retained'') (cc_items c))"
    using True by (intro retention_status_map) simp_all
  show ?thesis
    using True expired_none [of "cc_items c" "\<lambda>i. time_of (cu_until i) \<le> time_of at"]
    by (auto simp: assert_exportable_def i r Let_def req_Inr exportable_def list_all_iff linorder_not_le)
next
  case False
  then have "iso8601 ECE (PStr at) ''at'' \<noteq> Inr s" for s by (auto simp: iso8601_Inr)
  with False show ?thesis by (auto simp: assert_exportable_def bindE_Inr)
qed

lemma destination_details: "custody_details [(''destination'', d)] = Inr [(''destination'', d)] \<longleftrightarrow> trimmed d"
proof -
  have "trimmed ''destination'' \<and> \<not> secret_like ''destination''" by code_simp
  then show ?thesis by (simp add: custody_details_Inr)
qed

lemma record_ids: "er_id \<circ> cu_record = cu_id"
  by (simp add: fun_eq_iff cu_id_def)

text \<open>The bundle of a case, as a value.\<close>

definition bundle_value :: "(string \<Rightarrow> string) \<Rightarrow> custody_case \<Rightarrow> string \<Rightarrow> export_bundle" where
  "bundle_value h c at =
     \<lparr>eb_case = c, eb_manifest = manifest_value h c at, eb_records = map cu_record (cc_items c)\<rparr>"

lemma bundle_accepted:
  assumes "case_ok h c"
  shows "bundle_init h (PInt 1) (PStr ''none'') c (manifest_value h c at) (map cu_record (cc_items c))
    = Inr (bundle_value h c at)"
proof -
  have "sort_key er_id (map cu_record (cc_items c)) = map cu_record (cc_items c)"
    using sorted_items [OF assms] by (simp add: sort_key_id_if_sorted record_ids)
  moreover have "(\<lambda>r. (er_id r, record_fingerprint h r)) ` set (map cu_record (cc_items c))
      = (\<lambda>i. (cu_id i, cu_fp i)) ` set (cc_items c)"
    using custodied_facts(1) [OF case_facts(6) [OF assms]] by (simp add: image_image cu_id_def)
  moreover have "me_id ` entry_value h ` set (cc_items c) = cu_id ` set (cc_items c)"
    by (simp add: image_image entry_value_def)
  ultimately show ?thesis
    using case_facts(3) [OF assms]
    by (simp add: bundle_init_Inr bundle_value_def manifest_value_def record_ids image_image)
qed

lemma export_accepted:
  assumes ok: "case_ok h c" "hex_hash h" and x: "note_ok c x" "trimmed d" and g: "exportable c (cn_at x)" "observed_ok c"
  obtains e where "export_case h c d x
      = Inr (c\<lparr>cc_events := cc_events c @ [e]\<rparr>, bundle_value h (c\<lparr>cc_events := cc_events c @ [e]\<rparr>) (cn_at x))"
    "ce_type e = ''exported''" "ce_detail e ''destination'' = Some d" "ce_at e = cn_at x" "ce_actor e = cn_actor x"
proof -
  obtain s where s: "scan_custody h (cc_id c) (cc_engagement c) (cc_items c) 0 (cc_events c) no_scan = Inr s"
    using case_scan_state [OF case_ok_valid [OF ok(1)]] by metis
  have "custody_details [(''destination'', d)] = Inr [(''destination'', d)]" using x by (simp add: destination_details)
  from new_event_accepted [OF ok x(1), of "''exported''" None, OF _ _ this]
  obtain e where e: "new_event h (cc_id c) (cc_engagement c) (length (cc_events c)) ''exported'' x None
      [(''destination'', d)] (Some (last (cc_events c))) = Inr e" "ce_details e = [(''destination'', d)]"
    by (auto simp: custody_events_def)
  note ev = new_event_Inr [OF e(1)]
  have d: "ce_detail e ''destination'' = Some d" by (simp add: ce_detail_def e(2))
  then have "custody_step (cc_items c) e s = Inr s"
    using ev x(2) by (simp add: custody_step_def export_event_def required_text_PStr)
  from append_same_items [OF ok(1) s e(1) this] x(1)
  have a: "append_custody h c ''exported'' x None [(''destination'', d)] (cc_items c)
      = Inr (c\<lparr>cc_events := cc_events c @ [e]\<rparr>)" (is "_ = Inr ?c") by (simp add: note_ok_def)
  have c: "case_ok h ?c" by (rule append_custody_ok [OF a ok(1)]) (use ok(1) in \<open>simp add: case_ok_def\<close>)
  have "case_manifest h ?c (cn_at x) = Inr (manifest_value h ?c (cn_at x))"
    using x(1) g(2) ev(7) by (simp add: case_manifest_iff [OF c ok(2)] note_ok_def observed_ok_def)
  moreover have "assert_exportable c (cn_at x) = Inr ()" using x(1) g(1) by (simp add: assert_exportable_iff note_ok_def)
  ultimately have "export_case h c d x = Inr (?c, bundle_value h ?c (cn_at x))"
    using x(2) a bundle_accepted [OF c, of "cn_at x"] by (simp add: export_case_def required_text_PStr)
  with that ev(6,7,8) d show ?thesis by blast
qed

lemma export_needs:
  assumes "export_case h c d x = Inr r" "case_ok h c" "hex_hash h"
  shows "note_ok c x \<and> trimmed d \<and> exportable c (cn_at x) \<and> observed_ok c"
proof -
  obtain c' b where r: "export_case h c d x = Inr (c', b)" using assms(1) by (cases r) simp
  note p = export_case_Inr [OF r]
  obtain e where e: "new_event h (cc_id c) (cc_engagement c) (length (cc_events c)) ''exported'' x None
      [(''destination'', d)] (Some (last (cc_events c))) = Inr e"
    "c' = c\<lparr>cc_items := sort_key cu_id (cc_items c), cc_events := cc_events c @ [e]\<rparr>"
    by (rule append_custody_Inr [OF p(3)])
  have c: "case_ok h c'" by (rule append_custody_ok [OF p(3) assms(2)]) (use assms(2) in \<open>simp add: case_ok_def\<close>)
  have "observed_ok c'" using p(4) case_manifest_iff [OF c assms(3)] by blast
  moreover have "note_ok c x"
    using e(1) append_needs_order [OF p(3) assms(2)]
    by (simp add: note_ok_def ident_ok_def new_event_def custody_event_init_Inr)
  ultimately show ?thesis
    using p(1,2) assert_exportable_iff [of c "cn_at x" "()"] by (simp add: observed_ok_def e(2))
qed

lemma manifest_value_ok:
  assumes "case_ok h c" "hex_hash h" "case_manifest h c at = Inr m"
  shows "manifest_ok m"
proof -
  obtain es where es: "mapE (entry_of h) (cc_items c) = Inr es"
    "manifest_init (PInt 1) (PStr (cc_id c)) (PStr (cc_engagement c)) (PStr at) (PStr (case_fp h c)) es (PStr ''none'') = Inr m"
    using assms(3) by (auto simp: case_manifest_def bindE_Inr req_Inr iso8601_Inr)
  have "list_all (\<lambda>e. manifest_entry_make e = Inr e) es"
    using es(1) by (auto simp: mapE_Inr_iff list_all2_conv_all_nth list_all_length entry_of_def dest!: manifest_entry_made)
  from manifest_made [OF es(2) this] show ?thesis .
qed

lemma export_bundle_ok:
  assumes "export_case h c d x = Inr (c', b)" "case_ok h c" "hex_hash h"
  shows "bundle_ok h b"
proof -
  note p = export_case_Inr [OF assms(1)]
  have c: "case_ok h c'" by (rule append_custody_ok [OF p(3) assms(2)]) (use assms(2) in \<open>simp add: case_ok_def\<close>)
  obtain m where m: "case_manifest h c' (cn_at x) = Inr m"
    "bundle_init h (PInt 1) (PStr ''none'') c' m (map cu_record (cc_items c')) = Inr b" using p(4) by blast
  show ?thesis
    by (rule bundle_made [OF m(2) c manifest_value_ok [OF c assms(3) m(1)]])
      (use c in \<open>simp add: case_ok_def custodied_ok_def list_all_iff\<close>)
qed

section \<open>The store takes what an operation gives\<close>

lemma cmem_advance_accepts:
  assumes "map_of m (cc_id c) = Some c" "case_grows c d" "distinct (map cu_id (cc_items d))"
  shows "cmem_advance h d m = Inr (AList.update (cc_id c) d m)"
proof -
  have g: "cc_id d = cc_id c" "cc_engagement d = cc_engagement c" "cc_handling d = cc_handling c"
    "set (cc_items c) \<subseteq> set (cc_items d)" using assms(2) by (simp_all add: case_grows_def)
  obtain es where es: "cc_events d = cc_events c @ es" using assms(2) by (auto simp: case_grows_def prefix_def)
  have "kept_items (cc_items c) (cc_items d)"
    unfolding kept_items_def list_all_iff
  proof
    fix i assume "i \<in> set (cc_items c)"
    then have "item_of (cc_items d) (cu_id i) = Some i" using g(4) by (intro item_of_mem assms(3)) blast
    then show "case item_of (cc_items d) (cu_id i) of None \<Rightarrow> False | Some j \<Rightarrow> custodied_eq j i"
      by (simp add: custodied_eq_refl)
  qed
  with assms(1) g(1-3) show ?thesis by (simp add: cmem_advance_def es Let_def)
qed

end
