(* ===== verification/CustodyProps.thy ===== *)
theory CustodyProps
  imports CustodyExport PolicyProps
begin

text \<open>
  The properties of evidence custody: what a case that is read satisfies, what its operations
  and its store keep, when a transfer or an export succeeds and what it hands over.
\<close>

section \<open>A sample case\<close>

definition custody_record :: evidence where
  "custody_record =
     \<lparr>er_engagement = ''ENG-1'', er_id = ''E-1'', er_night = ''red'', er_type = ''port'',
      er_observed = ''2024-01-02T00:00:00Z'', er_provenance = ''scan'',
      er_data = PDict [(''port'', PInt 22)], er_limitations = [''single probe'']\<rparr>"

definition naive_record :: evidence where
  "naive_record = custody_record\<lparr>er_observed := ''2024-01-02T00:00:00''\<rparr>"

definition sample_handling :: data_handling where
  "sample_handling = \<lparr>dh_class = ''confidential'', dh_days = 30, dh_export = True, dh_notes = None\<rparr>"

definition ingest_note :: custody_note where
  "ingest_note = \<lparr>cn_event = ''EV-1'', cn_actor = ''alice'', cn_at = ''2024-01-03T00:00:00Z'', cn_reason = ''intake''\<rparr>"

definition move_note :: custody_note where
  "move_note = \<lparr>cn_event = ''EV-2'', cn_actor = ''alice'', cn_at = ''2024-01-04T00:00:00Z'', cn_reason = ''handover''\<rparr>"

definition sample_case :: custody_case where
  "sample_case = projr (case_create toy_hash ''CASE-1'' ''ENG-1'' sample_handling custody_record ''alice'' None ingest_note)"

definition naive_case :: custody_case where
  "naive_case = projr (case_create toy_hash ''CASE-1'' ''ENG-1'' sample_handling naive_record ''alice'' None ingest_note)"

lemma custody_record_ok: "evidence_ok custody_record" "evidence_ok naive_record" "data_handling_ok sample_handling"
  by code_simp+

lemma sample_case_created:
  "is_ok (case_create toy_hash ''CASE-1'' ''ENG-1'' sample_handling custody_record ''alice'' None ingest_note)"
  by code_simp

lemma sample_case_is: "case_create toy_hash ''CASE-1'' ''ENG-1'' sample_handling custody_record ''alice'' None ingest_note
    = Inr sample_case"
  using sample_case_created by (simp add: sample_case_def is_ok_projr)

lemma sample_case_ok: "case_ok toy_hash sample_case"
  by (rule case_create_ok [OF sample_case_is toy_hash_hex custody_record_ok(1,3)])

lemma case_create_facts:
  assumes "case_create h cid gid dh r who cls x = Inr c"
  shows "cc_id c = cid" "cc_engagement c = gid" "cc_handling c = dh"
    "\<exists>i. cc_items c = [i] \<and> cu_record i = r \<and> cu_from i = cn_at x \<and> cu_export i = dh_export dh
       \<and> plus_days_text (cn_at x) (dh_days dh) = Inr (cu_until i)"
    "\<exists>e. cc_events c = [e] \<and> ce_at e = cn_at x \<and> ce_type e = ''ingested'' \<and> ce_evidence e = Some (er_id r)
       \<and> ce_detail e ''custodian_id'' = Some who"
proof -
  obtain i e where i: "custodied_item h r dh (cn_at x) [] cls = Inr i"
    and e: "new_event h cid gid 0 ''ingested'' x (Some (er_id r)) [(''custodian_id'', who)] None = Inr e"
    and c: "case_init h (PInt 1) (PStr cid) (PStr gid) dh [i] [e] = Inr c"
    using assms(1) by (auto simp: case_create_def req_Inr bindE_Inr)
  have "c = \<lparr>cc_id = cid, cc_engagement = gid, cc_handling = dh, cc_items = [i], cc_events = [e]\<rparr>"
    using c by (cases c) (simp add: case_init_Inr)
  then show "cc_id c = cid" "cc_engagement c = gid" "cc_handling c = dh"
    "\<exists>i. cc_items c = [i] \<and> cu_record i = r \<and> cu_from i = cn_at x \<and> cu_export i = dh_export dh
       \<and> plus_days_text (cn_at x) (dh_days dh) = Inr (cu_until i)"
    "\<exists>e. cc_events c = [e] \<and> ce_at e = cn_at x \<and> ce_type e = ''ingested'' \<and> ce_evidence e = Some (er_id r)
       \<and> ce_detail e ''custodian_id'' = Some who"
    using custodied_item_Inr [OF i] new_event_Inr [OF e] by (simp_all add: ce_detail_def)
qed

lemma case_json_back: "case_ok h c \<Longrightarrow> case_from_json h (case_to_json h c) = Inr c"
  using case_codec.read_text [of h c False] by (auto simp: case_from_json_def case_to_json_def)

section \<open>Cases\<close>

lemma case_origins:
  assumes "case_valid h c" "i \<in> set (cc_items c)"
  shows "\<exists>!k. k < length (cc_events c) \<and> is_origin (cc_events c ! k) \<and> ce_evidence (cc_events c ! k) = Some (cu_id i)"
proof -
  let ?es = "cc_events c"
  obtain s where s: "scanned ?es s" "set (cs_origins s) = cu_id ` set (cc_items c)"
    "\<forall>k<length ?es. sound_event (cc_items c) (take k ?es) (?es ! k)"
    by (rule case_scanned [OF assms(1)])
  have once: "ce_evidence (?es ! j) \<noteq> ce_evidence (?es ! k)"
    if "j < k" "k < length ?es" "is_origin (?es ! j)" "is_origin (?es ! k)" for j k
  proof -
    have "?es ! j \<in> set (take k ?es)" using that by (auto simp: in_set_conv_nth)
    with s(3) that show ?thesis by (auto simp: sound_event_def)
  qed
  obtain k where "k < length ?es" "is_origin (?es ! k)" "ce_evidence (?es ! k) = Some (cu_id i)"
    using scanned_origins [OF s(1), of "cu_id i"] s(2) assms(2) by (auto simp: in_set_conv_nth)
  then show ?thesis by (intro ex1I [of _ k]) (auto, metis once linorder_neqE_nat)
qed

text \<open>C25: whatever text is read as a custody case, its events are numbered from zero without a gap,
  in chronological order and chained by fingerprints; every item has exactly one origin event, at
  the start of its retention and after the origins of everything it derives from; no item is
  classified below the policy of the engagement; and every transfer was made by the custodian who
  held the item at that moment.\<close>
lemma custody_case_read_is_sound:
  assumes "case_from_json h text = Inr c"
  shows "map ce_seq (cc_events c) = map int [0..<length (cc_events c)]
    \<and> sorted (map (\<lambda>e. time_of (ce_at e)) (cc_events c))
    \<and> chained (custody_event_fp h) ce_prev None (cc_events c)
    \<and> distinct (map cu_id (cc_items c))
    \<and> (\<forall>i\<in>set (cc_items c). class_rank (dh_class (cc_handling c)) \<le> class_rank (cu_class i)
        \<and> (\<exists>!k. k < length (cc_events c) \<and> is_origin (cc_events c ! k)
             \<and> ce_evidence (cc_events c ! k) = Some (cu_id i)))
    \<and> (\<forall>k<length (cc_events c). sound_event (cc_items c) (take k (cc_events c)) (cc_events c ! k))"
proof -
  have v: "case_valid h c" by (rule case_from_json_valid [OF assms])
  then have "distinct (map cu_id (cc_items c))
    \<and> (\<forall>i\<in>set (cc_items c). class_rank (dh_class (cc_handling c)) \<le> class_rank (cu_class i))"
    by (auto simp: case_valid_def case_make_def case_init_Inr)
  moreover have "map ce_seq (cc_events c) = map int [0..<length (cc_events c)]
    \<and> sorted (map (\<lambda>e. time_of (ce_at e)) (cc_events c)) \<and> chained (custody_event_fp h) ce_prev None (cc_events c)
    \<and> (\<forall>k<length (cc_events c). sound_event (cc_items c) (take k (cc_events c)) (cc_events c ! k))"
    by (rule case_scanned [OF v]) blast
  ultimately show ?thesis using case_origins [OF v] by blast
qed

lemma custody_case_read_is_sound_witness:
  "chained (custody_event_fp toy_hash) ce_prev None (cc_events sample_case)"
  using custody_case_read_is_sound [OF case_json_back [OF sample_case_ok]] by blast

text \<open>C26: over any sequence of operations on a case, failed ones included, its identity and its
  data-handling policy stay, no item and no event is changed or removed, the result passes the
  constructor again, and a store that holds the case accepts the result as its advance.\<close>
lemma custody_operations_extend:
  assumes "case_ok h c" "hex_hash h" "map_of m (cc_id c) = Some c"
  shows "case_ok h (fold (custody_do h) ops c) \<and> case_grows c (fold (custody_do h) ops c)
    \<and> cmem_advance h (fold (custody_do h) ops c) m = Inr (AList.update (cc_id c) (fold (custody_do h) ops c) m)"
proof -
  have d: "case_ok h (fold (custody_do h) ops c)" "case_grows c (fold (custody_do h) ops c)"
    using case_machine.inv_run [of h c ops] case_machine.le_run [of h c ops] assms(1,2) by simp_all
  with cmem_advance_accepts [OF assms(3) d(2) case_facts(3) [OF d(1)]] show ?thesis by simp
qed

lemma custody_operations_extend_witness:
  "prefix (cc_events sample_case) (cc_events (fold (custody_do toy_hash) [CoTransfer ''E-1'' ''bob'' move_note] sample_case))"
  using custody_operations_extend [OF sample_case_ok toy_hash_hex, of "[(''CASE-1'', sample_case)]"
      "[CoTransfer ''E-1'' ''bob'' move_note]"] case_create_facts(1) [OF sample_case_is]
  by (simp add: case_grows_def del: fold.simps)

section \<open>Transfers\<close>

text \<open>C27: a transfer succeeds exactly when the item is in the case, the actor holds it, the receiver
  is another valid identity and the note is well formed and not before the last event; the result
  has one more event, the receiver holds the item, and every other item keeps its custodian.\<close>
lemma transfer_hands_over:
  assumes "case_ok h c" "hex_hash h"
  shows "is_ok (transfer_custody h c i to x) =
      (note_ok c x \<and> current_custodian c i None = Inr (cn_actor x) \<and> ident_ok to \<and> to \<noteq> cn_actor x)
    \<and> (\<forall>c'. transfer_custody h c i to x = Inr c' \<longrightarrow> cc_items c' = cc_items c
        \<and> (\<exists>e. cc_events c' = cc_events c @ [e]) \<and> current_custodian c' i None = Inr to
        \<and> (\<forall>j a. j \<noteq> i \<longrightarrow> (current_custodian c' j None = Inr a) = (current_custodian c j None = Inr a)))"
proof (cases "note_ok c x \<and> current_custodian c i None = Inr (cn_actor x) \<and> ident_ok to \<and> to \<noteq> cn_actor x")
  case True
  then obtain e where t: "transfer_custody h c i to x = Inr (c\<lparr>cc_events := cc_events c @ [e]\<rparr>)"
    and e: "ce_type e = ''transferred''" "ce_evidence e = Some i" "ce_detail e ''to_custodian'' = Some to"
    using transfer_accepted [OF assms] by metis
  have h: "holder j (cc_events c @ [e]) = (if j = i then Some to else holder j (cc_events c))" for j
    by (simp add: holder_snoc e is_origin_def)
  have "i \<in> cu_id ` set (cc_items c)" using True by (simp add: current_custodian_None)
  with True show ?thesis by (simp add: t current_custodian_None who_holds_def h)
next
  case False
  then have "\<not> is_ok (transfer_custody h c i to x)"
    using transfer_needs [OF _ assms(1), of i to x] by (auto simp: is_ok_iff)
  with False show ?thesis by (auto simp: is_ok_iff)
qed

lemma sample_custodian: "current_custodian sample_case ''E-1'' None = Inr ''alice''"
proof -
  obtain i where "cc_items sample_case = [i]" "cu_record i = custody_record"
    using case_create_facts(4) [OF sample_case_is] by blast
  moreover obtain e where "cc_events sample_case = [e]" "ce_type e = ''ingested''" "ce_evidence e = Some ''E-1''"
    "ce_detail e ''custodian_id'' = Some ''alice''"
    using case_create_facts(5) [OF sample_case_is] by (auto simp: custody_record_def)
  ultimately show ?thesis
    by (simp add: current_custodian_None who_holds_def holder_def cu_id_def) (simp add: custody_record_def)
qed

lemma sample_note: "note_ok sample_case move_note"
proof -
  have "ident_ok ''EV-2'' \<and> ident_ok ''alice'' \<and> trimmed ''handover'' \<and> trimmed ''2024-01-04T00:00:00Z''
      \<and> is_timestamp ''2024-01-04T00:00:00Z'' \<and> time_of ''2024-01-03T00:00:00Z'' \<le> time_of ''2024-01-04T00:00:00Z''"
    by code_simp
  moreover obtain e where "cc_events sample_case = [e]" "ce_at e = ''2024-01-03T00:00:00Z''"
    using case_create_facts(5) [OF sample_case_is] by (auto simp: ingest_note_def)
  ultimately show ?thesis by (simp add: note_ok_def move_note_def)
qed

lemma transfer_hands_over_witness:
  "\<exists>c'. transfer_custody toy_hash sample_case ''E-1'' ''bob'' move_note = Inr c'
     \<and> current_custodian c' ''E-1'' None = Inr ''bob''"
proof -
  have "ident_ok ''bob''" by code_simp
  moreover have "cn_actor move_note = ''alice''" by (simp add: move_note_def)
  ultimately show ?thesis
    using transfer_hands_over [OF sample_case_ok toy_hash_hex, of "''E-1''" "''bob''" move_note] sample_custodian sample_note
    by (auto simp: is_ok_iff)
qed

section \<open>Exports\<close>

text \<open>C28: an export succeeds exactly when the policy and every item allow it, no item has reached the
  end of its retention, every record says when it was observed in a time zone, and the note is well
  formed and not before the last event.  Then the case has one more event, \<^verbatim>\<open>exported\<close>, with the
  destination; the bundle holds that case, a manifest with the fingerprint of the case and one
  entry for each item, and exactly the records of the items.\<close>
lemma export_is_governed:
  assumes "case_ok h c" "hex_hash h"
  shows "is_ok (export_case h c d x) =
      (note_ok c x \<and> trimmed d \<and> exportable c (cn_at x) \<and> observed_ok c)
    \<and> (\<forall>c' b. export_case h c d x = Inr (c', b) \<longrightarrow>
        (\<exists>e. c' = c\<lparr>cc_events := cc_events c @ [e]\<rparr> \<and> ce_type e = ''exported'' \<and> ce_at e = cn_at x
           \<and> ce_actor e = cn_actor x \<and> ce_detail e ''destination'' = Some d)
        \<and> eb_case b = c' \<and> mf_case_fp (eb_manifest b) = case_fp h c' \<and> mf_at (eb_manifest b) = cn_at x
        \<and> map me_custodied (mf_entries (eb_manifest b)) = map (custodied_fingerprint h) (cc_items c)
        \<and> eb_records b = map cu_record (cc_items c))"
proof (cases "note_ok c x \<and> trimmed d \<and> exportable c (cn_at x) \<and> observed_ok c")
  case True
  then obtain e where "export_case h c d x
      = Inr (c\<lparr>cc_events := cc_events c @ [e]\<rparr>, bundle_value h (c\<lparr>cc_events := cc_events c @ [e]\<rparr>) (cn_at x))"
    "ce_type e = ''exported''" "ce_detail e ''destination'' = Some d" "ce_at e = cn_at x" "ce_actor e = cn_actor x"
    using export_accepted [OF assms] by metis
  with True show ?thesis
    by (intro conjI allI impI) (auto simp: bundle_value_def manifest_value_def entry_value_def)
next
  case False
  then have "\<not> is_ok (export_case h c d x)"
    using export_needs [OF _ assms] by (auto simp: is_ok_iff)
  with False show ?thesis by (auto simp: is_ok_iff)
qed

lemma sample_exportable: "exportable sample_case (cn_at move_note)" "observed_ok sample_case" "trimmed ''court''"
proof -
  obtain i where i: "cc_items sample_case = [i]" "cu_record i = custody_record" "cu_export i"
    "plus_days_text (cn_at ingest_note) (dh_days sample_handling) = Inr (cu_until i)"
    using case_create_facts(4) [OF sample_case_is] by (auto simp: sample_handling_def)
  have p: "plus_days_text (cn_at ingest_note) (dh_days sample_handling) = Inr ''2024-02-02T00:00:00+00:00''" by code_simp
  have "time_of (cn_at move_note) < time_of ''2024-02-02T00:00:00+00:00'' \<and> is_timestamp (er_observed custody_record)"
    by code_simp
  with i p case_create_facts(3) [OF sample_case_is]
  show "exportable sample_case (cn_at move_note)" "observed_ok sample_case"
    by (simp_all add: exportable_def observed_ok_def sample_handling_def)
  show "trimmed ''court''" by code_simp
qed

lemma sample_exported: "is_ok (export_case toy_hash sample_case ''court'' move_note)"
proof -
  obtain e where "export_case toy_hash sample_case ''court'' move_note
      = Inr (sample_case\<lparr>cc_events := cc_events sample_case @ [e]\<rparr>,
          bundle_value toy_hash (sample_case\<lparr>cc_events := cc_events sample_case @ [e]\<rparr>) (cn_at move_note))"
    by (rule export_accepted [OF sample_case_ok toy_hash_hex sample_note sample_exportable(3,1,2)])
  then show ?thesis by simp
qed

lemma export_is_governed_witness:
  "\<exists>c' b. export_case toy_hash sample_case ''court'' move_note = Inr (c', b)
     \<and> eb_records b = map cu_record (cc_items sample_case)"
proof -
  obtain c' b where "export_case toy_hash sample_case ''court'' move_note = Inr (c', b)"
    using sample_exported by (auto simp: is_ok_iff)
  with export_is_governed [OF sample_case_ok toy_hash_hex, of "''court''" move_note] show ?thesis by blast
qed

text \<open>C29: the text of a bundle that an export gave is read back as the same bundle, with its case,
  its manifest and its records.\<close>
lemma export_bundle_roundtrip:
  assumes "export_case h c d x = Inr (c', b)" "case_ok h c" "hex_hash h"
  shows "bundle_from_json h (bundle_to_json h b) = Inr b"
  using bundle_codec.read_text [OF export_bundle_ok [OF assms], of False]
  by (auto simp: bundle_from_json_def bundle_to_json_def)

lemma export_bundle_roundtrip_witness:
  "\<exists>c' b. export_case toy_hash sample_case ''court'' move_note = Inr (c', b)
     \<and> bundle_from_json toy_hash (bundle_to_json toy_hash b) = Inr b"
  using sample_exported export_bundle_roundtrip [OF _ sample_case_ok toy_hash_hex, of "''court''" move_note]
  by (force simp: is_ok_iff)

text \<open>C30: a record whose observation time has no time zone is accepted into custody, but from then
  on, whatever operations follow, the case has no manifest and cannot be exported.\<close>
lemma naive_evidence_is_stuck:
  assumes "case_ok h c" "hex_hash h" "i \<in> set (cc_items c)" "\<not> is_timestamp (er_observed (cu_record i))"
  shows "\<not> is_ok (case_manifest h (fold (custody_do h) ops c) at)
    \<and> \<not> is_ok (export_case h (fold (custody_do h) ops c) d x)"
proof -
  have d: "case_ok h (fold (custody_do h) ops c)" "case_grows c (fold (custody_do h) ops c)"
    using case_machine.inv_run [of h c ops] case_machine.le_run [of h c ops] assms(1,2) by simp_all
  then have "\<not> observed_ok (fold (custody_do h) ops c)"
    using assms(3,4) by (auto simp: observed_ok_def case_grows_def)
  with case_manifest_iff [OF d(1) assms(2)] export_needs [OF _ d(1) assms(2)] show ?thesis
    by (auto simp: is_ok_iff)
qed

lemma naive_case_created:
  "is_ok (case_create toy_hash ''CASE-1'' ''ENG-1'' sample_handling naive_record ''alice'' None ingest_note)"
  by code_simp

lemma naive_evidence_is_stuck_witness:
  "is_ok (case_create toy_hash ''CASE-1'' ''ENG-1'' sample_handling naive_record ''alice'' None ingest_note)
   \<and> \<not> is_ok (export_case toy_hash naive_case ''court'' move_note)"
proof -
  have c: "case_create toy_hash ''CASE-1'' ''ENG-1'' sample_handling naive_record ''alice'' None ingest_note = Inr naive_case"
    using naive_case_created by (simp add: naive_case_def is_ok_projr)
  obtain i where i: "i \<in> set (cc_items naive_case)" "cu_record i = naive_record"
    using case_create_facts(4) [OF c] by auto
  have "\<not> is_timestamp (er_observed naive_record)" by code_simp
  with naive_evidence_is_stuck [OF case_create_ok [OF c toy_hash_hex custody_record_ok(2,3)] toy_hash_hex i(1), of "[]"] i(2)
  show ?thesis by (simp add: c)
qed

section \<open>Stores\<close>

text \<open>The texts that the fingerprints of a case's events hash.\<close>

definition custody_texts :: "custody_case \<Rightarrow> string set" where
  "custody_texts c = (\<lambda>e. dumps False (PDict (custody_event_fields e))) ` set (cc_events c)"

lemma custody_extends_prefix:
  assumes "custody_extends h c d" "inj_on h (custody_texts c \<union> custody_texts d)"
  shows "prefix (cc_events c) (cc_events d)"
proof -
  let ?f = "custody_event_fp h" and ?n = "length (cc_events c)"
  have "inj_on ?f (set (cc_events c) \<union> set (cc_events d))"
    by (rule inj_onI, rule custody_chain.fp_inject [of h "custody_texts c \<union> custody_texts d"])
      (use assms(2) in \<open>auto simp: custody_texts_def\<close>)
  moreover have "map ?f (cc_events c) = map ?f (take ?n (cc_events d))"
    using assms(1) by (auto simp: custody_extends_def prefix_def take_map [symmetric])
  ultimately have "cc_events c = take ?n (cc_events d)"
    using inj_on_map_eq_map [of ?f "cc_events c" "take ?n (cc_events d)"]
    by (blast intro: inj_on_subset dest: in_set_takeD)
  then show ?thesis by (metis take_is_prefix)
qed

text \<open>Over any sequence of calls of a custody store, failed writes included, a stored case is
  never dropped: it keeps its engagement and its data-handling policy, every item stays equal, and
  its events are only extended, by their fingerprints and, where the hash tells the events apart,
  as events.\<close>
lemma custody_history_append_only:
  assumes "cmem_ok h (cs_memory s)" "map_of (cs_memory (fold (custody_call_step h) cs s)) cid = Some c"
  shows "\<exists>d. map_of (cs_memory (fold (custody_call_step h) (cs @ ds) s)) cid = Some d
    \<and> case_ok h d \<and> custody_extends h c d
    \<and> (inj_on h (custody_texts c \<union> custody_texts d) \<longrightarrow> prefix (cc_events c) (cc_events d))"
proof -
  obtain d where d: "map_of (cs_memory (fold (custody_call_step h) (cs @ ds) s)) cid = Some d" "custody_extends h c d"
    using custody_machine.le_run_between [OF assms(1), of cs ds] assms(2) unfolding table_le_def by blast
  moreover have "case_ok h d"
    using custody_machine.inv_run [OF assms(1), of "cs @ ds"] d(1) unfolding table_ok_def by blast
  ultimately show ?thesis using custody_extends_prefix by blast
qed

lemma custody_history_append_only_witness:
  "\<exists>d. map_of (cs_memory (fold (custody_call_step toy_hash) ([] @ [CuAdvance io_fine sample_case])
      \<lparr>cs_memory = [(''CASE-1'', sample_case)], cs_file = None\<rparr>)) ''CASE-1'' = Some d
    \<and> custody_extends toy_hash sample_case d"
proof -
  let ?s = "\<lparr>cs_memory = [(''CASE-1'', sample_case)], cs_file = None\<rparr> :: custody_store"
  have "cmem_ok toy_hash (cs_memory ?s)"
    using sample_case_ok case_create_facts(1) [OF sample_case_is] by (simp add: table_ok_def)
  from custody_history_append_only [OF this, of "[]" "''CASE-1''" sample_case "[CuAdvance io_fine sample_case]"]
  show ?thesis by auto
qed

end
