(* ===== verification/PyIpText.thy ===== *)
theory PyIpText
  imports PyIp PyJson
begin

text \<open>
  The text of addresses and networks as \<^verbatim>\<open>str\<close> prints them (Python 3.11), with the proof that
  what is printed is parsed as what was printed.
\<close>

section \<open>Text of numbers and lists\<close>

text \<open>\<^verbatim>\<open>'%x' % n\<close>\<close>

fun hex_text :: "nat \<Rightarrow> string" where
  "hex_text n = (if n < 16 then [''0123456789abcdef'' ! n] else hex_text (n div 16) @ [''0123456789abcdef'' ! (n mod 16)])"

declare hex_text.simps [simp del]

text \<open>\<^verbatim>\<open>d.join(parts)\<close>\<close>

fun join_on :: "char \<Rightarrow> string list \<Rightarrow> string" where
  "join_on d [] = []"
| "join_on d [x] = x"
| "join_on d (x # y # r) = x @ d # join_on d (y # r)"

section \<open>Text of addresses and networks\<close>

definition ipv4_text :: "nat \<Rightarrow> string" where
  "ipv4_text n =
     join_on CHR ''.'' (map str_nat [n div 16777216, n div 65536 mod 256, n div 256 mod 256, n mod 256])"

fun groups :: "nat \<Rightarrow> nat \<Rightarrow> nat list" where
  "groups 0 n = []"
| "groups (Suc k) n = groups k (n div 65536) @ [n mod 65536]"

text \<open>The loop of \<^verbatim>\<open>_compress_hextets\<close>: start and length of the current and of the best run of zeros.\<close>

fun zero_runs :: "nat \<Rightarrow> string list \<Rightarrow> nat \<times> nat \<Rightarrow> nat \<times> nat \<Rightarrow> nat \<times> nat" where
  "zero_runs i [] cur best = best"
| "zero_runs i (x # xs) cur best =
     (if x = ''0'' then
        (let run = (if snd cur = 0 then i else fst cur, Suc (snd cur))
         in zero_runs (Suc i) xs run (if snd best < snd run then run else best))
      else zero_runs (Suc i) xs (0, 0) best)"

definition compress :: "string list \<Rightarrow> string list" where
  "compress xs =
     (case zero_runs 0 xs (0, 0) (0, 0) of (b, n) \<Rightarrow>
        if 1 < n then
          (if b = 0 then [[]] else []) @ take b xs @ [[]] @ drop (b + n) xs
            @ (if b + n = length xs then [[]] else [])
        else xs)"

definition ipv6_text :: "nat \<Rightarrow> string" where
  "ipv6_text n = join_on CHR '':'' (compress (map hex_text (groups 8 n)))"

section \<open>Numbers parse back\<close>

lemma hex_chars:
  assumes "n < 16"
  shows "hex_digit (''0123456789abcdef'' ! n) = Some n \<and> is_hex_lower (''0123456789abcdef'' ! n)"
proof -
  have "list_all (\<lambda>k. hex_digit (''0123456789abcdef'' ! k) = Some k \<and> is_hex_lower (''0123456789abcdef'' ! k)) [0..<16]"
    by code_simp
  with assms show ?thesis by (simp add: list_all_iff)
qed

lemma hex_text_chars: "list_all is_hex_lower (hex_text n) \<and> hex_text n \<noteq> []"
proof (induction n rule: hex_text.induct)
  case (1 n)
  then show ?case using hex_chars [of n] hex_chars [of "n mod 16"] by (subst (1 2) hex_text.simps) auto
qed

lemma hex_val_append:
  "hex_val a (s @ t) = (case hex_val a s of None \<Rightarrow> None | Some b \<Rightarrow> hex_val b t)"
  by (induction s arbitrary: a) (auto split: option.splits)

lemma hex_val_text: "hex_val 0 (hex_text n) = Some n"
proof (induction n rule: hex_text.induct)
  case (1 n)
  then show ?case using hex_chars [of n] hex_chars [of "n mod 16"]
    by (subst hex_text.simps) (auto simp: hex_val_append)
qed

lemma length_hex_text: "n < 16 ^ Suc k \<Longrightarrow> length (hex_text n) \<le> Suc k"
proof (induction k arbitrary: n)
  case 0
  then show ?case by (subst hex_text.simps) simp
next
  case (Suc k)
  then have "n div 16 < 16 ^ Suc k" by (simp add: less_mult_imp_div_less mult.commute)
  from Suc.IH [OF this] show ?case by (subst hex_text.simps) simp
qed

lemma parse_hextet_text: "n < 65536 \<Longrightarrow> parse_hextet (hex_text n) = Some n"
  using length_hex_text [of n 3] hex_text_chars [of n] by (simp add: parse_hextet_def hex_val_text)

lemma hextets_texts:
  "list_all (\<lambda>v. v < 65536) vs \<Longrightarrow>
     hextets a (map (Inl \<circ> hex_text) vs) = Some (foldl (\<lambda>b v. b * 65536 + v) a vs)"
  by (induction vs arbitrary: a) (simp_all add: part_val_def parse_hextet_text)

lemma groups_facts:
  "length (groups k n) = k" "list_all (\<lambda>v. v < 65536) (groups k n)"
  "n < 65536 ^ k \<Longrightarrow> foldl (\<lambda>b v. b * 65536 + v) 0 (groups k n) = n"
proof (induction k arbitrary: n)
  case (Suc k)
  { case 1 then show ?case using Suc by simp }
  { case 2 then show ?case using Suc by simp }
  { case 3
    then have "n div 65536 < 65536 ^ k" by (simp add: less_mult_imp_div_less mult.commute)
    with Suc.IH(3) show ?case by simp }
qed simp_all

section \<open>Splitting what was joined\<close>

lemma split_join: "xs \<noteq> [] \<Longrightarrow> list_all (\<lambda>x. d \<notin> set x) xs \<Longrightarrow> split_on d (join_on d xs) = xs"
  by (induction d xs rule: join_on.induct) (simp_all add: split_on_absent split_on_append)

lemma set_join: "set (join_on d xs) \<subseteq> insert d (\<Union>x\<in>set xs. set x)"
  by (induction d xs rule: join_on.induct) auto

section \<open>IPv4\<close>

lemma parse_octet_text:
  assumes "n < 256"
  shows "parse_octet (str_nat n) = Some n"
proof -
  have "length (str_nat n) \<le> 3"
    using assms by (subst str_nat.simps, subst str_nat.simps, subst str_nat.simps) simp
  moreover obtain c w where "str_nat n = c # w" "c = CHR ''0'' \<longleftrightarrow> n = 0" "n = 0 \<longrightarrow> w = []"
    using str_nat_head [of n] by blast
  ultimately show ?thesis
    using assms str_nat_digits [of n] digits_val_str_nat [of n] by (auto simp: parse_octet_def all_digits_def)
qed

lemma str_nat_no: "\<not> is_digit c \<Longrightarrow> c \<notin> set (str_nat n)"
  using str_nat_digits [of n] by (auto simp: list_all_iff)

lemma ipv4_int_text:
  assumes "n < 2 ^ 32"
  shows "ipv4_int (ipv4_text n) = Some n"
proof -
  let ?os = "[n div 16777216, n div 65536 mod 256, n div 256 mod 256, n mod 256]"
  have "\<not> is_digit CHR ''.''" by code_simp
  then have "split_on CHR ''.'' (ipv4_text n) = map str_nat ?os"
    unfolding ipv4_text_def by (intro split_join) (simp_all add: str_nat_no)
  moreover have "n div 16777216 < 256" using assms by (simp add: less_mult_imp_div_less)
  moreover have "((n div 16777216 * 256 + n div 65536 mod 256) * 256 + n div 256 mod 256) * 256 + n mod 256 = n"
  proof -
    have "n div 16777216 = n div 65536 div 256" "n div 65536 = n div 256 div 256" by (simp_all add: div_mult2_eq [symmetric])
    then have "n div 16777216 * 256 + n div 65536 mod 256 = n div 65536"
      "n div 65536 * 256 + n div 256 mod 256 = n div 256" by simp_all
    then show ?thesis by simp
  qed
  ultimately show ?thesis by (simp add: ipv4_int_def parse_octet_text)
qed

section \<open>IPv6\<close>

definition run_ok :: "string list \<Rightarrow> nat \<times> nat \<Rightarrow> bool" where
  "run_ok xs r \<longleftrightarrow> fst r + snd r \<le> length xs \<and> take (snd r) (drop (fst r) xs) = replicate (snd r) ''0''"

lemma run_ok_append: "run_ok xs r \<Longrightarrow> run_ok (xs @ ys) r"
  by (auto simp: run_ok_def)

lemma zero_runs_ok:
  assumes "run_ok pre best" "run_ok pre cur" "0 < snd cur \<Longrightarrow> fst cur + snd cur = length pre"
  shows "run_ok (pre @ xs) (zero_runs (length pre) xs cur best)"
  using assms
proof (induction xs arbitrary: pre cur best)
  case (Cons x xs)
  have IH: "run_ok (pre @ x # xs) (zero_runs (Suc (length pre)) xs cur' best')"
    if "run_ok (pre @ [x]) best'" "run_ok (pre @ [x]) cur'" "0 < snd cur' \<Longrightarrow> fst cur' + snd cur' = Suc (length pre)"
    for cur' best'
    using Cons.IH [of "pre @ [x]" best' cur'] that by simp
  show ?case
  proof (cases "x = ''0''")
    case True
    define run where "run = (if snd cur = 0 then length pre else fst cur, Suc (snd cur))"
    have "drop (fst cur) pre = replicate (snd cur) ''0''" if "0 < snd cur"
      using Cons.prems(2,3) that by (simp add: run_ok_def)
    then have "run_ok (pre @ [x]) run" "fst run + snd run = Suc (length pre)"
      using Cons.prems(2,3) True by (auto simp: run_def run_ok_def replicate_append_same)
    moreover have "run_ok (pre @ [x]) best" using Cons.prems(1) by (rule run_ok_append)
    ultimately show ?thesis using IH [unfolded True] True by (simp add: run_def [symmetric] Let_def)
  next
    case False
    have "run_ok (pre @ [x]) (0, 0)" by (simp add: run_ok_def)
    moreover have "run_ok (pre @ [x]) best" using Cons.prems(1) by (rule run_ok_append)
    ultimately show ?thesis using False by (auto intro!: IH)
  qed
qed simp

lemma filter_one: "a \<le> k \<Longrightarrow> k < b \<Longrightarrow> (\<And>i. a \<le> i \<Longrightarrow> i < b \<Longrightarrow> P i = (i = k)) \<Longrightarrow> filter P [a..<b] = [k]"
proof -
  assume k: "a \<le> k" "k < b" and P: "\<And>i. a \<le> i \<Longrightarrow> i < b \<Longrightarrow> P i = (i = k)"
  have "[a..<b] = [a..<k] @ [k] @ [Suc k..<b]"
    using k by (metis append_Cons append_Nil le_Suc_ex less_imp_le_nat upt_add_eq_append upt_conv_Cons)
  then show ?thesis using k P by (simp add: filter_empty_conv)
qed

abbreviation hextet_parts :: "nat list \<Rightarrow> (string + nat) list" where
  "hextet_parts vs \<equiv> map (Inl \<circ> hex_text) vs"

lemma hextet_part: "i < length vs \<Longrightarrow> hextet_parts vs ! i \<noteq> Inl []"
  using hex_text_chars by simp

lemma hd_last_parts: "vs \<noteq> [] \<Longrightarrow> hd (hextet_parts vs) \<noteq> Inl [] \<and> last (hextet_parts vs) \<noteq> Inl []"
  using hex_text_chars by (simp add: hd_map last_map)

lemma hex_no: "\<not> is_hex_lower c \<Longrightarrow> c \<notin> set (hex_text n)"
  using hex_text_chars [of n] by (auto simp: list_all_iff)

lemma ipv6_parts_join:
  assumes "3 \<le> length ps" "\<forall>x\<in>set ps. x = [] \<or> (\<exists>v. x = hex_text v)"
  shows "ipv6_parts (join_on CHR '':'' ps) = Some (map Inl ps)"
proof -
  have c: "\<not> is_hex_lower CHR '':''" "\<not> is_hex_lower CHR ''.''" by code_simp+
  then have "split_on CHR '':'' (join_on CHR '':'' ps) = ps"
    using assms by (intro split_join) (auto simp: list_all_iff hex_no)
  moreover have "last ps \<in> set ps" using assms(1) by (cases ps) auto
  then have "CHR ''.'' \<notin> set (last ps)" using assms(2) c hex_no by fastforce
  ultimately show ?thesis using assms(1) by (simp add: ipv6_parts_def Let_def)
qed

lemma foldl_zeros: "foldl (\<lambda>b v. b * 65536 + v) a (replicate n (0::nat)) = a * 65536 ^ n"
  by (induction n arbitrary: a) simp_all

definition gap :: "nat list \<Rightarrow> nat list \<Rightarrow> string list" where
  "gap us ws = (if us = [] then [[]] else []) @ map hex_text us @ [[]] @ map hex_text ws @ (if ws = [] then [[]] else [])"

lemma gap_int:
  assumes "length us + length ws + n = 8" "1 < n" "list_all (\<lambda>v. v < 65536) us" "list_all (\<lambda>v. v < 65536) ws"
  shows "ipv6_int (join_on CHR '':'' (gap us ws)) = Some (foldl (\<lambda>b v. b * 65536 + v) 0 (us @ replicate n 0 @ ws))"
proof -
  let ?u = "length us" and ?w = "length ws"
  let ?k = "if us = [] then 1 else ?u" and ?n = "length (gap us ws)"
  have ps: "ipv6_parts (join_on CHR '':'' (gap us ws)) = Some (map Inl (gap us ws))"
    by (rule ipv6_parts_join) (auto simp: gap_def neq_Nil_conv)
  have m: "map Inl (gap us ws) = (if us = [] then [Inl []] else []) @ hextet_parts us @ [Inl []] @ hextet_parts ws
      @ (if ws = [] then [Inl []] else [])" by (simp add: gap_def)
  have len: "?n = ?u + ?w + 1 + (if us = [] then 1 else 0) + (if ws = [] then 1 else 0)" by (simp add: gap_def)
  have e: "filter (\<lambda>i. map Inl (gap us ws) ! i = (Inl [] :: string + nat)) [1..<?n - 1] = [?k]"
  proof (rule filter_one)
    show "1 \<le> ?k" by (cases us) auto
    show "?k < ?n - 1" unfolding len by (cases us; cases ws) auto
    fix i assume i: "1 \<le> i" "i < ?n - 1"
    show "(map Inl (gap us ws) ! i = (Inl [] :: string + nat)) = (i = ?k)"
    proof (cases us)
      case Nil
      with i show ?thesis unfolding m len
        by (cases ws) (auto simp: nth_append nth_Cons' hex_text_chars split: if_splits)
    next
      case (Cons a l)
      with i show ?thesis unfolding m len
        by (cases ws) (auto simp: nth_append nth_Cons' hex_text_chars split: if_splits)
    qed
  qed
  have hd: "hd (map Inl (gap us ws)) = (Inl [] :: string + nat) \<longleftrightarrow> us = []"
    unfolding m using hd_last_parts [of us] by (cases us) auto
  have last: "last (map Inl (gap us ws)) = (Inl [] :: string + nat) \<longleftrightarrow> ws = []"
    unfolding m using hd_last_parts [of ws] by (cases ws rule: rev_cases) auto
  have "hextets 0 (hextet_parts us) = Some (foldl (\<lambda>b v. b * 65536 + v) 0 us)" by (rule hextets_texts [OF assms(3)])
  moreover have "hextets a (hextet_parts ws) = Some (foldl (\<lambda>b v. b * 65536 + v) a ws)" for a
    by (rule hextets_texts [OF assms(4)])
  moreover have "8 - (?u + ?w) = n" using assms(1) by simp
  moreover have "take (if us = [] then 0 else ?u) (map Inl (gap us ws)) = hextet_parts us"
    "drop (?n - (if ws = [] then 0 else ?w)) (map Inl (gap us ws)) = hextet_parts ws"
    unfolding m len by (cases us; cases ws; simp)+
  moreover have hi: "(if us = [] then ?k - 1 else ?k) = ?u" by (cases us) auto
  moreover have lo: "(if ws = [] then ?n - ?k - 2 else ?n - ?k - 1) = ?w" unfolding len by (cases us; cases ws) auto
  moreover have tk: "take ?u (map Inl (gap us ws)) = hextet_parts us"
    "drop (?n - ?w) (map Inl (gap us ws)) = hextet_parts ws"
    using calculation(4,5) by (auto split: if_splits)
  moreover have "\<not> 9 < ?n" using assms(1,2) unfolding len by auto
  moreover have "\<not> ((us = [] \<and> ?u \<noteq> 0) \<or> (ws = [] \<and> ?w \<noteq> 0) \<or> 8 < ?u + ?w + 1)" using assms(1,2) by auto
  ultimately show ?thesis
    unfolding ipv6_int_def ps option.case Let_def length_map e list.case hd last hi lo
    by (simp add: foldl_zeros)
qed

lemma hex_text_zero: "hex_text v = ''0'' \<Longrightarrow> v = 0"
proof -
  assume "hex_text v = ''0''"
  then have "Some v = hex_val 0 ''0''" by (metis hex_val_text)
  also have "hex_val 0 ''0'' = Some 0" by code_simp
  finally show ?thesis by simp
qed

lemma ipv6_int_text:
  assumes "n < 2 ^ 128"
  shows "ipv6_int (ipv6_text n) = Some n"
proof -
  let ?gs = "groups 8 n" and ?f = "\<lambda>b v. b * 65536 + v :: nat"
  have "n < 65536 ^ 8" using assms by simp
  note g = groups_facts(1,2) [of 8 n] groups_facts(3) [OF this]
  obtain b m where z: "zero_runs 0 (map hex_text ?gs) (0, 0) (0, 0) = (b, m)" by fastforce
  have "run_ok (map hex_text ?gs) (b, m)"
    using zero_runs_ok [of "[]" "(0, 0)" "(0, 0)" "map hex_text ?gs"] z by (simp add: run_ok_def)
  then have run: "b + m \<le> 8" "map hex_text (take m (drop b ?gs)) = replicate m ''0''"
    using g(1) by (simp_all add: run_ok_def take_map drop_map)
  show ?thesis
  proof (cases "1 < m")
    case True
    let ?us = "take b ?gs" and ?ws = "drop (b + m) ?gs"
    have "list_all (\<lambda>v. v = 0) (take m (drop b ?gs))"
      unfolding list_all_length
    proof (intro allI impI)
      fix i assume i: "i < length (take m (drop b ?gs))"
      then have "map hex_text (take m (drop b ?gs)) ! i = ''0''" using run(1) g(1) by (simp add: run(2))
      with i show "take m (drop b ?gs) ! i = 0" using hex_text_zero by (metis nth_map)
    qed
    then have "take m (drop b ?gs) = replicate m 0"
      using run(1) g(1) by (intro replicate_eqI) (auto simp: list_all_iff)
    then have s: "?gs = ?us @ replicate m 0 @ ?ws" by (metis append_take_drop_id drop_drop add.commute)
    have c: "compress (map hex_text ?gs) = gap ?us ?ws"
      using True run(1) g(1) by (auto simp: compress_def z gap_def take_map drop_map)
    have "ipv6_int (ipv6_text n) = Some (foldl ?f 0 (?us @ replicate m 0 @ ?ws))"
      unfolding ipv6_text_def c
      by (rule gap_int) (use True run(1) g(1,2) in \<open>auto simp: list_all_iff dest: in_set_takeD in_set_dropD\<close>)
    then show ?thesis unfolding s [symmetric] g(3) .
  next
    case False
    then have c: "ipv6_text n = join_on CHR '':'' (map hex_text ?gs)" by (simp add: ipv6_text_def compress_def z)
    have ps: "ipv6_parts (join_on CHR '':'' (map hex_text ?gs)) = Some (map Inl (map hex_text ?gs))"
      by (rule ipv6_parts_join) (use g(1) in auto)
    have ne: "?gs \<noteq> []" using g(1) by auto
    have e: "filter (\<lambda>i. hextet_parts ?gs ! i = Inl []) [1..<8 - 1] = []"
      using hextet_part [of _ ?gs] g(1) by (auto simp: filter_empty_conv)
    show ?thesis
      using hd_last_parts [OF ne] hextets_texts [OF g(2), of 0] e g(1,3)
      by (simp add: c ipv6_int_def ps Let_def del: groups.simps upt.simps)
  qed
qed

section \<open>Addresses and networks\<close>

definition scope_text :: "string option \<Rightarrow> string" where
  "scope_text z = (case z of None \<Rightarrow> [] | Some s \<Rightarrow> CHR ''%'' # s)"

definition address_text :: "ipaddr \<Rightarrow> string" where
  "address_text a = (if ip_ver a = 4 then ipv4_text (ip_int a) else ipv6_text (ip_int a) @ scope_text (ip_scope a))"

definition network_text :: "ipnet \<Rightarrow> string" where
  "network_text n =
     (if net_ver n = 4 then ipv4_text (net_base n) else ipv6_text (net_base n) @ scope_text (net_scope n))
     @ CHR ''/'' # str_nat (net_plen n)"

definition scope_ok :: "nat \<Rightarrow> string option \<Rightarrow> bool" where
  "scope_ok v z \<longleftrightarrow> (\<forall>s. z = Some s \<longrightarrow> v = 6 \<and> s \<noteq> [] \<and> CHR ''%'' \<notin> set s \<and> CHR ''/'' \<notin> set s)"

definition addr_valid :: "ipaddr \<Rightarrow> bool" where
  "addr_valid a \<longleftrightarrow> ip_ver a \<in> {4, 6} \<and> ip_int a < 2 ^ width (ip_ver a) \<and> scope_ok (ip_ver a) (ip_scope a)"

definition net_valid :: "ipnet \<Rightarrow> bool" where
  "net_valid n \<longleftrightarrow> net_ver n \<in> {4, 6} \<and> net_base n < 2 ^ width (net_ver n) \<and> net_plen n \<le> width (net_ver n)
     \<and> net_ok n \<and> scope_ok (net_ver n) (net_scope n)"

lemma ipv6_text_chars: "set (ipv6_text n) \<subseteq> insert CHR '':'' {c. is_hex_lower c}"
proof -
  have "set (compress (map hex_text (groups 8 n))) \<subseteq> insert [] (hex_text ` set (groups 8 n))"
    by (auto simp: compress_def split: prod.splits dest: in_set_takeD in_set_dropD)
  then have "(\<Union>x\<in>set (compress (map hex_text (groups 8 n))). set x) \<subseteq> {c. is_hex_lower c}"
    using hex_text_chars by (fastforce simp: list_all_iff)
  with set_join [of "CHR '':''"] show ?thesis unfolding ipv6_text_def by blast
qed

lemma ipv6_text_no: "\<not> is_hex_lower c \<Longrightarrow> c \<noteq> CHR '':'' \<Longrightarrow> c \<notin> set (ipv6_text n)"
  using ipv6_text_chars [of n] by auto

lemma ipv6_text_colon:
  assumes "n < 2 ^ 128"
  shows "CHR '':'' \<in> set (ipv6_text n)"
proof (rule ccontr)
  assume "CHR '':'' \<notin> set (ipv6_text n)"
  then have "split_on CHR '':'' (ipv6_text n) = [ipv6_text n]" by (rule split_on_absent)
  then have "ipv6_int (ipv6_text n) = None" by (simp add: ipv6_int_def ipv6_parts_def)
  with ipv6_int_text [OF assms] show False by simp
qed

lemma split_on_hd: "d \<notin> set s \<Longrightarrow> \<exists>r ws. split_on d (s @ t) = (s @ r) # ws"
proof (induction s)
  case Nil
  then show ?case using split_on_nonempty [of d t] by (cases "split_on d t") auto
next
  case (Cons c s)
  then obtain r ws where "split_on d (s @ t) = (s @ r) # ws" by auto
  with Cons.prems show ?case by auto
qed

lemma ipv4_int_colon:
  assumes "CHR ''.'' \<notin> set s" "CHR '':'' \<in> set s"
  shows "ipv4_int (s @ t) = None"
proof -
  obtain r ws where s: "split_on CHR ''.'' (s @ t) = (s @ r) # ws" using split_on_hd [OF assms(1)] by blast
  have "\<not> is_digit CHR '':''" by code_simp
  then have "parse_octet (s @ r) = None" using assms(2) by (auto simp: parse_octet_def all_digits_def list_all_iff)
  then show ?thesis by (auto simp: ipv4_int_def s split: list.splits)
qed

lemma not_hex: "\<not> is_hex_lower CHR ''.''" "\<not> is_hex_lower CHR ''%''" "\<not> is_hex_lower CHR ''/''" "\<not> is_digit CHR ''/''"
  by code_simp+

lemma ipv6_addr_text:
  assumes "n < 2 ^ 128" "scope_ok 6 z"
  shows "ipv6_addr (ipv6_text n @ scope_text z) = Some (n, z)"
proof -
  have no: "CHR ''%'' \<notin> set (ipv6_text n)" "CHR ''/'' \<notin> set (ipv6_text n)" by (simp_all add: ipv6_text_no not_hex)
  have "split_scope (ipv6_text n @ scope_text z) = Some (ipv6_text n, z)"
    using no(1) assms(2)
    by (cases z) (simp_all add: split_scope_def scope_text_def scope_ok_def split_on_absent split_on_append)
  moreover have "CHR ''/'' \<notin> set (ipv6_text n @ scope_text z)"
    using no(2) assms(2) by (cases z) (simp_all add: scope_text_def scope_ok_def)
  ultimately show ?thesis by (simp add: ipv6_addr_def ipv6_int_text [OF assms(1)])
qed

lemma ipv4_text_chars: "set (ipv4_text n) \<subseteq> insert CHR ''.'' {c. is_digit c}"
  using set_join [of "CHR ''.''"] str_nat_digits unfolding ipv4_text_def by (fastforce simp: list_all_iff)

lemma ipv4_text_no: "\<not> is_digit c \<Longrightarrow> c \<noteq> CHR ''.'' \<Longrightarrow> c \<notin> set (ipv4_text n)"
  using ipv4_text_chars [of n] by auto

lemma ip_address_text:
  assumes "addr_valid a"
  shows "ip_address (address_text a) = Some a"
proof (cases "ip_ver a = 4")
  case True
  then have "CHR ''/'' \<notin> set (ipv4_text (ip_int a))" by (simp add: ipv4_text_no not_hex)
  with True assms show ?thesis
    by (cases a) (simp add: ip_address_def address_text_def addr_valid_def scope_ok_def width_def ipv4_int_text)
next
  case False
  then have v: "ip_ver a = 6" "ip_int a < 2 ^ 128" "scope_ok 6 (ip_scope a)" using assms by (auto simp: addr_valid_def width_def)
  have "ipv4_int (ipv6_text (ip_int a) @ scope_text (ip_scope a)) = None"
    by (rule ipv4_int_colon) (simp_all add: ipv6_text_no not_hex ipv6_text_colon [OF v(2)])
  with v show ?thesis
    by (cases a) (simp add: ip_address_def address_text_def ipv6_addr_text)
qed

lemma prefix_text: "p \<le> w \<Longrightarrow> prefix_from_string w (str_nat p) = Some p"
  using str_nat_digits [of p] by (simp add: prefix_from_string_def all_digits_def digits_val_str_nat)

lemma net_make_same: "net_ok n \<Longrightarrow> net_make (net_ver n) (net_base n) (net_scope n) (net_plen n) = n"
  by (cases n) (auto simp: net_make_def net_ok_def host_size_def Let_def)

lemma ip_network_text:
  assumes "net_valid n"
  shows "ip_network (network_text n) = Some n"
proof -
  have p: "CHR ''/'' \<notin> set (str_nat (net_plen n))" by (rule str_nat_no) (rule not_hex)
  have ok: "net_ok n" using assms by (simp add: net_valid_def)
  show ?thesis
  proof (cases "net_ver n = 4")
    case True
    then have "CHR ''/'' \<notin> set (ipv4_text (net_base n))" by (simp add: ipv4_text_no not_hex)
    then have "split_on CHR ''/'' (network_text n) = [ipv4_text (net_base n), str_nat (net_plen n)]"
      using True p by (simp add: network_text_def split_on_append split_on_absent)
    with True assms show ?thesis
      using net_make_same [OF ok]
      by (simp add: ip_network_def ipv4_network_def net_valid_def width_def ipv4_int_text prefix_text scope_ok_def)
  next
    case False
    then have v: "net_ver n = 6" "net_base n < 2 ^ 128" "scope_ok 6 (net_scope n)" "net_plen n \<le> 128"
      using assms by (auto simp: net_valid_def width_def)
    let ?a = "ipv6_text (net_base n) @ scope_text (net_scope n)"
    have "CHR ''/'' \<notin> set ?a"
      using v(3) by (cases "net_scope n") (simp_all add: ipv6_text_no not_hex scope_text_def scope_ok_def)
    then have s: "split_on CHR ''/'' (network_text n) = [?a, str_nat (net_plen n)]"
      using v(1) p by (simp add: network_text_def split_on_append [of _ "?a", simplified] split_on_absent)
    have "ipv4_int ?a = None"
      by (rule ipv4_int_colon) (simp_all add: ipv6_text_no not_hex ipv6_text_colon [OF v(2)])
    with s v show ?thesis
      using net_make_same [OF ok]
      by (simp add: ip_network_def ipv4_network_def ipv6_network_def ipv6_addr_text prefix_text)
  qed
qed

end
