(* ===== verification/PyIpExclude.thy ===== *)
theory PyIpExclude
  imports PyIpText Authorization
begin

text \<open>
  What parsing gives: addresses and networks within their width; and \<^verbatim>\<open>address_exclude\<close>, with
  the proof that its pieces hold exactly the addresses that are left.
\<close>

section \<open>Parsed values are valid\<close>

lemma parse_octet_bound: "parse_octet s = Some n \<Longrightarrow> n < 256"
  by (auto simp: parse_octet_def split: if_splits)

lemma ipv4_int_bound: "ipv4_int s = Some n \<Longrightarrow> n < 2 ^ 32"
  by (auto simp: ipv4_int_def split: list.splits option.splits dest!: parse_octet_bound)

lemma hex_digit_bound: "hex_digit c = Some d \<Longrightarrow> d < 16"
  by (auto simp: hex_digit_def Let_def split: if_splits)

lemma hex_val_bound: "hex_val a s = Some n \<Longrightarrow> n < (a + 1) * 16 ^ length s"
proof (induction s arbitrary: a)
  case (Cons c s)
  then obtain d where d: "hex_digit c = Some d" "hex_val (a * 16 + d) s = Some n" by (auto split: option.splits)
  from Cons.IH [OF d(2)] have "n < (a * 16 + d + 1) * 16 ^ length s" .
  also have "\<dots> \<le> ((a + 1) * 16) * 16 ^ length s" using hex_digit_bound [OF d(1)] by (intro mult_right_mono) auto
  finally show ?case by (simp add: algebra_simps)
qed simp

lemma parse_hextet_bound:
  assumes "parse_hextet s = Some n"
  shows "n < 65536"
proof -
  have "length s \<le> 4" "n < 1 * 16 ^ length s" using assms hex_val_bound [of 0 s n] by (auto simp: parse_hextet_def split: if_splits)
  moreover have "(16::nat) ^ length s \<le> 16 ^ 4" using calculation(1) by (intro power_increasing) auto
  ultimately show ?thesis by simp
qed

definition parts_ok :: "(string + nat) list \<Rightarrow> bool" where
  "parts_ok ps \<longleftrightarrow> (\<forall>n. Inr n \<in> set ps \<longrightarrow> n < 65536)"

lemma ipv6_parts_ok: "ipv6_parts s = Some ps \<Longrightarrow> parts_ok ps"
  by (auto simp: ipv6_parts_def Let_def parts_ok_def less_mult_imp_div_less split: if_splits option.splits
      dest!: ipv4_int_bound)

lemma hextets_bound: "parts_ok ps \<Longrightarrow> hextets a ps = Some n \<Longrightarrow> n < (a + 1) * 65536 ^ length ps"
proof (induction ps arbitrary: a)
  case (Cons p ps)
  then obtain v where v: "part_val p = Some v" "hextets (a * 65536 + v) ps = Some n" by (auto split: option.splits)
  have "v < 65536" using v(1) Cons.prems(1) by (cases p) (auto simp: part_val_def parts_ok_def dest: parse_hextet_bound)
  have "n < (a * 65536 + v + 1) * 65536 ^ length ps" using Cons.IH [OF _ v(2)] Cons.prems(1) by (simp add: parts_ok_def)
  also have "\<dots> \<le> ((a + 1) * 65536) * 65536 ^ length ps" using \<open>v < 65536\<close> by (intro mult_right_mono) auto
  finally show ?case by (simp add: algebra_simps)
qed simp

lemma parts_ok_sub: "parts_ok ps \<Longrightarrow> parts_ok (take k ps) \<and> parts_ok (drop k ps)"
  by (auto simp: parts_ok_def dest: in_set_takeD in_set_dropD)

lemma ipv6_int_bound:
  assumes "ipv6_int s = Some n"
  shows "n < 2 ^ 128"
proof -
  obtain ps where ps: "ipv6_parts s = Some ps" "parts_ok ps"
    using assms ipv6_parts_ok by (auto simp: ipv6_int_def split: option.splits)
  have "(length ps = 8 \<and> hextets 0 ps = Some n) \<or>
    (\<exists>hi lo h. hi + lo < 8 \<and> hextets 0 (take hi ps) = Some h
       \<and> hextets (h * 65536 ^ (8 - (hi + lo))) (drop (length ps - lo) ps) = Some n)"
  proof (cases "filter (\<lambda>i. ps ! i = Inl []) [1..<length ps - 1]")
    case Nil
    with assms show ?thesis unfolding ipv6_int_def ps(1) Let_def option.case Nil list.case by (simp split: if_splits)
  next
    case (Cons k ks)
    define hi lo where d: "hi = (if hd ps = Inl [] then k - 1 else k)"
      "lo = (if last ps = Inl [] then length ps - k - 2 else length ps - k - 1)"
    have "ks = []" using assms unfolding ipv6_int_def ps(1) Let_def option.case Cons by (cases ks) (auto split: if_splits)
    then have "\<not> 8 < hi + lo + 1 \<and> (case hextets 0 (take hi ps) of None \<Rightarrow> None
        | Some h \<Rightarrow> hextets (h * 65536 ^ (8 - (hi + lo))) (drop (length ps - lo) ps)) = Some n"
      using assms unfolding ipv6_int_def ps(1) Let_def option.case Cons d by (auto split: if_splits)
    then show ?thesis by (auto split: option.splits)
  qed
  then show ?thesis
  proof (elim disjE exE conjE)
    assume "length ps = 8" "hextets 0 ps = Some n"
    with hextets_bound [OF ps(2), of 0 n] show ?thesis by simp
  next
    fix hi lo h
    assume b: "hi + lo < 8" "hextets 0 (take hi ps) = Some h"
      "hextets (h * 65536 ^ (8 - (hi + lo))) (drop (length ps - lo) ps) = Some n"
    let ?g = "8 - (hi + lo)"
    have "h < 65536 ^ length (take hi ps)" using hextets_bound [of "take hi ps" 0 h] parts_ok_sub [OF ps(2)] b(2) by simp
    also have "(65536::nat) ^ length (take hi ps) \<le> 65536 ^ hi" by (intro power_increasing) auto
    finally have h: "h + 1 \<le> 65536 ^ hi" by simp
    have "n < (h * 65536 ^ ?g + 1) * 65536 ^ length (drop (length ps - lo) ps)"
      using hextets_bound [OF _ b(3)] parts_ok_sub [OF ps(2)] by simp
    also have "\<dots> \<le> ((h + 1) * 65536 ^ ?g) * 65536 ^ lo"
      by (intro mult_mono power_increasing) (auto simp: algebra_simps)
    also have "\<dots> \<le> (65536 ^ hi * 65536 ^ ?g) * 65536 ^ lo" using h by (intro mult_right_mono) auto
    also have "\<dots> = 65536 ^ 8" using b(1) by (simp add: power_add [symmetric])
    finally show ?thesis by simp
  qed
qed

lemma split_on_no: "w \<in> set (split_on d s) \<Longrightarrow> d \<notin> set w"
  by (induction d s arbitrary: w rule: split_on.induct) (auto split: if_splits list.splits)

lemma split_on_sub: "w \<in> set (split_on d s) \<Longrightarrow> set w \<subseteq> set s"
  by (induction d s arbitrary: w rule: split_on.induct) (fastforce split: if_splits list.splits)+

lemma split_scope_ok:
  assumes "split_scope s = Some (a, z)" "CHR ''/'' \<notin> set s"
  shows "scope_ok 6 z"
proof -
  have "\<forall>w\<in>set (split_on CHR ''%'' s). CHR ''%'' \<notin> set w \<and> CHR ''/'' \<notin> set w"
    using split_on_no split_on_sub assms(2) by blast
  with assms(1) show ?thesis by (auto simp: split_scope_def scope_ok_def split: list.splits if_splits)
qed

lemma ipv6_addr_valid: "ipv6_addr s = Some (n, z) \<Longrightarrow> n < 2 ^ 128 \<and> scope_ok 6 z"
  by (auto simp: ipv6_addr_def split: if_splits option.splits dest: ipv6_int_bound split_scope_ok)

lemma ip_address_valid: "ip_address s = Some a \<Longrightarrow> addr_valid a"
  by (auto simp: ip_address_def addr_valid_def width_def scope_ok_def split: option.splits if_splits
      dest!: ipv4_int_bound ipv6_addr_valid)

lemma net_make_valid:
  assumes "v \<in> {4, 6}" "n < 2 ^ width v" "p \<le> width v" "scope_ok v z"
  shows "net_valid (net_make v n z p)"
proof -
  have "n div 2 ^ (width v - p) * 2 ^ (width v - p) \<le> n" by simp
  also note assms(2)
  finally have "net_base (net_make v n z p) < 2 ^ width v" by (simp add: net_make_def Let_def)
  then show ?thesis
    using assms net_make_ok [of v n z p] by (auto simp: net_valid_def net_make_def Let_def scope_ok_def)
qed

lemma prefix_bound: "prefix_from_string w s = Some p \<Longrightarrow> p \<le> w"
  by (auto simp: prefix_from_string_def split: if_splits)

lemma mask_bound: "prefix_from_ip_string s = Some p \<Longrightarrow> p \<le> 32"
  by (auto simp: prefix_from_ip_string_def prefix_from_mask_int_def find_Some_iff split: option.splits simp del: upt.simps)

lemma ip_network_valid: "ip_network s = Some n \<Longrightarrow> net_valid n"
  by (auto simp: ip_network_def ipv4_network_def ipv6_network_def split: option.splits list.splits
      intro!: net_make_valid simp: width_def scope_ok_def dest!: ipv4_int_bound ipv6_addr_valid prefix_bound mask_bound)

section \<open>Excluding a network\<close>

definition net_at :: "ipnet \<Rightarrow> nat \<Rightarrow> ipaddr" where
  "net_at n k = \<lparr>ip_ver = net_ver n, ip_int = k, ip_scope = None\<rparr>"

text \<open>\<^verbatim>\<open>a.overlaps(b)\<close>\<close>

definition overlaps_net :: "ipnet \<Rightarrow> ipnet \<Rightarrow> bool" where
  "overlaps_net a b =
     (net_contains b (net_at a (net_base a)) \<or> net_contains b (net_at a (broadcast a))
      \<or> net_contains a (net_at b (net_base b)) \<or> net_contains a (net_at b (broadcast b)))"

text \<open>The two networks of \<^verbatim>\<open>n.subnets()\<close>, made from integers.\<close>

definition half :: "ipnet \<Rightarrow> nat \<Rightarrow> ipnet" where
  "half n i = \<lparr>net_ver = net_ver n, net_base = net_base n + i * (host_size n div 2), net_plen = Suc (net_plen n),
     net_scope = None\<rparr>"

definition unpack_error :: pyexc where
  "unpack_error = ValueError ''not enough values to unpack (expected 2, got 1)''"

text \<open>
  The loop of \<^verbatim>\<open>address_exclude\<close>; the number counts the host bits of \<open>s1\<close> and \<open>s2\<close>, which
  have two subnets as long as one is left.
\<close>

fun exclude_loop :: "nat \<Rightarrow> ipnet \<Rightarrow> ipnet \<Rightarrow> ipnet \<Rightarrow> ipnet list res" where
  "exclude_loop k s1 s2 e =
     (if s1 = e then Inr [s2]
      else if s2 = e then Inr [s1]
      else if subnet_of e s1 then
        (case k of 0 \<Rightarrow> Inl unpack_error
         | Suc j \<Rightarrow> bindE (exclude_loop j (half s1 0) (half s1 1) e) (\<lambda>r. Inr (s2 # r)))
      else if subnet_of e s2 then
        (case k of 0 \<Rightarrow> Inl unpack_error
         | Suc j \<Rightarrow> bindE (exclude_loop j (half s2 0) (half s2 1) e) (\<lambda>r. Inr (s1 # r)))
      else Inl AssertionError)"

declare exclude_loop.simps [simp del]

definition address_exclude :: "ipnet \<Rightarrow> ipnet \<Rightarrow> ipnet list res" where
  "address_exclude a e =
     (if net_ver a \<noteq> net_ver e then Inl TypeError
      else if \<not> subnet_of e a then Inl (ValueError (network_text e @ '' not contained in '' @ network_text a))
      else if e = a then Inr []
      else (case width (net_ver a) - net_plen a of
              0 \<Rightarrow> Inl unpack_error
            | Suc k \<Rightarrow> exclude_loop k (half a 0) (half a 1) e))"

text \<open>The integers of a network.\<close>

definition in_net :: "ipnet \<Rightarrow> nat \<Rightarrow> bool" where
  "in_net n x \<longleftrightarrow> net_base n \<le> x \<and> x < net_base n + host_size n"

lemma le_broadcast: "x \<le> broadcast n \<longleftrightarrow> x < net_base n + host_size n"
  using host_size_pos(1) [of n] by (simp add: broadcast_def del: host_size_pos) arith

lemma in_net_ends [simp]: "in_net n (net_base n)" "in_net n (broadcast n)"
  using le_broadcast [of "broadcast n" n] le_broadcast [of "net_base n" n] by (simp_all add: in_net_def)

lemma in_net_contains: "net_valid n \<Longrightarrow> net_contains n a \<longleftrightarrow> net_ver n = ip_ver a \<and> in_net n (ip_int a)"
  using net_contains_range [of n a] le_broadcast [of "ip_int a" n] by (auto simp: net_valid_def in_net_def)

lemma subnet_of_in:
  assumes "subnet_of a b" "in_net a x"
  shows "in_net b x"
proof -
  have "net_base b \<le> net_base a" "broadcast a \<le> broadcast b" using assms(1) by (auto simp: subnet_of_def base_le_def)
  moreover have "net_base a \<le> x" "x \<le> broadcast a" using assms(2) by (simp_all add: in_net_def le_broadcast)
  ultimately have "net_base b \<le> x" "x \<le> broadcast b" by simp_all
  then show ?thesis by (simp add: in_net_def le_broadcast)
qed

lemma half_simps [simp]:
  "net_ver (half n i) = net_ver n" "net_base (half n i) = net_base n + i * (host_size n div 2)"
  "net_plen (half n i) = Suc (net_plen n)" "net_scope (half n i) = None"
  by (simp_all add: half_def)

lemma half_facts:
  assumes "net_valid n" "net_plen n < width (net_ver n)" "i \<le> 1"
  shows "net_valid (half n i)" "host_size (half n i) = host_size n div 2" "host_size n = 2 * (host_size n div 2)"
proof -
  let ?w = "width (net_ver n)" and ?p = "net_plen n"
  have w: "?w - ?p = Suc (?w - Suc ?p)" using assms(2) by simp
  have h: "host_size n = 2 * 2 ^ (?w - Suc ?p)" unfolding host_size_def w by simp
  then show s: "host_size (half n i) = host_size n div 2" "host_size n = 2 * (host_size n div 2)"
    by (simp_all add: half_def host_size_def)
  obtain q where q: "net_base n = q * host_size n"
    using assms(1) by (auto simp: net_valid_def net_ok_def elim: dvdE simp: mod_eq_0_iff_dvd mult.commute)
  then have b: "net_base (half n i) = (2 * q + i) * host_size (half n i)"
    using s by (simp add: half_def algebra_simps)
  have d: "2 ^ ?w = 2 ^ ?p * host_size n" using assms(2) by (simp add: host_size_def power_add [symmetric])
  have "q * host_size n < 2 ^ ?p * host_size n" using assms(1) q d by (simp add: net_valid_def)
  then have "Suc q \<le> 2 ^ ?p" by simp
  then have "Suc q * host_size n \<le> 2 ^ ?w" unfolding d by (rule mult_right_mono) simp
  moreover have "net_base (half n i) < Suc q * host_size n"
    using assms(3) s(2) host_size_pos(1) [of n] q by (cases i) (auto simp: half_def)
  ultimately have "net_base (half n i) < 2 ^ ?w" by linarith
  then show "net_valid (half n i)"
    using assms(1,2) b by (auto simp: net_valid_def net_ok_def scope_ok_def simp del: half_simps(2))
qed

lemma half_split:
  assumes "net_valid n" "net_plen n < width (net_ver n)"
  shows "in_net n x \<longleftrightarrow> in_net (half n 0) x \<or> in_net (half n 1) x" "\<not> (in_net (half n 0) x \<and> in_net (half n 1) x)"
  using half_facts(2,3) [OF assms, of 0] half_facts(2) [OF assms, of 1]
  by (auto simp: in_net_def half_def)

lemma exclude_loop_exact:
  assumes "exclude_loop k s1 s2 e = Inr ps" "net_valid s1" "net_valid s2" "net_ver s1 = v" "net_ver s2 = v"
    "net_plen s1 + k = width v" "net_plen s2 + k = width v" "\<And>x. \<not> (in_net s1 x \<and> in_net s2 x)"
  shows "(\<forall>q\<in>set ps. net_valid q \<and> net_ver q = v)
    \<and> (\<forall>x. (\<exists>q\<in>set ps. in_net q x) \<longleftrightarrow> (in_net s1 x \<or> in_net s2 x) \<and> \<not> in_net e x)"
  using assms
proof (induction k arbitrary: s1 s2 ps)
  case 0
  then show ?case
    by (subst (asm) exclude_loop.simps) (auto split: if_splits)
next
  case (Suc k)
  note sub = subnet_of_in [of e s1] subnet_of_in [of e s2]
  consider "s1 = e" "ps = [s2]" | "s2 = e" "ps = [s1]"
    | r where "subnet_of e s1" "exclude_loop k (half s1 0) (half s1 1) e = Inr r" "ps = s2 # r"
    | r where "subnet_of e s2" "exclude_loop k (half s2 0) (half s2 1) e = Inr r" "ps = s1 # r"
    using Suc.prems(1) by (subst (asm) exclude_loop.simps) (auto simp: bindE_Inr split: if_splits)
  then show ?case
  proof cases
    case 1
    then show ?thesis using Suc.prems by auto
  next
    case 2
    then show ?thesis using Suc.prems by auto
  next
    case 3
    have p: "net_plen s1 < width (net_ver s1)" using Suc.prems(4,6) by simp
    have "(\<forall>q\<in>set r. net_valid q \<and> net_ver q = v)
      \<and> (\<forall>x. (\<exists>q\<in>set r. in_net q x) \<longleftrightarrow> (in_net (half s1 0) x \<or> in_net (half s1 1) x) \<and> \<not> in_net e x)"
      by (rule Suc.IH [OF 3(2)])
        (use Suc.prems(4,6) half_facts(1) [OF Suc.prems(2) p] half_split(2) [OF Suc.prems(2) p] in simp_all)
    then show ?thesis
      using 3(3) Suc.prems(3,5,8) sub(1) [OF 3(1)] unfolding half_split(1) [OF Suc.prems(2) p, symmetric] by auto
  next
    case 4
    have p: "net_plen s2 < width (net_ver s2)" using Suc.prems(5,7) by simp
    have "(\<forall>q\<in>set r. net_valid q \<and> net_ver q = v)
      \<and> (\<forall>x. (\<exists>q\<in>set r. in_net q x) \<longleftrightarrow> (in_net (half s2 0) x \<or> in_net (half s2 1) x) \<and> \<not> in_net e x)"
      by (rule Suc.IH [OF 4(2)])
        (use Suc.prems(5,7) half_facts(1) [OF Suc.prems(3) p] half_split(2) [OF Suc.prems(3) p] in simp_all)
    then show ?thesis
      using 4(3) Suc.prems(2,4,8) sub(2) [OF 4(1)] unfolding half_split(1) [OF Suc.prems(3) p, symmetric] by auto
  qed
qed

lemma address_exclude_exact:
  assumes "address_exclude a e = Inr ps" "net_valid a"
  shows "(\<forall>q\<in>set ps. net_valid q \<and> net_ver q = net_ver a)
    \<and> (\<forall>x. (\<exists>q\<in>set ps. in_net q x) \<longleftrightarrow> in_net a x \<and> \<not> in_net e x)"
proof (cases "e = a")
  case True
  then show ?thesis using assms(1) by (auto simp: address_exclude_def split: if_splits)
next
  case False
  then obtain k where k: "width (net_ver a) - net_plen a = Suc k" "exclude_loop k (half a 0) (half a 1) e = Inr ps"
    using assms(1) by (auto simp: address_exclude_def split: if_splits nat.splits)
  then have p: "net_plen a < width (net_ver a)" by simp
  have "(\<forall>q\<in>set ps. net_valid q \<and> net_ver q = net_ver a)
    \<and> (\<forall>x. (\<exists>q\<in>set ps. in_net q x) \<longleftrightarrow> (in_net (half a 0) x \<or> in_net (half a 1) x) \<and> \<not> in_net e x)"
    by (rule exclude_loop_exact [OF k(2)])
      (use k(1) half_facts(1) [OF assms(2) p] half_split(2) [OF assms(2) p] in simp_all)
  then show ?thesis using half_split(1) [OF assms(2) p] by auto
qed

lemma overlaps_net_iff:
  assumes "net_valid a" "net_valid b" "net_ver a = net_ver b"
  shows "overlaps_net a b \<longleftrightarrow> (\<exists>x. in_net a x \<and> in_net b x)"
proof -
  have "overlaps_net a b \<longleftrightarrow> in_net b (net_base a) \<or> in_net b (broadcast a) \<or> in_net a (net_base b) \<or> in_net a (broadcast b)"
    by (simp add: overlaps_net_def in_net_contains assms net_at_def)
  also have "\<dots> \<longleftrightarrow> (\<exists>x. in_net a x \<and> in_net b x)"
  proof
    assume "in_net b (net_base a) \<or> in_net b (broadcast a) \<or> in_net a (net_base b) \<or> in_net a (broadcast b)"
    then show "\<exists>x. in_net a x \<and> in_net b x" using in_net_ends [of a] in_net_ends [of b] by blast
  qed (auto simp: in_net_def)
  finally show ?thesis .
qed

end
