(* ===== verification/PolicyCompiler.thy ===== *)
theory PolicyCompiler
  imports EngagementDomain EngagementPolicy PyIpExclude
begin

text \<open>
  \<^verbatim>\<open>nightrecon_white_engine/policy_compiler.py\<close>: the execution policy compiled from the definition
  of an engagement, with its scope less its exclusions, and the bundle that binds the policy to
  the fingerprints of the definition.
\<close>

section \<open>The effective scope\<close>

abbreviation PCE :: "string \<Rightarrow> pyexc" where
  "PCE \<equiv> PolicyCompilationError"

definition network_for_target :: "target \<Rightarrow> ipnet option res" where
  "network_for_target t =
     (if t_type t = CIDR then bindE (the_network (t_value t)) (\<lambda>n. Inr (Some n))
      else if t_type t = IPV4 \<or> t_type t = IPV6 then
        bindE (the_address (t_value t)) (\<lambda>a.
        bindE (the_network (address_text a @ CHR ''/'' # str_nat (if ip_ver a = 4 then 32 else 128))) (\<lambda>n.
        Inr (Some n)))
      else Inr None)"

definition subtract_network :: "ipnet \<Rightarrow> ipnet \<Rightarrow> ipnet list res" where
  "subtract_network a e =
     (if net_ver a \<noteq> net_ver e \<or> \<not> overlaps_net a e then Inr [a]
      else if subnet_of a e then Inr []
      else if subnet_of e a then address_exclude a e
      else Inl (PCE ''scope exclusion cannot be represented exactly''))"

text \<open>The loop over the exclusions, which ends early when no piece is left.\<close>

fun subtract_all :: "ipnet list \<Rightarrow> ipnet list \<Rightarrow> ipnet list res" where
  "subtract_all ps [] = Inr ps"
| "subtract_all ps (e # es) =
     bindE (mapE (\<lambda>p. subtract_network p e) ps) (\<lambda>qss.
     if concat qss = [] then Inr [] else subtract_all (concat qss) es)"

text \<open>What one allowed target adds to the result.\<close>

definition target_scope :: "string list \<Rightarrow> ipnet list \<Rightarrow> target \<Rightarrow> string list res" where
  "target_scope hosts nets t =
     (if t_type t = HOSTNAME then Inr (if t_value t \<notin> set hosts then [t_value t] else [])
      else if t_type t = IPV4 \<or> t_type t = IPV6 then
        bindE (the_address (t_value t)) (\<lambda>a.
        Inr (if \<exists>n\<in>set nets. ip_ver a = net_ver n \<and> net_contains n a then [] else [address_text a]))
      else
        bindE (the_network (t_value t)) (\<lambda>n.
        bindE (subtract_all [n] nets) (\<lambda>ps. Inr (map network_text ps))))"

definition excluded_hosts :: "target list \<Rightarrow> string list" where
  "excluded_hosts ts = map t_value (filter (\<lambda>t. t_type t = HOSTNAME) ts)"

definition excluded_networks :: "target list \<Rightarrow> ipnet list res" where
  "excluded_networks ts = bindE (mapE network_for_target ts) (\<lambda>ns. Inr (List.map_filter id ns))"

definition effective_scope :: "string list \<Rightarrow> string list \<Rightarrow> string list res" where
  "effective_scope allowed excluded =
     bindE (mapE parse_target allowed) (\<lambda>ats.
     bindE (mapE parse_target excluded) (\<lambda>xts.
     bindE (excluded_networks xts) (\<lambda>nets.
     bindE (mapE (target_scope (excluded_hosts xts) nets) ats) (\<lambda>pss.
     req (concat pss \<noteq> []) (PCE ''ROE exclusions remove the entire effective scope'')
       (Inr (sort (remdups (concat pss))))))))"

section \<open>The bundle\<close>

text \<open>The two versions are never validated when a bundle is read, so they stay raw values.\<close>

record policy_bundle =
  pb_engagement :: string
  pb_version :: pyval
  pb_fp :: string
  pb_roe_version :: pyval
  pb_roe_fp :: string
  pb_policy :: exec_policy

definition bundle_sha :: "string \<Rightarrow> pyval \<Rightarrow> string res" where
  "bundle_sha field v =
     (case v of
        PStr s \<Rightarrow> req (length s = 64 \<and> list_all is_hex_lower s) (PCE (field @ '' must be a lowercase SHA-256'')) (Inr s)
      | _ \<Rightarrow> Inl (PCE (field @ '' must be a lowercase SHA-256'')))"

definition policy_bundle_init ::
  "pyval \<Rightarrow> pyval \<Rightarrow> pyval \<Rightarrow> pyval \<Rightarrow> pyval \<Rightarrow> pyval \<Rightarrow> pyval \<Rightarrow> exec_policy \<Rightarrow> policy_bundle res" where
  "policy_bundle_init schema compiler gid version fp rversion rfp p =
     req (py_eq_int schema 1) (PCE ''unsupported compiled policy bundle schema'')
    (req (py_eq_int compiler 1) (PCE ''unsupported policy compiler version'')
    (req (PStr (ep_engagement p) = gid) (PCE ''compiled policy engagement does not match bundle'')
    (bindE (bundle_sha ''engagement_fingerprint'' fp) (\<lambda>f.
     bindE (bundle_sha ''roe_fingerprint'' rfp) (\<lambda>r.
     Inr \<lparr>pb_engagement = ep_engagement p, pb_version = version, pb_fp = f, pb_roe_version = rversion,
          pb_roe_fp = r, pb_policy = p\<rparr>)))))"

definition policy_fp :: "(string \<Rightarrow> string) \<Rightarrow> exec_policy \<Rightarrow> string" where
  "policy_fp h p = fingerprint h (policy_to_dict p)"

definition policy_bundle_fields :: "(string \<Rightarrow> string) \<Rightarrow> policy_bundle \<Rightarrow> (string \<times> pyval) list" where
  "policy_bundle_fields h b =
     [(''schema_version'', PInt 1), (''compiler_version'', PInt 1), (''engagement_id'', PStr (pb_engagement b)),
      (''engagement_version'', pb_version b), (''engagement_fingerprint'', PStr (pb_fp b)),
      (''roe_version'', pb_roe_version b), (''roe_fingerprint'', PStr (pb_roe_fp b)),
      (''policy_fingerprint'', PStr (policy_fp h (pb_policy b))), (''policy'', policy_to_dict (pb_policy b))]"

definition policy_bundle_fp :: "(string \<Rightarrow> string) \<Rightarrow> policy_bundle \<Rightarrow> string" where
  "policy_bundle_fp h b = fingerprint h (PDict (policy_bundle_fields h b))"

definition policy_bundle_to_dict :: "(string \<Rightarrow> string) \<Rightarrow> policy_bundle \<Rightarrow> pyval" where
  "policy_bundle_to_dict h b =
     PDict (policy_bundle_fields h b @ [(''bundle_fingerprint'', PStr (policy_bundle_fp h b))])"

definition policy_bundle_to_json :: "(string \<Rightarrow> string) \<Rightarrow> policy_bundle \<Rightarrow> string" where
  "policy_bundle_to_json h b = dumps False (policy_bundle_to_dict h b)"

text \<open>\<^verbatim>\<open>verify_integrity\<close> compares what \<^verbatim>\<open>to_dict\<close> has just computed with itself.\<close>

definition policy_bundle_verify :: "(string \<Rightarrow> string) \<Rightarrow> policy_bundle \<Rightarrow> bool" where
  "policy_bundle_verify h b =
     (dget (dict_items (policy_bundle_to_dict h b)) ''policy_fingerprint'' = PStr (policy_fp h (pb_policy b))
      \<and> dget (dict_items (policy_bundle_to_dict h b)) ''bundle_fingerprint'' = PStr (policy_bundle_fp h b))"

definition policy_bundle_keys :: "string list" where
  "policy_bundle_keys =
     [''schema_version'', ''compiler_version'', ''engagement_id'', ''engagement_version'', ''engagement_fingerprint'',
      ''roe_version'', ''roe_fingerprint'', ''policy_fingerprint'', ''bundle_fingerprint'', ''policy'']"

text \<open>\<^verbatim>\<open>except ValueError as exc: raise PolicyCompilationError(...)\<close>\<close>

definition as_compilation :: "string \<Rightarrow> 'a res \<Rightarrow> 'a res" where
  "as_compilation pre r = (case r of Inl (ValueError m) \<Rightarrow> Inl (PCE (pre @ m)) | _ \<Rightarrow> r)"

definition policy_bundle_from_dict :: "(string \<Rightarrow> string) \<Rightarrow> pyval \<Rightarrow> policy_bundle res" where
  "policy_bundle_from_dict h v =
     req (is_dict_with policy_bundle_keys v) (PCE ''compiled policy bundle schema is not supported'')
       (let d = dict_items v in
        case dget d ''policy'' of
          PDict pd \<Rightarrow>
            bindE (as_compilation [] (policy_from_dict (PDict pd))) (\<lambda>p.
            bindE (policy_bundle_init (dget d ''schema_version'') (dget d ''compiler_version'') (dget d ''engagement_id'')
                     (dget d ''engagement_version'') (dget d ''engagement_fingerprint'') (dget d ''roe_version'')
                     (dget d ''roe_fingerprint'') p) (\<lambda>b.
            req (dget d ''policy_fingerprint'' = PStr (policy_fp h (pb_policy b)))
                (PCE ''compiled policy fingerprint verification failed'')
           (req (dget d ''bundle_fingerprint'' = PStr (policy_bundle_fp h b))
                (PCE ''compiled policy bundle fingerprint verification failed'') (Inr b))))
        | _ \<Rightarrow> Inl (PCE ''compiled policy must be an object''))"

definition policy_bundle_from_json :: "(string \<Rightarrow> string) \<Rightarrow> string \<Rightarrow> policy_bundle res" where
  "policy_bundle_from_json h s =
     (case loads s of
        None \<Rightarrow> Inl (PCE ''compiled policy bundle is not valid JSON'')
      | Some v \<Rightarrow> policy_bundle_from_dict h v)"

section \<open>Compilation\<close>

definition intrusiveness_impact :: "string \<Rightarrow> string option" where
  "intrusiveness_impact i =
     (if i = ''passive'' then Some ''low'' else if i = ''safe-active'' then Some ''standard''
      else if i = ''intrusive'' then Some ''high'' else None)"

definition compiled_policy :: "engagement_definition \<Rightarrow> string list \<Rightarrow> string \<Rightarrow> exec_policy res" where
  "compiled_policy g scope impact =
     policy_init (PInt 1) (PStr (ed_id g)) (map PStr scope) (PStr (ro_from (ed_roe g))) (PStr (ro_until (ed_roe g)))
       (PInt (ro_max_actions (ed_roe g))) (map PStr (sort (ro_allowed (ed_roe g)))) (PStr impact) [] (PBool False) (PInt 0)"

definition compile_engagement_policy :: "(string \<Rightarrow> string) \<Rightarrow> engagement_definition \<Rightarrow> policy_bundle res" where
  "compile_engagement_policy h g =
     (case intrusiveness_impact (ro_intrusiveness (ed_roe g)) of
        None \<Rightarrow> Inl (PCE (''destructive intrusiveness is not representable by the shared-core ''
                   @ ''execution policy and cannot be compiled''))
      | Some impact \<Rightarrow>
          bindE (effective_scope (sd_allowed (ro_scope (ed_roe g))) (sd_excluded (ro_scope (ed_roe g)))) (\<lambda>scope.
          bindE (as_compilation ''ROE cannot be represented safely as shared-core policy: ''
                   (compiled_policy g scope impact)) (\<lambda>p.
          policy_bundle_init (PInt 1) (PInt 1) (PStr (ed_id g)) (PInt (ed_version g))
            (PStr (definition_fingerprint h g)) (PInt (ro_version (ed_roe g))) (PStr (roe_fingerprint h (ed_roe g))) p)))"

end
