(* ===== verification/CompilerFacts.thy ===== *)
theory CompilerFacts
  imports PolicyCompiler
begin

text \<open>
  Facts on the policy compiler: the texts of the effective scope parse as the rules they stand
  for, the pieces of a network hold exactly the addresses that are left, and the scope as a
  whole covers exactly what was allowed and not excluded.
\<close>

section \<open>Texts that are targets\<close>

lemma strip_keep: "s \<noteq> [] \<Longrightarrow> \<not> py_space (hd s) \<Longrightarrow> \<not> py_space (last s) \<Longrightarrow> strip s = s"
  by (simp add: strip_def lstrip_def) (metis dropWhile_eq_self_iff hd_rev rev_rev_ident)

lemma strip_ends:
  assumes "strip v \<noteq> []"
  shows "\<not> py_space (last (strip v))"
  using assms hd_dropWhile [of py_space "rev (lstrip v)"] unfolding strip_def lstrip_def by (simp add: last_rev)

lemma not_space: "is_hex_lower c \<Longrightarrow> \<not> py_space c" "is_digit c \<Longrightarrow> \<not> py_space c" "\<not> py_space CHR '':''" "\<not> py_space CHR ''.''"
proof -
  show "\<not> py_space CHR '':''" "\<not> py_space CHR ''.''" by code_simp+
qed (auto simp: is_hex_lower_def is_digit_def py_space_def Let_def)

lemma ipv6_text_nonspace: "n < 2 ^ 128 \<Longrightarrow> ipv6_text n \<noteq> [] \<and> (\<forall>c\<in>set (ipv6_text n). \<not> py_space c)"
  using ipv6_text_chars [of n] ipv6_text_colon [of n] not_space by force

lemma ipv4_text_nonspace: "ipv4_text n \<noteq> [] \<and> (\<forall>c\<in>set (ipv4_text n). \<not> py_space c)"
  using ipv4_text_chars [of n] not_space by (force simp: ipv4_text_def)

lemma hd_append_in: "s \<noteq> [] \<Longrightarrow> hd (s @ t) \<in> set s" "s \<noteq> [] \<Longrightarrow> last s \<in> set s"
  by simp_all

lemma strip_network_text:
  assumes "net_valid n"
  shows "strip (network_text n) = network_text n"
proof (rule strip_keep)
  let ?b = "if net_ver n = 4 then ipv4_text (net_base n) else ipv6_text (net_base n)"
  have b: "?b \<noteq> [] \<and> (\<forall>c\<in>set ?b. \<not> py_space c)"
    using assms ipv4_text_nonspace ipv6_text_nonspace by (auto simp: net_valid_def width_def)
  have t: "network_text n = ?b @ (if net_ver n = 4 then [] else scope_text (net_scope n)) @ CHR ''/'' # str_nat (net_plen n)"
    by (simp add: network_text_def)
  show "network_text n \<noteq> []" by (simp add: network_text_def)
  show "\<not> py_space (hd (network_text n))" unfolding t using hd_append_in(1) b by blast
  have "last (network_text n) = last (str_nat (net_plen n))" by (simp add: network_text_def)
  then show "\<not> py_space (last (network_text n))"
    using str_nat_digits [of "net_plen n"] not_space(2) by (simp add: list_all_iff)
qed

lemma parse_network_text:
  "net_valid n \<Longrightarrow> parse_target (network_text n) = Inr \<lparr>t_value = network_text n, t_type = CIDR\<rparr>"
  by (simp add: parse_target_def Let_def strip_network_text ip_network_text) (simp add: network_text_def)

definition scope_tail :: "ipaddr \<Rightarrow> bool" where
  "scope_tail a \<longleftrightarrow> (\<forall>z. ip_scope a = Some z \<longrightarrow> \<not> py_space (last z))"

lemma strip_address_text:
  assumes "addr_valid a" "scope_tail a"
  shows "strip (address_text a) = address_text a"
proof (rule strip_keep)
  let ?b = "if ip_ver a = 4 then ipv4_text (ip_int a) else ipv6_text (ip_int a)"
  have b: "?b \<noteq> [] \<and> (\<forall>c\<in>set ?b. \<not> py_space c)"
    using assms(1) ipv4_text_nonspace ipv6_text_nonspace by (auto simp: addr_valid_def width_def)
  have t: "address_text a = ?b @ (if ip_ver a = 4 then [] else scope_text (ip_scope a))" by (simp add: address_text_def)
  show "address_text a \<noteq> []" unfolding t using b by simp
  show "\<not> py_space (hd (address_text a))" unfolding t using hd_append_in(1) b by blast
  show "\<not> py_space (last (address_text a))"
    using b hd_append_in(2) assms
    by (cases "ip_scope a") (auto simp: t scope_text_def scope_tail_def addr_valid_def scope_ok_def)
qed

lemma address_text_no_slash: "addr_valid a \<Longrightarrow> CHR ''/'' \<notin> set (address_text a)"
  by (cases "ip_scope a") (auto simp: address_text_def ipv4_text_no ipv6_text_no not_hex scope_text_def addr_valid_def scope_ok_def)

lemma address_text_nonempty: "addr_valid a \<Longrightarrow> address_text a \<noteq> []"
  using ipv4_text_nonspace ipv6_text_nonspace by (auto simp: address_text_def addr_valid_def width_def)

lemma parse_address_text:
  assumes "addr_valid a" "scope_tail a"
  shows "parse_target (address_text a)
    = Inr \<lparr>t_value = address_text a, t_type = (if ip_ver a = 4 then IPV4 else IPV6)\<rparr>"
  using assms address_text_no_slash [OF assms(1)] address_text_nonempty [OF assms(1)]
  by (simp add: parse_target_def Let_def strip_address_text ip_address_text)

text \<open>A scope identifier that was parsed ends the text, which was stripped.\<close>

lemma join_on_Cons: "join_on d ((c # w) # ws) = c # join_on d (w # ws)"
  by (cases ws) simp_all

lemma join_split: "join_on d (split_on d s) = s"
proof (induction d s rule: split_on.induct)
  case (2 d c s)
  then show ?case by (cases "split_on d s") (simp_all add: join_on_Cons)
qed simp

lemma split_scope_tail:
  assumes "split_scope s = Some (a, Some z)"
  shows "last s = last z"
proof -
  have z: "z \<noteq> []" "split_on CHR ''%'' s = [a, z]" using assms by (auto simp: split_scope_def split: list.splits if_splits)
  then have "s = a @ CHR ''%'' # z" using join_split [of "CHR ''%''" s] by simp
  with z(1) show ?thesis by simp
qed

lemma ip_address_tail:
  assumes "ip_address s = Some a" "s \<noteq> []" "\<not> py_space (last s)"
  shows "scope_tail a"
  using assms split_scope_tail
  by (fastforce simp: ip_address_def ipv6_addr_def scope_tail_def split: option.splits if_splits)

lemma parsed_address:
  assumes "parse_target v = Inr r" "t_type r = IPV4 \<or> t_type r = IPV6"
  obtains a where "ip_address (t_value r) = Some a" "addr_valid a" "scope_tail a"
    "t_type r = (if ip_ver a = 4 then IPV4 else IPV6)"
proof -
  obtain a where a: "ip_address (strip v) = Some a" "t_value r = strip v" "strip v \<noteq> []"
    "t_type r = (if ip_ver a = 4 then IPV4 else IPV6)"
    using assms by (auto simp: parse_target_def Let_def split: if_splits option.splits)
  with that ip_address_valid ip_address_tail strip_ends show ?thesis by metis
qed

lemma parsed_network:
  assumes "parse_target v = Inr r" "t_type r = CIDR"
  obtains n where "ip_network (t_value r) = Some n" "net_valid n"
  using assms ip_network_valid by (auto simp: parse_target_def Let_def split: if_splits option.splits)

section \<open>The pieces of a network\<close>

definition gone :: "ipnet list \<Rightarrow> nat \<Rightarrow> nat \<Rightarrow> bool" where
  "gone es v x \<longleftrightarrow> (\<exists>e\<in>set es. net_ver e = v \<and> in_net e x)"

definition pieces_of :: "ipnet list \<Rightarrow> nat \<Rightarrow> (nat \<Rightarrow> bool) \<Rightarrow> bool" where
  "pieces_of ps v P \<longleftrightarrow> (\<forall>q\<in>set ps. net_valid q \<and> net_ver q = v) \<and> (\<forall>x. (\<exists>q\<in>set ps. in_net q x) \<longleftrightarrow> P x)"

lemma subtract_network_exact:
  assumes "subtract_network a e = Inr ps" "net_valid a" "net_valid e"
  shows "pieces_of ps (net_ver a) (\<lambda>x. in_net a x \<and> \<not> gone [e] (net_ver a) x)"
proof -
  consider "ps = [a]" "net_ver a \<noteq> net_ver e" | "ps = [a]" "\<not> overlaps_net a e" "net_ver a = net_ver e"
    | "ps = []" "subnet_of a e" "net_ver a = net_ver e"
    | "address_exclude a e = Inr ps" "net_ver a = net_ver e"
    using assms(1) unfolding subtract_network_def by (metis sum.inject(2) sum.distinct(1))
  then show ?thesis
  proof cases
    case 1
    then show ?thesis using assms(2) by (simp add: pieces_of_def gone_def)
  next
    case 2
    have "\<not> (in_net a x \<and> in_net e x)" for x using overlaps_net_iff [OF assms(2,3) 2(3)] 2(2) by blast
    then show ?thesis using assms(2) 2(1) by (auto simp: pieces_of_def gone_def)
  next
    case 3
    then show ?thesis using subnet_of_in [OF 3(2)] by (auto simp: pieces_of_def gone_def)
  next
    case 4
    then show ?thesis using address_exclude_exact [OF 4(1) assms(2)] by (simp add: pieces_of_def gone_def)
  qed
qed

lemma pieces_concat:
  assumes "list_all2 (\<lambda>p qs. pieces_of qs v (\<lambda>x. in_net p x \<and> N x)) ps qss" "pieces_of ps v P"
  shows "pieces_of (concat qss) v (\<lambda>x. P x \<and> N x)"
proof -
  have "(\<forall>q\<in>set (concat qss). net_valid q \<and> net_ver q = v)
      \<and> (\<forall>x. (\<exists>q\<in>set (concat qss). in_net q x) \<longleftrightarrow> (\<exists>p\<in>set ps. in_net p x) \<and> N x)"
    using assms(1)
  proof (induction rule: list_all2_induct)
    case (Cons p ps qs qss)
    then show ?case unfolding pieces_of_def concat.simps set_append bex_Un ball_Un by auto
  qed simp
  with assms(2) show ?thesis by (auto simp: pieces_of_def)
qed

lemma subtract_all_exact:
  "subtract_all ps es = Inr qs \<Longrightarrow> pieces_of ps v P \<Longrightarrow> \<forall>e\<in>set es. net_valid e \<Longrightarrow>
     pieces_of qs v (\<lambda>x. P x \<and> \<not> gone es v x)"
proof (induction es arbitrary: ps P)
  case Nil
  then show ?case by (simp add: gone_def)
next
  case (Cons e es)
  then obtain qss where qss: "list_all2 (\<lambda>p r. subtract_network p e = Inr r) ps qss"
    and q: "(if concat qss = [] then Inr [] else subtract_all (concat qss) es) = Inr qs"
    by (auto simp: bindE_Inr mapE_Inr_iff)
  have "list_all2 (\<lambda>p r. pieces_of r v (\<lambda>x. in_net p x \<and> \<not> gone [e] v x)) ps qss"
    using qss Cons.prems(2,3) subtract_network_exact
    by (fastforce simp: list_all2_conv_all_nth pieces_of_def [of ps] all_set_conv_all_nth)
  then have pc: "pieces_of (concat qss) v (\<lambda>x. P x \<and> \<not> gone [e] v x)" by (rule pieces_concat) (rule Cons.prems(2))
  show ?case
  proof (cases "concat qss = []")
    case True
    then show ?thesis using pc [unfolded True] q by (auto simp: pieces_of_def gone_def)
  next
    case False
    then have "subtract_all (concat qss) es = Inr qs" using q by (simp only: if_False)
    from Cons.IH [OF this pc] Cons.prems(3) show ?thesis by (auto simp: pieces_of_def gone_def)
  qed
qed

section \<open>Host names parse again\<close>

definition rule_matches :: "string list \<Rightarrow> target \<Rightarrow> bool" where
  "rule_matches vs t \<longleftrightarrow> (\<exists>v\<in>set vs. \<exists>r. parse_target v = Inr r \<and> scope_matches r t = Inr True)"

lemma lower_char_facts:
  "is_digit (lower_char c) = is_digit c" "is_digit c \<Longrightarrow> lower_char c = c"
  "lower_char c = CHR ''.'' \<longleftrightarrow> c = CHR ''.''" "lower_char c = CHR ''-'' \<longleftrightarrow> c = CHR ''-''"
  "is_alnum c \<Longrightarrow> is_alnum (lower_char c)"
proof -
  have p: "list_all (\<lambda>c. is_digit (lower_char c) = is_digit c \<and> (is_digit c \<longrightarrow> lower_char c = c)
      \<and> (lower_char c = CHR ''.'') = (c = CHR ''.'') \<and> (lower_char c = CHR ''-'') = (c = CHR ''-'')
      \<and> (is_alnum c \<longrightarrow> is_alnum (lower_char c))) Enum.enum" by code_simp
  have "c \<in> set Enum.enum" by (simp add: enum_UNIV)
  with p have "is_digit (lower_char c) = is_digit c \<and> (is_digit c \<longrightarrow> lower_char c = c)
      \<and> (lower_char c = CHR ''.'') = (c = CHR ''.'') \<and> (lower_char c = CHR ''-'') = (c = CHR ''-'')
      \<and> (is_alnum c \<longrightarrow> is_alnum (lower_char c))" unfolding list_all_iff by blast
  then show "is_digit (lower_char c) = is_digit c" "is_digit c \<Longrightarrow> lower_char c = c"
    "lower_char c = CHR ''.'' \<longleftrightarrow> c = CHR ''.''" "lower_char c = CHR ''-'' \<longleftrightarrow> c = CHR ''-''"
    "is_alnum c \<Longrightarrow> is_alnum (lower_char c)" by blast+
qed

lemma split_lower: "split_on CHR ''.'' (lower s) = map lower (split_on CHR ''.'' s)"
proof (induction s)
  case (Cons c s)
  then show ?case by (cases "split_on CHR ''.'' s") (simp_all add: lower_def lower_char_facts)
qed (simp add: lower_def)

lemma lower_digits: "all_digits s \<Longrightarrow> lower s = s"
  by (simp add: all_digits_def lower_def list_all_iff lower_char_facts map_idI)

lemma parse_octet_lower: "parse_octet (lower s) = parse_octet s"
proof (cases "all_digits s")
  case True
  then show ?thesis by (simp add: lower_digits)
next
  case False
  then have "\<not> all_digits (lower s)" by (auto simp: all_digits_def lower_def list_all_iff lower_char_facts)
  with False show ?thesis by (simp add: parse_octet_def)
qed

lemma ipv4_int_lower: "ipv4_int (lower s) = ipv4_int s"
  by (auto simp: ipv4_int_def split_lower parse_octet_lower split: list.splits option.splits)

lemma hostname_label_lower: "hostname_label l \<Longrightarrow> hostname_label (lower l)"
  by (cases l) (auto simp: list_all_iff hostname_label_def lower_def lower_char_facts last_map)

lemma hostname_lower: "hostname_pattern s \<Longrightarrow> hostname_pattern (lower s)"
  by (auto simp: hostname_pattern_def split_lower list_all_iff hostname_label_lower)

lemma hostname_chars: "hostname_pattern s \<Longrightarrow> c \<in> set s \<Longrightarrow> is_alnum c \<or> c = CHR ''-'' \<or> c = CHR ''.''"
  using set_join [of "CHR ''.''" "split_on CHR ''.'' s"] join_split [of "CHR ''.''" s]
  by (fastforce simp: hostname_pattern_def hostname_label_def list_all_iff)

lemma host_char:
  assumes "is_alnum c \<or> c = CHR ''-'' \<or> c = CHR ''.''"
  shows "\<not> py_space c \<and> c \<noteq> CHR ''/'' \<and> c \<noteq> CHR '':'' \<and> c \<noteq> CHR ''%''"
proof -
  have "list_all (\<lambda>c. is_alnum c \<or> c = CHR ''-'' \<or> c = CHR ''.'' \<longrightarrow>
      \<not> py_space c \<and> c \<noteq> CHR ''/'' \<and> c \<noteq> CHR '':'' \<and> c \<noteq> CHR ''%'') Enum.enum" by code_simp
  then show ?thesis using assms unfolding list_all_iff enum_UNIV by blast
qed

lemma not_ipv6: "CHR '':'' \<notin> set s \<Longrightarrow> CHR ''%'' \<notin> set s \<Longrightarrow> ipv6_addr s = None"
  by (simp add: ipv6_addr_def split_scope_def split_on_absent ipv6_int_def ipv6_parts_def)

lemma hostname_again:
  assumes "parse_target v = Inr r" "t_type r = HOSTNAME"
  shows "parse_target (t_value r) = Inr r"
proof -
  let ?s = "strip v"
  have s: "?s \<noteq> []" "ip_address ?s = None" "hostname_pattern ?s" "r = \<lparr>t_value = lower ?s, t_type = HOSTNAME\<rparr>"
    using assms by (auto simp: parse_target_def Let_def split: if_splits option.splits)
  have c: "\<not> py_space c \<and> c \<noteq> CHR ''/'' \<and> c \<noteq> CHR '':'' \<and> c \<noteq> CHR ''%''" if "c \<in> set (lower ?s)" for c
    using host_char hostname_chars [OF hostname_lower [OF s(3)] that] by blast
  have ne: "lower ?s \<noteq> []" using s(1) by (simp add: lower_def)
  then have "strip (lower ?s) = lower ?s" by (rule strip_keep) (use c ne in auto)
  moreover have "CHR ''/'' \<notin> set (lower ?s)" using c by blast
  moreover have "ipv4_int (lower ?s) = None"
    using s(2) \<open>CHR ''/'' \<notin> set (lower ?s)\<close> hostname_chars [OF s(3)] host_char
    by (fastforce simp: ip_address_def ipv4_int_lower split: option.splits if_splits)
  moreover have "ipv6_addr (lower ?s) = None" by (rule not_ipv6) (use c in blast)+
  ultimately show ?thesis
    using ne hostname_lower [OF s(3)] by (simp add: parse_target_def Let_def ip_address_def s(4))
qed

section \<open>What is excluded\<close>

text \<open>An address that an exclusion names or whose integer lies in an excluded network.\<close>

definition excludes :: "string list \<Rightarrow> ipaddr \<Rightarrow> bool" where
  "excludes vs a \<longleftrightarrow> (\<exists>v\<in>set vs. \<exists>r. parse_target v = Inr r \<and>
     ((\<exists>b. (t_type r = IPV4 \<or> t_type r = IPV6) \<and> ip_address (t_value r) = Some b \<and> ip_ver b = ip_ver a \<and> ip_int b = ip_int a)
      \<or> (\<exists>n. t_type r = CIDR \<and> ip_network (t_value r) = Some n \<and> net_contains n a)))"

definition single :: "ipaddr \<Rightarrow> ipnet" where
  "single a = \<lparr>net_ver = ip_ver a, net_base = ip_int a, net_plen = width (ip_ver a), net_scope = ip_scope a\<rparr>"

lemma single_valid: "addr_valid a \<Longrightarrow> net_valid (single a)"
  by (auto simp: addr_valid_def net_valid_def single_def net_ok_def host_size_def)

lemma single_ver [simp]: "net_ver (single a) = ip_ver a"
  by (simp add: single_def)

lemma in_single: "in_net (single a) x \<longleftrightarrow> x = ip_int a"
  by (auto simp: in_net_def single_def host_size_def)

lemma network_for_address:
  assumes "ip_address (t_value r) = Some a" "addr_valid a" "t_type r = IPV4 \<or> t_type r = IPV6"
  shows "network_for_target r = Inr (Some (single a))"
proof -
  have "ip_ver a = 4 \<Longrightarrow> ip_scope a = None" using assms(2) by (cases "ip_scope a") (auto simp: addr_valid_def scope_ok_def)
  then have "address_text a @ CHR ''/'' # str_nat (if ip_ver a = 4 then 32 else 128) = network_text (single a)"
    using assms(2) by (auto simp: address_text_def network_text_def single_def width_def addr_valid_def)
  then show ?thesis
    using assms ip_network_text [OF single_valid [OF assms(2)]]
    by (auto simp: network_for_target_def the_address_def the_network_def)
qed

lemma network_for_parsed:
  assumes "parse_target v = Inr r" "network_for_target r = Inr (Some n)"
  shows "net_valid n \<and> (\<forall>x. in_net n x \<longleftrightarrow>
     (\<exists>b. (t_type r = IPV4 \<or> t_type r = IPV6) \<and> ip_address (t_value r) = Some b \<and> ip_ver b = net_ver n \<and> ip_int b = x)
     \<or> (t_type r = CIDR \<and> ip_network (t_value r) = Some n \<and> in_net n x))"
proof (cases "t_type r = IPV4 \<or> t_type r = IPV6")
  case True
  obtain a where a: "ip_address (t_value r) = Some a" "addr_valid a" by (rule parsed_address [OF assms(1) True])
  have "n = single a" using network_for_address [OF a True] assms(2) by simp
  then show ?thesis using a True single_valid [OF a(2)] by (auto simp: in_single)
next
  case False
  then have c: "t_type r = CIDR" using assms(2) by (cases "t_type r") (auto simp: network_for_target_def)
  then obtain m where "ip_network (t_value r) = Some m" "net_valid m" by (rule parsed_network [OF assms(1)])
  with assms(2) c show ?thesis by (auto simp: network_for_target_def the_network_def)
qed

lemma excluded_networks_set:
  assumes "excluded_networks ts = Inr nets"
  shows "set nets = {n. \<exists>r\<in>set ts. network_for_target r = Inr (Some n)}"
proof -
  obtain ns where ns: "list_all2 (\<lambda>r m. network_for_target r = Inr m) ts ns" "nets = List.map_filter id ns"
    using assms by (auto simp: excluded_networks_def bindE_Inr mapE_Inr_iff)
  then show ?thesis
    unfolding ns(2)
    by (induction rule: list_all2_induct) (auto simp: map_filter_simps split: option.splits)
qed

lemma parsed_list: "mapE parse_target vs = Inr ts \<Longrightarrow> set ts = {r. \<exists>v\<in>set vs. parse_target v = Inr r}"
proof -
  assume "mapE parse_target vs = Inr ts"
  then have "list_all2 (\<lambda>v r. parse_target v = Inr r) vs ts" by (simp add: mapE_Inr_iff)
  then show ?thesis by (induction rule: list_all2_induct) auto
qed

lemma gone_excludes:
  assumes "mapE parse_target vs = Inr ts" "excluded_networks ts = Inr nets"
  shows "\<forall>n\<in>set nets. net_valid n" "gone nets (ip_ver a) (ip_int a) \<longleftrightarrow> excludes vs a"
proof -
  have s: "n \<in> set nets \<longleftrightarrow> (\<exists>v\<in>set vs. \<exists>r. parse_target v = Inr r \<and> network_for_target r = Inr (Some n))" for n
    unfolding excluded_networks_set [OF assms(2)] using parsed_list [OF assms(1)] by blast
  then show "\<forall>n\<in>set nets. net_valid n" using network_for_parsed by blast
  show "gone nets (ip_ver a) (ip_int a) \<longleftrightarrow> excludes vs a"
  proof
    assume "gone nets (ip_ver a) (ip_int a)"
    then obtain n v r where n: "net_ver n = ip_ver a" "in_net n (ip_int a)" "v \<in> set vs" "parse_target v = Inr r"
      "network_for_target r = Inr (Some n)" using s by (auto simp: gone_def)
    from network_for_parsed [OF n(4,5)] n(1,2) have
      "(\<exists>b. (t_type r = IPV4 \<or> t_type r = IPV6) \<and> ip_address (t_value r) = Some b \<and> ip_ver b = ip_ver a \<and> ip_int b = ip_int a)
       \<or> (t_type r = CIDR \<and> ip_network (t_value r) = Some n \<and> net_contains n a)"
      by (auto simp: in_net_contains)
    with n(3,4) show "excludes vs a" unfolding excludes_def by blast
  next
    assume "excludes vs a"
    then obtain v r where v: "v \<in> set vs" "parse_target v = Inr r" and d:
      "(\<exists>b. (t_type r = IPV4 \<or> t_type r = IPV6) \<and> ip_address (t_value r) = Some b \<and> ip_ver b = ip_ver a \<and> ip_int b = ip_int a)
       \<or> (\<exists>n. t_type r = CIDR \<and> ip_network (t_value r) = Some n \<and> net_contains n a)"
      unfolding excludes_def by blast
    from d show "gone nets (ip_ver a) (ip_int a)"
    proof
      assume "\<exists>b. (t_type r = IPV4 \<or> t_type r = IPV6) \<and> ip_address (t_value r) = Some b \<and> ip_ver b = ip_ver a \<and> ip_int b = ip_int a"
      then obtain b where b: "t_type r = IPV4 \<or> t_type r = IPV6" "ip_address (t_value r) = Some b" "ip_ver b = ip_ver a"
        "ip_int b = ip_int a" by blast
      then have "network_for_target r = Inr (Some (single b))" using network_for_address ip_address_valid by blast
      then have "single b \<in> set nets" using s v by blast
      with b(3,4) in_single [of b] show ?thesis unfolding gone_def by (metis single_ver)
    next
      assume "\<exists>n. t_type r = CIDR \<and> ip_network (t_value r) = Some n \<and> net_contains n a"
      then obtain n where n: "t_type r = CIDR" "ip_network (t_value r) = Some n" "net_contains n a" by blast
      then have "network_for_target r = Inr (Some n)" by (simp add: network_for_target_def the_network_def)
      then have "n \<in> set nets" using s v by blast
      with n ip_network_valid [OF n(2)] show ?thesis by (auto simp: gone_def in_net_contains)
    qed
  qed
qed

section \<open>What one allowed target contributes\<close>

lemma network_pieces:
  assumes "target_scope hosts nets r = Inr vs" "t_type r = CIDR" "ip_network (t_value r) = Some n"
    "\<forall>e\<in>set nets. net_valid e"
  obtains ps where "vs = map network_text ps" "pieces_of ps (net_ver n) (\<lambda>x. in_net n x \<and> \<not> gone nets (net_ver n) x)"
proof -
  obtain ps where ps: "subtract_all [n] nets = Inr ps" "vs = map network_text ps"
    using assms(1-3) by (auto simp: target_scope_def the_network_def bindE_Inr)
  have "pieces_of [n] (net_ver n) (in_net n)" using ip_network_valid [OF assms(3)] by (simp add: pieces_of_def)
  from subtract_all_exact [OF ps(1) this assms(4)] that ps(2) show ?thesis by blast
qed

lemma rule_matches_pieces:
  assumes "\<forall>q\<in>set ps. net_valid q"
  shows "rule_matches (map network_text ps) t \<longleftrightarrow>
    (\<exists>q\<in>set ps. scope_matches \<lparr>t_value = network_text q, t_type = CIDR\<rparr> t = Inr True)"
  using assms parse_network_text by (auto simp: rule_matches_def)

lemma match_host: "t_type t = HOSTNAME \<Longrightarrow> scope_matches r t = Inr b \<longleftrightarrow> b = (t_type r = HOSTNAME \<and> t_value r = t_value t)"
  by (auto simp: scope_matches_def)

lemma match_address:
  assumes "t_type t = IPV4 \<or> t_type t = IPV6" "ip_address (t_value t) = Some a"
  shows "t_type r = HOSTNAME \<Longrightarrow> scope_matches r t = Inr False"
    "t_type r = IPV4 \<or> t_type r = IPV6 \<Longrightarrow> ip_address (t_value r) = Some b \<Longrightarrow> scope_matches r t = Inr (b = a)"
    "t_type r = CIDR \<Longrightarrow> ip_network (t_value r) = Some n \<Longrightarrow>
       scope_matches r t = Inr (net_ver n = ip_ver a \<and> in_net n (ip_int a))"
  using assms in_net_contains [OF ip_network_valid, of "t_value r" n a]
  by (auto simp: scope_matches_def the_address_def the_network_def)

lemma contributes_host:
  assumes "parse_target v = Inr r" "target_scope hosts nets r = Inr vs" "\<forall>e\<in>set nets. net_valid e" "t_type t = HOSTNAME"
  shows "rule_matches vs t \<longleftrightarrow> scope_matches r t = Inr True \<and> t_value t \<notin> set hosts"
proof (cases "t_type r = HOSTNAME")
  case True
  then show ?thesis
    using assms hostname_again [OF assms(1) True] by (auto simp: target_scope_def rule_matches_def match_host)
next
  case False
  have "\<not> rule_matches vs t"
  proof (cases "t_type r = CIDR")
    case True
    then obtain n where n: "ip_network (t_value r) = Some n" by (rule parsed_network [OF assms(1)])
    obtain ps where "vs = map network_text ps" "pieces_of ps (net_ver n) (\<lambda>x. in_net n x \<and> \<not> gone nets (net_ver n) x)"
      by (rule network_pieces [OF assms(2) True n assms(3)])
    then show ?thesis using rule_matches_pieces [of ps t] assms(4) by (auto simp: pieces_of_def match_host)
  next
    case c: False
    then have ip: "t_type r = IPV4 \<or> t_type r = IPV6" using False by (cases "t_type r") auto
    then obtain a where a: "ip_address (t_value r) = Some a" "addr_valid a" "scope_tail a" by (rule parsed_address [OF assms(1)])
    then have "vs = [] \<or> vs = [address_text a]"
      using assms(2) ip by (auto simp: target_scope_def the_address_def split: if_splits)
    then show ?thesis using parse_address_text [OF a(2,3)] assms(4) by (auto simp: rule_matches_def match_host split: if_splits)
  qed
  with False assms(4) show ?thesis by (simp add: match_host)
qed

lemma contributes_address:
  assumes "parse_target v = Inr r" "target_scope hosts nets r = Inr vs" "\<forall>e\<in>set nets. net_valid e"
    and t: "t_type t = IPV4 \<or> t_type t = IPV6" "ip_address (t_value t) = Some a"
  shows "rule_matches vs t \<longleftrightarrow> scope_matches r t = Inr True \<and> \<not> gone nets (ip_ver a) (ip_int a)"
proof -
  consider "t_type r = HOSTNAME" | "t_type r = CIDR" | "t_type r = IPV4 \<or> t_type r = IPV6" by (cases "t_type r") auto
  then show ?thesis
  proof cases
    case 1
    then show ?thesis
      using assms(2) hostname_again [OF assms(1) 1] match_address(1) [OF t 1] by (auto simp: target_scope_def rule_matches_def)
  next
    case 2
    then obtain n where n: "ip_network (t_value r) = Some n" by (rule parsed_network [OF assms(1)])
    obtain ps where ps: "vs = map network_text ps" "pieces_of ps (net_ver n) (\<lambda>x. in_net n x \<and> \<not> gone nets (net_ver n) x)"
      by (rule network_pieces [OF assms(2) 2 n assms(3)])
    have q: "scope_matches \<lparr>t_value = network_text q, t_type = CIDR\<rparr> t = Inr (net_ver n = ip_ver a \<and> in_net q (ip_int a))"
      if "q \<in> set ps" for q
      using match_address(3) [OF t, of "\<lparr>t_value = network_text q, t_type = CIDR\<rparr>" q] ip_network_text [of q] ps(2) that
      by (auto simp: pieces_of_def)
    have "rule_matches vs t \<longleftrightarrow> net_ver n = ip_ver a \<and> (\<exists>q\<in>set ps. in_net q (ip_int a))"
      using rule_matches_pieces [of ps t] ps q by (auto simp: pieces_of_def)
    also have "\<dots> \<longleftrightarrow> net_ver n = ip_ver a \<and> in_net n (ip_int a) \<and> \<not> gone nets (ip_ver a) (ip_int a)"
      using ps(2) by (auto simp: pieces_of_def)
    finally show ?thesis using match_address(3) [OF t 2 n] by simp
  next
    case 3
    then obtain b where b: "ip_address (t_value r) = Some b" "addr_valid b" "scope_tail b"
      "t_type r = (if ip_ver b = 4 then IPV4 else IPV6)" by (rule parsed_address [OF assms(1)])
    have m: "scope_matches r t = Inr (b = a)" by (rule match_address(2) [OF t 3 b(1)])
    have m': "scope_matches \<lparr>t_value = address_text b, t_type = (if ip_ver b = 4 then IPV4 else IPV6)\<rparr> t = Inr (b = a)"
      by (rule match_address(2) [OF t]) (simp_all add: ip_address_text [OF b(2)])
    have "vs = (if gone nets (ip_ver b) (ip_int b) then [] else [address_text b])"
      using assms(2,3) 3 b(1) by (auto simp: target_scope_def the_address_def gone_def in_net_contains split: if_splits)
    then show ?thesis using parse_address_text [OF b(2,3)] m m' by (auto simp: rule_matches_def)
  qed
qed

lemma contributes_network:
  assumes "parse_target v = Inr r" "target_scope hosts nets r = Inr vs" "\<forall>e\<in>set nets. net_valid e"
    and t: "t_type t = CIDR" "ip_network (t_value t) = Some n" and m: "rule_matches vs t" and x: "in_net n x"
  shows "\<exists>k. t_type r = CIDR \<and> ip_network (t_value r) = Some k \<and> net_ver k = net_ver n \<and> in_net k x
    \<and> \<not> gone nets (net_ver n) x"
proof -
  have nc: "scope_matches u t \<noteq> Inr True" if "t_type u \<noteq> CIDR" for u
    using that t by (auto simp: scope_matches_def the_network_def)
  have c: "t_type r = CIDR"
  proof (rule ccontr)
    assume f: "t_type r \<noteq> CIDR"
    show False
    proof (cases "t_type r = HOSTNAME")
      case True
      then show False using assms(2) m nc [of r] hostname_again [OF assms(1) True]
        by (auto simp: target_scope_def rule_matches_def split: if_splits)
    next
      case False
      with f have ip: "t_type r = IPV4 \<or> t_type r = IPV6" by (cases "t_type r") auto
      then obtain a where a: "ip_address (t_value r) = Some a" "addr_valid a" "scope_tail a" by (rule parsed_address [OF assms(1)])
      then have "vs = [] \<or> vs = [address_text a]"
        using assms(2) ip by (auto simp: target_scope_def the_address_def split: if_splits)
      then show False using parse_address_text [OF a(2,3)] m nc by (auto simp: rule_matches_def split: if_splits)
    qed
  qed
  then obtain k where k: "ip_network (t_value r) = Some k" by (rule parsed_network [OF assms(1)])
  obtain ps where ps: "vs = map network_text ps" "pieces_of ps (net_ver k) (\<lambda>x. in_net k x \<and> \<not> gone nets (net_ver k) x)"
    by (rule network_pieces [OF assms(2) c k assms(3)])
  then obtain q where q: "q \<in> set ps" "scope_matches \<lparr>t_value = network_text q, t_type = CIDR\<rparr> t = Inr True"
    using rule_matches_pieces [of ps t] m by (auto simp: pieces_of_def)
  have v: "net_valid q" "net_ver q = net_ver k" using ps(2) q(1) by (auto simp: pieces_of_def)
  then have "net_ver q = net_ver n" "subnet_of n q"
    using q(2) t ip_network_text [OF v(1)] by (auto simp: scope_matches_def the_network_def split: if_splits)
  then have "in_net q x" using subnet_of_in x by blast
  then have "in_net k x \<and> \<not> gone nets (net_ver k) x" using ps(2) q(1) by (auto simp: pieces_of_def)
  with c k v(2) \<open>net_ver q = net_ver n\<close> show ?thesis by auto
qed

section \<open>The effective scope\<close>

lemma effective_scope_parts:
  assumes "effective_scope allowed excluded = Inr out"
  obtains xts nets where "mapE parse_target excluded = Inr xts" "excluded_networks xts = Inr nets"
    "\<And>t. covered out t \<longleftrightarrow> (\<exists>v\<in>set allowed. \<exists>r vs. parse_target v = Inr r
       \<and> target_scope (excluded_hosts xts) nets r = Inr vs \<and> rule_matches vs t)"
    "\<And>v. v \<in> set allowed \<Longrightarrow> \<exists>r vs. parse_target v = Inr r \<and> target_scope (excluded_hosts xts) nets r = Inr vs"
proof -
  obtain ats xts nets pss where a: "mapE parse_target allowed = Inr ats" "mapE parse_target excluded = Inr xts"
    "excluded_networks xts = Inr nets" "mapE (target_scope (excluded_hosts xts) nets) ats = Inr pss"
    "out = sort (remdups (concat pss))"
    using assms by (auto simp: effective_scope_def bindE_Inr req_Inr)
  have l: "list_all2 (\<lambda>v r. parse_target v = Inr r) allowed ats"
    "list_all2 (\<lambda>r vs. target_scope (excluded_hosts xts) nets r = Inr vs) ats pss"
    using a(1,4) by (simp_all add: mapE_Inr_iff)
  then have l3: "list_all2 (\<lambda>v vs. \<exists>r. parse_target v = Inr r \<and> target_scope (excluded_hosts xts) nets r = Inr vs) allowed pss"
    by (fastforce simp: list_all2_conv_all_nth)
  have "covered out t \<longleftrightarrow> (\<exists>vs\<in>set pss. rule_matches vs t)" for t
    by (auto simp: covered_def rule_matches_def a(5))
  moreover have "(\<exists>vs\<in>set pss. rule_matches vs t) \<longleftrightarrow> (\<exists>v\<in>set allowed. \<exists>r vs. parse_target v = Inr r
       \<and> target_scope (excluded_hosts xts) nets r = Inr vs \<and> rule_matches vs t)" for t
    using l3 by (induction rule: list_all2_induct) auto
  moreover have "\<exists>r vs. parse_target v = Inr r \<and> target_scope (excluded_hosts xts) nets r = Inr vs" if "v \<in> set allowed" for v
    using l3 that by (induction rule: list_all2_induct) auto
  ultimately show ?thesis using that [OF a(2,3)] by simp
qed

lemma excluded_hosts_covered:
  assumes "mapE parse_target excluded = Inr xts" "t_type t = HOSTNAME"
  shows "t_value t \<in> set (excluded_hosts xts) \<longleftrightarrow> covered excluded t"
proof -
  have "t_value t \<in> set (excluded_hosts xts) \<longleftrightarrow> (\<exists>r\<in>set xts. t_type r = HOSTNAME \<and> t_value r = t_value t)"
    by (simp add: excluded_hosts_def image_iff) metis
  also have "\<dots> \<longleftrightarrow> covered excluded t"
    unfolding parsed_list [OF assms(1)] covered_def match_host [OF assms(2)] by blast
  finally show ?thesis .
qed

lemma effective_scope_host:
  assumes "effective_scope allowed excluded = Inr out" "t_type t = HOSTNAME"
  shows "covered out t \<longleftrightarrow> covered allowed t \<and> \<not> covered excluded t"
proof -
  obtain xts nets where e: "mapE parse_target excluded = Inr xts" "excluded_networks xts = Inr nets"
    "covered out t \<longleftrightarrow> (\<exists>v\<in>set allowed. \<exists>r vs. parse_target v = Inr r
       \<and> target_scope (excluded_hosts xts) nets r = Inr vs \<and> rule_matches vs t)"
    "\<And>v. v \<in> set allowed \<Longrightarrow> \<exists>r vs. parse_target v = Inr r \<and> target_scope (excluded_hosts xts) nets r = Inr vs"
    by (rule effective_scope_parts [OF assms(1)]) blast
  show ?thesis
    unfolding e(3) excluded_hosts_covered [OF e(1) assms(2), symmetric] covered_def [of allowed]
    using contributes_host [OF _ _ gone_excludes(1) [OF e(1,2)] assms(2)] e(4) by (metis sum.inject(2))
qed

lemma effective_scope_address:
  assumes "effective_scope allowed excluded = Inr out" "t_type t = IPV4 \<or> t_type t = IPV6" "ip_address (t_value t) = Some a"
  shows "covered out t \<longleftrightarrow> covered allowed t \<and> \<not> excludes excluded a"
proof -
  obtain xts nets where e: "mapE parse_target excluded = Inr xts" "excluded_networks xts = Inr nets"
    "covered out t \<longleftrightarrow> (\<exists>v\<in>set allowed. \<exists>r vs. parse_target v = Inr r
       \<and> target_scope (excluded_hosts xts) nets r = Inr vs \<and> rule_matches vs t)"
    "\<And>v. v \<in> set allowed \<Longrightarrow> \<exists>r vs. parse_target v = Inr r \<and> target_scope (excluded_hosts xts) nets r = Inr vs"
    by (rule effective_scope_parts [OF assms(1)]) blast
  show ?thesis
    unfolding e(3) gone_excludes(2) [OF e(1,2), symmetric] covered_def [of allowed]
    using contributes_address [OF _ _ gone_excludes(1) [OF e(1,2)] assms(2,3)] e(4) by (metis sum.inject(2))
qed

lemma effective_scope_network:
  assumes "effective_scope allowed excluded = Inr out" "t_type t = CIDR" "ip_network (t_value t) = Some n" "covered out t"
    "in_net n (ip_int a)" "ip_ver a = net_ver n"
  shows "(\<exists>v\<in>set allowed. \<exists>r k. parse_target v = Inr r \<and> t_type r = CIDR \<and> ip_network (t_value r) = Some k
      \<and> net_contains k a) \<and> \<not> excludes excluded a"
proof -
  obtain xts nets where e: "mapE parse_target excluded = Inr xts" "excluded_networks xts = Inr nets"
    "covered out t \<longleftrightarrow> (\<exists>v\<in>set allowed. \<exists>r vs. parse_target v = Inr r
       \<and> target_scope (excluded_hosts xts) nets r = Inr vs \<and> rule_matches vs t)"
    by (rule effective_scope_parts [OF assms(1)]) blast
  then obtain v r vs where v: "v \<in> set allowed" "parse_target v = Inr r" "target_scope (excluded_hosts xts) nets r = Inr vs"
    "rule_matches vs t" using assms(4) by blast
  obtain k where k: "t_type r = CIDR" "ip_network (t_value r) = Some k" "net_ver k = net_ver n" "in_net k (ip_int a)"
    "\<not> gone nets (net_ver n) (ip_int a)"
    using contributes_network [OF v(2,3) gone_excludes(1) [OF e(1,2)] assms(2,3) v(4) assms(5)] by blast
  moreover have "net_contains k a" using k(2-4) assms(6) in_net_contains [OF ip_network_valid] by auto
  moreover have "\<not> excludes excluded a"
    using k(5) gone_excludes(2) [OF e(1,2), of a] assms(6) by simp
  ultimately show ?thesis using v(1,2) by blast
qed

end
