(* ===== verification/CompilerProps.thy ===== *)
theory CompilerProps
  imports CompilerFacts PolicyProps ApprovalSample
begin

text \<open>
  The properties of the policy compiler: the compiled scope is exactly what was allowed and not
  excluded, a compiled policy only narrows the rules of engagement, and where compilation ends
  in an error of the library.
\<close>

section \<open>The scope\<close>

text \<open>C31: the scope that compilation gives covers a host name or an address exactly when the allowed
  targets cover it and no exclusion does, whatever mixture of addresses, networks and names the
  two lists hold; and when it covers a network, every address of that network lies in an allowed
  network and in no exclusion.\<close>
lemma effective_scope_exact:
  assumes "effective_scope allowed excluded = Inr out" "parse_target v = Inr t"
  shows "(t_type t = HOSTNAME \<longrightarrow> covered out t = (covered allowed t \<and> \<not> covered excluded t))
    \<and> (\<forall>a. t_type t \<in> {IPV4, IPV6} \<and> ip_address (t_value t) = Some a \<longrightarrow>
          covered out t = (covered allowed t \<and> \<not> excludes excluded a))
    \<and> (\<forall>n a. t_type t = CIDR \<and> ip_network (t_value t) = Some n \<and> covered out t \<and> net_contains n a \<longrightarrow>
          (\<exists>w\<in>set allowed. \<exists>r k. parse_target w = Inr r \<and> t_type r = CIDR \<and> ip_network (t_value r) = Some k
             \<and> net_contains k a) \<and> \<not> excludes excluded a)"
proof (intro conjI allI impI)
  show "t_type t = HOSTNAME \<Longrightarrow> covered out t = (covered allowed t \<and> \<not> covered excluded t)"
    by (rule effective_scope_host [OF assms(1)])
  show "covered out t = (covered allowed t \<and> \<not> excludes excluded a)"
    if "t_type t \<in> {IPV4, IPV6} \<and> ip_address (t_value t) = Some a" for a
    using that by (intro effective_scope_address [OF assms(1)]) auto
  fix n a
  assume n: "t_type t = CIDR \<and> ip_network (t_value t) = Some n \<and> covered out t \<and> net_contains n a"
  then have "net_ver n = ip_ver a \<and> in_net n (ip_int a)" using in_net_contains [OF ip_network_valid] by blast
  with n show "\<exists>w\<in>set allowed. \<exists>r k. parse_target w = Inr r \<and> t_type r = CIDR \<and> ip_network (t_value r) = Some k
      \<and> net_contains k a" "\<not> excludes excluded a"
    using effective_scope_network [OF assms(1), of t n a] by simp_all
qed

definition sample_allowed :: "string list" where
  "sample_allowed = [''10.0.0.0/29'', ''lab.example'', ''2001:db8::7'']"

definition sample_excluded :: "string list" where
  "sample_excluded = [''10.0.0.2'', ''2001:db8::/126'']"

lemma sample_effective:
  "effective_scope sample_allowed sample_excluded
    = Inr [''10.0.0.0/31'', ''10.0.0.3/32'', ''10.0.0.4/30'', ''2001:db8::7'', ''lab.example'']"
  by code_simp

lemma effective_scope_exact_witness:
  "\<not> covered [''10.0.0.0/31'', ''10.0.0.3/32'', ''10.0.0.4/30'', ''2001:db8::7'', ''lab.example'']
       \<lparr>t_value = ''10.0.0.2'', t_type = IPV4\<rparr>"
proof -
  let ?a = "\<lparr>ip_ver = 4, ip_int = 167772162, ip_scope = None\<rparr>"
  have t: "parse_target ''10.0.0.2'' = Inr \<lparr>t_value = ''10.0.0.2'', t_type = IPV4\<rparr>"
    "ip_address ''10.0.0.2'' = Some ?a" by code_simp+
  then have "excludes sample_excluded ?a" by (auto simp: excludes_def sample_excluded_def)
  with effective_scope_exact [OF sample_effective t(1)] t(2) show ?thesis by auto
qed

section \<open>The policy\<close>

lemma compiled_parts:
  assumes "compile_engagement_policy h g = Inr b"
  obtains impact scope where "intrusiveness_impact (ro_intrusiveness (ed_roe g)) = Some impact"
    "effective_scope (sd_allowed (ro_scope (ed_roe g))) (sd_excluded (ro_scope (ed_roe g))) = Inr scope"
    "compiled_policy g scope impact = Inr (pb_policy b)"
    "policy_bundle_init (PInt 1) (PInt 1) (PStr (ed_id g)) (PInt (ed_version g)) (PStr (definition_fingerprint h g))
       (PInt (ro_version (ed_roe g))) (PStr (roe_fingerprint h (ed_roe g))) (pb_policy b) = Inr b"
proof -
  obtain impact scope p where c: "intrusiveness_impact (ro_intrusiveness (ed_roe g)) = Some impact"
    "effective_scope (sd_allowed (ro_scope (ed_roe g))) (sd_excluded (ro_scope (ed_roe g))) = Inr scope"
    "as_compilation ''ROE cannot be represented safely as shared-core policy: '' (compiled_policy g scope impact) = Inr p"
    "policy_bundle_init (PInt 1) (PInt 1) (PStr (ed_id g)) (PInt (ed_version g)) (PStr (definition_fingerprint h g))
       (PInt (ro_version (ed_roe g))) (PStr (roe_fingerprint h (ed_roe g))) p = Inr b"
    using assms by (auto simp: compile_engagement_policy_def bindE_Inr split: option.splits)
  have "p = pb_policy b" using c(4) by (auto simp: policy_bundle_init_def req_Inr bindE_Inr)
  moreover have "compiled_policy g scope impact = Inr p"
    using c(3) by (auto simp: as_compilation_def split: sum.splits pyexc.splits)
  ultimately show ?thesis using that c by blast
qed

lemma compiled_policy_is:
  assumes "compiled_policy g scope impact = Inr p"
  shows "policy_ok p" "ep_engagement p = ed_id g" "ep_scope p = scope" "ep_valid_from p = ro_from (ed_roe g)"
    "ep_valid_until p = ro_until (ed_roe g)" "ep_max_actions p = ro_max_actions (ed_roe g)"
    "set (ep_permitted p) = set (ro_allowed (ed_roe g))" "ep_max_impact p = impact" "ep_approval_required p = []"
    "\<not> ep_revoked p" "ep_used p = 0"
proof -
  have m: "map PStr scope = map PStr (ep_scope p)" "map PStr (sort (ro_allowed (ed_roe g))) = map PStr (ep_permitted p)"
    "map PStr (ep_approval_required p) = []"
    using assms by (simp_all add: compiled_policy_def policy_init_Inr)
  then have "scope = ep_scope p" "sort (ro_allowed (ed_roe g)) = ep_permitted p" by simp_all
  from this(1) this(2) [symmetric] m(3)
  show "policy_ok p" "ep_engagement p = ed_id g" "ep_scope p = scope" "ep_valid_from p = ro_from (ed_roe g)"
    "ep_valid_until p = ro_until (ed_roe g)" "ep_max_actions p = ro_max_actions (ed_roe g)"
    "set (ep_permitted p) = set (ro_allowed (ed_roe g))" "ep_max_impact p = impact" "ep_approval_required p = []"
    "\<not> ep_revoked p" "ep_used p = 0"
    using assms policy_init_ok [OF assms [unfolded compiled_policy_def]]
    by (simp_all add: compiled_policy_def policy_init_Inr)
qed

text \<open>What an exclusion and an allowance of the rules of engagement say of a target.\<close>

definition roe_permits :: "scope_definition \<Rightarrow> target \<Rightarrow> bool" where
  "roe_permits sc t \<longleftrightarrow>
     (t_type t = HOSTNAME \<longrightarrow> covered (sd_allowed sc) t \<and> \<not> covered (sd_excluded sc) t)
     \<and> (\<forall>a. t_type t \<in> {IPV4, IPV6} \<and> ip_address (t_value t) = Some a \<longrightarrow>
           covered (sd_allowed sc) t \<and> \<not> excludes (sd_excluded sc) a)
     \<and> (\<forall>n a. t_type t = CIDR \<and> ip_network (t_value t) = Some n \<and> net_contains n a \<longrightarrow>
           (\<exists>w\<in>set (sd_allowed sc). \<exists>r k. parse_target w = Inr r \<and> t_type r = CIDR \<and> ip_network (t_value r) = Some k
              \<and> net_contains k a) \<and> \<not> excludes (sd_excluded sc) a)"

lemma covered_permits:
  assumes "effective_scope (sd_allowed sc) (sd_excluded sc) = Inr out" "parse_target v = Inr t" "covered out t"
  shows "roe_permits sc t"
proof -
  have "covered (sd_allowed sc) t \<and> \<not> covered (sd_excluded sc) t" if "t_type t = HOSTNAME"
    using effective_scope_host [OF assms(1) that] assms(3) by simp
  moreover have "covered (sd_allowed sc) t \<and> \<not> excludes (sd_excluded sc) a"
    if "t_type t \<in> {IPV4, IPV6} \<and> ip_address (t_value t) = Some a" for a
    using effective_scope_address [OF assms(1), of t a] assms(3) that by auto
  moreover have "(\<exists>w\<in>set (sd_allowed sc). \<exists>r k. parse_target w = Inr r \<and> t_type r = CIDR \<and> ip_network (t_value r) = Some k
              \<and> net_contains k a) \<and> \<not> excludes (sd_excluded sc) a"
    if n: "t_type t = CIDR \<and> ip_network (t_value t) = Some n \<and> net_contains n a" for n a
  proof -
    have "net_ver n = ip_ver a \<and> in_net n (ip_int a)" using n in_net_contains [OF ip_network_valid] by blast
    with n assms(3) show ?thesis by (intro effective_scope_network [OF assms(1)]) auto
  qed
  ultimately show ?thesis unfolding roe_permits_def by blast
qed

text \<open>C32: compilation only preserves or narrows what the rules of engagement say.  Whenever the compiled
  policy allows an action, the engagement is active, the instant lies in the validity window, the
  capability is an allowed and not a prohibited technique, the impact is within what the
  intrusiveness stands for, the target is permitted and not excluded, and a high-impact action was
  approved; destructive rules do not compile.\<close>
lemma compiled_policy_narrows:
  assumes "compile_engagement_policy h g = Inr b" "definition_ok g"
    "evaluate_action (pb_policy b) status a now = Inr d" "de_allowed d"
  shows "\<exists>t impact. parse_target (ac_target a) = Inr t \<and> roe_permits (ro_scope (ed_roe g)) t
    \<and> status = Some ''active''
    \<and> time_of (ro_from (ed_roe g)) \<le> instant now \<and> instant now \<le> time_of (ro_until (ed_roe g))
    \<and> ac_capability a \<in> set (ro_allowed (ed_roe g)) \<and> ac_capability a \<notin> set (ro_prohibited (ed_roe g))
    \<and> intrusiveness_impact (ro_intrusiveness (ed_roe g)) = Some impact
    \<and> impact_rank (ac_impact a) \<le> impact_rank impact
    \<and> (ac_impact a = ''high'' \<longrightarrow> ac_approval a)
    \<and> ro_intrusiveness (ed_roe g) \<noteq> ''destructive''"
proof -
  obtain impact scope where c: "intrusiveness_impact (ro_intrusiveness (ed_roe g)) = Some impact"
    "effective_scope (sd_allowed (ro_scope (ed_roe g))) (sd_excluded (ro_scope (ed_roe g))) = Inr scope"
    "compiled_policy g scope impact = Inr (pb_policy b)"
    by (rule compiled_parts [OF assms(1)])
  note p = compiled_policy_is [OF c(3)]
  obtain t where t: "check_request a now = Inr t" "target_ok t"
    and al: "de_allowed d \<longleftrightarrow> may_run (pb_policy b) status a t (instant now) \<and>
       impact_rank (ac_impact a) \<le> impact_rank (ep_max_impact (pb_policy b)) \<and> ep_used (pb_policy b) < ep_max_actions (pb_policy b)"
    by (rule evaluate_action_Inr [OF p(1) assms(3)])
  have tt: "parse_target (ac_target a) = Inr t" using check_request_target [OF t(1)] by simp
  have "set (ro_allowed (ed_roe g)) \<inter> set (ro_prohibited (ed_roe g)) = {}"
    using assms(2) by (auto simp: definition_ok_def roe_ok_def roe_make_def roe_init_def bindE_Inr req_Inr unique_sorted_text_Inr)
  moreover have "ro_intrusiveness (ed_roe g) \<noteq> ''destructive''" using c(1) by (auto simp: intrusiveness_impact_def)
  moreover have "covered scope t" using al assms(4) p(3) by (simp add: may_run_def)
  ultimately show ?thesis
    using al assms(4) p c(1) tt covered_permits [OF c(2) tt]
    by (auto simp: may_run_def needs_approval_def)
qed

definition sample_rules :: roe where
  "sample_rules =
     \<lparr>ro_engagement = ''ENG-1'', ro_version = 1, ro_title = ''Lab'', ro_created = ''2024-01-01T00:00:00Z'',
      ro_from = ''2024-01-01T00:00:00Z'', ro_until = ''2024-02-01T00:00:00Z'',
      ro_scope = \<lparr>sd_allowed = sort sample_allowed, sd_excluded = sample_excluded\<rparr>, ro_allowed = [''scan.tcp''],
      ro_prohibited = [''exploit.run''], ro_intrusiveness = ''safe-active'', ro_max_actions = 5,
      ro_handling = \<lparr>dh_class = ''internal'', dh_days = 30, dh_export = False, dh_notes = None\<rparr>,
      ro_deviation = True, ro_notes = None\<rparr>"

definition sample_definition :: engagement_definition where
  "sample_definition =
     \<lparr>ed_id = ''ENG-1'', ed_version = 1, ed_name = ''Lab'', ed_created = ''2024-01-01T00:00:00Z'', ed_status = ''active'',
      ed_owner = ''alice'',
      ed_contacts = [\<lparr>ct_id = ''alice'', ct_name = ''Alice'', ct_role = ''lead'', ct_email = None, ct_phone = None\<rparr>],
      ed_roe = sample_rules, ed_description = None\<rparr>"

lemma sample_definition_ok: "definition_ok sample_definition"
  by code_simp

definition sample_request_now :: "action" where
  "sample_request_now = \<lparr>ac_capability = ''scan.tcp'', ac_target = ''10.0.0.5'', ac_impact = ''standard'', ac_approval = False\<rparr>"

lemma sample_allowed_now:
  "is_ok (bindE (effective_scope (sort sample_allowed) sample_excluded) (\<lambda>scope.
     bindE (compiled_policy sample_definition scope ''standard'') (\<lambda>p.
     bindE (evaluate_action p (Some ''active'') sample_request_now sample_now) (\<lambda>d. req (de_allowed d) TypeError (Inr ())))))"
  by code_simp

lemma sample_compiles: "is_ok (compile_engagement_policy toy_hash sample_definition)"
proof -
  obtain scope p where "effective_scope (sort sample_allowed) sample_excluded = Inr scope"
    "compiled_policy sample_definition scope ''standard'' = Inr p"
    using sample_allowed_now by (auto simp: is_ok_iff bindE_Inr)
  moreover from compiled_policy_is(2) [OF this(2)] have "ep_engagement p = ''ENG-1''" by (simp add: sample_definition_def)
  moreover have "bundle_sha f (PStr (toy_hash s)) = Inr (toy_hash s)" for f s
    using toy_hash_ok by (simp add: bundle_sha_def)
  moreover have "intrusiveness_impact (ro_intrusiveness (ed_roe sample_definition)) = Some ''standard''"
    "sd_allowed (ro_scope (ed_roe sample_definition)) = sort sample_allowed"
    "sd_excluded (ro_scope (ed_roe sample_definition)) = sample_excluded" "ed_id sample_definition = ''ENG-1''"
    by (simp_all add: sample_definition_def sample_rules_def intrusiveness_impact_def del: sort_key_simps)
  ultimately show ?thesis
    by (simp add: compile_engagement_policy_def as_compilation_def policy_bundle_init_def definition_fingerprint_def
        roe_fingerprint_def fingerprint_def)
qed

lemma compiled_policy_narrows_witness:
  "\<exists>b d t. compile_engagement_policy toy_hash sample_definition = Inr b
     \<and> evaluate_action (pb_policy b) (Some ''active'') sample_request_now sample_now = Inr d \<and> de_allowed d
     \<and> roe_permits (ro_scope sample_rules) t"
proof -
  obtain b where b: "compile_engagement_policy toy_hash sample_definition = Inr b"
    using sample_compiles by (auto simp: is_ok_iff)
  have s: "intrusiveness_impact (ro_intrusiveness (ed_roe sample_definition)) = Some ''standard''"
    "sd_allowed (ro_scope (ed_roe sample_definition)) = sort sample_allowed"
    "sd_excluded (ro_scope (ed_roe sample_definition)) = sample_excluded" "ed_roe sample_definition = sample_rules"
    by (simp_all add: sample_definition_def sample_rules_def intrusiveness_impact_def del: sort_key_simps)
  obtain scope where "effective_scope (sort sample_allowed) sample_excluded = Inr scope"
    "compiled_policy sample_definition scope ''standard'' = Inr (pb_policy b)"
    using compiled_parts [OF b] s by (metis option.inject)
  then obtain d where d: "evaluate_action (pb_policy b) (Some ''active'') sample_request_now sample_now = Inr d" "de_allowed d"
    using sample_allowed_now by (auto simp: is_ok_iff bindE_Inr req_Inr)
  from compiled_policy_narrows [OF b sample_definition_ok d] b d s(4) show ?thesis by auto
qed

section \<open>Bundles\<close>

lemma policy_bundle_back:
  assumes "pb_engagement b = ep_engagement (pb_policy b)" "pb_version b = PInt m" "pb_roe_version b = PInt n"
    "\<And>f. bundle_sha f (PStr (pb_fp b)) = Inr (pb_fp b)" "\<And>f. bundle_sha f (PStr (pb_roe_fp b)) = Inr (pb_roe_fp b)"
    "policy_ok (pb_policy b)"
  shows "policy_bundle_from_dict h (norm (policy_bundle_to_dict h b)) = Inr b"
proof -
  obtain pd where pd: "norm (policy_to_dict (pb_policy b)) = PDict pd" by (simp add: policy_to_dict_def)
  have "policy_from_dict (PDict pd) = Inr (pb_policy b)" using policy_codec.dec_enc [OF assms(6)] pd by simp
  moreover have eq: "\<lparr>pb_engagement = ep_engagement (pb_policy b), pb_version = PInt m, pb_fp = pb_fp b,
      pb_roe_version = PInt n, pb_roe_fp = pb_roe_fp b, pb_policy = pb_policy b\<rparr> = b"
    using assms(1-3) by (cases b) simp
  ultimately show ?thesis
    using assms(1-5)
    by (simp add: policy_bundle_to_dict_def policy_bundle_fields_def policy_bundle_from_dict_def is_dict_with_def
        policy_bundle_keys_def dget_def Let_def pd as_compilation_def policy_bundle_init_def eq)
qed

text \<open>The text of a compiled bundle is read back as the same bundle.\<close>
lemma policy_bundle_roundtrip:
  assumes "compile_engagement_policy h g = Inr b"
  shows "policy_bundle_from_json h (policy_bundle_to_json h b) = Inr b"
proof -
  obtain impact scope where c: "compiled_policy g scope impact = Inr (pb_policy b)"
    "policy_bundle_init (PInt 1) (PInt 1) (PStr (ed_id g)) (PInt (ed_version g)) (PStr (definition_fingerprint h g))
       (PInt (ro_version (ed_roe g))) (PStr (roe_fingerprint h (ed_roe g))) (pb_policy b) = Inr b"
    by (rule compiled_parts [OF assms])
  then have f: "pb_engagement b = ep_engagement (pb_policy b)" "pb_version b = PInt (ed_version g)"
    "pb_roe_version b = PInt (ro_version (ed_roe g))"
    "\<And>f. bundle_sha f (PStr (pb_fp b)) = Inr (pb_fp b)" "\<And>f. bundle_sha f (PStr (pb_roe_fp b)) = Inr (pb_roe_fp b)"
    by (cases b; auto simp: policy_bundle_init_def req_Inr bindE_Inr bundle_sha_def)+
  have "json_ok (policy_bundle_to_dict h b)"
    using policy_to_dict_json [of "pb_policy b"] f(2,3) by (simp add: policy_bundle_to_dict_def policy_bundle_fields_def)
  with policy_bundle_back [OF f compiled_policy_is(1) [OF c(1)]] show ?thesis
    by (simp add: policy_bundle_from_json_def policy_bundle_to_json_def loads_dumps)
qed

section \<open>Exclusions with a zone\<close>

lemma half_not: "net_scope e \<noteq> None \<Longrightarrow> half n i \<noteq> e"
  by (auto simp: half_def)

lemma exclude_loop_scoped:
  assumes "net_scope e \<noteq> None" "net_scope s1 = None" "net_scope s2 = None"
    "net_valid s1" "net_valid s2" "net_plen s1 + k = width (net_ver s1)" "net_plen s2 + k = width (net_ver s2)"
  shows "exclude_loop k s1 s2 e = Inl AssertionError"
  using assms
proof (induction k arbitrary: s1 s2)
  case 0
  have "\<not> subnet_of e s" if "net_scope s = None" "net_plen s + 0 = width (net_ver s)" for s
  proof
    assume a: "subnet_of e s"
    then have "net_base s < net_base e" using that(1) assms(1) by (auto simp: subnet_of_def base_le_def)
    moreover have "host_size s = 1" using that(2) by (simp add: host_size_def)
    ultimately show False using subnet_of_in [OF a in_net_ends(1)] by (simp add: in_net_def)
  qed
  with 0 show ?case by (subst exclude_loop.simps) auto
next
  case (Suc k)
  have p: "net_plen s1 < width (net_ver s1)" "net_plen s2 < width (net_ver s2)" using Suc.prems(6,7) by simp_all
  have "exclude_loop k (half s1 0) (half s1 1) e = Inl AssertionError"
    "exclude_loop k (half s2 0) (half s2 1) e = Inl AssertionError"
    by (rule Suc.IH; use Suc.prems half_facts(1) [OF Suc.prems(4) p(1)] half_facts(1) [OF Suc.prems(5) p(2)] in simp)+
  with Suc.prems(1-3) show ?case by (subst exclude_loop.simps) auto
qed

lemma subtract_zoned:
  assumes "net_valid a" "net_valid e" "net_ver a = net_ver e" "net_scope e \<noteq> None"
    "net_base a < net_base e" "broadcast e \<le> broadcast a"
  shows "subtract_network a e = Inl AssertionError"
proof -
  have s: "subnet_of e a" using assms(5,6) by (simp add: subnet_of_def base_le_def)
  have plen: "net_plen a < width (net_ver a)"
  proof (rule ccontr)
    assume "\<not> net_plen a < width (net_ver a)"
    then have "broadcast a = net_base a" by (simp add: broadcast_def host_size_def)
    moreover have "net_base e \<le> broadcast e" using in_net_ends(2) [of e] by (simp add: in_net_def)
    ultimately show False using assms(5,6) by simp
  qed
  have "overlaps_net a e"
    using overlaps_net_iff [OF assms(1-3)] subnet_of_in [OF s in_net_ends(1)] in_net_ends(1) by blast
  moreover have "\<not> subnet_of a e" using assms(5) by (auto simp: subnet_of_def base_le_def)
  moreover obtain k where k: "width (net_ver a) - net_plen a = Suc k" using plen by (metis Suc_diff_Suc)
  have "exclude_loop k (half a 0) (half a 1) e = Inl AssertionError"
    by (rule exclude_loop_scoped) (use assms(1,4) plen k half_facts(1) [OF assms(1) plen] in simp_all)
  ultimately show ?thesis
    using s assms(3,5) k by (auto simp: subtract_network_def address_exclude_def)
qed

text \<open>C33: for rules whose intrusiveness compiles and whose targets parse, when the first allowed target is an
  IPv6 network and the first excluded network carries a zone, starts at a higher address and ends no later,
  compilation ends with
  \<^verbatim>\<open>AssertionError\<close>, which is not the error the compiler promises: the pieces that the library
  cuts the allowed network into never equal a network that carries a zone.\<close>
lemma zoned_exclusion_asserts:
  assumes "intrusiveness_impact (ro_intrusiveness (ed_roe g)) \<noteq> None"
    "mapE parse_target (sd_allowed (ro_scope (ed_roe g))) = Inr (ta # ats)"
    "mapE parse_target (sd_excluded (ro_scope (ed_roe g))) = Inr xts"
    "t_type ta = CIDR" "the_network (t_value ta) = Inr a" "excluded_networks xts = Inr (e # es)"
    "net_ver a = net_ver e" "net_scope e \<noteq> None" "net_base a < net_base e" "broadcast e \<le> broadcast a"
  shows "compile_engagement_policy h g = Inl AssertionError"
proof -
  have "net_valid n" if "the_network x = Inr n" for x n
    using that ip_network_valid by (auto simp: the_network_def split: option.splits)
  moreover have "\<exists>r\<in>set xts. network_for_target r = Inr (Some e)"
    using excluded_networks_set [OF assms(6)] by auto
  ultimately have v: "net_valid a" "net_valid e"
    using assms(5) by (auto simp: network_for_target_def bindE_Inr split: if_splits)
  have "subtract_all [a] (e # es) = Inl AssertionError"
    using subtract_zoned [OF v assms(7-10)] by simp
  then have "target_scope (excluded_hosts xts) (e # es) ta = Inl AssertionError"
    using assms(4,5) by (simp add: target_scope_def)
  then have "effective_scope (sd_allowed (ro_scope (ed_roe g))) (sd_excluded (ro_scope (ed_roe g))) = Inl AssertionError"
    using assms(2,3,6) by (simp add: effective_scope_def)
  with assms(1) show ?thesis by (auto simp: compile_engagement_policy_def)
qed

text \<open>A valid definition whose rules exclude one zoned address from a link-local network.\<close>

definition zoned_definition :: engagement_definition where
  "zoned_definition = sample_definition\<lparr>ed_roe := sample_rules\<lparr>ro_scope :=
     \<lparr>sd_allowed = [''fe80::/64''], sd_excluded = [''fe80::1%eth0/128'']\<rparr>\<rparr>\<rparr>"

lemma zoned_exclusion_asserts_witness:
  "definition_ok zoned_definition \<and> compile_engagement_policy toy_hash zoned_definition = Inl AssertionError"
proof -
  let ?a = "\<lparr>net_ver = 6, net_base = 65152 * 2 ^ 112, net_plen = 64, net_scope = None\<rparr>"
  let ?e = "\<lparr>net_ver = 6, net_base = 65152 * 2 ^ 112 + 1, net_plen = 128, net_scope = Some ''eth0''\<rparr>"
  let ?sc = "ro_scope (ed_roe zoned_definition)"
  have ok: "definition_ok zoned_definition" by code_simp
  have i: "intrusiveness_impact (ro_intrusiveness (ed_roe zoned_definition)) \<noteq> None"
    and p: "mapE parse_target (sd_allowed ?sc) = Inr [\<lparr>t_value = ''fe80::/64'', t_type = CIDR\<rparr>]"
      "mapE parse_target (sd_excluded ?sc) = Inr [\<lparr>t_value = ''fe80::1%eth0/128'', t_type = CIDR\<rparr>]"
    and n: "the_network ''fe80::/64'' = Inr ?a"
      "excluded_networks [\<lparr>t_value = ''fe80::1%eth0/128'', t_type = CIDR\<rparr>] = Inr [?e]"
    by code_simp+
  have "compile_engagement_policy toy_hash zoned_definition = Inl AssertionError"
    by (rule zoned_exclusion_asserts [OF i p _ _ n(2), where a = ?a]) 
      (simp_all add: n(1) width_def broadcast_def host_size_def)
  with ok show ?thesis by blast
qed

lemma policy_bundle_roundtrip_witness:
  "\<exists>b. policy_bundle_from_json toy_hash (policy_bundle_to_json toy_hash b) = Inr b"
  using sample_compiles policy_bundle_roundtrip [of toy_hash sample_definition] by (auto simp: is_ok_iff)

end
