(* ===== verification/GraphModels.thy ===== *)
theory GraphModels
  imports PyStr
begin

text \<open>
  \<^verbatim>\<open>graph_models.py\<close>, \<^verbatim>\<open>graph_index.py\<close> and \<^verbatim>\<open>graph_builder.py\<close> of the red engine: the
  nodes and edges of the attack graph with their normalizing constructors, the read-only index and
  the bounded builder.  SHA-256 over UTF-8 text, in hexadecimal, is the argument \<open>sha\<close>.
  A Python dictionary that is only extended is a list of its items in insertion order.
\<close>

section \<open>Nodes and edges\<close>

datatype node_kind =
    ASSET | SERVICE | IDENTITY | GROUP | PERMISSION | VULNERABILITY | CRITICAL_ASSET | ASSESSMENT_FINDING

fun kind_value :: "node_kind \<Rightarrow> string" where
  "kind_value ASSET = ''asset''"
| "kind_value SERVICE = ''service''"
| "kind_value IDENTITY = ''identity''"
| "kind_value GROUP = ''group''"
| "kind_value PERMISSION = ''permission''"
| "kind_value VULNERABILITY = ''vulnerability''"
| "kind_value CRITICAL_ASSET = ''critical-asset''"
| "kind_value ASSESSMENT_FINDING = ''assessment-finding''"

datatype evidence_state = OBSERVED | INFERRED

fun evidence_value :: "evidence_state \<Rightarrow> string" where
  "evidence_value OBSERVED = ''observed''"
| "evidence_value INFERRED = ''inferred''"

record provenance =
  pv_type :: string
  pv_source :: string
  pv_observed :: string

definition provenance_init :: "string \<Rightarrow> string \<Rightarrow> string \<Rightarrow> provenance res" where
  "provenance_init t s ob =
     req (strip t \<noteq> []) (ValueError ''source_type must not be empty'')
    (req (strip s \<noteq> []) (ValueError ''source_id must not be empty'')
      (Inr \<lparr>pv_type = t, pv_source = s, pv_observed = ob\<rparr>))"

text \<open>\<open>join_us\<close> is \<^verbatim>\<open>"\x1f".join\<close>.\<close>

fun join_us :: "string list \<Rightarrow> string" where
  "join_us [] = []"
| "join_us [p] = p"
| "join_us (p # ps) = p @ CHR 0x1F # join_us ps"

definition stable_graph_id :: "(string \<Rightarrow> string) \<Rightarrow> string list \<Rightarrow> string res" where
  "stable_graph_id sha parts =
     (let normalized = map (\<lambda>p. lower (strip p)) parts
      in req (normalized \<noteq> [] \<and> list_all (\<lambda>p. p \<noteq> []) normalized)
           (ValueError ''stable graph identifiers require non-empty parts'')
           (Inr (''gr-'' @ sha (join_us normalized))))"

fun normalize_property_items ::
  "(string \<times> string) list \<Rightarrow> (string \<times> string) list \<Rightarrow> (string \<times> string) list res" where
  "normalize_property_items [] acc = Inr acc"
| "normalize_property_items ((key, value) # ps) acc =
     (let k = lower (strip key)
      in req (k \<noteq> []) (ValueError ''graph property keys must not be empty'')
        (req (k \<notin> fst ` set acc) (ValueError (''duplicate graph property: '' @ k))
          (normalize_property_items ps (acc @ [(k, strip value)]))))"

definition normalize_properties :: "(string \<times> string) list \<Rightarrow> (string \<times> string) list res" where
  "normalize_properties ps = bindE (normalize_property_items ps []) (\<lambda>items. Inr (sort items))"

definition provenance_key :: "provenance \<Rightarrow> string \<times> string \<times> string" where
  "provenance_key p = (strip (pv_type p), strip (pv_source p), strip (pv_observed p))"

definition normalize_provenance :: "provenance list \<Rightarrow> provenance list res" where
  "normalize_provenance ps =
     mapE (\<lambda>(t, s, ob). provenance_init t s ob) (sort (remdups (map provenance_key ps)))"

record gnode =
  gn_id :: string
  gn_kind :: node_kind
  gn_key :: string
  gn_label :: string
  gn_provenance :: "provenance list"
  gn_properties :: "(string \<times> string) list"

definition node_create ::
  "(string \<Rightarrow> string) \<Rightarrow> node_kind \<Rightarrow> string \<Rightarrow> string \<Rightarrow> provenance list \<Rightarrow> (string \<times> string) list \<Rightarrow> gnode res" where
  "node_create sha kind key label prov props =
     req (strip key \<noteq> []) (ValueError ''natural_key must not be empty'')
    (req (strip label \<noteq> []) (ValueError ''label must not be empty'')
    (req (prov \<noteq> []) (ValueError ''graph nodes require provenance'')
    (bindE (normalize_properties props) (\<lambda>ps.
     bindE (normalize_provenance prov) (\<lambda>pv.
     bindE (stable_graph_id sha [''node'', kind_value kind, strip key]) (\<lambda>i.
     Inr \<lparr>gn_id = i, gn_kind = kind, gn_key = strip key, gn_label = strip label,
          gn_provenance = pv, gn_properties = ps\<rparr>))))))"

record gedge =
  ge_id :: string
  ge_source :: string
  ge_target :: string
  ge_relationship :: string
  ge_state :: evidence_state
  ge_provenance :: "provenance list"
  ge_properties :: "(string \<times> string) list"

definition edge_create ::
  "(string \<Rightarrow> string) \<Rightarrow> string \<Rightarrow> string \<Rightarrow> string \<Rightarrow> evidence_state \<Rightarrow> provenance list
     \<Rightarrow> (string \<times> string) list \<Rightarrow> gedge res" where
  "edge_create sha src tgt rel st prov props =
     (let source = strip src; target = strip tgt; relation = lower (strip rel)
      in req (source \<noteq> [] \<and> target \<noteq> [])
           (ValueError ''graph edges require source and target node identifiers'')
        (req (relation \<noteq> []) (ValueError ''relationship must not be empty'')
        (req (source \<noteq> target) (ValueError ''self-referential graph edges are not allowed'')
        (req (prov \<noteq> []) (ValueError ''graph edges require provenance'')
        (bindE (normalize_properties props) (\<lambda>ps.
         bindE (normalize_provenance prov) (\<lambda>pv.
         bindE (stable_graph_id sha [''edge'', source, target, relation, evidence_value st]) (\<lambda>i.
         Inr \<lparr>ge_id = i, ge_source = source, ge_target = target, ge_relationship = relation,
              ge_state = st, ge_provenance = pv, ge_properties = ps\<rparr>)))))))) "

record identity_graph =
  ig_nodes :: "gnode list"
  ig_edges :: "gedge list"

definition empty_graph :: identity_graph where
  "empty_graph = \<lparr>ig_nodes = [], ig_edges = []\<rparr>"

section \<open>Index\<close>

definition index_node :: "identity_graph \<Rightarrow> string \<Rightarrow> gnode option" where
  "index_node g i = find (\<lambda>n. gn_id n = i) (ig_nodes g)"

definition nodes_by_kind :: "identity_graph \<Rightarrow> node_kind \<Rightarrow> gnode list" where
  "nodes_by_kind g k = filter (\<lambda>n. gn_kind n = k) (ig_nodes g)"

definition outgoing_edges :: "identity_graph \<Rightarrow> string \<Rightarrow> string \<Rightarrow> gedge list" where
  "outgoing_edges g relationship i =
     (let relation = lower (strip relationship)
      in filter (\<lambda>e. ge_source e = i \<and> (relation = [] \<or> ge_relationship e = relation)) (ig_edges g))"

definition incoming_edges :: "identity_graph \<Rightarrow> string \<Rightarrow> string \<Rightarrow> gedge list" where
  "incoming_edges g relationship i =
     (let relation = lower (strip relationship)
      in filter (\<lambda>e. ge_target e = i \<and> (relation = [] \<or> ge_relationship e = relation)) (ig_edges g))"

definition neighbors :: "identity_graph \<Rightarrow> string \<Rightarrow> string \<Rightarrow> string \<Rightarrow> gnode list res" where
  "neighbors g relationship direction i =
     req (direction \<in> {''outgoing'', ''incoming'', ''both''})
       (ValueError ''direction must be outgoing, incoming, or both.'')
       (let ids =
          (if direction \<in> {''outgoing'', ''both''} then map ge_target (outgoing_edges g relationship i) else [])
          @ (if direction \<in> {''incoming'', ''both''} then map ge_source (incoming_edges g relationship i) else [])
        in Inr (filter (\<lambda>n. gn_id n \<in> set ids) (ig_nodes g)))"

section \<open>Builder\<close>

record build_limits =
  bl_nodes :: nat
  bl_edges :: nat

definition build_limits_init :: "int \<Rightarrow> int \<Rightarrow> build_limits res" where
  "build_limits_init mn me =
     req (1 \<le> mn) (ValueError ''max_nodes must be at least 1'')
    (req (0 \<le> me) (ValueError ''max_edges must not be negative'')
      (Inr \<lparr>bl_nodes = nat mn, bl_edges = nat me\<rparr>))"

definition default_build_limits :: build_limits where
  "default_build_limits = \<lparr>bl_nodes = 10000, bl_edges = 25000\<rparr>"

record graph_builder =
  gb_limits :: build_limits
  gb_nodes :: "(string \<times> gnode) list"
  gb_edges :: "(string \<times> gedge) list"

definition builder_init :: "build_limits option \<Rightarrow> graph_builder" where
  "builder_init lim =
     \<lparr>gb_limits = (case lim of None \<Rightarrow> default_build_limits | Some l \<Rightarrow> l), gb_nodes = [], gb_edges = []\<rparr>"

definition add_node :: "gnode \<Rightarrow> graph_builder \<Rightarrow> graph_builder res" where
  "add_node n b =
     (case map_of (gb_nodes b) (gn_id n) of
        Some existing \<Rightarrow> req (existing = n) (ValueError (''conflicting graph node: '' @ gn_id n)) (Inr b)
      | None \<Rightarrow>
          req (length (gb_nodes b) < bl_nodes (gb_limits b)) (ValueError ''graph node limit exceeded'')
            (Inr (b\<lparr>gb_nodes := gb_nodes b @ [(gn_id n, n)]\<rparr>)))"

definition add_edge :: "gedge \<Rightarrow> graph_builder \<Rightarrow> graph_builder res" where
  "add_edge e b =
     req (ge_source e \<in> fst ` set (gb_nodes b)) (ValueError ''graph edge source node is missing'')
    (req (ge_target e \<in> fst ` set (gb_nodes b)) (ValueError ''graph edge target node is missing'')
      (case map_of (gb_edges b) (ge_id e) of
         Some existing \<Rightarrow> req (existing = e) (ValueError (''conflicting graph edge: '' @ ge_id e)) (Inr b)
       | None \<Rightarrow>
           req (length (gb_edges b) < bl_edges (gb_limits b)) (ValueError ''graph edge limit exceeded'')
             (Inr (b\<lparr>gb_edges := gb_edges b @ [(ge_id e, e)]\<rparr>))))"

definition build_graph :: "graph_builder \<Rightarrow> identity_graph" where
  "build_graph b =
     \<lparr>ig_nodes = map snd (sort_key fst (gb_nodes b)), ig_edges = map snd (sort_key fst (gb_edges b))\<rparr>"

text \<open>The loops \<^verbatim>\<open>for node in ...: builder.add_node(node)\<close> and their like.\<close>

fun foldE :: "('a \<Rightarrow> 's \<Rightarrow> 's res) \<Rightarrow> 'a list \<Rightarrow> 's \<Rightarrow> 's res" where
  "foldE f [] s = Inr s"
| "foldE f (x # xs) s = bindE (f x s) (foldE f xs)"

definition load_graph :: "build_limits option \<Rightarrow> identity_graph \<Rightarrow> graph_builder res" where
  "load_graph lim g =
     bindE (foldE add_node (ig_nodes g) (builder_init lim)) (foldE add_edge (ig_edges g))"

section \<open>Facts on the index\<close>

lemma index_node_Some: "index_node g i = Some n \<Longrightarrow> n \<in> set (ig_nodes g) \<and> gn_id n = i"
  by (auto simp: index_node_def find_Some_iff)

lemma index_node_None: "index_node g i = None \<longleftrightarrow> i \<notin> gn_id ` set (ig_nodes g)"
  by (auto simp: index_node_def find_None_iff)

lemma index_node_distinct:
  assumes "distinct (map gn_id (ig_nodes g))" "n \<in> set (ig_nodes g)"
  shows "index_node g (gn_id n) = Some n"
proof (cases "index_node g (gn_id n)")
  case None
  with assms show ?thesis by (simp add: index_node_None)
next
  case (Some m)
  then have "m = n" using assms by (auto dest!: index_node_Some simp: distinct_map inj_on_def)
  with Some show ?thesis by simp
qed

lemma foldE_append: "foldE f (xs @ ys) s = bindE (foldE f xs s) (foldE f ys)"
proof (induction xs arbitrary: s)
  case (Cons x xs)
  then show ?case by (cases "f x s") auto
qed simp

lemma foldE_invariant:
  assumes "foldE f xs s = Inr s'" "I s" "\<And>x s s'. x \<in> set xs \<Longrightarrow> I s \<Longrightarrow> f x s = Inr s' \<Longrightarrow> I s'"
  shows "I s'"
  using assms
proof (induction xs arbitrary: s)
  case (Cons x xs)
  then obtain t where "f x s = Inr t" "foldE f xs t = Inr s'" by (auto simp: bindE_Inr)
  with Cons.prems show ?case by (intro Cons.IH [of t]) auto
qed simp

end
