(* ===== verification/GraphEvidence.thy ===== *)
theory GraphEvidence
  imports GraphModels
begin

text \<open>
  \<^verbatim>\<open>graph_validation.py\<close>, \<^verbatim>\<open>graph_critical_asset.py\<close>, \<^verbatim>\<open>graph_identity_evidence.py\<close>,
  \<^verbatim>\<open>graph_identity_projection.py\<close>, \<^verbatim>\<open>graph_query.py\<close> and \<^verbatim>\<open>graph_summary.py\<close>: the consistency
  check of a graph, the two projections that add evidence to one, the structural query and the counts.
\<close>

section \<open>Consistency\<close>

record graph_issue =
  gi_code :: string
  gi_subject :: string
  gi_message :: string

definition relationship_table :: "(string \<times> node_kind list \<times> node_kind list) list" where
  "relationship_table =
     [(''exposes'', [ASSET], [SERVICE]),
      (''matched-vulnerability'', [SERVICE], [VULNERABILITY]),
      (''has-assessment-finding'', [SERVICE], [ASSESSMENT_FINDING]),
      (''member-of'', [IDENTITY, GROUP], [GROUP]),
      (''has-permission'', [IDENTITY, GROUP], [PERMISSION]),
      (''applies-to'', [PERMISSION], [ASSET, SERVICE, CRITICAL_ASSET]),
      (''classified-as-critical'', [ASSET], [CRITICAL_ASSET])]"

definition observed_only :: "string list" where
  "observed_only = [''exposes'', ''matched-vulnerability'', ''has-assessment-finding'']"

definition kinds_allowed :: "string \<Rightarrow> node_kind \<Rightarrow> node_kind \<Rightarrow> bool" where
  "kinds_allowed rel sk tk = (case map_of relationship_table rel of
     None \<Rightarrow> True
   | Some (sources, targets) \<Rightarrow> sk \<in> set sources \<and> tk \<in> set targets)"

definition validate_relationship :: "gedge \<Rightarrow> node_kind \<Rightarrow> node_kind \<Rightarrow> graph_issue list" where
  "validate_relationship e sk tk =
     (if kinds_allowed (ge_relationship e) sk tk then []
      else [\<lparr>gi_code = ''invalid-relationship-kinds'', gi_subject = ge_id e,
             gi_message = ge_relationship e @ '' has invalid source/target node kinds.''\<rparr>])
     @ (if ge_relationship e \<in> set observed_only \<and> ge_state e \<noteq> OBSERVED
        then [\<lparr>gi_code = ''invalid-evidence-state'', gi_subject = ge_id e,
               gi_message = ge_relationship e @ '' must remain observed evidence.''\<rparr>]
        else [])"

text \<open>A dictionary built by a comprehension keeps the last value of a key.\<close>

definition nodes_by_id :: "identity_graph \<Rightarrow> string \<Rightarrow> gnode option" where
  "nodes_by_id g = map_of (rev (map (\<lambda>n. (gn_id n, n)) (ig_nodes g)))"

definition node_issue :: "gnode \<Rightarrow> graph_issue list" where
  "node_issue n = (if gn_provenance n = []
     then [\<lparr>gi_code = ''missing-node-provenance'', gi_subject = gn_id n, gi_message = ''Graph node has no provenance.''\<rparr>]
     else [])"

definition edge_issues :: "(string \<Rightarrow> gnode option) \<Rightarrow> string set \<Rightarrow> gedge \<Rightarrow> graph_issue list" where
  "edge_issues nodes edge_ids e =
     (if ge_id e \<in> edge_ids
      then [\<lparr>gi_code = ''duplicate-edge-id'', gi_subject = ge_id e,
             gi_message = ''Graph contains duplicate edge identifiers.''\<rparr>] else [])
     @ (if nodes (ge_source e) = None
        then [\<lparr>gi_code = ''missing-edge-source'', gi_subject = ge_id e,
               gi_message = ''Graph edge source node is missing.''\<rparr>] else [])
     @ (if nodes (ge_target e) = None
        then [\<lparr>gi_code = ''missing-edge-target'', gi_subject = ge_id e,
               gi_message = ''Graph edge target node is missing.''\<rparr>] else [])
     @ (if ge_provenance e = []
        then [\<lparr>gi_code = ''missing-edge-provenance'', gi_subject = ge_id e,
               gi_message = ''Graph edge has no provenance.''\<rparr>] else [])
     @ (case (nodes (ge_source e), nodes (ge_target e)) of
          (Some s, Some t) \<Rightarrow> validate_relationship e (gn_kind s) (gn_kind t)
        | _ \<Rightarrow> [])"

fun all_edge_issues :: "(string \<Rightarrow> gnode option) \<Rightarrow> string set \<Rightarrow> gedge list \<Rightarrow> graph_issue list" where
  "all_edge_issues nodes edge_ids [] = []"
| "all_edge_issues nodes edge_ids (e # es) =
     edge_issues nodes edge_ids e @ all_edge_issues nodes (insert (ge_id e) edge_ids) es"

definition issue_key :: "graph_issue \<Rightarrow> string \<times> string \<times> string" where
  "issue_key i = (gi_code i, gi_subject i, gi_message i)"

definition validate_identity_graph :: "identity_graph \<Rightarrow> graph_issue list" where
  "validate_identity_graph g =
     sort_key issue_key
       ((if length (remdups (map gn_id (ig_nodes g))) \<noteq> length (ig_nodes g)
         then [\<lparr>gi_code = ''duplicate-node-id'', gi_subject = ''graph'',
                gi_message = ''Graph contains duplicate node identifiers.''\<rparr>] else [])
        @ concat (map node_issue (ig_nodes g))
        @ all_edge_issues (nodes_by_id g) {} (ig_edges g))"

fun join_issues :: "graph_issue list \<Rightarrow> string" where
  "join_issues [] = []"
| "join_issues [i] = gi_code i @ '':'' @ gi_subject i"
| "join_issues (i # is) = gi_code i @ '':'' @ gi_subject i @ ''; '' @ join_issues is"

definition assert_valid_identity_graph :: "identity_graph \<Rightarrow> unit res" where
  "assert_valid_identity_graph g =
     (let issues = validate_identity_graph g
      in req (issues = []) (ValueError (''identity graph validation failed: '' @ join_issues issues)) (Inr ()))"

section \<open>Critical assets\<close>

definition require_text :: "string \<Rightarrow> string \<Rightarrow> string res" where
  "require_text value name = req (strip value \<noteq> []) (ValueError (name @ '' must not be empty'')) (Inr (strip value))"

record critical_evidence =
  cr_asset :: string
  cr_label :: string
  cr_source :: string
  cr_rationale :: string
  cr_state :: evidence_state
  cr_properties :: "(string \<times> string) list"

definition critical_evidence_check :: "critical_evidence \<Rightarrow> critical_evidence res" where
  "critical_evidence_check r =
     bindE (require_text (cr_asset r) ''asset_key'') (\<lambda>_.
     bindE (require_text (cr_label r) ''label'') (\<lambda>_.
     bindE (require_text (cr_source r) ''source_id'') (\<lambda>_. Inr r)))"

text \<open>The builder with the dictionary from keys to nodes that the projections keep beside it.\<close>

type_synonym 'k projection = "graph_builder \<times> ('k \<Rightarrow> gnode option)"

definition put_asset :: "gnode \<Rightarrow> string projection \<Rightarrow> string projection res" where
  "put_asset n = (\<lambda>(b, assets). bindE (add_node n b) (\<lambda>b'.
     Inr (b', if gn_kind n = ASSET then assets(gn_key n \<mapsto> n) else assets)))"

definition put_edge :: "gedge \<Rightarrow> 'k projection \<Rightarrow> 'k projection res" where
  "put_edge e = (\<lambda>(b, m). bindE (add_edge e b) (\<lambda>b'. Inr (b', m)))"

definition add_critical ::
  "(string \<Rightarrow> string) \<Rightarrow> string \<Rightarrow> critical_evidence \<Rightarrow> string projection \<Rightarrow> string projection res" where
  "add_critical sha observed_at r = (\<lambda>(b, assets).
     case assets (strip (cr_asset r)) of
       None \<Rightarrow> Inl (ValueError (''critical asset reference is missing from graph: '' @ strip (cr_asset r)))
     | Some asset \<Rightarrow>
         bindE (provenance_init ''critical-asset-evidence'' (strip (cr_source r)) (strip observed_at)) (\<lambda>pv.
         bindE (node_create sha CRITICAL_ASSET (strip (cr_asset r)) (cr_label r) [pv]
             (cr_properties r @ (if cr_rationale r \<noteq> [] then [(''rationale'', cr_rationale r)] else []))) (\<lambda>critical.
         bindE (add_node critical b) (\<lambda>b1.
         bindE (edge_create sha (gn_id asset) (gn_id critical) ''classified-as-critical'' (cr_state r) [pv] []) (\<lambda>e.
         bindE (add_edge e b1) (\<lambda>b2. Inr (b2, assets)))))))"

definition add_critical_asset_evidence ::
  "(string \<Rightarrow> string) \<Rightarrow> identity_graph \<Rightarrow> critical_evidence list \<Rightarrow> string \<Rightarrow> build_limits option \<Rightarrow> identity_graph res" where
  "add_critical_asset_evidence sha g evidence observed_at limits =
     bindE (foldE put_asset (ig_nodes g) (builder_init limits, Map.empty)) (\<lambda>s1.
     bindE (foldE put_edge (ig_edges g) s1) (\<lambda>s2.
     bindE (foldE (add_critical sha observed_at) evidence s2) (\<lambda>s3. Inr (build_graph (fst s3)))))"

section \<open>Identity evidence\<close>

record identity_evidence =
  ie_key :: string
  ie_label :: string
  ie_source :: string
  ie_type :: string
  ie_properties :: "(string \<times> string) list"

record group_evidence =
  ve_key :: string
  ve_label :: string
  ve_source :: string
  ve_properties :: "(string \<times> string) list"

text \<open>\<^verbatim>\<open>GroupEvidence\<close> and \<^verbatim>\<open>RoleEvidence\<close> have the same fields and the same checks.\<close>

type_synonym role_evidence = group_evidence

record membership_evidence =
  me_kind :: node_kind
  me_key :: string
  me_group :: string
  me_source :: string
  me_state :: evidence_state

record permission_evidence =
  pe_key :: string
  pe_label :: string
  pe_subject_kind :: node_kind
  pe_subject :: string
  pe_target_kind :: node_kind
  pe_target :: string
  pe_source :: string
  pe_state :: evidence_state
  pe_properties :: "(string \<times> string) list"

record relationship_evidence =
  re_source_kind :: node_kind
  re_source_key :: string
  re_target_kind :: node_kind
  re_target_key :: string
  re_relationship :: string
  re_source :: string
  re_state :: evidence_state
  re_properties :: "(string \<times> string) list"

definition identity_evidence_check :: "identity_evidence \<Rightarrow> identity_evidence res" where
  "identity_evidence_check r =
     bindE (require_text (ie_key r) ''natural_key'') (\<lambda>_.
     bindE (require_text (ie_label r) ''label'') (\<lambda>_.
     bindE (require_text (ie_source r) ''source_id'') (\<lambda>_. Inr r)))"

definition group_evidence_check :: "group_evidence \<Rightarrow> group_evidence res" where
  "group_evidence_check r =
     bindE (require_text (ve_key r) ''natural_key'') (\<lambda>_.
     bindE (require_text (ve_label r) ''label'') (\<lambda>_.
     bindE (require_text (ve_source r) ''source_id'') (\<lambda>_. Inr r)))"

definition membership_evidence_check :: "membership_evidence \<Rightarrow> membership_evidence res" where
  "membership_evidence_check r =
     req (me_kind r \<in> {IDENTITY, GROUP}) (ValueError ''group membership members must be identity or group nodes'')
    (bindE (require_text (me_key r) ''member_key'') (\<lambda>_.
     bindE (require_text (me_group r) ''group_key'') (\<lambda>_.
     bindE (require_text (me_source r) ''source_id'') (\<lambda>_. Inr r))))"

definition permission_evidence_check :: "permission_evidence \<Rightarrow> permission_evidence res" where
  "permission_evidence_check r =
     bindE (require_text (pe_key r) ''natural_key'') (\<lambda>_.
     bindE (require_text (pe_label r) ''label'') (\<lambda>_.
     bindE (require_text (pe_subject r) ''subject_key'') (\<lambda>_.
     bindE (require_text (pe_target r) ''target_key'') (\<lambda>_.
     bindE (require_text (pe_source r) ''source_id'') (\<lambda>_.
     req (pe_subject_kind r \<in> {IDENTITY, GROUP}) (ValueError ''permission subjects must be identity or group nodes'')
    (req (pe_target_kind r \<in> {ASSET, SERVICE, CRITICAL_ASSET})
       (ValueError ''permission targets must be asset, service, or critical-asset nodes'') (Inr r)))))))"

definition supported_relationships :: "string list" where
  "supported_relationships = [''owns'', ''assigned-role'', ''manages'', ''delegates-to'', ''domain-trust'']"

definition relationship_evidence_check :: "relationship_evidence \<Rightarrow> relationship_evidence res" where
  "relationship_evidence_check r =
     req (re_source_kind r \<in> {IDENTITY, GROUP}) (ValueError ''identity relationship source must be identity or group'')
    (req (re_target_kind r \<in> {IDENTITY, GROUP, PERMISSION})
       (ValueError ''identity relationship target must be identity, group, or permission'')
    (bindE (require_text (re_source_key r) ''source_key'') (\<lambda>_.
     bindE (require_text (re_target_key r) ''target_key'') (\<lambda>_.
     bindE (require_text (re_relationship r) ''relationship'') (\<lambda>rel.
     req (lower rel \<in> set supported_relationships) (ValueError ''identity relationship type is unsupported'')
    (req (\<not> (re_source_kind r = re_target_kind r \<and> re_source_key r = re_target_key r))
       (ValueError ''identity relationships cannot be self-referential'')
    (bindE (require_text (re_source r) ''source_id'') (\<lambda>_. Inr r))))))))"

record identity_bundle =
  ib_identities :: "identity_evidence list"
  ib_groups :: "group_evidence list"
  ib_memberships :: "membership_evidence list"
  ib_permissions :: "permission_evidence list"
  ib_roles :: "role_evidence list"
  ib_relationships :: "relationship_evidence list"

definition empty_bundle :: identity_bundle where
  "empty_bundle = \<lparr>ib_identities = [], ib_groups = [], ib_memberships = [], ib_permissions = [], ib_roles = [],
     ib_relationships = []\<rparr>"

type_synonym key_projection = "(node_kind \<times> string) projection"

definition put_node :: "gnode \<Rightarrow> key_projection \<Rightarrow> key_projection res" where
  "put_node n = (\<lambda>(b, by_key). bindE (add_node n b) (\<lambda>b'. Inr (b', by_key((gn_kind n, gn_key n) \<mapsto> n))))"

definition require_node :: "(node_kind \<times> string \<Rightarrow> gnode option) \<Rightarrow> node_kind \<Rightarrow> string \<Rightarrow> string \<Rightarrow> gnode res" where
  "require_node by_key kind key description = (case by_key (kind, strip key) of
     None \<Rightarrow> Inl (ValueError (description @ '' is missing from graph: '' @ kind_value kind @ '':'' @ strip key))
   | Some n \<Rightarrow> Inr n)"

definition identity_provenance :: "string \<Rightarrow> string \<Rightarrow> provenance list res" where
  "identity_provenance source observed_at =
     bindE (provenance_init ''identity-evidence'' (strip source) (strip observed_at)) (\<lambda>pv. Inr [pv])"

definition put_identity :: "(string \<Rightarrow> string) \<Rightarrow> string \<Rightarrow> identity_evidence \<Rightarrow> key_projection \<Rightarrow> key_projection res" where
  "put_identity sha observed_at r s =
     bindE (identity_provenance (ie_source r) observed_at) (\<lambda>pv.
     bindE (node_create sha IDENTITY (ie_key r) (ie_label r) pv
         (ie_properties r @ (if ie_type r \<noteq> [] then [(''identity_type'', ie_type r)] else []))) (\<lambda>n.
     put_node n s))"

text \<open>The loops over groups and over roles, which differ in the kind.\<close>

definition put_named ::
  "(string \<Rightarrow> string) \<Rightarrow> string \<Rightarrow> node_kind \<Rightarrow> group_evidence \<Rightarrow> key_projection \<Rightarrow> key_projection res" where
  "put_named sha observed_at kind r s =
     bindE (identity_provenance (ve_source r) observed_at) (\<lambda>pv.
     bindE (node_create sha kind (ve_key r) (ve_label r) pv (ve_properties r)) (\<lambda>n. put_node n s))"

definition put_membership ::
  "(string \<Rightarrow> string) \<Rightarrow> string \<Rightarrow> membership_evidence \<Rightarrow> key_projection \<Rightarrow> key_projection res" where
  "put_membership sha observed_at r s =
     bindE (require_node (snd s) (me_kind r) (me_key r) ''group membership member'') (\<lambda>member.
     bindE (require_node (snd s) GROUP (me_group r) ''group membership group'') (\<lambda>group.
     bindE (identity_provenance (me_source r) observed_at) (\<lambda>pv.
     bindE (edge_create sha (gn_id member) (gn_id group) ''member-of'' (me_state r) pv []) (\<lambda>e. put_edge e s))))"

definition put_permission ::
  "(string \<Rightarrow> string) \<Rightarrow> string \<Rightarrow> permission_evidence \<Rightarrow> key_projection \<Rightarrow> key_projection res" where
  "put_permission sha observed_at r s =
     bindE (require_node (snd s) (pe_subject_kind r) (pe_subject r) ''permission subject'') (\<lambda>subject.
     bindE (require_node (snd s) (pe_target_kind r) (pe_target r) ''permission target'') (\<lambda>target.
     bindE (identity_provenance (pe_source r) observed_at) (\<lambda>pv.
     bindE (node_create sha PERMISSION (pe_key r) (pe_label r) pv (pe_properties r)) (\<lambda>permission.
     bindE (put_node permission s) (\<lambda>s1.
     bindE (edge_create sha (gn_id subject) (gn_id permission) ''has-permission'' (pe_state r) pv []) (\<lambda>e1.
     bindE (put_edge e1 s1) (\<lambda>s2.
     bindE (edge_create sha (gn_id permission) (gn_id target) ''applies-to'' (pe_state r) pv []) (\<lambda>e2.
     put_edge e2 s2))))))))"

definition put_relationship ::
  "(string \<Rightarrow> string) \<Rightarrow> string \<Rightarrow> relationship_evidence \<Rightarrow> key_projection \<Rightarrow> key_projection res" where
  "put_relationship sha observed_at r s =
     bindE (require_node (snd s) (re_source_kind r) (re_source_key r) ''identity relationship source'') (\<lambda>source.
     bindE (require_node (snd s) (re_target_kind r) (re_target_key r) ''identity relationship target'') (\<lambda>target.
     bindE (identity_provenance (re_source r) observed_at) (\<lambda>pv.
     bindE (edge_create sha (gn_id source) (gn_id target) (re_relationship r) (re_state r) pv (re_properties r)) (\<lambda>e.
     put_edge e s))))"

definition add_identity_evidence ::
  "(string \<Rightarrow> string) \<Rightarrow> identity_graph \<Rightarrow> identity_bundle \<Rightarrow> string \<Rightarrow> build_limits option \<Rightarrow> identity_graph res" where
  "add_identity_evidence sha g evidence observed_at limits =
     bindE (foldE put_node (ig_nodes g) (builder_init limits, Map.empty)) (\<lambda>s1.
     bindE (foldE put_edge (ig_edges g) s1) (\<lambda>s2.
     bindE (foldE (put_identity sha observed_at) (ib_identities evidence) s2) (\<lambda>s3.
     bindE (foldE (put_named sha observed_at GROUP) (ib_groups evidence) s3) (\<lambda>s4.
     bindE (foldE (put_named sha observed_at PERMISSION) (ib_roles evidence) s4) (\<lambda>s5.
     bindE (foldE (put_membership sha observed_at) (ib_memberships evidence) s5) (\<lambda>s6.
     bindE (foldE (put_permission sha observed_at) (ib_permissions evidence) s6) (\<lambda>s7.
     bindE (foldE (put_relationship sha observed_at) (ib_relationships evidence) s7) (\<lambda>s8.
     Inr (build_graph (fst s8))))))))))"

section \<open>Queries and counts\<close>

record query_result =
  qr_nodes :: "gnode list"
  qr_edges :: "gedge list"

definition edges_among :: "gnode list \<Rightarrow> gedge list \<Rightarrow> gedge list" where
  "edges_among ns es = filter (\<lambda>e. ge_source e \<in> gn_id ` set ns \<and> ge_target e \<in> gn_id ` set ns) es"

definition query_identity_graph ::
  "identity_graph \<Rightarrow> node_kind list \<Rightarrow> string \<Rightarrow> string \<Rightarrow> string \<Rightarrow> query_result res" where
  "query_identity_graph g kinds relationship source target =
     (let relation = lower (strip relationship);
          of_kind = (\<lambda>n. kinds = [] \<or> gn_kind n \<in> set kinds);
          edges = filter (\<lambda>e. (relation = [] \<or> ge_relationship e = relation)
                    \<and> (source = [] \<or> ge_source e = source) \<and> (target = [] \<or> ge_target e = target)) (ig_edges g);
          referenced = set (map ge_source edges) \<union> set (map ge_target edges);
          nodes = filter (\<lambda>n. of_kind n \<and> (edges = [] \<or> gn_id n \<in> referenced)) (ig_nodes g)
      in req (source = [] \<or> index_node g source \<noteq> None) (ValueError (''source node is missing from graph: '' @ source))
        (req (target = [] \<or> index_node g target \<noteq> None) (ValueError (''target node is missing from graph: '' @ target))
          (Inr (if relation = [] \<and> source = [] \<and> target = []
                then \<lparr>qr_nodes = filter of_kind (ig_nodes g),
                      qr_edges = edges_among (filter of_kind (ig_nodes g)) (ig_edges g)\<rparr>
                else \<lparr>qr_nodes = nodes,
                      qr_edges = (if kinds \<noteq> [] \<and> edges \<noteq> [] then edges_among nodes edges else edges)\<rparr>))))"

record graph_summary =
  gs_nodes :: nat
  gs_edges :: nat
  gs_assets :: nat
  gs_services :: nat
  gs_vulnerabilities :: nat
  gs_findings :: nat
  gs_identities :: nat
  gs_groups :: nat
  gs_permissions :: nat
  gs_critical :: nat
  gs_observed :: nat
  gs_inferred :: nat
  gs_relationships :: "(string \<times> nat) list"

fun count_kinds :: "gnode list \<Rightarrow> (node_kind \<Rightarrow> nat) \<Rightarrow> node_kind \<Rightarrow> nat" where
  "count_kinds [] c = c"
| "count_kinds (n # ns) c = count_kinds ns (c(gn_kind n := c (gn_kind n) + 1))"

fun count_edges :: "gedge list \<Rightarrow> (string \<times> nat) list \<times> nat \<times> nat \<Rightarrow> (string \<times> nat) list \<times> nat \<times> nat" where
  "count_edges [] s = s"
| "count_edges (e # es) (counts, ob, nf) =
     count_edges es
       (AList.update (ge_relationship e)
          ((case map_of counts (ge_relationship e) of None \<Rightarrow> 0 | Some k \<Rightarrow> k) + 1) counts,
        (if ge_state e = OBSERVED then ob + 1 else ob),
        (if ge_state e = OBSERVED then nf else if ge_state e = INFERRED then nf + 1 else nf))"

definition summarize_identity_graph :: "identity_graph \<Rightarrow> graph_summary" where
  "summarize_identity_graph g =
     (let kinds = count_kinds (ig_nodes g) (\<lambda>_. 0);
          (counts, ob, nf) = count_edges (ig_edges g) ([], 0, 0)
      in \<lparr>gs_nodes = length (ig_nodes g), gs_edges = length (ig_edges g), gs_assets = kinds ASSET,
          gs_services = kinds SERVICE, gs_vulnerabilities = kinds VULNERABILITY,
          gs_findings = kinds ASSESSMENT_FINDING, gs_identities = kinds IDENTITY, gs_groups = kinds GROUP,
          gs_permissions = kinds PERMISSION, gs_critical = kinds CRITICAL_ASSET, gs_observed = ob,
          gs_inferred = nf, gs_relationships = sort counts\<rparr>)"

end
