(* ===== verification/GraphSearch.thy ===== *)
theory GraphSearch
  imports GraphModels
begin

text \<open>
  \<^verbatim>\<open>graph_traversal.py\<close> and \<^verbatim>\<open>graph_path.py\<close>: breadth-first traversal of the attack graph and
  the enumeration of simple directed paths, both under hard limits.  The loops that the code leaves
  by \<^verbatim>\<open>return\<close> give a flag that says so.
\<close>

section \<open>Traversal\<close>

record traversal_limits =
  tl_depth :: nat
  tl_nodes :: nat

definition traversal_limits_init :: "int \<Rightarrow> int \<Rightarrow> traversal_limits res" where
  "traversal_limits_init d n =
     req (0 \<le> d) (ValueError ''max_depth must be at least 0.'')
    (req (1 \<le> n) (ValueError ''max_nodes must be at least 1.'')
      (Inr \<lparr>tl_depth = nat d, tl_nodes = nat n\<rparr>))"

definition default_traversal_limits :: traversal_limits where
  "default_traversal_limits = \<lparr>tl_depth = 4, tl_nodes = 256\<rparr>"

record traversal_result =
  tv_start :: string
  tv_visited :: "gnode list"
  tv_depth :: nat
  tv_truncated :: bool

text \<open>The variables of the loop: \<^verbatim>\<open>visited_ids\<close>, \<^verbatim>\<open>ordered\<close> and \<^verbatim>\<open>next_nodes\<close>.\<close>

record bfs =
  bf_visited :: "string set"
  bf_ordered :: "gnode list"
  bf_next :: "gnode list"

fun visit_neighbors :: "nat \<Rightarrow> gnode list \<Rightarrow> bfs \<Rightarrow> bfs \<times> bool" where
  "visit_neighbors mx [] s = (s, False)"
| "visit_neighbors mx (n # ns) s =
     (if gn_id n \<in> bf_visited s then visit_neighbors mx ns s
      else if mx \<le> length (bf_ordered s) then (s, True)
      else visit_neighbors mx ns
             \<lparr>bf_visited = insert (gn_id n) (bf_visited s), bf_ordered = bf_ordered s @ [n],
              bf_next = bf_next s @ [n]\<rparr>)"

fun visit_frontier :: "nat \<Rightarrow> (string \<Rightarrow> gnode list res) \<Rightarrow> gnode list \<Rightarrow> bfs \<Rightarrow> (bfs \<times> bool) res" where
  "visit_frontier mx nb [] s = Inr (s, False)"
| "visit_frontier mx nb (c # cs) s =
     bindE (nb (gn_id c)) (\<lambda>ns.
       case visit_neighbors mx ns s of
         (s', stopped) \<Rightarrow> if stopped then Inr (s', True) else visit_frontier mx nb cs s')"

fun any_unvisited :: "(string \<Rightarrow> gnode list res) \<Rightarrow> string set \<Rightarrow> gnode list \<Rightarrow> bool res" where
  "any_unvisited nb visited [] = Inr False"
| "any_unvisited nb visited (c # cs) =
     bindE (nb (gn_id c)) (\<lambda>ns.
       if list_ex (\<lambda>n. gn_id n \<notin> visited) ns then Inr True else any_unvisited nb visited cs)"

text \<open>The end of the function, reached with the loop's variables.\<close>

definition traversal_end ::
  "traversal_limits \<Rightarrow> (string \<Rightarrow> gnode list res) \<Rightarrow> string \<Rightarrow> bfs \<Rightarrow> gnode list \<Rightarrow> nat \<Rightarrow> traversal_result res" where
  "traversal_end lim nb start s frontier depth =
     bindE (if frontier \<noteq> [] \<and> tl_depth lim \<le> depth then any_unvisited nb (bf_visited s) frontier else Inr False)
       (\<lambda>t. Inr \<lparr>tv_start = start, tv_visited = bf_ordered s, tv_depth = depth, tv_truncated = t\<rparr>)"

function traverse_levels ::
  "traversal_limits \<Rightarrow> (string \<Rightarrow> gnode list res) \<Rightarrow> string \<Rightarrow> bfs \<Rightarrow> gnode list \<Rightarrow> nat \<Rightarrow> traversal_result res" where
  "traverse_levels lim nb start s frontier depth =
     (if frontier \<noteq> [] \<and> depth < tl_depth lim
      then bindE (visit_frontier (tl_nodes lim) nb frontier (s\<lparr>bf_next := []\<rparr>)) (\<lambda>(s', stopped).
             if stopped
             then Inr \<lparr>tv_start = start, tv_visited = bf_ordered s', tv_depth = depth, tv_truncated = True\<rparr>
             else if bf_next s' = [] then traversal_end lim nb start s' frontier depth
             else traverse_levels lim nb start s' (bf_next s') (depth + 1))
      else traversal_end lim nb start s frontier depth)"
  by pat_completeness auto
termination
  by (relation "measure (\<lambda>(lim, nb, start, s, frontier, depth). tl_depth lim - depth)") auto

declare traverse_levels.simps [simp del]

definition traverse_identity_graph ::
  "identity_graph \<Rightarrow> string \<Rightarrow> string \<Rightarrow> string \<Rightarrow> traversal_limits option \<Rightarrow> traversal_result res" where
  "traverse_identity_graph g start_id relationship direction limits =
     (let lim = (case limits of None \<Rightarrow> default_traversal_limits | Some l \<Rightarrow> l)
      in case index_node g start_id of
           None \<Rightarrow> Inl (ValueError (''start node is missing from graph: '' @ start_id))
         | Some start \<Rightarrow>
             traverse_levels lim (neighbors g relationship direction) (gn_id start)
               \<lparr>bf_visited = {gn_id start}, bf_ordered = [start], bf_next = []\<rparr> [start] 0)"

section \<open>Paths\<close>

record path_limits =
  pl_depth :: nat
  pl_paths :: nat
  pl_expansions :: nat

definition path_limits_init :: "int \<Rightarrow> int \<Rightarrow> int \<Rightarrow> path_limits res" where
  "path_limits_init d p x =
     req (1 \<le> d) (ValueError ''max_depth must be at least 1'')
    (req (1 \<le> p) (ValueError ''max_paths must be at least 1'')
    (req (1 \<le> x) (ValueError ''max_expansions must be at least 1'')
      (Inr \<lparr>pl_depth = nat d, pl_paths = nat p, pl_expansions = nat x\<rparr>)))"

definition default_path_limits :: path_limits where
  "default_path_limits = \<lparr>pl_depth = 6, pl_paths = 128, pl_expansions = 10000\<rparr>"

record gpath =
  gp_nodes :: "gnode list"
  gp_edges :: "gedge list"

definition hop_count :: "gpath \<Rightarrow> nat" where
  "hop_count p = length (gp_edges p)"

record path_result =
  pr_start :: string
  pr_target :: string
  pr_paths :: "gpath list"
  pr_truncated :: bool

text \<open>The variables of the search: \<^verbatim>\<open>paths\<close>, \<^verbatim>\<open>queue\<close> and \<^verbatim>\<open>truncated\<close>.\<close>

record path_search =
  ps_paths :: "gpath list"
  ps_queue :: "(gnode list \<times> gedge list) list"
  ps_truncated :: bool

fun expand_edges ::
  "identity_graph \<Rightarrow> path_limits \<Rightarrow> string set \<Rightarrow> string \<Rightarrow> nat \<Rightarrow> gnode list \<Rightarrow> gedge list
     \<Rightarrow> gedge list \<Rightarrow> path_search \<Rightarrow> path_search \<times> bool" where
  "expand_edges g lim allowed target expanded nodes edges [] s = (s, False)"
| "expand_edges g lim allowed target expanded nodes edges (e # es) s =
     (if allowed \<noteq> {} \<and> ge_relationship e \<notin> allowed
      then expand_edges g lim allowed target expanded nodes edges es s
      else case index_node g (ge_target e) of
        None \<Rightarrow> expand_edges g lim allowed target expanded nodes edges es s
      | Some n \<Rightarrow>
          if list_ex (\<lambda>m. gn_id m = gn_id n) nodes
          then expand_edges g lim allowed target expanded nodes edges es s
          else if pl_depth lim \<le> length edges
          then expand_edges g lim allowed target expanded nodes edges es (s\<lparr>ps_truncated := True\<rparr>)
          else if gn_id n = target
          then (if pl_paths lim \<le> length (ps_paths s) then (s\<lparr>ps_truncated := True\<rparr>, True)
                else expand_edges g lim allowed target expanded nodes edges es
                       (s\<lparr>ps_paths := ps_paths s @ [\<lparr>gp_nodes = nodes @ [n], gp_edges = edges @ [e]\<rparr>]\<rparr>))
          else if pl_expansions lim \<le> expanded + length (ps_queue s)
          then expand_edges g lim allowed target expanded nodes edges es (s\<lparr>ps_truncated := True\<rparr>)
          else expand_edges g lim allowed target expanded nodes edges es
                 (s\<lparr>ps_queue := ps_queue s @ [(nodes @ [n], edges @ [e])]\<rparr>))"

function search_paths ::
  "identity_graph \<Rightarrow> path_limits \<Rightarrow> string set \<Rightarrow> string \<Rightarrow> nat \<Rightarrow> path_search \<Rightarrow> path_search" where
  "search_paths g lim allowed target expanded s =
     (case ps_queue s of
        [] \<Rightarrow> s
      | (nodes, edges) # queue \<Rightarrow>
          if pl_expansions lim \<le> expanded then s\<lparr>ps_truncated := True\<rparr>
          else case expand_edges g lim allowed target (expanded + 1) nodes edges
                      (outgoing_edges g [] (gn_id (last nodes))) (s\<lparr>ps_queue := queue\<rparr>) of
                 (s', returned) \<Rightarrow>
                   if returned then s' else search_paths g lim allowed target (expanded + 1) s')"
  by pat_completeness auto
termination
  by (relation "measure (\<lambda>(g, lim, allowed, target, expanded, s). pl_expansions lim - expanded)") auto

declare search_paths.simps [simp del]

definition allowed_relationships :: "string list \<Rightarrow> string set" where
  "allowed_relationships rels = set (map (\<lambda>r. lower (strip r)) (filter (\<lambda>r. strip r \<noteq> []) rels))"

definition find_identity_graph_paths ::
  "identity_graph \<Rightarrow> string \<Rightarrow> string \<Rightarrow> string list \<Rightarrow> path_limits option \<Rightarrow> path_result res" where
  "find_identity_graph_paths g start_id target_id relationships limits =
     (let lim = (case limits of None \<Rightarrow> default_path_limits | Some l \<Rightarrow> l)
      in case index_node g start_id of
           None \<Rightarrow> Inl (ValueError (''start node is missing from graph: '' @ start_id))
         | Some start \<Rightarrow> (case index_node g target_id of
             None \<Rightarrow> Inl (ValueError (''target node is missing from graph: '' @ target_id))
           | Some target \<Rightarrow>
               if gn_id start = gn_id target
               then Inr \<lparr>pr_start = gn_id start, pr_target = gn_id target,
                         pr_paths = [\<lparr>gp_nodes = [start], gp_edges = []\<rparr>], pr_truncated = False\<rparr>
               else let s = search_paths g lim (allowed_relationships relationships) (gn_id target) 0
                              \<lparr>ps_paths = [], ps_queue = [([start], [])], ps_truncated = False\<rparr>
                    in Inr \<lparr>pr_start = gn_id start, pr_target = gn_id target, pr_paths = ps_paths s,
                            pr_truncated = ps_truncated s\<rparr>))"

end
