(* ===== verification/GraphReview.thy ===== *)
theory GraphReview
  imports GraphEvidence GraphSearch
begin

text \<open>
  \<^verbatim>\<open>graph_path_review.py\<close>: the order in which an analyst inspects the paths of a query.  The
  query is checked against the graph before its paths are ordered.
\<close>

record path_review =
  rv_path :: gpath
  rv_observed :: nat
  rv_inferred :: nat
  rv_order :: nat

record review_result =
  rr_start :: string
  rr_target :: string
  rr_reviews :: "path_review list"
  rr_truncated :: bool

definition edges_by_id :: "identity_graph \<Rightarrow> string \<Rightarrow> gedge option" where
  "edges_by_id g = map_of (rev (map (\<lambda>e. (ge_id e, e)) (ig_edges g)))"

text \<open>The inner loop over the edges of a path, with their positions.  That the evidence state is an
  evidence state holds by its type.\<close>

fun review_edges :: "(string \<Rightarrow> gedge option) \<Rightarrow> string list \<Rightarrow> gedge list \<Rightarrow> unit res" where
  "review_edges edges node_ids [] = Inr ()"
| "review_edges edges node_ids (e # es) =
     req (edges (ge_id e) = Some e) (ValueError ''path review contains an edge outside the graph'')
    (req (ge_source e = node_ids ! 0 \<and> ge_target e = node_ids ! 1)
       (ValueError ''path review edge does not connect adjacent nodes'')
      (review_edges edges (tl node_ids) es))"

type_synonym review_key = "nat \<times> nat \<times> string list"

fun review_paths ::
  "(string \<Rightarrow> gnode option) \<Rightarrow> (string \<Rightarrow> gedge option) \<Rightarrow> path_limits \<Rightarrow> string \<Rightarrow> string \<Rightarrow> string list set
     \<Rightarrow> gpath list \<Rightarrow> (review_key \<times> gpath) list res" where
  "review_paths nodes edges lim start target seen [] = Inr []"
| "review_paths nodes edges lim start target seen (p # ps) =
     (let node_ids = map gn_id (gp_nodes p); edge_ids = map ge_id (gp_edges p);
          inferred = length (filter (\<lambda>e. ge_state e = INFERRED) (gp_edges p))
      in req (gp_edges p \<noteq> [] \<and> length (gp_edges p) \<le> pl_depth lim)
           (ValueError ''path review requires a bounded non-empty path'')
        (req (length (gp_nodes p) = length (gp_edges p) + 1)
           (ValueError ''path review node and edge counts disagree'')
        (req (gn_id (gp_nodes p ! 0) = start) (ValueError ''path review start node does not match query'')
        (req (gn_id (last (gp_nodes p)) = target) (ValueError ''path review target node does not match query'')
        (req (distinct node_ids) (ValueError ''path review contains a repeated node'')
        (req (list_all (\<lambda>n. nodes (gn_id n) = Some n) (gp_nodes p))
           (ValueError ''path review contains a node outside the graph'')
        (req (edge_ids \<notin> seen) (ValueError ''path review contains a duplicate path'')
        (bindE (review_edges edges node_ids (gp_edges p)) (\<lambda>_.
         bindE (review_paths nodes edges lim start target (insert edge_ids seen) ps) (\<lambda>cs.
         Inr (((inferred, hop_count p, edge_ids), p) # cs)))))))))))"

definition number_reviews :: "(review_key \<times> gpath) list \<Rightarrow> path_review list" where
  "number_reviews cs =
     map (\<lambda>(position, ((inferred, hops, _), p)).
            \<lparr>rv_path = p, rv_observed = hops - inferred, rv_inferred = inferred, rv_order = position\<rparr>)
       (enumerate 1 cs)"

definition order_graph_paths_for_review ::
  "identity_graph \<Rightarrow> path_result \<Rightarrow> path_limits option \<Rightarrow> review_result res" where
  "order_graph_paths_for_review g q limits =
     (let lim = (case limits of None \<Rightarrow> default_path_limits | Some l \<Rightarrow> l);
          nodes = nodes_by_id g
      in bindE (assert_valid_identity_graph g) (\<lambda>_.
         req (nodes (pr_start q) \<noteq> None \<and> nodes (pr_target q) \<noteq> None)
           (ValueError ''path review requires existing start and target nodes'')
        (req (length (pr_paths q) \<le> pl_paths lim) (ValueError ''path review exceeds max_paths'')
        (bindE (review_paths nodes (edges_by_id g) lim (pr_start q) (pr_target q) {} (pr_paths q)) (\<lambda>cs.
         Inr \<lparr>rr_start = pr_start q, rr_target = pr_target q,
              rr_reviews = number_reviews (sort_key fst cs), rr_truncated = pr_truncated q\<rparr>)))))"

end
