(* ===== verification/GraphFacts.thy ===== *)
theory GraphFacts
  imports GraphSearch
begin

text \<open>
  The traversal against reachability.  The search is correct for every neighbour function that
  answers with the successors of a relation; the locale \<open>successors\<close> states that contract and the
  index of the graph provides it, with the relation \<open>edge_step\<close> read off the edges.
\<close>

section \<open>Balls and reachability\<close>

text \<open>\<open>ball E a k\<close>: what is reached from \<open>a\<close> in at most \<open>k\<close> steps.\<close>

fun ball :: "('v \<times> 'v) set \<Rightarrow> 'v \<Rightarrow> nat \<Rightarrow> 'v set" where
  "ball E a 0 = {a}"
| "ball E a (Suc k) = ball E a k \<union> E `` ball E a k"

lemma ball_mono: "j \<le> k \<Longrightarrow> ball E a j \<subseteq> ball E a k"
  by (induction k) (auto simp: le_Suc_eq)

lemma ball_reach: "ball E a k \<subseteq> E\<^sup>* `` {a}"
proof (induction k)
  case (Suc k)
  then have "E `` ball E a k \<subseteq> E\<^sup>* `` {a}" by (auto intro: rtrancl_into_rtrancl)
  with Suc show ?case by simp
qed simp

lemma reach_least: "a \<in> V \<Longrightarrow> E `` V \<subseteq> V \<Longrightarrow> E\<^sup>* `` {a} \<subseteq> V"
proof clarify
  fix b assume "(a, b) \<in> E\<^sup>*" "a \<in> V" "E `` V \<subseteq> V"
  then show "b \<in> V" by (induction rule: rtrancl_induct) auto
qed

lemma reach_closed: "E `` (E\<^sup>* `` {a}) \<subseteq> E\<^sup>* `` {a}"
  by (auto intro: rtrancl_into_rtrancl)

lemma ball_self: "a \<in> ball E a k"
  by (induction k) auto

lemma ball_closed: "E `` ball E a d \<subseteq> ball E a d \<Longrightarrow> d \<le> k \<Longrightarrow> ball E a k = ball E a d"
proof (induction k)
  case (Suc k)
  then show ?case by (cases "d = Suc k") auto
qed auto

lemma ball_closed_iff: "E `` ball E a d \<subseteq> ball E a d \<longleftrightarrow> ball E a d = E\<^sup>* `` {a}"
proof
  assume "E `` ball E a d \<subseteq> ball E a d"
  then show "ball E a d = E\<^sup>* `` {a}" using ball_reach reach_least [OF ball_self] by (metis subset_antisym)
next
  assume "ball E a d = E\<^sup>* `` {a}"
  then show "E `` ball E a d \<subseteq> ball E a d" using reach_closed by metis
qed

lemma Image_rest: "E `` (V - F) \<subseteq> V \<Longrightarrow> F \<subseteq> V \<Longrightarrow> E `` V \<subseteq> V \<longleftrightarrow> E `` F \<subseteq> V"
  by blast

lemma Image_rest_Un: "E `` (V - F) \<subseteq> V \<Longrightarrow> E `` V \<subseteq> V \<union> E `` F"
  by blast

section \<open>The search over a successor relation\<close>

abbreviation ids :: "gnode list \<Rightarrow> string set" where
  "ids ns \<equiv> gn_id ` set ns"

definition bfs_ok :: "nat \<Rightarrow> bfs \<Rightarrow> bool" where
  "bfs_ok mx s \<longleftrightarrow> bf_visited s = ids (bf_ordered s) \<and> distinct (map gn_id (bf_ordered s))
     \<and> length (bf_ordered s) \<le> mx"

definition bfs_grows :: "bfs \<Rightarrow> bfs \<Rightarrow> string set \<Rightarrow> bool" where
  "bfs_grows s s' A \<longleftrightarrow> (\<exists>zs. bf_ordered s' = bf_ordered s @ zs \<and> bf_next s' = bf_next s @ zs \<and> ids zs \<subseteq> A)"

lemma bfs_grows_refl [simp]: "bfs_grows s s A"
  by (simp add: bfs_grows_def)

lemma bfs_grows_trans: "bfs_grows s s1 A \<Longrightarrow> bfs_grows s1 s2 B \<Longrightarrow> bfs_grows s s2 (A \<union> B)"
  unfolding bfs_grows_def by force

lemma bfs_grows_mono: "bfs_grows s s' A \<Longrightarrow> A \<subseteq> B \<Longrightarrow> bfs_grows s s' B"
  unfolding bfs_grows_def by blast

lemma visit_neighbors_spec:
  assumes "bfs_ok mx s" "visit_neighbors mx ns s = (s', stopped)"
  shows "bfs_ok mx s' \<and> bfs_grows s s' (ids ns)
    \<and> (\<not> stopped \<longrightarrow> bf_visited s' = bf_visited s \<union> ids ns)
    \<and> (stopped \<longrightarrow> length (bf_ordered s') = mx \<and> (\<exists>b\<in>ids ns. b \<notin> bf_visited s'))"
  using assms
proof (induction ns arbitrary: s)
  case (Cons n ns)
  show ?case
  proof (cases "gn_id n \<in> bf_visited s")
    case True
    with Cons.prems have "visit_neighbors mx ns s = (s', stopped)" by simp
    from Cons.IH [OF Cons.prems(1) this] True show ?thesis
      by (auto intro: bfs_grows_mono simp: bfs_grows_def)
  next
    case new: False
    show ?thesis
    proof (cases "mx \<le> length (bf_ordered s)")
      case True
      with Cons.prems new show ?thesis by (auto simp: bfs_ok_def)
    next
      case False
      let ?t = "\<lparr>bf_visited = insert (gn_id n) (bf_visited s), bf_ordered = bf_ordered s @ [n],
              bf_next = bf_next s @ [n]\<rparr>"
      from new False Cons.prems have t: "bfs_ok mx ?t" "visit_neighbors mx ns ?t = (s', stopped)"
        by (auto simp: bfs_ok_def)
      have "bfs_grows s ?t {gn_id n}" by (auto simp: bfs_grows_def)
      with Cons.IH [OF t] show ?thesis by (auto dest: bfs_grows_trans)
    qed
  qed
qed simp

locale successors =
  fixes nb :: "string \<Rightarrow> gnode list res"
    and E :: "(string \<times> string) set"
  assumes nb_succ: "nb i = Inr ns \<Longrightarrow> ids ns = E `` {i}"
begin

lemma visit_frontier_spec:
  assumes "bfs_ok mx s" "visit_frontier mx nb cs s = Inr (s', stopped)"
  shows "bfs_ok mx s' \<and> bfs_grows s s' (E `` ids cs)
    \<and> (\<not> stopped \<longrightarrow> bf_visited s' = bf_visited s \<union> E `` ids cs)
    \<and> (stopped \<longrightarrow> length (bf_ordered s') = mx \<and> (\<exists>b\<in>E `` ids cs. b \<notin> bf_visited s'))"
  using assms
proof (induction cs arbitrary: s)
  case (Cons c cs)
  obtain ns s1 st1 where ns: "nb (gn_id c) = Inr ns" and v: "visit_neighbors mx ns s = (s1, st1)"
    using Cons.prems(2) unfolding visit_frontier.simps bindE_Inr by (metis surj_pair)
  note spec = visit_neighbors_spec [OF Cons.prems(1) v]
  have E: "E `` ids (c # cs) = ids ns \<union> E `` ids cs" using nb_succ [OF ns] by auto
  show ?case
  proof (cases st1)
    case True
    then have "s' = s1" "stopped" using Cons.prems(2) ns v by auto
    then show ?thesis using spec True unfolding E by (auto intro: bfs_grows_mono)
  next
    case False
    then have "visit_frontier mx nb cs s1 = Inr (s', stopped)" using Cons.prems(2) ns v by auto
    from Cons.IH [OF _ this] spec False show ?thesis unfolding E by (auto dest: bfs_grows_trans)
  qed
qed simp

lemma any_unvisited_spec:
  "any_unvisited nb V cs = Inr t \<Longrightarrow> t \<longleftrightarrow> \<not> E `` ids cs \<subseteq> V"
proof (induction cs)
  case (Cons c cs)
  obtain ns where ns: "nb (gn_id c) = Inr ns" using Cons.prems by (auto simp: bindE_Inr)
  have E: "E `` ids (c # cs) = ids ns \<union> E `` ids cs" using nb_succ [OF ns] by auto
  show ?case
  proof (cases "ids ns \<subseteq> V")
    case True
    then have "\<not> list_ex (\<lambda>n. gn_id n \<notin> V) ns" by (auto simp: list_ex_iff)
    with Cons.prems ns have "any_unvisited nb V cs = Inr t" by simp
    from Cons.IH [OF this] True show ?thesis unfolding E by simp
  next
    case False
    then have "list_ex (\<lambda>n. gn_id n \<notin> V) ns" by (auto simp: list_ex_iff)
    with Cons.prems ns False show ?thesis unfolding E by simp
  qed
qed simp

text \<open>What holds whenever the loop is entered, and what a result promises.\<close>

definition level_inv :: "nat \<Rightarrow> string \<Rightarrow> bfs \<Rightarrow> gnode list \<Rightarrow> nat \<Rightarrow> bool" where
  "level_inv mx a s frontier depth \<longleftrightarrow> bfs_ok mx s \<and> bf_visited s = ball E a depth
     \<and> E `` (bf_visited s - ids frontier) \<subseteq> bf_visited s \<and> ids frontier \<subseteq> bf_visited s
     \<and> (\<forall>j\<le>depth. \<exists>k. ids (take k (bf_ordered s)) = ball E a j)"

definition traversal_ok :: "traversal_limits \<Rightarrow> string \<Rightarrow> traversal_result \<Rightarrow> bool" where
  "traversal_ok lim a r \<longleftrightarrow> tv_start r = a \<and> distinct (map gn_id (tv_visited r))
     \<and> length (tv_visited r) \<le> tl_nodes lim \<and> tv_depth r \<le> tl_depth lim
     \<and> ids (tv_visited r) \<subseteq> E\<^sup>* `` {a}
     \<and> (\<forall>j\<le>tv_depth r. \<exists>k. ids (take k (tv_visited r)) = ball E a j)
     \<and> (tv_truncated r \<longleftrightarrow> ids (tv_visited r) \<noteq> E\<^sup>* `` {a})
     \<and> (length (tv_visited r) < tl_nodes lim \<longrightarrow> ids (tv_visited r) = ball E a (tl_depth lim))"

lemma level_invD:
  assumes "level_inv mx a s frontier depth"
  shows "bfs_ok mx s" "bf_visited s = ball E a depth" "E `` (bf_visited s - ids frontier) \<subseteq> bf_visited s"
    "ids frontier \<subseteq> bf_visited s" "j \<le> depth \<Longrightarrow> \<exists>k. ids (take k (bf_ordered s)) = ball E a j"
  using assms unfolding level_inv_def by blast+

lemma level_closed:
  assumes "level_inv mx a s frontier depth"
  shows "E `` ids frontier \<subseteq> bf_visited s \<longleftrightarrow> bf_visited s = E\<^sup>* `` {a}"
proof -
  from assms have "E `` ids frontier \<subseteq> bf_visited s \<longleftrightarrow> E `` bf_visited s \<subseteq> bf_visited s"
    unfolding level_inv_def by (metis Image_rest)
  with assms show ?thesis by (simp add: level_inv_def ball_closed_iff)
qed

lemma traversal_end_ok:
  assumes inv: "level_inv (tl_nodes lim) a s frontier depth" and d: "depth \<le> tl_depth lim"
    and stop: "frontier \<noteq> [] \<and> tl_depth lim \<le> depth \<or> E `` ids frontier \<subseteq> bf_visited s"
    and r: "traversal_end lim nb a s frontier depth = Inr r"
  shows "traversal_ok lim a r"
proof -
  obtain t where t: "(if frontier \<noteq> [] \<and> tl_depth lim \<le> depth then any_unvisited nb (bf_visited s) frontier
      else Inr False) = Inr t"
    and r': "r = \<lparr>tv_start = a, tv_visited = bf_ordered s, tv_depth = depth, tv_truncated = t\<rparr>"
    using r by (auto simp: traversal_end_def bindE_Inr)
  have "t \<longleftrightarrow> \<not> E `` ids frontier \<subseteq> bf_visited s"
    using t stop any_unvisited_spec by (auto split: if_splits)
  then have t': "t \<longleftrightarrow> bf_visited s \<noteq> E\<^sup>* `` {a}" using level_closed [OF inv] by simp
  have "bf_visited s = ball E a (tl_depth lim)"
  proof (cases "tl_depth lim \<le> depth")
    case True
    with d inv show ?thesis by (simp add: level_inv_def)
  next
    case False
    with stop level_closed [OF inv] have "bf_visited s = E\<^sup>* `` {a}" by blast
    with inv d show ?thesis using ball_closed [of E a depth "tl_depth lim"]
      by (simp add: level_inv_def ball_closed_iff)
  qed
  moreover have "bf_visited s \<subseteq> E\<^sup>* `` {a}" using inv ball_reach by (metis level_inv_def)
  ultimately show ?thesis using inv d t' by (simp add: traversal_ok_def r' level_inv_def bfs_ok_def)
qed

lemma level_next:
  assumes inv: "level_inv mx a s frontier depth"
    and v: "visit_frontier mx nb frontier (s\<lparr>bf_next := []\<rparr>) = Inr (s', False)"
  shows "level_inv mx a s' (bf_next s') (Suc depth)"
proof -
  have ok: "bfs_ok mx (s\<lparr>bf_next := []\<rparr>)" using inv by (simp add: level_inv_def bfs_ok_def)
  from visit_frontier_spec [OF ok v]
  obtain zs where zs: "bf_ordered s' = bf_ordered s @ zs" "bf_next s' = zs" "ids zs \<subseteq> E `` ids frontier"
    and ok': "bfs_ok mx s'" and vis: "bf_visited s' = bf_visited s \<union> E `` ids frontier"
    by (auto simp: bfs_grows_def)
  have step: "E `` bf_visited s \<subseteq> bf_visited s \<union> E `` ids frontier"
    using inv unfolding level_inv_def by (metis Image_rest_Un)
  moreover have "ids frontier \<subseteq> bf_visited s" by (rule level_invD [OF inv])
  ultimately have ball': "bf_visited s' = ball E a (Suc depth)"
    unfolding vis using level_invD(2) [OF inv] by auto
  have split: "bf_visited s' = bf_visited s \<union> ids zs"
    using ok' inv by (auto simp: bfs_ok_def level_inv_def zs)
  have "\<exists>k. ids (take k (bf_ordered s')) = ball E a j" if j: "j \<le> Suc depth" for j
  proof (cases "j = Suc depth")
    case True
    then show ?thesis using ok' ball' by (intro exI [of _ "length (bf_ordered s')"]) (auto simp: bfs_ok_def)
  next
    case False
    then obtain k where k: "ids (take k (bf_ordered s)) = ball E a j" using level_invD(5) [OF inv, of j] j by auto
    then show ?thesis
      by (intro exI [of _ "min k (length (bf_ordered s))"]) (auto simp: zs(1) min_def)
  qed
  moreover have "E `` (bf_visited s' - ids zs) \<subseteq> bf_visited s'"
  proof -
    have "bf_visited s' - ids zs \<subseteq> bf_visited s" using split by blast
    then have "E `` (bf_visited s' - ids zs) \<subseteq> E `` bf_visited s" by (rule Image_mono [OF subset_refl])
    with step vis show ?thesis by blast
  qed
  ultimately show ?thesis using ok' ball' split by (auto simp: level_inv_def zs(2))
qed

lemma traverse_levels_ok:
  assumes "level_inv (tl_nodes lim) a s frontier depth" "frontier \<noteq> []" "depth \<le> tl_depth lim"
    and "traverse_levels lim nb a s frontier depth = Inr r"
  shows "traversal_ok lim a r"
  using assms
proof (induction "tl_depth lim - depth" arbitrary: s frontier depth)
  case 0
  then show ?case by (auto simp: traverse_levels.simps [of lim nb a s] intro!: traversal_end_ok [of lim a s frontier depth])
next
  case (Suc m)
  then have d: "depth < tl_depth lim" by simp
  obtain s' st where v: "visit_frontier (tl_nodes lim) nb frontier (s\<lparr>bf_next := []\<rparr>) = Inr (s', st)"
    and rest: "(if st then Inr \<lparr>tv_start = a, tv_visited = bf_ordered s', tv_depth = depth, tv_truncated = True\<rparr>
        else if bf_next s' = [] then traversal_end lim nb a s' frontier depth
        else traverse_levels lim nb a s' (bf_next s') (depth + 1)) = Inr r"
    using Suc.prems d by (auto simp: traverse_levels.simps [of lim nb a s] bindE_Inr)
  have ok: "bfs_ok (tl_nodes lim) (s\<lparr>bf_next := []\<rparr>)" using Suc.prems(1) by (simp add: level_inv_def bfs_ok_def)
  note spec = visit_frontier_spec [OF ok v]
  show ?case
  proof (cases st)
    case True
    then have r: "r = \<lparr>tv_start = a, tv_visited = bf_ordered s', tv_depth = depth, tv_truncated = True\<rparr>"
      using rest by simp
    from spec True have full: "length (bf_ordered s') = tl_nodes lim" and ok': "bfs_ok (tl_nodes lim) s'"
      and "\<exists>b\<in>E `` ids frontier. b \<notin> bf_visited s'" by simp_all
    then obtain b where b: "b \<in> E `` ids frontier" "b \<notin> ids (bf_ordered s')" unfolding bfs_ok_def by metis
    from spec obtain zs where zs: "bf_ordered s' = bf_ordered s @ zs" "ids zs \<subseteq> E `` ids frontier"
      unfolding bfs_grows_def by auto
    have old: "bf_visited s = ids (bf_ordered s)" "bf_visited s \<subseteq> E\<^sup>* `` {a}" "ids frontier \<subseteq> bf_visited s"
      using Suc.prems(1) ball_reach [of E a depth] unfolding level_inv_def bfs_ok_def by metis+
    then have new: "E `` ids frontier \<subseteq> E\<^sup>* `` {a}" using reach_closed [of E a] by blast
    have "\<exists>k. ids (take k (bf_ordered s')) = ball E a j" if j: "j \<le> depth" for j
    proof -
      obtain k where "ids (take k (bf_ordered s)) = ball E a j"
        using level_invD(5) [OF Suc.prems(1) j] by blast
      then show ?thesis by (intro exI [of _ "min k (length (bf_ordered s))"]) (auto simp: zs(1) min_def)
    qed
    moreover have "ids (bf_ordered s') \<subseteq> E\<^sup>* `` {a}" using old new zs by (simp add: image_Un)
    moreover have "ids (bf_ordered s') \<noteq> E\<^sup>* `` {a}" using b new by blast
    ultimately show ?thesis using full ok' d unfolding traversal_ok_def bfs_ok_def by (simp add: r)
  next
    case False
    then have v': "visit_frontier (tl_nodes lim) nb frontier (s\<lparr>bf_next := []\<rparr>) = Inr (s', False)" using v by simp
    note inv' = level_next [OF Suc.prems(1) v']
    show ?thesis
    proof (cases "bf_next s' = []")
      case True
      with spec False have same: "bf_ordered s' = bf_ordered s" "E `` ids frontier \<subseteq> bf_visited s'"
        by (auto simp: bfs_grows_def)
      have ok': "bfs_ok (tl_nodes lim) s'" by (rule level_invD [OF inv'])
      then have "bf_visited s' = bf_visited s"
        using level_invD(1) [OF Suc.prems(1)] same(1) unfolding bfs_ok_def by metis
      then have "level_inv (tl_nodes lim) a s' frontier depth"
        using ok' level_invD(2-5) [OF Suc.prems(1)] unfolding level_inv_def same(1) by metis
      with rest False True same d show ?thesis by (intro traversal_end_ok [of lim a s' frontier depth]) auto
    next
      case next_nodes: False
      with rest False Suc.hyps(2) d show ?thesis
        by (intro Suc.hyps(1) [of "Suc depth" s' "bf_next s'"]) (auto intro: inv')
    qed
  qed
qed

end

section \<open>The index provides the successors\<close>

text \<open>One step along an edge of the graph, in the direction and with the relationship asked for, to
  an identifier that names a node.\<close>

definition edge_step :: "identity_graph \<Rightarrow> string \<Rightarrow> string \<Rightarrow> (string \<times> string) set" where
  "edge_step g relationship direction = {(a, b). b \<in> ids (ig_nodes g) \<and>
     (\<exists>e\<in>set (ig_edges g).
        (lower (strip relationship) = [] \<or> ge_relationship e = lower (strip relationship)) \<and>
        (direction \<in> {''outgoing'', ''both''} \<and> ge_source e = a \<and> ge_target e = b
         \<or> direction \<in> {''incoming'', ''both''} \<and> ge_target e = a \<and> ge_source e = b))}"

lemma neighbors_succ:
  assumes "neighbors g relationship direction i = Inr ns"
  shows "ids ns = edge_step g relationship direction `` {i}"
proof -
  let ?S = "set ((if direction \<in> {''outgoing'', ''both''} then map ge_target (outgoing_edges g relationship i) else [])
     @ (if direction \<in> {''incoming'', ''both''} then map ge_source (incoming_edges g relationship i) else []))"
  have "ids ns = ids (ig_nodes g) \<inter> ?S"
    using assms unfolding neighbors_def req_Inr Let_def by force
  moreover have "b \<in> ?S \<longleftrightarrow> (\<exists>e\<in>set (ig_edges g).
        (lower (strip relationship) = [] \<or> ge_relationship e = lower (strip relationship)) \<and>
        (direction \<in> {''outgoing'', ''both''} \<and> ge_source e = i \<and> ge_target e = b
         \<or> direction \<in> {''incoming'', ''both''} \<and> ge_target e = i \<and> ge_source e = b))" for b
    unfolding outgoing_edges_def incoming_edges_def Let_def set_append
    by (cases "direction \<in> {''outgoing'', ''both''}"; cases "direction \<in> {''incoming'', ''both''}";
        simp only: if_True if_False simp_thms set_map set_filter list.set(1) Un_empty_left Un_empty_right; blast)
  ultimately show ?thesis unfolding edge_step_def by blast
qed

lemma neighbors_total:
  "is_ok (neighbors g relationship direction i) \<longleftrightarrow> direction \<in> {''outgoing'', ''incoming'', ''both''}"
  by (simp add: neighbors_def req_def Let_def)

interpretation nbs: successors "neighbors g relationship direction" "edge_step g relationship direction"
  for g relationship direction
  by unfold_locales (rule neighbors_succ)

text \<open>The traversal returns for every known start node and every direction.\<close>

lemma visit_frontier_total:
  "(\<And>i. is_ok (nb i)) \<Longrightarrow> is_ok (visit_frontier mx nb cs s)"
proof (induction cs arbitrary: s)
  case (Cons c cs)
  obtain ns where "nb (gn_id c) = Inr ns" using Cons.prems by (meson is_ok_iff)
  with Cons show ?case by (auto split: prod.splits)
qed simp

lemma any_unvisited_total: "(\<And>i. is_ok (nb i)) \<Longrightarrow> is_ok (any_unvisited nb V cs)"
proof (induction cs)
  case (Cons c cs)
  obtain ns where "nb (gn_id c) = Inr ns" using Cons.prems by (meson is_ok_iff)
  with Cons show ?case by auto
qed simp

lemma traversal_end_total: "(\<And>i. is_ok (nb i)) \<Longrightarrow> is_ok (traversal_end lim nb a s fr d)"
  using any_unvisited_total [of nb "bf_visited s" fr] by (auto simp: traversal_end_def is_ok_iff)

lemma traverse_levels_total:
  assumes "\<And>i. is_ok (nb i)"
  shows "is_ok (traverse_levels lim nb a s fr d)"
proof (induction "tl_depth lim - d" arbitrary: s fr d)
  case 0
  then show ?case using assms by (simp add: traverse_levels.simps [of lim nb a s fr d] traversal_end_total)
next
  case (Suc m)
  obtain s' st where v: "visit_frontier (tl_nodes lim) nb fr (s\<lparr>bf_next := []\<rparr>) = Inr (s', st)"
    using visit_frontier_total [of nb "tl_nodes lim" fr "s\<lparr>bf_next := []\<rparr>", OF assms] by (auto simp: is_ok_iff)
  have next_ok: "is_ok (traverse_levels lim nb a s' (bf_next s') (d + 1))"
    using Suc.hyps(2) by (intro Suc.hyps(1)) simp
  show ?case
  proof (cases "fr \<noteq> [] \<and> d < tl_depth lim")
    case True
    then show ?thesis
      using v next_ok traversal_end_total [of nb, OF assms]
      by (subst traverse_levels.simps) (simp only: if_True bindE_simps prod.case is_ok_simps split: if_splits, simp)
  next
    case False
    then show ?thesis using traversal_end_total [of nb, OF assms] by (subst traverse_levels.simps) auto
  qed
qed

lemma traverse_levels_stuck:
  assumes "\<And>i. \<not> is_ok (nb i)" "fr \<noteq> []"
  shows "\<not> is_ok (traverse_levels lim nb a s fr d)"
proof -
  obtain c cs where fr: "fr = c # cs" using assms(2) by (cases fr) auto
  obtain e where "nb (gn_id c) = Inl e" using assms(1) [of "gn_id c"] by (cases "nb (gn_id c)") auto
  then show ?thesis
    by (simp add: traverse_levels.simps [of lim nb a s "c # cs" d] traversal_end_def fr)
qed

lemma traverse_returns_iff:
  "is_ok (traverse_identity_graph g a relationship direction limits) \<longleftrightarrow>
     a \<in> ids (ig_nodes g) \<and> direction \<in> {''outgoing'', ''incoming'', ''both''}"
proof (cases "index_node g a")
  case None
  moreover from None have "a \<notin> ids (ig_nodes g)" by (simp add: index_node_None)
  ultimately show ?thesis by (simp add: traverse_identity_graph_def)
next
  case (Some n)
  have a: "a \<in> ids (ig_nodes g)" using index_node_Some [OF Some] by auto
  show ?thesis
  proof (cases "direction \<in> {''outgoing'', ''incoming'', ''both''}")
    case True
    then have "is_ok (neighbors g relationship direction i)" for i by (simp add: neighbors_total)
    with Some a True show ?thesis by (auto simp: traverse_identity_graph_def Let_def traverse_levels_total)
  next
    case False
    then have "\<not> is_ok (neighbors g relationship direction i)" for i by (simp add: neighbors_total)
    with Some False show ?thesis by (simp add: traverse_identity_graph_def Let_def traverse_levels_stuck)
  qed
qed

lemma traverse_ok:
  assumes "traverse_identity_graph g a relationship direction (Some lim) = Inr r" "1 \<le> tl_nodes lim"
  shows "nbs.traversal_ok g relationship direction lim a r"
proof -
  obtain n where n: "index_node g a = Some n"
    and run: "traverse_levels lim (neighbors g relationship direction) a
      \<lparr>bf_visited = {gn_id n}, bf_ordered = [n], bf_next = []\<rparr> [n] 0 = Inr r"
    using assms(1) index_node_Some by (auto simp: traverse_identity_graph_def Let_def split: option.splits)
  from n have "gn_id n = a" by (simp add: index_node_Some)
  with assms(2) have "nbs.level_inv g relationship direction (tl_nodes lim) a
      \<lparr>bf_visited = {gn_id n}, bf_ordered = [n], bf_next = []\<rparr> [n] 0"
    by (auto simp: nbs.level_inv_def bfs_ok_def intro!: exI [of _ 1])
  from nbs.traverse_levels_ok [OF this _ _ run] show ?thesis by simp
qed

end
