(* ===== verification/GraphEvidenceFacts.thy ===== *)
theory GraphEvidenceFacts
  imports GraphEvidence GraphFacts "HOL-Library.Multiset"
begin

text \<open>
  The consistency check against a declarative notion of a valid graph, the builder as a container
  that keeps graphs valid, and the two projections over it.
\<close>

section \<open>Valid graphs\<close>

definition edge_fits :: "gnode set \<Rightarrow> gedge \<Rightarrow> bool" where
  "edge_fits N e \<longleftrightarrow> ge_provenance e \<noteq> []
     \<and> (ge_relationship e \<in> set observed_only \<longrightarrow> ge_state e = OBSERVED)
     \<and> (\<exists>s\<in>N. \<exists>t\<in>N. gn_id s = ge_source e \<and> gn_id t = ge_target e
          \<and> kinds_allowed (ge_relationship e) (gn_kind s) (gn_kind t))"

definition valid_graph :: "identity_graph \<Rightarrow> bool" where
  "valid_graph g \<longleftrightarrow> distinct (map gn_id (ig_nodes g)) \<and> (\<forall>n\<in>set (ig_nodes g). gn_provenance n \<noteq> [])
     \<and> distinct (map ge_id (ig_edges g)) \<and> (\<forall>e\<in>set (ig_edges g). edge_fits (set (ig_nodes g)) e)"

lemma edge_fits_mono: "edge_fits N e \<Longrightarrow> N \<subseteq> M \<Longrightarrow> edge_fits M e"
  unfolding edge_fits_def by blast

lemma by_id_distinct:
  assumes "distinct (map f xs)"
  shows "map_of (rev (map (\<lambda>x. (f x, x)) xs)) i = Some x \<longleftrightarrow> x \<in> set xs \<and> f x = i"
proof -
  have "distinct (map fst (rev (map (\<lambda>x. (f x, x)) xs)))"
    using assms by (simp add: comp_def rev_map [symmetric])
  from map_of_eq_Some_iff [OF this] show ?thesis by auto
qed

lemma by_id_None: "map_of (rev (map (\<lambda>x. (f x, x)) xs)) i = None \<longleftrightarrow> i \<notin> f ` set xs"
  by (force simp: map_of_eq_None_iff image_iff)

lemma nodes_by_id_Some:
  "distinct (map gn_id (ig_nodes g)) \<Longrightarrow> nodes_by_id g i = Some n \<longleftrightarrow> n \<in> set (ig_nodes g) \<and> gn_id n = i"
  unfolding nodes_by_id_def by (rule by_id_distinct)

lemma nodes_by_id_None: "nodes_by_id g i = None \<longleftrightarrow> i \<notin> ids (ig_nodes g)"
  unfolding nodes_by_id_def by (rule by_id_None)

lemma validate_relationship_Nil:
  "validate_relationship e sk tk = [] \<longleftrightarrow> kinds_allowed (ge_relationship e) sk tk
     \<and> (ge_relationship e \<in> set observed_only \<longrightarrow> ge_state e = OBSERVED)"
  by (simp add: validate_relationship_def)

lemma edge_fits_between:
  assumes "distinct (map gn_id (ig_nodes g))"
    and s: "nodes_by_id g (ge_source e) = Some s" and t: "nodes_by_id g (ge_target e) = Some t"
  shows "edge_fits (set (ig_nodes g)) e \<longleftrightarrow> ge_provenance e \<noteq> [] \<and> validate_relationship e (gn_kind s) (gn_kind t) = []"
proof -
  have s': "m \<in> set (ig_nodes g) \<and> gn_id m = ge_source e \<longleftrightarrow> m = s" for m
    using nodes_by_id_Some [OF assms(1), of "ge_source e" m] s by auto
  have t': "m \<in> set (ig_nodes g) \<and> gn_id m = ge_target e \<longleftrightarrow> m = t" for m
    using nodes_by_id_Some [OF assms(1), of "ge_target e" m] t by auto
  show ?thesis unfolding edge_fits_def validate_relationship_Nil using s' t' by metis
qed

lemma edge_fits_ends:
  "edge_fits (set (ig_nodes g)) e \<Longrightarrow> nodes_by_id g (ge_source e) \<noteq> None \<and> nodes_by_id g (ge_target e) \<noteq> None"
  unfolding edge_fits_def nodes_by_id_None by force

lemma edge_issues_Nil:
  assumes "distinct (map gn_id (ig_nodes g))"
  shows "edge_issues (nodes_by_id g) I e = [] \<longleftrightarrow> ge_id e \<notin> I \<and> edge_fits (set (ig_nodes g)) e"
proof (cases "nodes_by_id g (ge_source e) \<noteq> None \<and> nodes_by_id g (ge_target e) \<noteq> None")
  case True
  then obtain s t where st: "nodes_by_id g (ge_source e) = Some s" "nodes_by_id g (ge_target e) = Some t"
    by blast
  have "edge_issues (nodes_by_id g) I e = [] \<longleftrightarrow>
      ge_id e \<notin> I \<and> ge_provenance e \<noteq> [] \<and> validate_relationship e (gn_kind s) (gn_kind t) = []"
    by (simp add: edge_issues_def st)
  with edge_fits_between [OF assms st] show ?thesis by simp
next
  case False
  then have "edge_issues (nodes_by_id g) I e \<noteq> []" by (auto simp: edge_issues_def)
  with False edge_fits_ends show ?thesis by blast
qed

lemma all_edge_issues_Nil:
  assumes "distinct (map gn_id (ig_nodes g))"
  shows "all_edge_issues (nodes_by_id g) I es = [] \<longleftrightarrow>
    distinct (map ge_id es) \<and> ge_id ` set es \<inter> I = {} \<and> (\<forall>e\<in>set es. edge_fits (set (ig_nodes g)) e)"
  by (induction es arbitrary: I) (auto simp: edge_issues_Nil [OF assms])

lemma validate_Nil: "validate_identity_graph g = [] \<longleftrightarrow> valid_graph g"
proof -
  have "validate_identity_graph g = [] \<longleftrightarrow> distinct (map gn_id (ig_nodes g))
      \<and> concat (map node_issue (ig_nodes g)) = [] \<and> all_edge_issues (nodes_by_id g) {} (ig_edges g) = []"
  proof -
    have "length (remdups (map gn_id (ig_nodes g))) = length (ig_nodes g) \<longleftrightarrow> distinct (map gn_id (ig_nodes g))"
      using length_remdups_eq [of "map gn_id (ig_nodes g)"] remdups_id_iff_distinct by simp
    moreover have "sort_key issue_key xs = [] \<longleftrightarrow> xs = []" for xs
      using length_sort [of issue_key xs] by (metis length_0_conv)
    ultimately show ?thesis unfolding validate_identity_graph_def by simp
  qed
  then show ?thesis
    by (auto simp: all_edge_issues_Nil valid_graph_def node_issue_def)
qed

lemma valid_graph_perm:
  assumes "mset (ig_nodes g) = mset (ig_nodes g')" "mset (ig_edges g) = mset (ig_edges g')"
  shows "valid_graph g \<longleftrightarrow> valid_graph g'"
proof -
  have "mset (map gn_id (ig_nodes g)) = mset (map gn_id (ig_nodes g'))"
    "mset (map ge_id (ig_edges g)) = mset (map ge_id (ig_edges g'))" using assms by simp_all
  note distinct = this [THEN mset_eq_imp_distinct_iff]
  show ?thesis unfolding valid_graph_def mset_eq_setD [OF assms(1)] mset_eq_setD [OF assms(2)] distinct ..
qed

section \<open>The builder\<close>

definition built :: "graph_builder \<Rightarrow> identity_graph" where
  "built b = \<lparr>ig_nodes = map snd (gb_nodes b), ig_edges = map snd (gb_edges b)\<rparr>"

definition keyed :: "graph_builder \<Rightarrow> bool" where
  "keyed b \<longleftrightarrow> gb_nodes b = map (\<lambda>n. (gn_id n, n)) (ig_nodes (built b))
     \<and> gb_edges b = map (\<lambda>e. (ge_id e, e)) (ig_edges (built b))"

lemma mset_build_graph: "mset (ig_nodes (build_graph b)) = mset (ig_nodes (built b))"
  "mset (ig_edges (build_graph b)) = mset (ig_edges (built b))"
  by (simp_all add: build_graph_def built_def)

lemma set_build_graph: "set (ig_nodes (build_graph b)) = set (ig_nodes (built b))"
  "set (ig_edges (build_graph b)) = set (ig_edges (built b))"
  by (simp_all add: build_graph_def built_def)

lemma valid_build_graph: "valid_graph (build_graph b) \<longleftrightarrow> valid_graph (built b)"
  by (rule valid_graph_perm) (simp_all add: mset_build_graph)

lemma builder_init_built [simp]: "built (builder_init lim) = empty_graph" "keyed (builder_init lim)"
  by (simp_all add: builder_init_def built_def keyed_def empty_graph_def)

lemma add_node_built:
  assumes "add_node n b = Inr b'" "keyed b"
  shows "keyed b' \<and> ig_edges (built b') = ig_edges (built b) \<and> gb_limits b' = gb_limits b
    \<and> (b' = b \<and> n \<in> set (ig_nodes (built b))
       \<or> ig_nodes (built b') = ig_nodes (built b) @ [n] \<and> gn_id n \<notin> ids (ig_nodes (built b))
         \<and> length (ig_nodes (built b)) < bl_nodes (gb_limits b))"
proof (cases "map_of (gb_nodes b) (gn_id n)")
  case None
  then have "gn_id n \<notin> ids (ig_nodes (built b))"
    using assms(2) by (force simp: map_of_eq_None_iff keyed_def)
  with assms None show ?thesis
    by (auto simp: add_node_def req_Inr keyed_def built_def)
next
  case (Some m)
  then have "(gn_id n, m) \<in> set (gb_nodes b)" by (rule map_of_SomeD)
  then have "m \<in> set (ig_nodes (built b))" by (force simp: built_def)
  with assms Some show ?thesis by (auto simp: add_node_def req_Inr)
qed

lemma add_edge_built:
  assumes "add_edge e b = Inr b'" "keyed b"
  shows "keyed b' \<and> ig_nodes (built b') = ig_nodes (built b) \<and> gb_limits b' = gb_limits b
    \<and> {ge_source e, ge_target e} \<subseteq> ids (ig_nodes (built b))
    \<and> (b' = b \<and> e \<in> set (ig_edges (built b))
       \<or> ig_edges (built b') = ig_edges (built b) @ [e] \<and> ge_id e \<notin> ge_id ` set (ig_edges (built b))
         \<and> length (ig_edges (built b)) < bl_edges (gb_limits b))"
proof -
  have keys: "fst ` set (gb_nodes b) = ids (ig_nodes (built b))" using assms(2) by (force simp: keyed_def)
  show ?thesis
  proof (cases "map_of (gb_edges b) (ge_id e)")
    case None
    then have "ge_id e \<notin> ge_id ` set (ig_edges (built b))"
      using assms(2) by (force simp: map_of_eq_None_iff keyed_def)
    with assms None keys show ?thesis
      by (auto simp: add_edge_def req_Inr keyed_def built_def)
  next
    case (Some m)
    then have "(ge_id e, m) \<in> set (gb_edges b)" by (rule map_of_SomeD)
    then have "m \<in> set (ig_edges (built b))" by (force simp: built_def)
    with assms Some keys show ?thesis by (auto simp: add_edge_def req_Inr)
  qed
qed

definition valid_builder :: "graph_builder \<Rightarrow> bool" where
  "valid_builder b \<longleftrightarrow> keyed b \<and> valid_graph (built b)"

definition grows :: "graph_builder \<Rightarrow> graph_builder \<Rightarrow> bool" where
  "grows b b' \<longleftrightarrow> set (ig_nodes (built b)) \<subseteq> set (ig_nodes (built b'))
     \<and> set (ig_edges (built b)) \<subseteq> set (ig_edges (built b'))"

lemma grows_refl [simp]: "grows b b"
  by (simp add: grows_def)

lemma grows_trans: "grows a b \<Longrightarrow> grows b c \<Longrightarrow> grows a c"
  unfolding grows_def by blast

lemma add_node_valid:
  assumes "add_node n b = Inr b'" "valid_builder b" "gn_provenance n \<noteq> []"
  shows "valid_builder b' \<and> grows b b' \<and> set (ig_nodes (built b')) = insert n (set (ig_nodes (built b)))"
proof -
  have k: "keyed b" using assms(2) by (simp add: valid_builder_def)
  have nodes: "set (ig_nodes (built b')) = insert n (set (ig_nodes (built b)))"
    and edges: "ig_edges (built b') = ig_edges (built b)" using add_node_built [OF assms(1) k] by auto
  have "edge_fits (set (ig_nodes (built b'))) e" if "e \<in> set (ig_edges (built b))" for e
    using assms(2) that nodes by (auto simp: valid_builder_def valid_graph_def intro: edge_fits_mono)
  with add_node_built [OF assms(1) k] assms(2,3) nodes edges show ?thesis
    by (auto simp: valid_builder_def valid_graph_def grows_def)
qed

lemma add_edge_valid:
  assumes "add_edge e b = Inr b'" "valid_builder b" "edge_fits (set (ig_nodes (built b))) e"
  shows "valid_builder b' \<and> grows b b' \<and> ig_nodes (built b') = ig_nodes (built b)
    \<and> e \<in> set (ig_edges (built b'))"
  using add_edge_built [OF assms(1)] assms(2,3) by (auto simp: valid_builder_def valid_graph_def grows_def)

end
