(* ===== verification/GraphPathFacts.thy ===== *)
theory GraphPathFacts
  imports GraphFacts
begin

text \<open>
  The search for paths against the declarative notion of a simple directed path.  One round of the
  search appends children of the path it takes from the queue; what the children are is described
  once, by \<open>children\<close>, and the invariant of the search is proved over that description.
\<close>

section \<open>Simple paths\<close>

definition step_ok :: "identity_graph \<Rightarrow> string set \<Rightarrow> gnode \<Rightarrow> gedge \<Rightarrow> gnode \<Rightarrow> bool" where
  "step_ok g allowed m e n \<longleftrightarrow> e \<in> set (ig_edges g) \<and> (allowed = {} \<or> ge_relationship e \<in> allowed)
     \<and> ge_source e = gn_id m \<and> index_node g (ge_target e) = Some n"

definition simple_path :: "identity_graph \<Rightarrow> string set \<Rightarrow> gnode list \<Rightarrow> gedge list \<Rightarrow> bool" where
  "simple_path g allowed ns es \<longleftrightarrow> length ns = Suc (length es) \<and> distinct (map gn_id ns)
     \<and> (\<forall>i<length es. step_ok g allowed (ns ! i) (es ! i) (ns ! Suc i))"

definition path_between :: "identity_graph \<Rightarrow> string set \<Rightarrow> string \<Rightarrow> string \<Rightarrow> gpath \<Rightarrow> bool" where
  "path_between g allowed start target p \<longleftrightarrow> simple_path g allowed (gp_nodes p) (gp_edges p)
     \<and> index_node g start = Some (hd (gp_nodes p)) \<and> gn_id (last (gp_nodes p)) = target"

lemma simple_path_single [simp]: "simple_path g allowed [n] []"
  by (simp add: simple_path_def)

lemma simple_path_nonempty: "simple_path g allowed ns es \<Longrightarrow> ns \<noteq> []"
  by (auto simp: simple_path_def)

lemma simple_path_snoc:
  assumes "ns \<noteq> []"
  shows "simple_path g allowed (ns @ [n]) (es @ [e]) \<longleftrightarrow>
    simple_path g allowed ns es \<and> step_ok g allowed (last ns) e n \<and> gn_id n \<notin> ids ns"
proof (cases "length ns = Suc (length es)")
  case True
  have "(\<forall>i<Suc (length es). step_ok g allowed ((ns @ [n]) ! i) ((es @ [e]) ! i) ((ns @ [n]) ! Suc i)) \<longleftrightarrow>
    (\<forall>i<length es. step_ok g allowed (ns ! i) (es ! i) (ns ! Suc i)) \<and> step_ok g allowed (last ns) e n"
  proof -
    have "step_ok g allowed ((ns @ [n]) ! i) ((es @ [e]) ! i) ((ns @ [n]) ! Suc i)
        = step_ok g allowed (ns ! i) (es ! i) (ns ! Suc i)" if "i < length es" for i
      using that True by (simp add: nth_append)
    moreover have "(ns @ [n]) ! length es = last ns" "(es @ [e]) ! length es = e" "(ns @ [n]) ! Suc (length es) = n"
      using True assms by (simp_all add: nth_append last_conv_nth)
    ultimately show ?thesis by (simp only: All_less_Suc) metis
  qed
  moreover have "distinct (map gn_id (ns @ [n])) \<longleftrightarrow> distinct (map gn_id ns) \<and> gn_id n \<notin> ids ns" by auto
  ultimately show ?thesis using True unfolding simple_path_def length_append_singleton by blast
next
  case False
  then show ?thesis by (simp add: simple_path_def)
qed

lemma simple_path_take:
  assumes "simple_path g allowed ns es" "k \<le> length es"
  shows "simple_path g allowed (take (Suc k) ns) (take k es)"
  unfolding simple_path_def
proof (intro conjI allI impI)
  have len: "length ns = Suc (length es)" and "distinct (map gn_id ns)"
    and step: "\<And>i. i < length es \<Longrightarrow> step_ok g allowed (ns ! i) (es ! i) (ns ! Suc i)"
    using assms(1) unfolding simple_path_def by blast+
  show "length (take (Suc k) ns) = Suc (length (take k es))" using len assms(2) by simp
  show "distinct (map gn_id (take (Suc k) ns))"
    using \<open>distinct (map gn_id ns)\<close> unfolding take_map [symmetric] by (rule distinct_take)
  fix i assume "i < length (take k es)"
  then have i: "i < k" "i < length es" by simp_all
  then have "Suc i < Suc k" "i < Suc k" by simp_all
  with step [OF i(2)] i(1) show "step_ok g allowed (take (Suc k) ns ! i) (take k es ! i) (take (Suc k) ns ! Suc i)"
    by (simp only: nth_take)
qed

lemma simple_path_child:
  assumes p: "simple_path g allowed ns es" and k: "k < length es"
  shows "step_ok g allowed (last (take (Suc k) ns)) (es ! k) (ns ! Suc k)"
    "gn_id (ns ! Suc k) \<notin> ids (take (Suc k) ns)"
    "take (Suc (Suc k)) ns = take (Suc k) ns @ [ns ! Suc k]" "take (Suc k) es = take k es @ [es ! k]"
proof -
  have len: "Suc k < length ns" using p k by (simp add: simple_path_def)
  then show t: "take (Suc (Suc k)) ns = take (Suc k) ns @ [ns ! Suc k]" "take (Suc k) es = take k es @ [es ! k]"
    using k by (simp_all add: take_Suc_conv_app_nth)
  have "simple_path g allowed (take (Suc (Suc k)) ns) (take (Suc k) es)"
    using p k by (intro simple_path_take) auto
  moreover have "take (Suc k) ns \<noteq> []" using len by (cases ns) auto
  ultimately show "step_ok g allowed (last (take (Suc k) ns)) (es ! k) (ns ! Suc k)"
    "gn_id (ns ! Suc k) \<notin> ids (take (Suc k) ns)"
    unfolding t by (simp_all add: simple_path_snoc)
qed

section \<open>One round of the search\<close>

fun child_of :: "identity_graph \<Rightarrow> string set \<Rightarrow> gnode list \<Rightarrow> gedge list \<Rightarrow> gedge \<Rightarrow> (gnode list \<times> gedge list) list" where
  "child_of g allowed nodes edges e =
     (if allowed \<noteq> {} \<and> ge_relationship e \<notin> allowed then []
      else case index_node g (ge_target e) of
        None \<Rightarrow> []
      | Some n \<Rightarrow> if gn_id n \<in> ids nodes then [] else [(nodes @ [n], edges @ [e])])"

definition children ::
  "identity_graph \<Rightarrow> string set \<Rightarrow> gnode list \<Rightarrow> gedge list \<Rightarrow> gedge list \<Rightarrow> (gnode list \<times> gedge list) list" where
  "children g allowed nodes edges es = concat (map (child_of g allowed nodes edges) es)"

lemma children_simps [simp]:
  "children g allowed nodes edges [] = []"
  "children g allowed nodes edges (e # es) = child_of g allowed nodes edges e @ children g allowed nodes edges es"
  by (simp_all add: children_def)

abbreviation at_target :: "string \<Rightarrow> gnode list \<times> gedge list \<Rightarrow> bool" where
  "at_target t c \<equiv> gn_id (last (fst c)) = t"

definition pair_of :: "gpath \<Rightarrow> gnode list \<times> gedge list" where
  "pair_of p = (gp_nodes p, gp_edges p)"

lemma set_child_of:
  "c \<in> set (child_of g allowed nodes edges e) \<longleftrightarrow> (\<exists>n. c = (nodes @ [n], edges @ [e])
     \<and> index_node g (ge_target e) = Some n \<and> (allowed = {} \<or> ge_relationship e \<in> allowed) \<and> gn_id n \<notin> ids nodes)"
  by (cases "index_node g (ge_target e)") auto

declare child_of.simps [simp del]

lemma set_children:
  assumes "nodes \<noteq> []"
  shows "c \<in> set (children g allowed nodes edges (outgoing_edges g [] (gn_id (last nodes)))) \<longleftrightarrow>
    (\<exists>n e. c = (nodes @ [n], edges @ [e]) \<and> step_ok g allowed (last nodes) e n \<and> gn_id n \<notin> ids nodes)"
  by (auto simp: children_def set_child_of step_ok_def outgoing_edges_def lower_def strip_def lstrip_def)

lemma children_edges:
  "map snd (children g allowed nodes edges es) =
     map (\<lambda>e. edges @ [e]) (filter (\<lambda>e. child_of g allowed nodes edges e \<noteq> []) es)"
  by (induction es) (auto simp: child_of.simps split: option.splits)

lemma distinct_children:
  "distinct es \<Longrightarrow> distinct (map snd (children g allowed nodes edges es))"
  by (simp add: children_edges distinct_map inj_on_def)

text \<open>What a round that turned the state \<open>s\<close> into \<open>s'\<close> has added, given the children \<open>cs\<close>.\<close>

definition round_adds ::
  "path_limits \<Rightarrow> string \<Rightarrow> nat \<Rightarrow> (gnode list \<times> gedge list) list \<Rightarrow> path_search \<Rightarrow> path_search \<Rightarrow> bool
     \<Rightarrow> (gnode list \<times> gedge list) list \<Rightarrow> gpath list \<Rightarrow> bool" where
  "round_adds lim t hops cs s s' returned qs ps \<longleftrightarrow>
     ps_queue s' = ps_queue s @ qs \<and> ps_paths s' = ps_paths s @ ps
     \<and> subseq qs (filter (\<lambda>c. \<not> at_target t c) cs) \<and> subseq (map pair_of ps) (filter (at_target t) cs)
     \<and> (ps_truncated s \<longrightarrow> ps_truncated s') \<and> (returned \<longrightarrow> ps_truncated s')
     \<and> (\<not> ps_truncated s' \<longrightarrow> qs = filter (\<lambda>c. \<not> at_target t c) cs \<and> map pair_of ps = filter (at_target t) cs)
     \<and> (length (ps_paths s) \<le> pl_paths lim \<longrightarrow> length (ps_paths s') \<le> pl_paths lim)
     \<and> (qs \<noteq> [] \<or> ps \<noteq> [] \<longrightarrow> hops < pl_depth lim)"

lemma round_adds_done:
  "returned \<longrightarrow> ps_truncated s \<Longrightarrow> round_adds lim t hops [] s s returned [] []"
  by (simp add: round_adds_def)

lemma round_adds_stop: "round_adds lim t hops cs s (s\<lparr>ps_truncated := True\<rparr>) True [] []"
  by (simp add: round_adds_def)

lemma round_adds_drop:
  "round_adds lim t hops cs (s\<lparr>ps_truncated := True\<rparr>) s' returned qs ps \<Longrightarrow>
   round_adds lim t hops (c # cs) s s' returned qs ps"
  by (auto simp: round_adds_def intro: list_emb_Cons)

lemma round_adds_path:
  assumes "round_adds lim t hops cs (s\<lparr>ps_paths := ps_paths s @ [p]\<rparr>) s' returned qs ps"
    "at_target t (pair_of p)" "hops < pl_depth lim" "length (ps_paths s) < pl_paths lim"
  shows "round_adds lim t hops (pair_of p # cs) s s' returned qs (p # ps)"
  using assms unfolding round_adds_def by auto

lemma round_adds_queue:
  assumes "round_adds lim t hops cs (s\<lparr>ps_queue := ps_queue s @ [c]\<rparr>) s' returned qs ps"
    "\<not> at_target t c" "hops < pl_depth lim"
  shows "round_adds lim t hops (c # cs) s s' returned (c # qs) ps"
  using assms unfolding round_adds_def by auto

lemma expand_edges_spec:
  assumes "expand_edges g lim allowed target expanded nodes edges es s = (s', returned)"
  shows "\<exists>qs ps. round_adds lim target (length edges) (children g allowed nodes edges es) s s' returned qs ps"
  using assms
proof (induction es arbitrary: s)
  case Nil
  then show ?case using round_adds_done by fastforce
next
  case (Cons e es)
  let ?go = "expand_edges g lim allowed target expanded nodes edges es"
  show ?case
  proof (cases "child_of g allowed nodes edges e")
    case Nil
    then have "?go s = (s', returned)"
      using Cons.prems by (auto simp: list_ex_iff child_of.simps image_iff split: option.splits if_splits)
    from Cons.IH [OF this] Nil show ?thesis by simp
  next
    case (Cons c rest)
    then obtain n where n: "index_node g (ge_target e) = Some n" "gn_id n \<notin> ids nodes"
      and rel: "\<not> (allowed \<noteq> {} \<and> ge_relationship e \<notin> allowed)"
      and c: "child_of g allowed nodes edges e = [(nodes @ [n], edges @ [e])]"
      by (auto simp: child_of.simps split: option.splits if_splits)
    have no_rep: "\<not> list_ex (\<lambda>m. gn_id m = gn_id n) nodes" using n(2) by (auto simp: list_ex_iff image_iff)
    let ?c = "(nodes @ [n], edges @ [e])" and ?p = "\<lparr>gp_nodes = nodes @ [n], gp_edges = edges @ [e]\<rparr>"
    have p: "pair_of ?p = ?c" by (simp add: pair_of_def)
    note step = Cons.prems [unfolded expand_edges.simps if_not_P [OF rel] n(1) option.case if_not_P [OF no_rep]]
    consider (stop) "length edges < pl_depth lim" "gn_id n = target" "pl_paths lim \<le> length (ps_paths s)"
      | (found) "length edges < pl_depth lim" "gn_id n = target" "length (ps_paths s) < pl_paths lim"
      | (queued) "length edges < pl_depth lim" "gn_id n \<noteq> target" "expanded + length (ps_queue s) < pl_expansions lim"
      | (dropped) "pl_depth lim \<le> length edges
          \<or> gn_id n \<noteq> target \<and> pl_expansions lim \<le> expanded + length (ps_queue s)"
      by linarith
    then show ?thesis
    proof cases
      case stop
      then show ?thesis using step round_adds_stop by fastforce
    next
      case found
      then have "?go (s\<lparr>ps_paths := ps_paths s @ [?p]\<rparr>) = (s', returned)" using step by simp
      from Cons.IH [OF this] found show ?thesis unfolding children_simps c append_Cons append_Nil p [symmetric]
        by (elim exE) (rule exI, rule exI, erule round_adds_path, simp_all add: p)
    next
      case queued
      then have "?go (s\<lparr>ps_queue := ps_queue s @ [?c]\<rparr>) = (s', returned)" using step by simp
      from Cons.IH [OF this] queued show ?thesis unfolding children_simps c append_Cons append_Nil
        by (elim exE) (rule exI, rule exI, erule round_adds_queue, simp_all)
    next
      case dropped
      then have "?go (s\<lparr>ps_truncated := True\<rparr>) = (s', returned)" using step by (auto split: if_splits)
      from Cons.IH [OF this] show ?thesis unfolding children_simps c append_Cons append_Nil
        by (elim exE) (rule exI, rule exI, erule round_adds_drop)
    qed
  qed
qed

end
