(* ===== verification/GraphPathSearch.thy ===== *)
theory GraphPathSearch
  imports GraphPathFacts
begin

text \<open>
  The invariant of the path search, one conjunct at a time: what is queued and found is sound, what
  is not found yet has a queued prefix, hop counts never go down, and nothing is found twice.
\<close>

abbreviation hops :: "gnode list \<times> gedge list \<Rightarrow> nat" where
  "hops c \<equiv> length (snd c)"

abbreviation found_paths :: "path_search \<Rightarrow> (gnode list \<times> gedge list) list" where
  "found_paths s \<equiv> map pair_of (ps_paths s)"

definition full_path :: "identity_graph \<Rightarrow> string set \<Rightarrow> gnode \<Rightarrow> string \<Rightarrow> gnode list \<times> gedge list \<Rightarrow> bool" where
  "full_path g allowed s0 t c \<longleftrightarrow> simple_path g allowed (fst c) (snd c) \<and> hd (fst c) = s0 \<and> at_target t c"

definition open_path :: "identity_graph \<Rightarrow> string set \<Rightarrow> gnode \<Rightarrow> string \<Rightarrow> gnode list \<times> gedge list \<Rightarrow> bool" where
  "open_path g allowed s0 t c \<longleftrightarrow> simple_path g allowed (fst c) (snd c) \<and> hd (fst c) = s0 \<and> t \<notin> ids (fst c)"

definition search_sound :: "identity_graph \<Rightarrow> path_limits \<Rightarrow> string set \<Rightarrow> gnode \<Rightarrow> string \<Rightarrow> path_search \<Rightarrow> bool" where
  "search_sound g lim allowed s0 t s \<longleftrightarrow>
     (\<forall>c\<in>set (ps_queue s). open_path g allowed s0 t c)
     \<and> (\<forall>c\<in>set (found_paths s). full_path g allowed s0 t c \<and> hops c \<le> pl_depth lim)
     \<and> length (ps_paths s) \<le> pl_paths lim"

definition search_complete :: "identity_graph \<Rightarrow> string set \<Rightarrow> gnode \<Rightarrow> string \<Rightarrow> path_search \<Rightarrow> bool" where
  "search_complete g allowed s0 t s \<longleftrightarrow> ps_truncated s \<or>
     (\<forall>c. full_path g allowed s0 t c \<longrightarrow> c \<in> set (found_paths s)
        \<or> (\<exists>k<hops c. (take (Suc k) (fst c), take k (snd c)) \<in> set (ps_queue s)))"

definition search_ordered :: "path_search \<Rightarrow> bool" where
  "search_ordered s \<longleftrightarrow> sorted (map hops (ps_queue s)) \<and> sorted (map hops (found_paths s))
     \<and> (\<forall>x\<in>set (ps_queue s) \<union> set (found_paths s). \<forall>y\<in>set (ps_queue s). hops x \<le> Suc (hops y))"

definition antichain :: "'a list list \<Rightarrow> bool" where
  "antichain L \<longleftrightarrow> distinct L \<and> (\<forall>x\<in>set L. \<forall>y\<in>set L. prefix x y \<longrightarrow> x = y)"

definition search_distinct :: "path_search \<Rightarrow> bool" where
  "search_distinct s \<longleftrightarrow> antichain (map snd (ps_queue s @ found_paths s))"

lemma antichain_Cons:
  "antichain (x # L) \<longleftrightarrow> antichain L \<and> (\<forall>y\<in>set L. \<not> prefix y x \<and> \<not> prefix x y)"
  unfolding antichain_def list.set(2) distinct.simps by blast

lemma antichain_append:
  assumes "antichain K" "antichain M" "\<And>x y. x \<in> set K \<Longrightarrow> y \<in> set M \<Longrightarrow> \<not> prefix x y \<and> \<not> prefix y x"
  shows "antichain (K @ M)"
proof -
  have "set K \<inter> set M = {}" using assms(3) prefix_order.refl by blast
  with assms show ?thesis unfolding antichain_def set_append distinct_append by blast
qed

lemma antichain_cong: "antichain L \<Longrightarrow> set L' = set L \<Longrightarrow> length L' = length L \<Longrightarrow> antichain L'"
  unfolding antichain_def by (metis card_distinct distinct_card)

lemma prefix_snoc_eq: "prefix (xs @ [x]) (xs @ [y]) \<Longrightarrow> xs @ [x] = xs @ [y]"
  by simp

lemma subseq_set: "subseq xs ys \<Longrightarrow> set xs \<subseteq> set ys"
  by (induction rule: list_emb.induct) auto

lemma subseq_distinct: "subseq xs ys \<Longrightarrow> distinct ys \<Longrightarrow> distinct xs"
  by (induction rule: list_emb.induct) (auto dest: subseq_set)

lemma sorted_const: "(\<And>c. c \<in> set xs \<Longrightarrow> f c = k) \<Longrightarrow> sorted (map f xs)"
  by (induction xs) auto

text \<open>
  What the search asks of one round, whatever function performs it: that it appends children of the
  path it is given.  \<open>taken s s' returned nodes edges rest qs ps\<close> is a round on the head of the queue.
\<close>

locale expansion =
  fixes g :: identity_graph and lim :: path_limits and allowed :: "string set" and s0 :: gnode
    and t :: string and expand :: "gnode list \<Rightarrow> gedge list \<Rightarrow> path_search \<Rightarrow> path_search \<times> bool"
  assumes expand_adds: "expand nodes edges s = (s', returned) \<Longrightarrow>
    \<exists>qs ps. round_adds lim t (length edges)
      (children g allowed nodes edges (outgoing_edges g [] (gn_id (last nodes)))) s s' returned qs ps"
begin

definition taken :: "path_search \<Rightarrow> path_search \<Rightarrow> bool \<Rightarrow> gnode list \<Rightarrow> gedge list
    \<Rightarrow> (gnode list \<times> gedge list) list \<Rightarrow> (gnode list \<times> gedge list) list \<Rightarrow> gpath list \<Rightarrow> bool" where
  "taken s s' returned nodes edges rest qs ps \<longleftrightarrow> ps_queue s = (nodes, edges) # rest
     \<and> round_adds lim t (length edges)
         (children g allowed nodes edges (outgoing_edges g [] (gn_id (last nodes)))) (s\<lparr>ps_queue := rest\<rparr>) s' returned qs ps
     \<and> search_sound g lim allowed s0 t s"

abbreviation kids :: "gnode list \<Rightarrow> gedge list \<Rightarrow> (gnode list \<times> gedge list) list" where
  "kids nodes edges \<equiv> children g allowed nodes edges (outgoing_edges g [] (gn_id (last nodes)))"

lemma takenD:
  assumes "taken s s' returned nodes edges rest qs ps"
  shows "ps_queue s = (nodes, edges) # rest"
    "round_adds lim t (length edges) (kids nodes edges) (s\<lparr>ps_queue := rest\<rparr>) s' returned qs ps"
    "search_sound g lim allowed s0 t s"
  using assms by (simp_all add: taken_def)

lemma after:
  assumes R: "taken s s' returned nodes edges rest qs ps"
  shows "ps_queue s' = rest @ qs" "ps_paths s' = ps_paths s @ ps"
  using takenD(2) [OF R] by (simp_all add: round_adds_def)

lemma head_open:
  assumes R: "taken s s' returned nodes edges rest qs ps"
  shows "open_path g allowed s0 t (nodes, edges)"
  using takenD(3) [OF R] takenD(1) [OF R] by (simp add: search_sound_def)

lemma nodes_nonempty:
  assumes R: "taken s s' returned nodes edges rest qs ps"
  shows "nodes \<noteq> []"
  using head_open [OF R] simple_path_nonempty by (auto simp: open_path_def)

lemma kid_iff:
  assumes R: "taken s s' returned nodes edges rest qs ps"
  shows "c \<in> set (kids nodes edges) \<longleftrightarrow>
    (\<exists>n e. c = (nodes @ [n], edges @ [e]) \<and> step_ok g allowed (last nodes) e n \<and> gn_id n \<notin> ids nodes)"
  by (rule set_children [OF nodes_nonempty [OF R]])

lemma new_queued:
  assumes R: "taken s s' returned nodes edges rest qs ps"
  shows "c \<in> set qs \<Longrightarrow> c \<in> set (kids nodes edges) \<and> \<not> at_target t c"
  using takenD(2) [OF R] subseq_set [of qs] unfolding round_adds_def by fastforce

lemma new_found:
  assumes R: "taken s s' returned nodes edges rest qs ps"
  shows "c \<in> set (map pair_of ps) \<Longrightarrow> c \<in> set (kids nodes edges) \<and> at_target t c"
  using takenD(2) [OF R] subseq_set [of "map pair_of ps"] unfolding round_adds_def by fastforce

lemma kid_hops:
  assumes R: "taken s s' returned nodes edges rest qs ps"
  shows "c \<in> set (kids nodes edges) \<Longrightarrow> hops c = Suc (length edges)"
  by (auto simp: kid_iff [OF R])

lemma kid_path:
  assumes R: "taken s s' returned nodes edges rest qs ps"
  shows "c \<in> set (kids nodes edges) \<Longrightarrow> simple_path g allowed (fst c) (snd c) \<and> hd (fst c) = s0"
  using head_open [OF R] nodes_nonempty [OF R] by (auto simp: kid_iff [OF R] open_path_def simple_path_snoc)

lemma sound_after:
  assumes R: "taken s s' returned nodes edges rest qs ps"
  shows "search_sound g lim allowed s0 t s'"
proof -
  have "open_path g allowed s0 t c" if "c \<in> set (rest @ qs)" for c
  proof (cases "c \<in> set qs")
    case True
    note new = new_queued [OF R True]
    then obtain n e where c: "c = (nodes @ [n], edges @ [e])" using kid_iff [OF R] by blast
    have "simple_path g allowed (fst c) (snd c)" "hd (fst c) = s0" using kid_path [OF R] new by simp_all
    moreover have "gn_id n \<noteq> t" "t \<notin> ids nodes" using new head_open [OF R] c by (simp_all add: open_path_def)
    ultimately show ?thesis unfolding open_path_def c by simp
  next
    case False
    with that takenD(3) [OF R] takenD(1) [OF R] show ?thesis by (simp add: search_sound_def)
  qed
  moreover have "full_path g allowed s0 t c \<and> hops c \<le> pl_depth lim" if c: "c \<in> set (map pair_of ps)" for c
  proof -
    from c have "ps \<noteq> []" by auto
    with takenD(2) [OF R] have "length edges < pl_depth lim" by (simp add: round_adds_def)
    with new_found [OF R c] kid_path [OF R] kid_hops [OF R] show ?thesis by (simp add: full_path_def)
  qed
  moreover have "length (ps_paths s') \<le> pl_paths lim"
    using takenD(2) [OF R] takenD(3) [OF R] unfolding round_adds_def search_sound_def by auto
  ultimately show ?thesis using takenD(3) [OF R] unfolding search_sound_def after [OF R] map_append set_append by blast
qed

lemma complete_after:
  assumes R: "taken s s' returned nodes edges rest qs ps" and "search_complete g allowed s0 t s"
  shows "search_complete g allowed s0 t s'"
proof (cases "ps_truncated s'")
  case False
  with takenD(2) [OF R] have qs: "qs = filter (\<lambda>c. \<not> at_target t c) (kids nodes edges)" and ps: "map pair_of ps = filter (at_target t) (kids nodes edges)"
    and before: "\<not> ps_truncated s" by (auto simp: round_adds_def)
  have "c \<in> set (found_paths s') \<or> (\<exists>k<hops c. (take (Suc k) (fst c), take k (snd c)) \<in> set (ps_queue s'))"
    if full: "full_path g allowed s0 t c" for c
  proof -
    from full have path: "simple_path g allowed (fst c) (snd c)" and at: "at_target t c" by (auto simp: full_path_def)
    have len: "length (fst c) = Suc (hops c)" and dist: "distinct (map gn_id (fst c))"
      using path by (simp_all add: simple_path_def)
    from assms before full consider (found) "c \<in> set (found_paths s)"
      | (queued) k where "k < hops c" "(take (Suc k) (fst c), take k (snd c)) \<in> set (ps_queue s)"
      unfolding search_complete_def by blast
    then show ?thesis
    proof cases
      case found
      then show ?thesis by (auto simp: after [OF R])
    next
      case (queued k)
      show ?thesis
      proof (cases "(take (Suc k) (fst c), take k (snd c)) = (nodes, edges)")
        case False
        with queued takenD(1) [OF R] show ?thesis by (auto simp: after [OF R])
      next
        case True
        let ?c = "(take (Suc (Suc k)) (fst c), take (Suc k) (snd c))"
        from True simple_path_child [OF path queued(1)] have kid: "?c \<in> set (kids nodes edges)" by (auto simp: kid_iff [OF R])
        show ?thesis
        proof (cases "Suc k = hops c")
          case True
          then have "?c = c" using len by (cases c) simp
          with kid at ps show ?thesis by (auto simp: after [OF R])
        next
          case False
          then have k: "Suc k < hops c" using queued(1) by simp
          have "last (take (Suc (Suc k)) (fst c)) = fst c ! Suc k"
            using simple_path_child(3) [OF path queued(1)] by simp
          moreover have "gn_id (fst c ! Suc k) \<noteq> gn_id (fst c ! hops c)"
            using dist k len nth_eq_iff_index_eq [OF dist, of "Suc k" "hops c"] by simp
          moreover have "last (fst c) = fst c ! hops c" using len by (metis diff_Suc_1 last_conv_nth list.size(3) nat.distinct(1))
          ultimately have "\<not> at_target t ?c" using at by simp
          with kid qs k show ?thesis by (intro disjI2 exI [of _ "Suc k"]) (auto simp: after [OF R])
        qed
      qed
    qed
  qed
  then show ?thesis by (simp add: search_complete_def)
qed (simp add: search_complete_def)

lemma ordered_after:
  assumes R: "taken s s' returned nodes edges rest qs ps" and "search_ordered s"
  shows "search_ordered s'"
proof -
  let ?l = "length edges"
  have q: "hops c = Suc ?l" if "c \<in> set qs" for c using that new_queued [OF R] kid_hops [OF R] by blast
  have p: "hops c = Suc ?l" if "c \<in> set (map pair_of ps)" for c using that new_found [OF R] kid_hops [OF R] by blast
  have old: "\<forall>x\<in>set rest \<union> set (found_paths s). hops x \<le> Suc ?l" "\<forall>x\<in>set rest. ?l \<le> hops x"
    "sorted (map hops rest)" "sorted (map hops (found_paths s))"
    using assms by (auto simp: search_ordered_def takenD(1) [OF R])
  have "sorted (map hops qs)" "sorted (map hops (map pair_of ps))"
    using sorted_const [of qs hops, OF q] sorted_const [of "map pair_of ps" hops, OF p] by simp_all
  with old q p have "sorted (map hops (rest @ qs))" "sorted (map hops (found_paths s @ map pair_of ps))"
    unfolding map_append sorted_append by auto
  moreover have "hops x \<le> Suc ?l" if "x \<in> set (rest @ qs) \<union> set (found_paths s @ map pair_of ps)" for x
    using that old(1) q [of x] p [of x] by auto
  moreover have "?l \<le> hops y" if "y \<in> set (rest @ qs)" for y using that old(2) q [of y] by auto
  ultimately show ?thesis unfolding search_ordered_def after [OF R] map_append [symmetric]
    by (meson Suc_le_mono le_trans)
qed

lemma distinct_after:
  assumes R: "taken s s' returned nodes edges rest qs ps" and "distinct (ig_edges g)" "search_distinct s"
  shows "search_distinct s'"
proof -
  let ?K = "map snd (qs @ map pair_of ps)" and ?M = "map snd (rest @ found_paths s)"
  from assms(3) have "antichain (edges # ?M)" unfolding search_distinct_def takenD(1) [OF R] append_Cons list.map(2) snd_conv .
  then have M: "antichain ?M" and fresh: "\<And>x. x \<in> set ?M \<Longrightarrow> \<not> prefix x edges \<and> \<not> prefix edges x"
    unfolding antichain_Cons by blast+
  have "distinct (outgoing_edges g [] (gn_id (last nodes)))"
    using assms(2) by (simp add: outgoing_edges_def Let_def)
  then have inj: "distinct (kids nodes edges)" "inj_on snd (set (kids nodes edges))"
    using distinct_children by (auto simp: distinct_map)
  have "distinct qs" "distinct (map pair_of ps)"
    using takenD(2) [OF R] inj(1) unfolding round_adds_def by (meson distinct_filter subseq_distinct)+
  moreover have "set qs \<inter> set (map pair_of ps) = {}" using new_queued [OF R] new_found [OF R] by blast
  ultimately have "distinct (qs @ map pair_of ps)" by (simp only: distinct_append simp_thms)
  moreover have sub: "set (qs @ map pair_of ps) \<subseteq> set (kids nodes edges)"
    unfolding set_append using new_queued [OF R] new_found [OF R] by blast
  ultimately have K: "distinct ?K"
    unfolding distinct_map [of snd] by (intro conjI inj_on_subset [OF inj(2)])
  have form: "\<exists>e. x = edges @ [e]" if "x \<in> set ?K" for x
  proof -
    from that obtain c where "c \<in> set (qs @ map pair_of ps)" "x = snd c" unfolding list.set_map by blast
    with sub kid_iff [OF R, of c] show ?thesis by auto
  qed
  have apart: "\<not> prefix x y \<and> \<not> prefix y x" if x: "x \<in> set ?K" and y: "y \<in> set ?M" for x y
  proof -
    obtain e where "x = edges @ [e]" using form [OF x] ..
    with fresh [OF y] show ?thesis by (metis append_prefixD prefix_order.refl prefix_snoc)
  qed
  have "antichain ?K" unfolding antichain_def using K form by (metis prefix_snoc_eq)
  with M apart have "antichain (?K @ ?M)" by (intro antichain_append) auto
  moreover have "set (map snd (ps_queue s' @ found_paths s')) = set (?K @ ?M)" by (auto simp: after [OF R])
  moreover have "length (map snd (ps_queue s' @ found_paths s')) = length (?K @ ?M)" by (simp add: after [OF R])
  ultimately show ?thesis unfolding search_distinct_def by (metis antichain_cong)
qed

end

section \<open>The whole search\<close>

definition search_inv :: "identity_graph \<Rightarrow> path_limits \<Rightarrow> string set \<Rightarrow> gnode \<Rightarrow> string \<Rightarrow> path_search \<Rightarrow> bool" where
  "search_inv g lim allowed s0 t s \<longleftrightarrow> search_sound g lim allowed s0 t s
     \<and> search_complete g allowed s0 t s \<and> search_ordered s \<and> (distinct (ig_edges g) \<longrightarrow> search_distinct s)"

lemma search_inv_truncated:
  "search_inv g lim allowed s0 t s \<Longrightarrow> search_inv g lim allowed s0 t (s\<lparr>ps_truncated := True\<rparr>)"
  by (simp add: search_inv_def search_sound_def search_complete_def search_ordered_def search_distinct_def)

context expansion
begin

lemma search_round_inv:
  assumes inv: "search_inv g lim allowed s0 t s" and q: "ps_queue s = (nodes, edges) # rest"
    and run: "expand nodes edges (s\<lparr>ps_queue := rest\<rparr>) = (s', returned)"
  shows "search_inv g lim allowed s0 t s' \<and> (returned \<longrightarrow> ps_truncated s')"
proof -
  from expand_adds [OF run] inv q obtain qs ps where R: "taken s s' returned nodes edges rest qs ps"
    unfolding taken_def search_inv_def by blast
  with inv sound_after [OF R] complete_after [OF R] ordered_after [OF R] distinct_after [OF R]
  show ?thesis by (auto simp: search_inv_def taken_def round_adds_def)
qed

end

text \<open>The rounds of the code keep the contract.\<close>

interpretation rounds: expansion g lim allowed s0 t
    "\<lambda>nodes edges. expand_edges g lim allowed t x nodes edges (outgoing_edges g [] (gn_id (last nodes)))"
  for g lim allowed s0 t x
  by unfold_locales (rule expand_edges_spec)

lemma search_paths_inv:
  assumes "search_inv g lim allowed s0 t s"
  shows "search_inv g lim allowed s0 t (search_paths g lim allowed t x s)
    \<and> (ps_truncated (search_paths g lim allowed t x s) \<or> ps_queue (search_paths g lim allowed t x s) = [])"
  using assms
proof (induction "pl_expansions lim - x" arbitrary: x s rule: less_induct)
  case less
  show ?case
  proof (cases "ps_queue s")
    case Nil
    then show ?thesis using less.prems by (simp add: search_paths.simps [of g lim allowed t x s])
  next
    case (Cons c rest)
    obtain nodes edges where c: "c = (nodes, edges)" by (cases c)
    note q = Cons [unfolded c]
    show ?thesis
    proof (cases "pl_expansions lim \<le> x")
      case True
      then show ?thesis using q less.prems
        by (simp add: search_paths.simps [of g lim allowed t x s] search_inv_truncated)
    next
      case False
      obtain s' returned where run: "expand_edges g lim allowed t (x + 1) nodes edges
          (outgoing_edges g [] (gn_id (last nodes))) (s\<lparr>ps_queue := rest\<rparr>) = (s', returned)"
        by (meson surj_pair)
      have eq: "search_paths g lim allowed t x s = (if returned then s' else search_paths g lim allowed t (x + 1) s')"
        using False q run by (subst search_paths.simps) simp
      note round = rounds.search_round_inv [OF less.prems q run]
      show ?thesis
      proof (cases returned)
        case True
        then show ?thesis using round eq by simp
      next
        case going_on: False
        have "pl_expansions lim - (x + 1) < pl_expansions lim - x" using False by simp
        from less.hyps [OF this, of s'] round going_on eq show ?thesis by simp
      qed
    qed
  qed
qed

text \<open>A result, in terms of the paths between the two nodes.\<close>

definition paths_ok ::
  "identity_graph \<Rightarrow> path_limits \<Rightarrow> string set \<Rightarrow> string \<Rightarrow> string \<Rightarrow> path_result \<Rightarrow> bool" where
  "paths_ok g lim allowed a t r \<longleftrightarrow> pr_start r = a \<and> pr_target r = t
     \<and> (\<forall>p\<in>set (pr_paths r). path_between g allowed a t p \<and> hop_count p \<le> pl_depth lim)
     \<and> length (pr_paths r) \<le> pl_paths lim \<and> sorted (map hop_count (pr_paths r))
     \<and> (distinct (ig_edges g) \<longrightarrow> distinct (map gp_edges (pr_paths r)))
     \<and> (\<not> pr_truncated r \<longrightarrow> (\<forall>p. path_between g allowed a t p \<longrightarrow> p \<in> set (pr_paths r)))"

lemma path_between_full:
  "index_node g a = Some s0 \<Longrightarrow> path_between g allowed a t p \<longleftrightarrow> full_path g allowed s0 t (pair_of p)"
  by (auto simp: path_between_def full_path_def pair_of_def)

lemma inj_pair_of: "pair_of p = pair_of p' \<Longrightarrow> p = p'"
  by (simp add: pair_of_def)

lemma hops_pair_of: "hops \<circ> pair_of = hop_count"
  by (simp add: fun_eq_iff pair_of_def hop_count_def)

lemma search_inv_start:
  assumes "gn_id s0 \<noteq> t"
  shows "search_inv g lim allowed s0 t \<lparr>ps_paths = [], ps_queue = [([s0], [])], ps_truncated = False\<rparr>"
proof -
  have "0 < hops c \<and> take (Suc 0) (fst c) = [s0]" if "full_path g allowed s0 t c" for c
  proof -
    from that obtain ns es where c: "c = (ns, es)" "length ns = Suc (length es)" "hd ns = s0" "gn_id (last ns) = t"
      by (cases c) (auto simp: full_path_def simple_path_def)
    then obtain ns' where "ns = s0 # ns'" by (cases ns) auto
    with c assms show ?thesis by (cases ns') auto
  qed
  then show ?thesis using assms
    by (fastforce simp: search_inv_def search_sound_def search_complete_def search_ordered_def search_distinct_def
        antichain_def open_path_def)
qed

lemma path_to_self:
  assumes "path_between g allowed a a p" "index_node g a = Some s0"
  shows "p = \<lparr>gp_nodes = [s0], gp_edges = []\<rparr>"
proof -
  from assms have len: "length (gp_nodes p) = Suc (length (gp_edges p))" and d: "distinct (map gn_id (gp_nodes p))"
    and hd: "hd (gp_nodes p) = s0" and last: "gn_id (last (gp_nodes p)) = gn_id s0"
    using index_node_Some [OF assms(2)] by (auto simp: path_between_def simple_path_def)
  from len obtain ns where ns: "gp_nodes p = s0 # ns" using hd by (cases "gp_nodes p") auto
  have "ns = []" using d last unfolding ns by (cases ns rule: rev_cases) auto
  with ns len show ?thesis by (cases p) simp
qed

lemma find_paths_ok:
  assumes "find_identity_graph_paths g a t rels (Some lim) = Inr r" "1 \<le> pl_paths lim"
  shows "paths_ok g lim (allowed_relationships rels) a t r"
proof -
  let ?A = "allowed_relationships rels"
  obtain s0 n where s0: "index_node g a = Some s0" and n: "index_node g t = Some n"
    using assms(1) by (auto simp: find_identity_graph_paths_def split: option.splits)
  then have id: "gn_id s0 = a" "gn_id n = t" by (simp_all add: index_node_Some)
  show ?thesis
  proof (cases "a = t")
    case True
    then have "r = \<lparr>pr_start = a, pr_target = a, pr_paths = [\<lparr>gp_nodes = [s0], gp_edges = []\<rparr>], pr_truncated = False\<rparr>"
      using assms(1) s0 n id by (simp add: find_identity_graph_paths_def Let_def)
    moreover have "path_between g ?A a a \<lparr>gp_nodes = [s0], gp_edges = []\<rparr>"
      using s0 id by (simp add: path_between_def)
    moreover have "p = \<lparr>gp_nodes = [s0], gp_edges = []\<rparr>" if "path_between g ?A a a p" for p
      using path_to_self [OF that s0] .
    ultimately have "path_between g ?A a a p \<longleftrightarrow> p = \<lparr>gp_nodes = [s0], gp_edges = []\<rparr>" for p by blast
    then show ?thesis unfolding paths_ok_def True [symmetric] \<open>r = _\<close> using assms(2)
      by (simp add: hop_count_def)
  next
    case False
    let ?s = "search_paths g lim ?A t 0 \<lparr>ps_paths = [], ps_queue = [([s0], [])], ps_truncated = False\<rparr>"
    have r: "r = \<lparr>pr_start = a, pr_target = t, pr_paths = ps_paths ?s, pr_truncated = ps_truncated ?s\<rparr>"
      using assms(1) s0 n id False by (simp add: find_identity_graph_paths_def Let_def)
    from False id search_inv_start have "search_inv g lim ?A s0 t
        \<lparr>ps_paths = [], ps_queue = [([s0], [])], ps_truncated = False\<rparr>" by simp
    from search_paths_inv [OF this, of 0]
    have inv: "search_inv g lim ?A s0 t ?s" and fin: "ps_truncated ?s \<or> ps_queue ?s = []" by simp_all
    note parts = inv [unfolded search_inv_def]
    have "\<forall>p\<in>set (ps_paths ?s). path_between g ?A a t p \<and> hop_count p \<le> pl_depth lim"
      "length (ps_paths ?s) \<le> pl_paths lim"
      using parts unfolding search_sound_def path_between_full [OF s0] by (auto simp: pair_of_def hop_count_def)
    moreover have "sorted (map hop_count (ps_paths ?s))"
      using parts by (simp add: search_ordered_def hops_pair_of)
    moreover have "distinct (map gp_edges (ps_paths ?s))" if "distinct (ig_edges g)"
      using parts that by (simp add: search_distinct_def antichain_def pair_of_def comp_def)
    moreover have "p \<in> set (ps_paths ?s)" if "\<not> ps_truncated ?s" "path_between g ?A a t p" for p
    proof -
      have "full_path g ?A s0 t (pair_of p)" "search_complete g ?A s0 t ?s" "ps_queue ?s = []"
        using that(2) [unfolded path_between_full [OF s0]] parts fin that(1) by simp_all
      with that(1) have "pair_of p \<in> set (found_paths ?s)"
        unfolding search_complete_def by (metis empty_iff list.set(1))
      then have "pair_of p \<in> pair_of ` set (ps_paths ?s)" by simp
      then show ?thesis using inj_pair_of by blast
    qed
    ultimately show ?thesis by (simp add: paths_ok_def r)
  qed
qed

lemma find_paths_returns_iff:
  "is_ok (find_identity_graph_paths g a t rels limits) \<longleftrightarrow> a \<in> ids (ig_nodes g) \<and> t \<in> ids (ig_nodes g)"
  using index_node_None [of g a] index_node_None [of g t]
  by (auto simp: find_identity_graph_paths_def Let_def split: option.splits)

end
