(* ===== verification/GraphReviewFacts.thy ===== *)
theory GraphReviewFacts
  imports GraphReview GraphProjection GraphPathSearch
begin

text \<open>
  The graph that a builder gives depends on the sets of nodes and edges alone; and the review of
  paths accepts exactly the queries whose paths are distinct simple paths of a valid graph.
\<close>

section \<open>Loading a builder\<close>

definition loaded :: "graph_builder \<Rightarrow> bool" where
  "loaded b \<longleftrightarrow> keyed b \<and> distinct (map gn_id (ig_nodes (built b))) \<and> distinct (map ge_id (ig_edges (built b)))
     \<and> length (ig_nodes (built b)) \<le> bl_nodes (gb_limits b) \<and> length (ig_edges (built b)) \<le> bl_edges (gb_limits b)"

lemma load_nodes_result:
  assumes "foldE add_node ns b = Inr b'" "loaded b"
  shows "loaded b' \<and> set (ig_nodes (built b')) = set (ig_nodes (built b)) \<union> set ns
    \<and> ig_edges (built b') = ig_edges (built b) \<and> gb_limits b' = gb_limits b"
  using assms
proof (induction ns arbitrary: b)
  case (Cons n ns)
  then obtain b1 where b1: "add_node n b = Inr b1" "foldE add_node ns b1 = Inr b'" by (auto simp: bindE_Inr)
  have k: "keyed b" using Cons.prems(2) by (simp add: loaded_def)
  have "loaded b1" "set (ig_nodes (built b1)) = insert n (set (ig_nodes (built b)))"
    "ig_edges (built b1) = ig_edges (built b)" "gb_limits b1 = gb_limits b"
    using add_node_built [OF b1(1) k] Cons.prems(2) by (auto simp: loaded_def)
  with Cons.IH [OF b1(2)] show ?case by simp
qed simp

lemma load_edges_result:
  assumes "foldE add_edge es b = Inr b'" "loaded b"
  shows "loaded b' \<and> set (ig_edges (built b')) = set (ig_edges (built b)) \<union> set es
    \<and> ig_nodes (built b') = ig_nodes (built b) \<and> gb_limits b' = gb_limits b
    \<and> (\<forall>e\<in>set es. {ge_source e, ge_target e} \<subseteq> ids (ig_nodes (built b)))"
  using assms
proof (induction es arbitrary: b)
  case (Cons e es)
  then obtain b1 where b1: "add_edge e b = Inr b1" "foldE add_edge es b1 = Inr b'" by (auto simp: bindE_Inr)
  have k: "keyed b" using Cons.prems(2) by (simp add: loaded_def)
  have "loaded b1" "set (ig_edges (built b1)) = insert e (set (ig_edges (built b)))"
    "ig_nodes (built b1) = ig_nodes (built b)" "gb_limits b1 = gb_limits b"
    "{ge_source e, ge_target e} \<subseteq> ids (ig_nodes (built b))"
    using add_edge_built [OF b1(1) k] Cons.prems(2) by (auto simp: loaded_def)
  with Cons.IH [OF b1(2)] show ?case by simp
qed simp

lemma add_node_succeeds:
  assumes "loaded b" "inj_on gn_id (insert n (set (ig_nodes (built b))))"
    "card (insert n (set (ig_nodes (built b)))) \<le> bl_nodes (gb_limits b)"
  shows "is_ok (add_node n b)"
proof (cases "map_of (gb_nodes b) (gn_id n)")
  case None
  then have "n \<notin> set (ig_nodes (built b))"
    using assms(1) by (force simp: map_of_eq_None_iff loaded_def keyed_def)
  moreover have "distinct (ig_nodes (built b))" using assms(1) by (simp add: loaded_def distinct_map)
  ultimately have "length (gb_nodes b) < bl_nodes (gb_limits b)"
    using assms(3) by (simp add: distinct_card) (simp add: built_def)
  with None show ?thesis by (simp add: add_node_def)
next
  case (Some m)
  then have "(gn_id n, m) \<in> set (gb_nodes b)" by (rule map_of_SomeD)
  then have "m \<in> set (ig_nodes (built b))" "gn_id m = gn_id n"
    using assms(1) by (force simp: built_def, auto simp: loaded_def keyed_def)
  then have "m = n" using assms(2) by (auto simp: inj_on_def)
  with Some show ?thesis by (simp add: add_node_def)
qed

lemma load_nodes_succeeds:
  assumes "loaded b" "inj_on gn_id (set (ig_nodes (built b)) \<union> set ns)"
    "card (set (ig_nodes (built b)) \<union> set ns) \<le> bl_nodes (gb_limits b)"
  shows "is_ok (foldE add_node ns b)"
  using assms
proof (induction ns arbitrary: b)
  case (Cons n ns)
  let ?S = "set (ig_nodes (built b))"
  have sub: "insert n ?S \<subseteq> ?S \<union> set (n # ns)" by auto
  have "is_ok (add_node n b)"
  proof (rule add_node_succeeds [OF Cons.prems(1)])
    show "inj_on gn_id (insert n ?S)" using inj_on_subset [OF Cons.prems(2) sub] .
    show "card (insert n ?S) \<le> bl_nodes (gb_limits b)"
      using card_mono [OF _ sub] Cons.prems(3) by (meson finite_Un finite_set le_trans)
  qed
  then obtain b1 where b1: "add_node n b = Inr b1" by (auto simp: is_ok_iff)
  then have one: "foldE add_node [n] b = Inr b1" by simp
  from load_nodes_result [OF one Cons.prems(1)] Cons.prems have "is_ok (foldE add_node ns b1)"
    by (intro Cons.IH) auto
  with b1 show ?case by simp
qed simp

lemma add_edge_succeeds:
  assumes "loaded b" "inj_on ge_id (insert e (set (ig_edges (built b))))"
    "card (insert e (set (ig_edges (built b)))) \<le> bl_edges (gb_limits b)"
    "{ge_source e, ge_target e} \<subseteq> ids (ig_nodes (built b))"
  shows "is_ok (add_edge e b)"
proof -
  have "fst ` set (gb_nodes b) = ids (ig_nodes (built b))" using assms(1) by (force simp: loaded_def keyed_def)
  then have ends: "ge_source e \<in> fst ` set (gb_nodes b)" "ge_target e \<in> fst ` set (gb_nodes b)"
    using assms(4) by simp_all
  show ?thesis
  proof (cases "map_of (gb_edges b) (ge_id e)")
    case None
    then have "e \<notin> set (ig_edges (built b))"
      using assms(1) by (force simp: map_of_eq_None_iff loaded_def keyed_def)
    moreover have "distinct (ig_edges (built b))" using assms(1) by (simp add: loaded_def distinct_map)
    ultimately have "length (gb_edges b) < bl_edges (gb_limits b)"
      using assms(3) by (simp add: distinct_card) (simp add: built_def)
    with None ends show ?thesis by (simp add: add_edge_def)
  next
    case (Some m)
    then have "(ge_id e, m) \<in> set (gb_edges b)" by (rule map_of_SomeD)
    then have "m \<in> set (ig_edges (built b))" "ge_id m = ge_id e"
      using assms(1) by (force simp: built_def, auto simp: loaded_def keyed_def)
    then have "m = e" using assms(2) by (auto simp: inj_on_def)
    with Some ends show ?thesis by (simp add: add_edge_def)
  qed
qed

lemma load_edges_succeeds:
  assumes "loaded b" "inj_on ge_id (set (ig_edges (built b)) \<union> set es)"
    "card (set (ig_edges (built b)) \<union> set es) \<le> bl_edges (gb_limits b)"
    "\<forall>e\<in>set es. {ge_source e, ge_target e} \<subseteq> ids (ig_nodes (built b))"
  shows "is_ok (foldE add_edge es b)"
  using assms
proof (induction es arbitrary: b)
  case (Cons e es)
  let ?S = "set (ig_edges (built b))"
  have sub: "insert e ?S \<subseteq> ?S \<union> set (e # es)" by auto
  have "is_ok (add_edge e b)"
  proof (rule add_edge_succeeds [OF Cons.prems(1)])
    show "inj_on ge_id (insert e ?S)" using inj_on_subset [OF Cons.prems(2) sub] .
    show "card (insert e ?S) \<le> bl_edges (gb_limits b)"
      using card_mono [OF _ sub] Cons.prems(3) by (meson finite_Un finite_set le_trans)
    show "{ge_source e, ge_target e} \<subseteq> ids (ig_nodes (built b))" using Cons.prems(4) by simp
  qed
  then obtain b1 where b1: "add_edge e b = Inr b1" by (auto simp: is_ok_iff)
  then have one: "foldE add_edge [e] b = Inr b1" by simp
  from load_edges_result [OF one Cons.prems(1)] Cons.prems have "is_ok (foldE add_edge es b1)"
    by (intro Cons.IH) auto
  with b1 show ?case by simp
qed simp

text \<open>When a graph loads, and what is built from it.\<close>

definition loadable :: "build_limits option \<Rightarrow> gnode set \<Rightarrow> gedge set \<Rightarrow> bool" where
  "loadable lim N E \<longleftrightarrow> inj_on gn_id N \<and> inj_on ge_id E
     \<and> card N \<le> bl_nodes (gb_limits (builder_init lim)) \<and> card E \<le> bl_edges (gb_limits (builder_init lim))
     \<and> (\<forall>e\<in>E. {ge_source e, ge_target e} \<subseteq> gn_id ` N)"

lemma loaded_init: "loaded (builder_init lim)"
  by (simp add: loaded_def empty_graph_def)

lemma load_graph_result:
  assumes "load_graph lim g = Inr b"
  shows "loaded b" "set (ig_nodes (built b)) = set (ig_nodes g)" "set (ig_edges (built b)) = set (ig_edges g)"
    "loadable lim (set (ig_nodes g)) (set (ig_edges g))"
proof -
  obtain b1 where b1: "foldE add_node (ig_nodes g) (builder_init lim) = Inr b1" "foldE add_edge (ig_edges g) b1 = Inr b"
    using assms by (auto simp: load_graph_def bindE_Inr)
  note nodes = load_nodes_result [OF b1(1) loaded_init]
  then have "loaded b1" by simp
  note edges = load_edges_result [OF b1(2) this]
  show res: "loaded b" "set (ig_nodes (built b)) = set (ig_nodes g)" "set (ig_edges (built b)) = set (ig_edges g)"
    using nodes edges by (simp_all add: empty_graph_def)
  then have "card (set (ig_nodes g)) = length (ig_nodes (built b))" "card (set (ig_edges g)) = length (ig_edges (built b))"
    by (metis distinct_card distinct_map loaded_def)+
  with res nodes edges show "loadable lim (set (ig_nodes g)) (set (ig_edges g))"
    by (simp add: loadable_def loaded_def distinct_map empty_graph_def)
qed

lemma load_graph_succeeds:
  assumes "loadable lim (set (ig_nodes g)) (set (ig_edges g))"
  shows "is_ok (load_graph lim g)"
proof -
  have "is_ok (foldE add_node (ig_nodes g) (builder_init lim))"
    using assms by (intro load_nodes_succeeds [OF loaded_init]) (simp_all add: loadable_def empty_graph_def)
  then obtain b1 where b1: "foldE add_node (ig_nodes g) (builder_init lim) = Inr b1" by (auto simp: is_ok_iff)
  note nodes = load_nodes_result [OF b1 loaded_init]
  have "is_ok (foldE add_edge (ig_edges g) b1)"
    using assms nodes by (intro load_edges_succeeds) (simp_all add: loadable_def empty_graph_def)
  with b1 show ?thesis by (simp add: load_graph_def)
qed

lemma build_graph_sorted:
  assumes "loaded b"
  shows "sorted (map gn_id (ig_nodes (build_graph b)))" "sorted (map ge_id (ig_edges (build_graph b)))"
    "distinct (map gn_id (ig_nodes (build_graph b)))" "distinct (map ge_id (ig_edges (build_graph b)))"
proof -
  have n: "map gn_id (map snd xs) = map fst xs" if "set xs \<subseteq> set (gb_nodes b)" for xs
    using that assms by (auto simp: loaded_def keyed_def)
  have e: "map ge_id (map snd xs) = map fst xs" if "set xs \<subseteq> set (gb_edges b)" for xs
    using that assms by (auto simp: loaded_def keyed_def)
  show "sorted (map gn_id (ig_nodes (build_graph b)))" "sorted (map ge_id (ig_edges (build_graph b)))"
    unfolding build_graph_def identity_graph.simps
    using n [of "sort_key fst (gb_nodes b)"] e [of "sort_key fst (gb_edges b)"] by (simp_all only: set_sort subset_refl sorted_sort_key)
  have "mset (map gn_id (ig_nodes (build_graph b))) = mset (map gn_id (ig_nodes (built b)))"
    "mset (map ge_id (ig_edges (build_graph b))) = mset (map ge_id (ig_edges (built b)))"
    by (simp_all add: mset_build_graph)
  then show "distinct (map gn_id (ig_nodes (build_graph b)))" "distinct (map ge_id (ig_edges (build_graph b)))"
    using assms mset_eq_imp_distinct_iff unfolding loaded_def by blast+
qed

lemma build_graph_unique:
  assumes "loaded b" "loaded b'" "set (ig_nodes (built b)) = set (ig_nodes (built b'))"
    "set (ig_edges (built b)) = set (ig_edges (built b'))"
  shows "build_graph b = build_graph b'"
proof -
  have n: "set (ig_nodes (build_graph b)) = set (ig_nodes (build_graph b'))"
    "set (ig_edges (build_graph b)) = set (ig_edges (build_graph b'))"
    using assms by (simp_all add: set_build_graph)
  note s = build_graph_sorted [OF assms(1)] and s' = build_graph_sorted [OF assms(2)]
  have "ig_nodes (build_graph b) = ig_nodes (build_graph b')"
    using s s' n by (intro map_sorted_distinct_set_unique [of gn_id]) (auto simp: distinct_map)
  moreover have "ig_edges (build_graph b) = ig_edges (build_graph b')"
    using s s' n by (intro map_sorted_distinct_set_unique [of ge_id]) (auto simp: distinct_map)
  ultimately show ?thesis by (simp add: build_graph_def)
qed

section \<open>The review\<close>

lemma edges_by_id_Some:
  "distinct (map ge_id (ig_edges g)) \<Longrightarrow> edges_by_id g i = Some e \<longleftrightarrow> e \<in> set (ig_edges g) \<and> ge_id e = i"
  unfolding edges_by_id_def by (rule by_id_distinct)

lemma review_edges_ok:
  assumes "length ns = Suc (length es)"
  shows "review_edges edges ns es = Inr () \<longleftrightarrow>
    (\<forall>i<length es. edges (ge_id (es ! i)) = Some (es ! i) \<and> ge_source (es ! i) = ns ! i \<and> ge_target (es ! i) = ns ! Suc i)"
  using assms
proof (induction es arbitrary: ns)
  case (Cons e es)
  obtain a m where ns: "ns = a # m" "length m = Suc (length es)" using Cons.prems by (cases ns) auto
  then obtain b k where m: "m = b # k" by (cases m) auto
  have "review_edges edges ns (e # es) = Inr () \<longleftrightarrow> edges (ge_id e) = Some e \<and> ge_source e = a \<and> ge_target e = b
      \<and> review_edges edges m es = Inr ()"
    by (auto simp: req_Inr ns m)
  then show ?case unfolding Cons.IH [OF ns(2)] ns(1) by (simp add: All_less_Suc2 m)
qed simp

text \<open>A path of a query that the review accepts.\<close>

definition reviewable :: "identity_graph \<Rightarrow> path_limits \<Rightarrow> string \<Rightarrow> string \<Rightarrow> gpath \<Rightarrow> bool" where
  "reviewable g lim start target p \<longleftrightarrow> path_between g {} start target p \<and> gp_edges p \<noteq> [] \<and> hop_count p \<le> pl_depth lim"

definition review_key_of :: "gpath \<Rightarrow> review_key" where
  "review_key_of p = (length (filter (\<lambda>e. ge_state e = INFERRED) (gp_edges p)), hop_count p, map ge_id (gp_edges p))"

text \<open>The guards on one path, as the code has them.\<close>

definition review_guards :: "identity_graph \<Rightarrow> path_limits \<Rightarrow> string \<Rightarrow> string \<Rightarrow> gpath \<Rightarrow> bool" where
  "review_guards g lim start target p \<longleftrightarrow> gp_edges p \<noteq> [] \<and> length (gp_edges p) \<le> pl_depth lim
     \<and> length (gp_nodes p) = Suc (length (gp_edges p)) \<and> gn_id (gp_nodes p ! 0) = start
     \<and> gn_id (last (gp_nodes p)) = target \<and> distinct (map gn_id (gp_nodes p))
     \<and> (\<forall>n\<in>set (gp_nodes p). nodes_by_id g (gn_id n) = Some n)
     \<and> review_edges (edges_by_id g) (map gn_id (gp_nodes p)) (gp_edges p) = Inr ()"

lemma review_paths_ok:
  "review_paths (nodes_by_id g) (edges_by_id g) lim start target seen ps = Inr cs \<longleftrightarrow>
     cs = map (\<lambda>p. (review_key_of p, p)) ps \<and> (\<forall>p\<in>set ps. review_guards g lim start target p)
     \<and> distinct (map (\<lambda>p. map ge_id (gp_edges p)) ps) \<and> seen \<inter> (\<lambda>p. map ge_id (gp_edges p)) ` set ps = {}"
proof (induction ps arbitrary: seen cs)
  case (Cons p ps)
  have "review_paths (nodes_by_id g) (edges_by_id g) lim start target seen (p # ps) = Inr cs \<longleftrightarrow>
      review_guards g lim start target p \<and> map ge_id (gp_edges p) \<notin> seen
      \<and> (\<exists>ds. review_paths (nodes_by_id g) (edges_by_id g) lim start target (insert (map ge_id (gp_edges p)) seen) ps = Inr ds
            \<and> cs = (review_key_of p, p) # ds)"
    unfolding review_paths.simps Let_def req_Inr bindE_Inr review_guards_def review_key_of_def
    by (auto simp: list_all_iff)
  then show ?case unfolding Cons.IH by auto
qed auto

lemma review_guards_iff:
  assumes g: "valid_graph g"
  shows "review_guards g lim start target p \<longleftrightarrow> reviewable g lim start target p"
proof -
  have dn: "distinct (map gn_id (ig_nodes g))" and de: "distinct (map ge_id (ig_edges g))"
    using g by (simp_all add: valid_graph_def)
  have node: "nodes_by_id g i = Some n \<longleftrightarrow> index_node g i = Some n" for i n
    using nodes_by_id_Some [OF dn] index_node_distinct [OF dn] index_node_Some by metis
  have edge: "edges_by_id g (ge_id e) = Some e \<longleftrightarrow> e \<in> set (ig_edges g)" for e
    using edges_by_id_Some [OF de] by simp
  have known: "index_node g (gn_id n) = Some n" if "index_node g i = Some n" for i n
    using that index_node_Some index_node_distinct [OF dn] by blast
  show ?thesis
  proof (cases "length (gp_nodes p) = Suc (length (gp_edges p))")
    case True
    then have ne: "gp_nodes p \<noteq> []" by auto
    have edges: "review_edges (edges_by_id g) (map gn_id (gp_nodes p)) (gp_edges p) = Inr () \<longleftrightarrow>
        (\<forall>i<length (gp_edges p). gp_edges p ! i \<in> set (ig_edges g)
           \<and> ge_source (gp_edges p ! i) = gn_id (gp_nodes p ! i) \<and> ge_target (gp_edges p ! i) = gn_id (gp_nodes p ! Suc i))"
      using True by (subst review_edges_ok) (simp_all add: edge)
    have all_nodes: "(\<forall>n\<in>set (gp_nodes p). index_node g (gn_id n) = Some n) \<longleftrightarrow>
        index_node g (gn_id (hd (gp_nodes p))) = Some (hd (gp_nodes p))
        \<and> (\<forall>i<length (gp_edges p). index_node g (gn_id (gp_nodes p ! Suc i)) = Some (gp_nodes p ! Suc i))"
      using True ne by (cases "gp_nodes p") (auto simp: all_set_conv_all_nth)
    have start: "index_node g start = Some (hd (gp_nodes p)) \<longleftrightarrow>
        gn_id (hd (gp_nodes p)) = start \<and> index_node g (gn_id (hd (gp_nodes p))) = Some (hd (gp_nodes p))"
      using known index_node_Some by metis
    have step: "step_ok g {} (gp_nodes p ! i) (gp_edges p ! i) (gp_nodes p ! Suc i) \<longleftrightarrow> gp_edges p ! i \<in> set (ig_edges g)
        \<and> ge_source (gp_edges p ! i) = gn_id (gp_nodes p ! i) \<and> ge_target (gp_edges p ! i) = gn_id (gp_nodes p ! Suc i)
        \<and> index_node g (gn_id (gp_nodes p ! Suc i)) = Some (gp_nodes p ! Suc i)" for i
      unfolding step_ok_def using known index_node_Some by metis
    show ?thesis
      unfolding review_guards_def reviewable_def path_between_def simple_path_def edges node all_nodes start step
        hop_count_def hd_conv_nth [OF ne, symmetric] using True by blast
  next
    case False
    then show ?thesis by (simp add: review_guards_def reviewable_def path_between_def simple_path_def)
  qed
qed

definition review_accepts :: "identity_graph \<Rightarrow> path_limits \<Rightarrow> path_result \<Rightarrow> bool" where
  "review_accepts g lim q \<longleftrightarrow> valid_graph g \<and> {pr_start q, pr_target q} \<subseteq> ids (ig_nodes g)
     \<and> length (pr_paths q) \<le> pl_paths lim \<and> (\<forall>p\<in>set (pr_paths q). reviewable g lim (pr_start q) (pr_target q) p)
     \<and> distinct (map (\<lambda>p. map ge_id (gp_edges p)) (pr_paths q))"

lemma assert_valid_ok: "assert_valid_identity_graph g = Inr u \<longleftrightarrow> valid_graph g"
  by (simp add: assert_valid_identity_graph_def Let_def req_Inr validate_Nil)

lemma review_result:
  "order_graph_paths_for_review g q (Some lim) = Inr r \<longleftrightarrow> review_accepts g lim q
     \<and> r = \<lparr>rr_start = pr_start q, rr_target = pr_target q,
            rr_reviews = number_reviews (sort_key fst (map (\<lambda>p. (review_key_of p, p)) (pr_paths q))),
            rr_truncated = pr_truncated q\<rparr>"
proof (cases "valid_graph g")
  case True
  have known: "nodes_by_id g i \<noteq> None \<longleftrightarrow> i \<in> ids (ig_nodes g)" for i by (simp only: nodes_by_id_None not_not)
  from True have valid: "assert_valid_identity_graph g = Inr ()" by (simp add: assert_valid_ok)
  let ?ids = "\<lambda>p. map ge_id (gp_edges p)" and ?cs = "map (\<lambda>p. (review_key_of p, p)) (pr_paths q)"
  let ?r = "\<lparr>rr_start = pr_start q, rr_target = pr_target q, rr_reviews = number_reviews (sort_key fst ?cs),
      rr_truncated = pr_truncated q\<rparr>"
  have "order_graph_paths_for_review g q (Some lim) = Inr r \<longleftrightarrow>
      (pr_start q \<in> ids (ig_nodes g) \<and> pr_target q \<in> ids (ig_nodes g)) \<and> length (pr_paths q) \<le> pl_paths lim
      \<and> (\<forall>p\<in>set (pr_paths q). reviewable g lim (pr_start q) (pr_target q) p) \<and> distinct (map ?ids (pr_paths q)) \<and> r = ?r"
    unfolding order_graph_paths_for_review_def Let_def valid bindE_simps bindE_Inr req_Inr review_paths_ok
      review_guards_iff [OF True] known option.case by fastforce
  then show ?thesis using True unfolding review_accepts_def insert_subset by blast
next
  case False
  then show ?thesis
    by (auto simp: order_graph_paths_for_review_def Let_def bindE_Inr assert_valid_ok review_accepts_def)
qed

text \<open>What the numbered list says of the paths.\<close>

lemma length_number_reviews [simp]: "length (number_reviews cs) = length cs"
  by (simp add: number_reviews_def)

lemma number_reviews_nth:
  assumes "i < length cs" "\<forall>(k, p)\<in>set cs. k = review_key_of p"
  shows "number_reviews cs ! i = (let p = snd (cs ! i) in
    \<lparr>rv_path = p, rv_observed = length (filter (\<lambda>e. ge_state e = OBSERVED) (gp_edges p)),
     rv_inferred = length (filter (\<lambda>e. ge_state e = INFERRED) (gp_edges p)), rv_order = Suc i\<rparr>)"
proof -
  obtain k p where kp: "cs ! i = (k, p)" by (cases "cs ! i")
  with assms have k: "k = review_key_of p" using nth_mem [OF assms(1)] by auto
  have "length (filter (\<lambda>e. ge_state e = OBSERVED) es) = length es - length (filter (\<lambda>e. ge_state e = INFERRED) es)" for es :: "gedge list"
  proof -
    have "filter (\<lambda>e. ge_state e = OBSERVED) es = filter (\<lambda>e. ge_state e \<noteq> INFERRED) es"
      by (rule filter_cong [OF refl]) (metis evidence_state.distinct(1) evidence_state.exhaust)
    note this [simp]
    show ?thesis using sum_length_filter_compl [of "\<lambda>e. ge_state e = INFERRED" es] by simp
  qed
  with kp k assms(1) show ?thesis
    by (simp add: number_reviews_def nth_enumerate_eq review_key_of_def hop_count_def Let_def)
qed

lemma map_path_number_reviews: "map rv_path (number_reviews cs) = map snd cs"
  by (rule nth_equalityI) (auto simp: number_reviews_def nth_enumerate_eq split: prod.splits)

lemma review_lists_all:
  "mset (map rv_path (number_reviews (sort_key fst (map (\<lambda>p. (review_key_of p, p)) ps)))) = mset ps"
  unfolding map_path_number_reviews by (simp add: multiset.map_comp comp_def)

text \<open>Paths that a search has found, as paths without a restriction on relationships.\<close>

lemma path_between_any: "path_between g allowed a t p \<Longrightarrow> path_between g {} a t p"
  by (auto simp: path_between_def simple_path_def step_ok_def)

lemma path_between_hops:
  assumes "path_between g allowed a t p" "a \<noteq> t"
  shows "gp_edges p \<noteq> []"
proof
  assume "gp_edges p = []"
  then obtain n where "gp_nodes p = [n]" using assms(1)
    by (auto simp: path_between_def simple_path_def length_Suc_conv)
  with assms show False using index_node_Some by (auto simp: path_between_def)
qed

lemma path_between_edges: "path_between g allowed a t p \<Longrightarrow> set (gp_edges p) \<subseteq> set (ig_edges g)"
  by (auto simp: path_between_def simple_path_def step_ok_def in_set_conv_nth)

lemma distinct_mapI: "distinct (map f xs) \<Longrightarrow> distinct xs"
  by (simp add: distinct_map)

lemma inj_on_mapI:
  assumes "inj_on f A" "\<And>xs. xs \<in> S \<Longrightarrow> set xs \<subseteq> A"
  shows "inj_on (map f) S"
proof (rule inj_onI)
  fix xs ys assume *: "xs \<in> S" "ys \<in> S" "map f xs = map f ys"
  then have "inj_on f (set xs \<union> set ys)" using assms by (meson inj_on_subset Un_least)
  with *(3) show "xs = ys" by (simp add: inj_on_map_eq_map)
qed

end
