(* ===== verification/GraphProps.thy ===== *)
theory GraphProps
  imports GraphReviewFacts
begin

text \<open>
  The properties of the attack graph, each with a witness on a small graph: a user who is a member
  of a group, a permission of both, and the asset it applies to.
\<close>

section \<open>A sample graph\<close>

definition sample_source :: provenance where
  "sample_source = \<lparr>pv_type = ''test'', pv_source = ''sample'', pv_observed = ''''\<rparr>"

definition sample_node :: "string \<Rightarrow> node_kind \<Rightarrow> gnode" where
  "sample_node i k = \<lparr>gn_id = i, gn_kind = k, gn_key = i, gn_label = i, gn_provenance = [sample_source], gn_properties = []\<rparr>"

definition sample_edge :: "string \<Rightarrow> string \<Rightarrow> string \<Rightarrow> string \<Rightarrow> evidence_state \<Rightarrow> gedge" where
  "sample_edge i s t rel st = \<lparr>ge_id = i, ge_source = s, ge_target = t, ge_relationship = rel, ge_state = st,
     ge_provenance = [sample_source], ge_properties = []\<rparr>"

definition user_node :: gnode where "user_node = sample_node ''u'' IDENTITY"
definition group_node :: gnode where "group_node = sample_node ''g'' GROUP"
definition right_node :: gnode where "right_node = sample_node ''p'' PERMISSION"
definition host_node :: gnode where "host_node = sample_node ''h'' ASSET"

definition e_member :: gedge where "e_member = sample_edge ''e1'' ''u'' ''g'' ''member-of'' OBSERVED"
definition e_group :: gedge where "e_group = sample_edge ''e2'' ''g'' ''p'' ''has-permission'' OBSERVED"
definition e_user :: gedge where "e_user = sample_edge ''e3'' ''u'' ''p'' ''has-permission'' INFERRED"
definition e_applies :: gedge where "e_applies = sample_edge ''e4'' ''p'' ''h'' ''applies-to'' OBSERVED"

definition sample_graph :: identity_graph where
  "sample_graph = \<lparr>ig_nodes = [group_node, host_node, right_node, user_node],
     ig_edges = [e_member, e_group, e_user, e_applies]\<rparr>"

definition sample_paths :: "gpath list" where
  "sample_paths = [\<lparr>gp_nodes = [user_node, right_node, host_node], gp_edges = [e_user, e_applies]\<rparr>,
     \<lparr>gp_nodes = [user_node, group_node, right_node, host_node], gp_edges = [e_member, e_group, e_applies]\<rparr>]"

lemmas sample_defs = sample_graph_def user_node_def group_node_def right_node_def host_node_def e_member_def
  e_group_def e_user_def e_applies_def sample_node_def sample_edge_def sample_source_def

section \<open>Traversal\<close>

text \<open>C34: A traversal returns for every node of the graph and every direction.  It visits no node
  twice, never more than its limit and only nodes that are reachable, level by level: for every
  completed level \<open>j\<close> the nodes within \<open>j\<close> steps come first.  It says that it was truncated exactly
  when a reachable node is missing, and unless the node limit is reached it has visited exactly the
  nodes within the depth limit.\<close>

theorem traversal_visits_what_is_reachable:
  assumes "1 \<le> tl_nodes lim"
  shows "(is_ok (traverse_identity_graph g a rel dir (Some lim)) \<longleftrightarrow>
      a \<in> gn_id ` set (ig_nodes g) \<and> dir \<in> {''outgoing'', ''incoming'', ''both''})
    \<and> (\<forall>r. traverse_identity_graph g a rel dir (Some lim) = Inr r \<longrightarrow>
         distinct (map gn_id (tv_visited r)) \<and> length (tv_visited r) \<le> tl_nodes lim \<and> tv_depth r \<le> tl_depth lim
         \<and> gn_id ` set (tv_visited r) \<subseteq> (edge_step g rel dir)\<^sup>* `` {a}
         \<and> (\<forall>j\<le>tv_depth r. \<exists>k. gn_id ` set (take k (tv_visited r)) = ball (edge_step g rel dir) a j)
         \<and> (tv_truncated r \<longleftrightarrow> gn_id ` set (tv_visited r) \<noteq> (edge_step g rel dir)\<^sup>* `` {a})
         \<and> (length (tv_visited r) < tl_nodes lim \<longrightarrow>
              gn_id ` set (tv_visited r) = ball (edge_step g rel dir) a (tl_depth lim)))"
  using traverse_returns_iff [of g a rel dir "Some lim"] traverse_ok [OF _ assms, of g a rel dir]
  unfolding nbs.traversal_ok_def by blast

lemma sample_traversal:
  "traverse_identity_graph sample_graph ''u'' [] ''outgoing'' (Some \<lparr>tl_depth = 3, tl_nodes = 9\<rparr>) =
     Inr \<lparr>tv_start = ''u'', tv_visited = [user_node, group_node, right_node, host_node], tv_depth = 2, tv_truncated = False\<rparr>"
  by code_simp

theorem traversal_visits_what_is_reachable_witness:
  "(edge_step sample_graph [] ''outgoing'')\<^sup>* `` {''u''} = {''u'', ''g'', ''p'', ''h''}"
  using traversal_visits_what_is_reachable [of "\<lparr>tl_depth = 3, tl_nodes = 9\<rparr>" sample_graph "''u''" "[]" "''outgoing''"]
  by (simp add: sample_traversal) (simp add: sample_defs)

section \<open>Paths\<close>

text \<open>C35: The search for paths returns for any two nodes of the graph.  What it finds are simple
  directed paths from start to target along allowed relationships, within the depth limit, no more
  than the path limit, shorter ones first and none twice; and unless it says that it was truncated
  it has found every simple path.\<close>

theorem path_search_sound_and_complete:
  assumes "1 \<le> pl_paths lim"
  shows "(is_ok (find_identity_graph_paths g a t rels (Some lim)) \<longleftrightarrow>
      a \<in> gn_id ` set (ig_nodes g) \<and> t \<in> gn_id ` set (ig_nodes g))
    \<and> (\<forall>r. find_identity_graph_paths g a t rels (Some lim) = Inr r \<longrightarrow>
         (\<forall>p\<in>set (pr_paths r). path_between g (allowed_relationships rels) a t p \<and> hop_count p \<le> pl_depth lim)
         \<and> length (pr_paths r) \<le> pl_paths lim \<and> sorted (map hop_count (pr_paths r))
         \<and> (distinct (ig_edges g) \<longrightarrow> distinct (map gp_edges (pr_paths r)))
         \<and> (\<not> pr_truncated r \<longrightarrow> set (pr_paths r) = {p. path_between g (allowed_relationships rels) a t p}))"
proof (intro conjI allI impI)
  show "is_ok (find_identity_graph_paths g a t rels (Some lim)) \<longleftrightarrow>
      a \<in> gn_id ` set (ig_nodes g) \<and> t \<in> gn_id ` set (ig_nodes g)" by (rule find_paths_returns_iff)
  fix r assume "find_identity_graph_paths g a t rels (Some lim) = Inr r"
  note ok = find_paths_ok [OF this assms, unfolded paths_ok_def]
  show "\<forall>p\<in>set (pr_paths r). path_between g (allowed_relationships rels) a t p \<and> hop_count p \<le> pl_depth lim"
    "length (pr_paths r) \<le> pl_paths lim" "sorted (map hop_count (pr_paths r))" using ok by blast+
  show "distinct (map gp_edges (pr_paths r))" if "distinct (ig_edges g)" using ok that by blast
  show "set (pr_paths r) = {p. path_between g (allowed_relationships rels) a t p}" if "\<not> pr_truncated r"
    using ok that by blast
qed

definition sample_limits :: path_limits where
  "sample_limits = \<lparr>pl_depth = 4, pl_paths = 5, pl_expansions = 20\<rparr>"

lemma sample_search:
  "find_identity_graph_paths sample_graph ''u'' ''h'' [] (Some sample_limits) =
     Inr \<lparr>pr_start = ''u'', pr_target = ''h'', pr_paths = sample_paths, pr_truncated = False\<rparr>"
  by code_simp

theorem path_search_sound_and_complete_witness:
  "set sample_paths = {p. path_between sample_graph (allowed_relationships []) ''u'' ''h'' p}"
proof -
  have "1 \<le> pl_paths sample_limits" by (simp add: sample_limits_def)
  from path_search_sound_and_complete [OF this, of sample_graph "''u''" "''h''" "[]"] sample_search
  show ?thesis by simp
qed

section \<open>Consistency\<close>

text \<open>C36: The consistency check reports nothing, and the assertion passes, exactly for the graphs
  with distinct identifiers and provenance everywhere whose edges join nodes of the kinds their
  relationship allows, with observed evidence where the relationship demands it.\<close>

theorem validation_exact:
  "(validate_identity_graph g = [] \<longleftrightarrow>
      distinct (map gn_id (ig_nodes g)) \<and> (\<forall>n\<in>set (ig_nodes g). gn_provenance n \<noteq> [])
      \<and> distinct (map ge_id (ig_edges g))
      \<and> (\<forall>e\<in>set (ig_edges g). ge_provenance e \<noteq> []
           \<and> (ge_relationship e \<in> set observed_only \<longrightarrow> ge_state e = OBSERVED)
           \<and> (\<exists>s\<in>set (ig_nodes g). \<exists>t\<in>set (ig_nodes g). gn_id s = ge_source e \<and> gn_id t = ge_target e
                \<and> kinds_allowed (ge_relationship e) (gn_kind s) (gn_kind t))))
    \<and> (is_ok (assert_valid_identity_graph g) \<longleftrightarrow> validate_identity_graph g = [])"
  by (simp add: validate_Nil valid_graph_def edge_fits_def assert_valid_identity_graph_def Let_def req_def)

lemma sample_valid: "validate_identity_graph sample_graph = []"
  by code_simp

text \<open>The sample is valid; without its asset an edge has no target.\<close>

theorem validation_exact_witness:
  "is_ok (assert_valid_identity_graph sample_graph)
   \<and> \<not> is_ok (assert_valid_identity_graph (sample_graph\<lparr>ig_nodes := [group_node, right_node, user_node]\<rparr>))"
  using validation_exact [of sample_graph]
    validation_exact [of "sample_graph\<lparr>ig_nodes := [group_node, right_node, user_node]\<rparr>"] sample_valid
  by (simp, simp add: sample_defs)

section \<open>Building\<close>

text \<open>C37: The graph that a builder gives does not depend on the order in which nodes and edges were
  added or on how often: another sequence of the same ones is accepted as well and builds the same
  graph.  It holds exactly what was added, without repeated identifiers and in their order, within
  the limits, and every edge joins two of its nodes.\<close>

theorem build_ignores_order:
  assumes "load_graph lim g = Inr b" "set (ig_nodes g') = set (ig_nodes g)" "set (ig_edges g') = set (ig_edges g)"
  shows "(\<exists>b'. load_graph lim g' = Inr b' \<and> build_graph b' = build_graph b)
    \<and> set (ig_nodes (build_graph b)) = set (ig_nodes g) \<and> set (ig_edges (build_graph b)) = set (ig_edges g)
    \<and> sorted_wrt (<) (map gn_id (ig_nodes (build_graph b))) \<and> sorted_wrt (<) (map ge_id (ig_edges (build_graph b)))
    \<and> length (ig_nodes (build_graph b)) \<le> bl_nodes (gb_limits b) \<and> length (ig_edges (build_graph b)) \<le> bl_edges (gb_limits b)
    \<and> (\<forall>e\<in>set (ig_edges (build_graph b)). {ge_source e, ge_target e} \<subseteq> gn_id ` set (ig_nodes (build_graph b)))"
proof -
  note R = load_graph_result [OF assms(1)]
  have "is_ok (load_graph lim g')" using R(4) assms(2,3) by (intro load_graph_succeeds) simp
  then obtain b' where b': "load_graph lim g' = Inr b'" by (auto simp: is_ok_iff)
  note R' = load_graph_result [OF b']
  have "build_graph b' = build_graph b" using R R' assms(2,3) by (intro build_graph_unique) simp_all
  moreover have "length (ig_nodes (build_graph b)) = length (ig_nodes (built b))"
    "length (ig_edges (build_graph b)) = length (ig_edges (built b))" by (simp_all add: build_graph_def built_def)
  ultimately show ?thesis
    using b' R build_graph_sorted [OF R(1)]
    by (auto simp: set_build_graph loadable_def loaded_def strict_sorted_iff)
qed

definition shuffled_graph :: identity_graph where
  "shuffled_graph = \<lparr>ig_nodes = [user_node, host_node, user_node, right_node, group_node],
     ig_edges = [e_applies, e_user, e_group, e_member, e_user]\<rparr>"

theorem build_ignores_order_witness:
  "\<exists>b b'. load_graph None sample_graph = Inr b \<and> load_graph None shuffled_graph = Inr b' \<and> build_graph b' = build_graph b"
proof -
  have "is_ok (load_graph None sample_graph)" by code_simp
  then obtain b where b: "load_graph None sample_graph = Inr b" by (auto simp: is_ok_iff)
  have "set (ig_nodes shuffled_graph) = set (ig_nodes sample_graph)" "set (ig_edges shuffled_graph) = set (ig_edges sample_graph)"
    by (auto simp: shuffled_graph_def sample_graph_def)
  with build_ignores_order [OF b this] b show ?thesis by blast
qed

section \<open>Projections\<close>

text \<open>C38: The last stages of the pipeline never fail its final check: identity evidence and then
  critical-asset evidence, added to a consistent graph, give a consistent graph again, which still
  has every node and edge it had.\<close>

theorem projections_keep_graph_valid:
  assumes "spaceless_hash sha" "validate_identity_graph g = []" "clean_ids g" "evidence_checked ev"
    and "add_identity_evidence sha g ev observed_at lim = Inr g1"
    and "add_critical_asset_evidence sha g1 critical observed_at' lim' = Inr g2"
  shows "assert_valid_identity_graph g2 = Inr () \<and> graph_extends g g1 \<and> graph_extends g1 g2 \<and> clean_ids g2"
proof -
  note one = add_identity_evidence_ok [OF assms(5,1-4)]
  then have "validate_identity_graph g1 = []" "clean_ids g1" by simp_all
  from add_critical_asset_evidence_ok [OF assms(6,1) this] one show ?thesis
    by (simp add: assert_valid_identity_graph_def Let_def)
qed

definition length_hash :: "string \<Rightarrow> string" where
  "length_hash s = replicate (length s) CHR ''a''"

definition sample_bundle :: identity_bundle where
  "sample_bundle = \<lparr>ib_identities = [\<lparr>ie_key = ''alice'', ie_label = ''Alice'', ie_source = ''ad'', ie_type = ''user'', ie_properties = []\<rparr>],
     ib_groups = [\<lparr>ve_key = ''admins'', ve_label = ''Admins'', ve_source = ''ad'', ve_properties = []\<rparr>],
     ib_memberships = [\<lparr>me_kind = IDENTITY, me_key = ''alice'', me_group = ''admins'', me_source = ''ad'', me_state = OBSERVED\<rparr>],
     ib_permissions = [\<lparr>pe_key = ''admin right'', pe_label = ''Right'', pe_subject_kind = GROUP, pe_subject = ''admins'',
        pe_target_kind = ASSET, pe_target = ''h'', pe_source = ''ad'', pe_state = INFERRED, pe_properties = []\<rparr>],
     ib_roles = [], ib_relationships = [\<lparr>re_source_kind = IDENTITY, re_source_key = ''alice'', re_target_kind = GROUP,
        re_target_key = ''admins'', re_relationship = '' Owns'', re_source = ''ad'', re_state = OBSERVED, re_properties = []\<rparr>]\<rparr>"

definition sample_critical :: "critical_evidence list" where
  "sample_critical = [\<lparr>cr_asset = '' h'', cr_label = ''Host'', cr_source = ''owner'', cr_rationale = ''payroll'',
     cr_state = OBSERVED, cr_properties = []\<rparr>]"

lemma length_hash_spaceless: "spaceless_hash length_hash"
proof -
  have "\<not> py_space CHR ''a''" by code_simp
  then show ?thesis by (simp add: spaceless_hash_def length_hash_def)
qed

lemma sample_checked: "evidence_checked sample_bundle"
proof -
  have "list_all (\<lambda>r. is_ok (membership_evidence_check r)) (ib_memberships sample_bundle)"
    "list_all (\<lambda>r. is_ok (permission_evidence_check r)) (ib_permissions sample_bundle)"
    "list_all (\<lambda>r. is_ok (relationship_evidence_check r)) (ib_relationships sample_bundle)" by code_simp+
  then show ?thesis unfolding evidence_checked_def list_all_iff is_ok_iff
    by (auto simp: membership_evidence_check_def permission_evidence_check_def relationship_evidence_check_def
        req_Inr bindE_Inr)
qed

lemma sample_clean: "clean_ids sample_graph"
proof -
  have "list_all (\<lambda>n. strip (gn_id n) = gn_id n) (ig_nodes sample_graph)" by code_simp
  then show ?thesis by (simp add: clean_ids_def list_all_iff)
qed

definition sample_projected :: "identity_graph res" where
  "sample_projected = bindE (add_identity_evidence length_hash sample_graph sample_bundle ''2026'' None)
     (\<lambda>g1. add_critical_asset_evidence length_hash g1 sample_critical ''2026'' None)"

lemma sample_projected_ok: "is_ok sample_projected"
  by code_simp

theorem projections_keep_graph_valid_witness:
  "\<exists>g1 g2. add_identity_evidence length_hash sample_graph sample_bundle ''2026'' None = Inr g1
     \<and> add_critical_asset_evidence length_hash g1 sample_critical ''2026'' None = Inr g2
     \<and> assert_valid_identity_graph g2 = Inr () \<and> graph_extends sample_graph g1 \<and> graph_extends g1 g2"
proof -
  obtain g1 g2 where run: "add_identity_evidence length_hash sample_graph sample_bundle ''2026'' None = Inr g1"
    "add_critical_asset_evidence length_hash g1 sample_critical ''2026'' None = Inr g2"
    using sample_projected_ok by (auto simp: sample_projected_def is_ok_iff bindE_Inr)
  from projections_keep_graph_valid [OF length_hash_spaceless sample_valid sample_clean sample_checked run] run
  show ?thesis by blast
qed

section \<open>Review\<close>

text \<open>C39: The review accepts a query exactly when the graph is consistent, the query stays within the
  limits and its paths are distinct simple paths of that graph between the two nodes it names; then
  it lists those paths, none lost or added, with fewer inferred hops first, then shorter ones, then by
  identifiers, numbered from one, with their observed and inferred hops counted.\<close>

theorem review_orders_genuine_paths:
  "(is_ok (order_graph_paths_for_review g q (Some lim)) \<longleftrightarrow> review_accepts g lim q)
   \<and> (\<forall>r. order_graph_paths_for_review g q (Some lim) = Inr r \<longrightarrow>
        mset (map rv_path (rr_reviews r)) = mset (pr_paths q)
        \<and> sorted (map (\<lambda>v. review_key_of (rv_path v)) (rr_reviews r))
        \<and> rr_truncated r = pr_truncated q
        \<and> (\<forall>i<length (rr_reviews r). rv_order (rr_reviews r ! i) = Suc i
             \<and> rv_observed (rr_reviews r ! i) = length (filter (\<lambda>e. ge_state e = OBSERVED) (gp_edges (rv_path (rr_reviews r ! i))))
             \<and> rv_inferred (rr_reviews r ! i) = length (filter (\<lambda>e. ge_state e = INFERRED) (gp_edges (rv_path (rr_reviews r ! i))))))"
proof -
  let ?cs = "sort_key fst (map (\<lambda>p. (review_key_of p, p)) (pr_paths q))"
  have keys: "\<forall>(k, p)\<in>set ?cs. k = review_key_of p" by auto
  have "mset (map snd ?cs) = mset (pr_paths q)" by (simp add: multiset.map_comp comp_def)
  moreover have "map (\<lambda>v. review_key_of (rv_path v)) (number_reviews ?cs) = map fst ?cs"
  proof -
    have "map (\<lambda>v. review_key_of (rv_path v)) (number_reviews ?cs) = map review_key_of (map rv_path (number_reviews ?cs))"
      by simp
    also have "\<dots> = map fst ?cs" unfolding map_path_number_reviews using keys by auto
    finally show ?thesis .
  qed
  ultimately show ?thesis
    using number_reviews_nth [OF _ keys]
    by (auto simp: review_result is_ok_iff map_path_number_reviews Let_def)
qed

text \<open>C40: What the path search finds between two different nodes of a consistent graph is always
  accepted for review under the same limits, and all of it is listed.\<close>

theorem review_accepts_search:
  assumes "validate_identity_graph g = []" "find_identity_graph_paths g a t rels (Some lim) = Inr q"
    "a \<noteq> t" "1 \<le> pl_paths lim"
  shows "\<exists>r. order_graph_paths_for_review g q (Some lim) = Inr r \<and> mset (map rv_path (rr_reviews r)) = mset (pr_paths q)"
proof -
  have g: "valid_graph g" using assms(1) by (simp add: validate_Nil)
  then have de: "distinct (map ge_id (ig_edges g))" by (simp add: valid_graph_def)
  have ends: "a \<in> ids (ig_nodes g) \<and> t \<in> ids (ig_nodes g)"
    using find_paths_returns_iff [of g a t rels "Some lim"] assms(2) by simp
  note ok = find_paths_ok [OF assms(2,4), unfolded paths_ok_def]
  have good: "reviewable g lim a t p" if "p \<in> set (pr_paths q)" for p
    using path_between_any [of g _ a t p] path_between_hops [of g _ a t p] ok that assms(3)
    unfolding reviewable_def by blast
  have "distinct (map (map ge_id) (map gp_edges (pr_paths q)))"
  proof (rule distinct_map [THEN iffD2], intro conjI)
    show "distinct (map gp_edges (pr_paths q))" using ok de distinct_mapI by blast
    have "set es \<subseteq> set (ig_edges g)" if "es \<in> set (map gp_edges (pr_paths q))" for es
      using that ok path_between_edges by fastforce
    then show "inj_on (map ge_id) (set (map gp_edges (pr_paths q)))"
      using de by (intro inj_on_mapI) (auto simp: distinct_map intro: inj_on_subset)
  qed
  then have "review_accepts g lim q"
    using g ends ok good by (simp add: review_accepts_def comp_def)
  then show ?thesis unfolding review_result using review_lists_all [of "pr_paths q"] by (simp del: mset_map)
qed

theorem review_orders_genuine_paths_witness:
  "\<exists>r. order_graph_paths_for_review sample_graph
       \<lparr>pr_start = ''u'', pr_target = ''h'', pr_paths = sample_paths, pr_truncated = False\<rparr> (Some sample_limits) = Inr r
     \<and> mset (map rv_path (rr_reviews r)) = mset sample_paths"
proof -
  let ?q = "\<lparr>pr_start = ''u'', pr_target = ''h'', pr_paths = sample_paths, pr_truncated = False\<rparr>"
  have "is_ok (order_graph_paths_for_review sample_graph ?q (Some sample_limits))" by code_simp
  then obtain r where "order_graph_paths_for_review sample_graph ?q (Some sample_limits) = Inr r" by (auto simp: is_ok_iff)
  with review_orders_genuine_paths [of sample_graph ?q sample_limits] show ?thesis by auto
qed

theorem review_accepts_search_witness:
  "\<exists>r. order_graph_paths_for_review sample_graph
       \<lparr>pr_start = ''u'', pr_target = ''h'', pr_paths = sample_paths, pr_truncated = False\<rparr> (Some sample_limits) = Inr r
     \<and> mset (map rv_path (rr_reviews r)) = mset sample_paths"
proof -
  have "''u'' \<noteq> (''h''::string)" "1 \<le> pl_paths sample_limits" by (simp_all add: sample_limits_def)
  from review_accepts_search [OF sample_valid sample_search this] show ?thesis by simp
qed

end
