(* ===== verification/Spec2Isabelle.thy ===== *)
theory Spec2Isabelle
  imports WorkspaceProps ApprovalProps AuditProps LedgerProps QueueProps CustodyProps
    CompilerProps GraphProps
begin

text \<open>
  NightRecon plans, authorizes, runs and records security assessments.  This development
  models the part of it that decides what may be done and keeps the record of what was
  done: scope checking, the execution policy of an engagement and its stores, the engagement
  evidence and its workspace, the approval workflow, the audit log, the custody of evidence and its
  export, the two SQLite authorities that reserve actions for workers, the graph of identities, assets and
  permissions that an analyst searches for attack paths, and the controller of automated coding tasks with its queue
  of signed objectives.  Scanners, providers and user interfaces call these parts and are not
  modelled.

  \<^bold>\<open>How the parts interact.\<close>  The workspace holds an evidence store, a policy store and an audit
  file.  An action is authorized by evaluating it against the engagement's policy, its status
  and its scope, is then counted against the budget in the policy store, and is recorded in
  the audit file.  A high-impact action needs an approval, which the approval engine collects
  as a hash-linked history of events and turns into a grant bound to one target, capability
  and policy.  Workers that run in other processes reserve actions through the SQLite
  authorities instead of the policy store.  The audit log keeps trails of events in the same
  hash-linked form.  Evidence taken into custody becomes an item of a case, whose history of
  origins, transfers and exports is chained in that form as well; a case is exported only as its
  data-handling policy, which is part of the engagement's definition, allows.  The execution policy
  itself is compiled from that definition.  The attack graph is assembled from evidence by a bounded
  builder, checked for consistency, and then only read: by traversals, by the search for paths and by
  the review that puts found paths in order.  The task controller stands beside them: it reads a pinned policy and a
  task, compares the inventories before and after the work, and lets a run complete only on
  checks bound to the candidate it inspected.  An objective is a task with an approval signed by
  its owner; the queue stores the approval, hands the objective to one worker at a time under a
  lease, and holds every change to the numbers that were signed.

  \<^bold>\<open>Theories and sources\<close> (under \<^verbatim>\<open>src/packages\<close>; \<^verbatim>\<open>shared\<close> is \<^verbatim>\<open>shared-core/nightrecon_shared_core\<close>,
  \<^verbatim>\<open>white\<close> is \<^verbatim>\<open>white-engine/nightrecon_white_engine\<close>, \<^verbatim>\<open>red\<close> is \<^verbatim>\<open>red-engine/nightrecon_red_engine\<close>).
  \<^item> \<open>Prelude\<close>: exceptions as values (\<open>pyexc\<close>), results (\<open>'a res\<close>, \<open>bindE\<close>, \<open>req\<close>, \<open>mapE\<close>) and list facts.
  \<^item> \<open>PyStr\<close>, \<open>PyJson\<close>, \<open>PyTime\<close>, \<open>PyDyn\<close>, \<open>PyIp\<close>: the Python the sources use: strings, JSON
    printing and reading with the round trip, ISO-8601 timestamps, operations on dynamically
    typed values, IP addresses and networks as numbers of 32 and 128 bits.
  \<^item> \<open>Interfaces\<close>: the locales \<open>record_codec\<close> (a class with \<^verbatim>\<open>to_dict\<close> and \<^verbatim>\<open>from_dict\<close>),
    \<open>guarded_machine\<close> and \<open>atomic_machine\<close> (a component with an invariant and an order along
    which every call moves) and \<open>hash_chain\<close>; \<open>StoredRecords\<close>: \<open>stored_records\<close>, records kept by
    identifier in memory and as a list in a file.  Every component theory interprets the ones its
    classes promise, and the properties rest on the facts they give.
  \<^item> \<open>Authorization\<close>: \<^verbatim>\<open>shared/authorization.py\<close> (targets, scope entries, the scope check).
  \<^item> \<open>EngagementPolicy\<close>, \<open>PolicyStore\<close>, \<open>PolicyProps\<close>: \<^verbatim>\<open>shared/engagement_policy.py\<close> (policy values,
    both evaluators, the policy file with its replace-and-retry, consumption, the audit file).
  \<^item> \<open>Contracts\<close>, \<open>EngagementStore\<close>: \<^verbatim>\<open>shared/contracts.py\<close>, \<^verbatim>\<open>shared/store.py\<close>, \<^verbatim>\<open>shared/file_store.py\<close>.
  \<^item> \<open>Workspace\<close>, \<open>WorkspaceProps\<close>: \<^verbatim>\<open>shared/workspace.py\<close>, one definition per method.
  \<^item> \<open>Approval\<close>, \<open>ApprovalFlow\<close>: \<^verbatim>\<open>white/approval_engine.py\<close>, the values and the workflow;
    \<open>ApprovalFacts\<close>, \<open>ApprovalCodec\<close>, \<open>ApprovalSample\<close>, \<open>ApprovalProps\<close> hold what is proved of it.
  \<^item> \<open>AuditLog\<close>, \<open>AuditStore\<close>: \<^verbatim>\<open>white/audit_log.py\<close>; \<open>AuditFacts\<close>, \<open>AuditProps\<close> likewise.
  \<^item> \<open>EngagementDomain\<close>: \<^verbatim>\<open>white/engagement_domain.py\<close> (contacts, scope, data handling, rules of
    engagement, the definition of an engagement, with their JSON forms).
  \<^item> \<open>PolicyCompiler\<close>: \<^verbatim>\<open>white/policy_compiler.py\<close> (the scope less its exclusions, the compiled policy and
    its bundle); \<open>CompilerFacts\<close>, \<open>CompilerProps\<close>.  \<open>PyIpText\<close> and \<open>PyIpExclude\<close> hold what it uses of
    \<^verbatim>\<open>ipaddress\<close>: the text of addresses and networks (Python 3.11), which parses back, and
    \<^verbatim>\<open>address_exclude\<close>, whose pieces are exactly the addresses that are left.
  \<^item> \<open>Custody\<close>, \<open>CustodyCase\<close>, \<open>CustodyStore\<close>: \<^verbatim>\<open>white/evidence_custody.py\<close> (values; cases, their
    operations and exports; the stores); \<open>CustodyFacts\<close>, \<open>CustodyHistory\<close> (what the validating loop
    establishes), \<open>CustodyOps\<close> (what operations give), \<open>CustodyMoves\<close> and \<open>CustodyExport\<close> (exactly
    when they succeed), \<open>CustodyProps\<close>.
  \<^item> \<open>ActionLedger\<close>: \<^verbatim>\<open>red/atomic_action_ledger.py\<close>; \<open>PolicyAuthority\<close>:
    \<^verbatim>\<open>red/transactional_policy_authority.py\<close>; \<open>LedgerProps\<close>.
  \<^item> \<open>GraphModels\<close>: \<^verbatim>\<open>red/graph_models.py\<close>, \<^verbatim>\<open>red/graph_index.py\<close>, \<^verbatim>\<open>red/graph_builder.py\<close>;
    \<open>GraphSearch\<close>: \<^verbatim>\<open>red/graph_traversal.py\<close>, \<^verbatim>\<open>red/graph_path.py\<close>; \<open>GraphEvidence\<close>: \<^verbatim>\<open>red/graph_validation.py\<close>,
    \<^verbatim>\<open>red/graph_critical_asset.py\<close>, \<^verbatim>\<open>red/graph_identity_evidence.py\<close>, \<^verbatim>\<open>red/graph_identity_projection.py\<close>,
    \<^verbatim>\<open>red/graph_query.py\<close>, \<^verbatim>\<open>red/graph_summary.py\<close>; \<open>GraphReview\<close>: \<^verbatim>\<open>red/graph_path_review.py\<close>.
    \<open>GraphFacts\<close> has the locale \<open>successors\<close> (what a traversal asks of the index), \<open>GraphPathFacts\<close> and
    \<open>GraphPathSearch\<close> the locale \<open>expansion\<close> (what the search asks of one round) and its invariant,
    \<open>GraphEvidenceFacts\<close>, \<open>GraphProjection\<close>, \<open>GraphReviewFacts\<close> the builder, the projections and the
    review, \<open>GraphProps\<close> the properties.
  \<^item> \<open>TaskText\<close>, \<open>TaskPolicy\<close>, \<open>TaskRun\<close>, \<open>TaskResult\<close>: \<^verbatim>\<open>src/tools/task_automation/controller.py\<close>
    (validators and paths; policy and tasks; inventories, candidates and runs; the record check);
    \<open>TaskFacts\<close> (the step relation, reachable runs), \<open>TaskCodec\<close>, \<open>TaskRecord\<close>, \<open>TaskProps\<close>.
  \<^item> \<open>Objectives\<close>: \<^verbatim>\<open>src/tools/task_automation/objectives.py\<close>; \<open>ObjectiveQueue\<close>:
    \<^verbatim>\<open>src/tools/task_automation/queue.py\<close>; \<open>QueueFacts\<close> (the invariant), \<open>QueueSteps\<close> (every
    operation keeps it), \<open>QueueProps\<close>.

  \<^bold>\<open>State and operations.\<close>  A dataclass is a record, a validating constructor is a function from
  raw values (\<open>pyval\<close>, what \<^verbatim>\<open>json.loads\<close> gives) to the record or an exception, a dictionary is an
  association list in insertion order.  A method that changes its object takes the state and
  returns the result with the new state, because some methods change memory before they raise.
  A SQLite transaction (\<open>transaction\<close>) restores the tables when its body raises.  The operating
  system's answers (whether the temporary file could be written, what each \<^verbatim>\<open>os.replace\<close> does),
  the clock and SHA-256 are arguments of the definitions; what is needed of the hash is stated
  as injectivity on the texts in use.

  \<^bold>\<open>What is proved.\<close>
  \<^item> Scope and policy: a network in scope covers its addresses; an action is allowed exactly when
    status, revocation, window, capability, ceiling, scope, budget and approval allow it; the
    budget is spent once per consumption and never refunded, and a revocation stays, as long as nobody
    replaces the policy by \<^verbatim>\<open>replace_policy\<close> (which no code under \<^verbatim>\<open>src/packages\<close> calls but the store
    itself); the policy store is atomic and its file reopens; replacing the file retries exactly the
    sharing violations.
  \<^item> Workspace: authorization accounts for exactly one action and one audit record; the life cycle
    moves along its transitions; merging is all or nothing and its report is true.
  \<^item> Approvals: whoever reads a workflow file can rely on distinct approvers and authorities,
    each traced to a directly held role; a grant stands for a full quorum and, until it expires or is
    revoked, is accepted for exactly the use that was requested; histories only grow,
    rejection and revocation are final; an admitted approval is always recorded; fingerprints
    pin histories; the JSON form reads back.
  \<^item> Audit log: what is read is a gapless chain free of secret-like names; stored trails only grow;
    files reopen.
  \<^item> Compilation: the compiled scope is what is allowed and not excluded, address by address; a compiled
    policy allows nothing that the rules of engagement do not.
  \<^item> Custody: a case that is read has one origin for each item and only transfers by the holder;
    operations and stores only extend a case; a transfer and an export succeed exactly under their
    guards, an export holds exactly the items' records, and its text reads back.
  \<^item> Reservations: no budget is exceeded over any sequence of calls; a transactional reservation
    refines evaluating and spending on the policy it stands for, with its own three errors; revocation
    is final in both authorities.
  \<^item> Tasks: a task's scopes stay clear of the protected paths; the verdict on a candidate is exact;
    the transitions are those of a step relation; a completed run is verified; runs end after at
    most seven transitions; their records are accepted and read back, but for paths that differ
    in letter case only and records beyond the size limits.
  \<^item> Attack graph: a traversal visits what is reachable within its limits and says when it left
    something out; the path search finds simple paths only, and all of them unless it says otherwise;
    the consistency check is exact and the projections keep graphs consistent; the built graph does
    not depend on the order of additions; the review accepts exactly genuine queries, among them
    every result of the search.
  \<^item> Objectives: whatever calls are made, a readable objective has a signed approval and stays within
    its numbers; leases fence other workers off; a changed event shows; terminal records stay.
  \<^item> Where the code does not do what it means to do, the theorem states what it does: the two
    file-backed stores without rollback lose a record whose write failed once, although the
    repeated call reports success, and evidence with an observation time outside any time zone
    enters custody but its case can never be exported; cutting an exclusion with an IPv6 zone out of a
    network that starts at a lower address ends compilation with \<^verbatim>\<open>AssertionError\<close>.

  \<^bold>\<open>Bounds and fuel.\<close>  The JSON reader \<open>pval\<close> takes fuel; \<open>loads\<close> gives it more than twice the length
  of the text, and any such fuel gives the same answer (\<open>pval_fuel_irrelevant\<close>).  The retry loop of
  \<^verbatim>\<open>_replace_policy_file\<close> counts its six attempts down.  The loops of the traversal and
  of the path search end by a measure: levels left and expansions left.  Every other definition is
  total by structural recursion.  Integers are unbounded, as in Python, except where SQLite binds them
  (\<open>sql_int\<close>, 64 bits).

  \<^bold>\<open>Not modelled.\<close>  A character is a code point below 256.  A number in JSON that is not an integer
  is kept as its text.  A schema version that equals 1 without being the integer 1 (\<^verbatim>\<open>true\<close>, \<^verbatim>\<open>1.0\<close>)
  is stored as 1.  Derivation parents that are lists of lists raise \<open>TypeError\<close> where Python could
  still sort some of them.  An update of the queue with a value that is not JSON is left out of the call
  sequences, a lease end that is a boolean or not a whole number raises \<open>TypeError\<close> where Python would
  compare it, and the opening of its file with the checks of path and permissions is not modelled.
  Directory creation, permissions, temporary file names and the busy timeout of
  SQLite are not modelled, nor is anything that needs a live network, an operating system
  process or a third-party package.  Of the attack graph, the projections of scanner, vulnerability
  and web results, the correlation over them and the dictionary forms of results are left out.  The
  rest lies outside the core chosen: scanners, providers, importers, web and browser
  automation, command lines, reports and the desktop application.
\<close>

end
